(* ===== verification/Prelude.thy ===== *)
theory Prelude
  imports Main "HOL-Library.List_Lexorder" "HOL-Library.Char_ord" "HOL-Library.Product_Lexorder"
begin

text \<open>
  The vocabulary shared by every component: Python's text values, SQLite tables as lists of
  rows in insertion order, the handful of SQL statements the store uses on them, and the
  generic lemmas about these.

  Text stored by the server is a \<^typ>\<open>string\<close>, the UTF-8 bytes SQLite keeps; its order
  is SQLite's BINARY collation (byte-wise lexicographic, \<^theory_text>\<open>List_Lexorder\<close> over
  \<^theory_text>\<open>Char_ord\<close>), and pairs such as \<open>(created_at, message_id)\<close> compare
  lexicographically (\<^theory_text>\<open>Product_Lexorder\<close>). Text that Python inspects code point
  by code point is a \<open>ustr\<close>.
\<close>

section \<open>Fact collections\<close>

named_theorems tbl \<open>rewrite rules for the table operations\<close>
named_theorems row_simps \<open>row constructors and row updates\<close>

section \<open>Text\<close>

type_synonym ustr = "nat list"

definition cps :: "string \<Rightarrow> ustr" where
  "cps s = map of_char s"

lemma cps_simps [simp]:
  "cps [] = []" "cps (c # s) = of_char c # cps s" "cps (s @ t) = cps s @ cps t"
  by (simp_all add: cps_def)

lemma length_cps [simp]: "length (cps s) = length s"
  by (simp add: cps_def)

definition ascii_lower_char :: "char \<Rightarrow> char" where
  "ascii_lower_char c =
     (let n = (of_char c :: nat) in if 65 \<le> n \<and> n \<le> 90 then char_of (n + 32) else c)"

text \<open>\<open>str.lower()\<close> on ASCII text.\<close>

definition lower :: "string \<Rightarrow> string" where
  "lower s = map ascii_lower_char s"

section \<open>Tables\<close>

text \<open>
  \<open>SELECT ... WHERE P\<close> followed by \<open>fetchone()\<close> is the first row that satisfies \<open>P\<close>;
  \<open>fetchall()\<close> is \<^const>\<open>filter\<close>.
\<close>

definition fetch :: "('r \<Rightarrow> bool) \<Rightarrow> 'r list \<Rightarrow> 'r option" where
  "fetch P t = List.find P t"

definition update_where :: "('r \<Rightarrow> bool) \<Rightarrow> ('r \<Rightarrow> 'r) \<Rightarrow> 'r list \<Rightarrow> 'r list" where
  "update_where P f t = map (\<lambda>r. if P r then f r else r) t"

definition delete_where :: "('r \<Rightarrow> bool) \<Rightarrow> 'r list \<Rightarrow> 'r list" where
  "delete_where P t = filter (\<lambda>r. \<not> P r) t"

definition count_where :: "('r \<Rightarrow> bool) \<Rightarrow> 'r list \<Rightarrow> nat" where
  "count_where P t = length (filter P t)"

definition insert_row :: "'r \<Rightarrow> 'r list \<Rightarrow> 'r list" where
  "insert_row r t = t @ [r]"

text \<open>\<open>INSERT ... ON CONFLICT(key) DO UPDATE\<close>: update the row with the key, or append one.\<close>

definition upsert :: "('r \<Rightarrow> bool) \<Rightarrow> ('r \<Rightarrow> 'r) \<Rightarrow> 'r \<Rightarrow> 'r list \<Rightarrow> 'r list" where
  "upsert P f r t = (if \<exists>x \<in> set t. P x then update_where P f t else t @ [r])"

definition order_asc :: "('r \<Rightarrow> 'k::linorder) \<Rightarrow> 'r list \<Rightarrow> 'r list" where
  "order_asc k t = sort_key k t"

definition order_desc :: "('r \<Rightarrow> 'k::linorder) \<Rightarrow> 'r list \<Rightarrow> 'r list" where
  "order_desc k t = rev (sort_key k t)"

text \<open>\<open>SELECT MAX(col)\<close>: \<open>NULL\<close> on no rows.\<close>

fun max_col :: "'k::linorder list \<Rightarrow> 'k option" where
  "max_col [] = None"
| "max_col (x # xs) = (case max_col xs of None \<Rightarrow> Some x | Some y \<Rightarrow> Some (max x y))"

lemma fetch_SomeD: "fetch P t = Some r \<Longrightarrow> r \<in> set t \<and> P r"
  by (auto simp: fetch_def find_Some_iff)

lemma fetch_None_iff: "fetch P t = None \<longleftrightarrow> (\<forall>r \<in> set t. \<not> P r)"
  by (auto simp: fetch_def find_None_iff)

lemma fetch_append:
  "fetch P (s @ t) = (case fetch P s of None \<Rightarrow> fetch P t | Some r \<Rightarrow> Some r)"
  by (induction s) (auto simp: fetch_def)

lemma fetch_Nil [simp]: "fetch P [] = None"
  by (simp add: fetch_def)

lemma fetch_Cons: "fetch P (x # t) = (if P x then Some x else fetch P t)"
  by (simp add: fetch_def)

lemma fetch_ex: "\<exists>r \<in> set t. P r \<Longrightarrow> \<exists>r. fetch P t = Some r"
  by (meson fetch_None_iff not_None_eq)

lemma set_update_where [tbl]:
  "set (update_where P f t) = (\<lambda>r. if P r then f r else r) ` set t"
  by (simp add: update_where_def)

lemma length_update_where [tbl]: "length (update_where P f t) = length t"
  by (simp add: update_where_def)

lemma map_update_where:
  "(\<And>r. g (f r) = g r) \<Longrightarrow> map g (update_where P f t) = map g t"
  by (simp add: update_where_def)

lemma set_delete_where [tbl]: "set (delete_where P t) = {r \<in> set t. \<not> P r}"
  by (auto simp: delete_where_def)

lemma set_insert_row [tbl]: "set (insert_row r t) = insert r (set t)"
  by (auto simp: insert_row_def)

lemma map_insert_row [tbl]: "map g (insert_row r t) = map g t @ [g r]"
  by (simp add: insert_row_def)

lemma count_where_append [tbl]:
  "count_where P (s @ t) = count_where P s + count_where P t"
  by (simp add: count_where_def)

lemma count_where_insert_row [tbl]:
  "count_where P (insert_row r t) = count_where P t + (if P r then 1 else 0)"
  by (simp add: count_where_def insert_row_def)

lemma count_where_0_iff: "count_where P t = 0 \<longleftrightarrow> (\<forall>r \<in> set t. \<not> P r)"
  by (auto simp: count_where_def filter_empty_conv)

lemma count_where_update_le:
  assumes "\<And>r. r \<in> set t \<Longrightarrow> Q r \<Longrightarrow> P (f r) \<Longrightarrow> P r"
  shows "count_where P (update_where Q f t) \<le> count_where P t"
  using assms by (induction t) (auto simp: count_where_def update_where_def intro: le_SucI)

lemma count_where_update_le_add:
  "count_where P (update_where Q f t) \<le> count_where P t + count_where Q t"
  by (induction t) (auto simp: count_where_def update_where_def)

lemma count_where_key_le_1: "distinct (map k t) \<Longrightarrow> count_where (\<lambda>r. k r = x) t \<le> 1"
proof (induction t)
  case (Cons a t)
  have "k a \<notin> k ` set t" using Cons.prems by auto
  then have "filter (\<lambda>r. k r = k a) t = []" by (simp add: filter_empty_conv) (metis image_eqI)
  with Cons show ?case by (auto simp: count_where_def)
qed (simp add: count_where_def)

lemma fetch_update_where_other:
  assumes "\<And>r. r \<in> set t \<Longrightarrow> P r \<Longrightarrow> \<not> Q r \<and> \<not> Q (f r)"
  shows "fetch Q (update_where P f t) = fetch Q t"
  using assms by (induction t) (auto simp: fetch_def update_where_def)

lemma fetch_update_where_same:
  assumes "\<And>r. r \<in> set t \<Longrightarrow> P (f r) = P r"
  shows "fetch P (update_where P f t) = map_option f (fetch P t)"
  using assms by (induction t) (auto simp: fetch_def update_where_def)

lemma fetch_update_where_key:
  assumes "\<And>r. Q (f r) = Q r"
  shows "fetch Q (update_where P f t) =
    map_option (\<lambda>r. if P r then f r else r) (fetch Q t)"
  using assms by (induction t) (auto simp: fetch_def update_where_def)

lemma filter_update_where_other:
  assumes "\<And>r. r \<in> set t \<Longrightarrow> P r \<Longrightarrow> \<not> Q r \<and> \<not> Q (f r)"
  shows "filter Q (update_where P f t) = filter Q t"
  using assms by (induction t) (auto simp: update_where_def)

lemma update_where_none:
  "(\<And>r. r \<in> set t \<Longrightarrow> \<not> P r) \<Longrightarrow> update_where P f t = t"
  by (induction t) (auto simp: update_where_def)

lemma fetch_insert_row:
  "fetch P (insert_row r t) =
     (case fetch P t of None \<Rightarrow> if P r then Some r else None | Some x \<Rightarrow> Some x)"
  by (simp add: insert_row_def fetch_append fetch_Cons split: option.split)

lemma fetch_upsert:
  assumes "\<And>x. P (f x) = P x" and "P r"
  shows "fetch P (upsert P f r t) =
    Some (case fetch P t of None \<Rightarrow> r | Some x \<Rightarrow> f x)"
proof (cases "\<exists>x \<in> set t. P x")
  case True
  from fetch_ex [OF this] obtain y where y: "fetch P t = Some y" ..
  have "fetch P (update_where P f t) = map_option f (fetch P t)"
    by (rule fetch_update_where_same) (rule assms(1))
  moreover have "upsert P f r t = update_where P f t"
    using True by (simp only: upsert_def if_True)
  ultimately show ?thesis using y by simp
next
  case False
  then have "fetch P t = None" by (simp add: fetch_None_iff)
  moreover have "upsert P f r t = t @ [r]"
    using False by (simp only: upsert_def if_False)
  ultimately show ?thesis using assms(2) by (simp add: fetch_append fetch_Cons)
qed

lemma fetch_upsert_other:
  assumes "\<And>x. P x \<Longrightarrow> \<not> Q x" and "\<And>x. P x \<Longrightarrow> \<not> Q (f x)" and "\<not> Q r"
  shows "fetch Q (upsert P f r t) = fetch Q t"
proof -
  have "fetch Q (update_where P f t) = fetch Q t"
    by (rule fetch_update_where_other) (use assms(1,2) in blast)
  then show ?thesis
    using assms(3) by (simp add: upsert_def fetch_append fetch_Cons split: option.split)
qed

lemma set_upsertD:
  "x \<in> set (upsert P f r t) \<Longrightarrow> x = r \<or> x \<in> set t \<or> (\<exists>y \<in> set t. P y \<and> x = f y)"
  by (auto simp: upsert_def set_update_where split: if_splits)

lemma max_col_None [simp]: "max_col xs = None \<longleftrightarrow> xs = []"
  by (cases xs) (auto split: option.splits)

lemma max_col_upper: "max_col xs = Some m \<Longrightarrow> x \<in> set xs \<Longrightarrow> x \<le> m"
  by (induction xs arbitrary: m) (auto split: option.splits intro: le_max_iff_disj[THEN iffD2])

lemma max_col_in: "max_col xs = Some m \<Longrightarrow> m \<in> set xs"
  by (induction xs arbitrary: m) (auto split: option.splits simp: max_def split: if_splits)

section \<open>Sorted results\<close>

lemma set_order_asc [tbl]: "set (order_asc k t) = set t"
  by (simp add: order_asc_def)

lemma set_order_desc [tbl]: "set (order_desc k t) = set t"
  by (simp add: order_desc_def)

lemma sorted_wrt_order_asc:
  assumes "distinct (map k t)"
  shows "sorted_wrt (\<lambda>a b. k a < k b) (order_asc k t)"
proof -
  have "sorted (map k (order_asc k t))" by (simp add: order_asc_def)
  moreover have "distinct (map k (order_asc k t))"
    using assms by (simp add: order_asc_def distinct_map)
  ultimately have "sorted_wrt (<) (map k (order_asc k t))"
    by (simp add: strict_sorted_iff)
  then show ?thesis by (simp add: sorted_wrt_map)
qed

lemma sorted_wrt_order_desc:
  assumes "distinct (map k t)"
  shows "sorted_wrt (\<lambda>a b. k b < k a) (order_desc k t)"
  using sorted_wrt_order_asc [OF assms]
  by (simp add: order_desc_def order_asc_def sorted_wrt_rev)

lemma distinct_map_filter: "distinct (map k t) \<Longrightarrow> distinct (map k (filter P t))"
  by (rule distinct_map_filter)

lemma order_desc_head:
  assumes "order_desc k t = x # xs"
  shows "x \<in> set t" and "y \<in> set t \<Longrightarrow> k y \<le> k x"
proof -
  have set: "set t = set (x # xs)" by (simp only: assms [symmetric] set_order_desc)
  then show "x \<in> set t" by simp
  have "sorted (map k (rev (order_desc k t)))" by (simp add: order_desc_def)
  then have "sorted (map k (rev (x # xs)))" by (simp only: assms)
  then show "y \<in> set t \<Longrightarrow> k y \<le> k x" using set by (auto simp: sorted_append)
qed

lemma order_desc_Nil [simp]: "order_desc k t = [] \<longleftrightarrow> t = []"
  by (simp add: order_desc_def) (metis set_empty set_sort)

lemma filter_order_asc: "filter P (order_asc k t) = order_asc k (filter P t)"
  by (simp add: order_asc_def filter_sort)

lemma filter_order_desc: "filter P (order_desc k t) = order_desc k (filter P t)"
  by (simp add: order_desc_def filter_sort rev_filter [symmetric])

end
