(* ===== verification/Errors.thy ===== *)
theory Errors
  imports Prelude
begin

text \<open>
  The normalized errors of \<^verbatim>\<open>synapse/errors.py\<close> and the way the model writes Python
  exceptions: a computation that may raise is a sum, \<open>Inl\<close> the exception, \<open>Inr\<close> the value.
  An \<open>ApiError\<close> carries its stable code and its message constant; every other exception a
  modelled line can raise is a constructor of its own (the service turns all of them into
  \<open>INTERNAL_ERROR\<close>).
\<close>

section \<open>Stable codes and message constants\<close>

datatype err_code =
    AUTH_FAILED
  | ACCESS_DENIED
  | INVALID_ARGUMENT
  | UNKNOWN_COMMAND
  | USERNAME_ALREADY_EXISTS
  | USER_NOT_FOUND
  | RECIPIENT_NOT_FOUND
  | MESSAGE_NOT_FOUND
  | CONVERSATION_NOT_FOUND
  | MESSAGE_ALREADY_EXISTS
  | POLICY_DENIED
  | TASK_NOT_FOUND
  | TASK_STATE_INVALID
  | TASK_DEPENDENCY_NOT_MET
  | QUOTA_EXCEEDED
  | GROUP_NOT_FOUND
  | INTERNAL_ERROR

text \<open>The contextual message constants; \<open>Default\<close> is the default message of the code.\<close>

datatype err_msg =
    Default
  | Custom string
  | ACCESS_DENIED_HUMAN_ONLY_ORG
  | ACCESS_DENIED_HUMAN_COMMANDS
  | ACCESS_DENIED_ORG_COMMANDS
  | ACCESS_DENIED_WEB_AND_HUMAN
  | ACCESS_DENIED_WEB_LOCAL_SCOPE
  | ACCESS_DENIED_MANAGER_ROLE
  | ACCESS_DENIED_OBSERVER_READONLY
  | ACCESS_DENIED_OBSERVER_OR_HUMAN
  | ACCESS_DENIED_GROUP_CREATOR
  | ACCESS_DENIED_CAN_SEE_ORG_AGENTS
  | ACCESS_DENIED_HUMAN_NO_DEACTIVATE
  | ACCESS_DENIED_HUMAN_NO_MODIFY
  | ACCESS_DENIED_HUMAN_NO_PASSWORD
  | AUTH_FAILED_TOO_MANY
  | INVALID_ARGUMENT_CONV_NO_RECEIVED
  | INVALID_ARGUMENT_HUMAN_NAME_USED
  | INVALID_ARGUMENT_HUMAN_AUTO
  | INVALID_ARGUMENT_CURSOR
  | INVALID_ARGUMENT_CURSOR_FILTERS
  | INVALID_ARGUMENT_CURSOR_AGENT
  | INVALID_ARGUMENT_CURSOR_COMMAND
  | INVALID_ARGUMENT_CURSOR_SORT
  | INVALID_ARGUMENT_ORG_NAME_USED
  | INVALID_ARGUMENT_APPROVER_SAME
  | INVALID_ARGUMENT_ORG_DEACTIVATED
  | INVALID_ARGUMENT_RECIPIENT_SAME
  | INVALID_ARGUMENT_DEPT_EXISTS
  | INVALID_ARGUMENT_HUMAN_NAME_RESERVED
  | INVALID_ARGUMENT_UNKNOWN_ORG
  | INVALID_ARGUMENT_CLIENT_TASK_ID_USED
  | INVALID_ARGUMENT_EXPIRES_FUTURE
  | INVALID_ARGUMENT_OTHER_USERNAME_SAME
  | MESSAGE_ALREADY_EXISTS_CLIENT_ID
  | QUOTA_EXCEEDED_TASK_BUDGET
  | QUOTA_EXCEEDED_MESSAGE_BUDGET
  | QUOTA_EXCEEDED_DEPTH
  | RECIPIENT_NOT_FOUND_ACTIVE
  | TASK_STATE_INVALID_COMPLETED_TRANSFER
  | USER_NOT_FOUND_DEPT_UNKNOWN
  | USER_NOT_FOUND_NO_CARD

primrec default_message :: "err_code \<Rightarrow> string" where
  "default_message AUTH_FAILED = ''Invalid credentials''"
| "default_message ACCESS_DENIED = ''Access denied''"
| "default_message INVALID_ARGUMENT = ''Invalid argument''"
| "default_message UNKNOWN_COMMAND = ''Unknown command''"
| "default_message USERNAME_ALREADY_EXISTS = ''This username already exists''"
| "default_message USER_NOT_FOUND = ''User not found''"
| "default_message RECIPIENT_NOT_FOUND = ''Recipient not found''"
| "default_message MESSAGE_NOT_FOUND = ''Message not found''"
| "default_message CONVERSATION_NOT_FOUND = ''Conversation not found''"
| "default_message MESSAGE_ALREADY_EXISTS = ''This message already exists with different characteristics''"
| "default_message POLICY_DENIED = ''External communication denied by the organization policy''"
| "default_message TASK_NOT_FOUND = ''Task not found''"
| "default_message TASK_STATE_INVALID = ''Invalid task state transition''"
| "default_message TASK_DEPENDENCY_NOT_MET = ''The task dependencies are not all completed''"
| "default_message QUOTA_EXCEEDED = ''Quota exceeded''"
| "default_message GROUP_NOT_FOUND = ''Group not found''"
| "default_message INTERNAL_ERROR = ''Internal service error''"

primrec message_text :: "err_code \<Rightarrow> err_msg \<Rightarrow> string" where
  "message_text c Default = default_message c"
| "message_text c (Custom s) = s"
| "message_text c ACCESS_DENIED_HUMAN_ONLY_ORG = ''A human only manages their own organization''"
| "message_text c ACCESS_DENIED_HUMAN_COMMANDS = ''Command reserved for human accounts''"
| "message_text c ACCESS_DENIED_ORG_COMMANDS = ''Command reserved for organizations''"
| "message_text c ACCESS_DENIED_WEB_AND_HUMAN = ''Command reserved for the web interface and human accounts''"
| "message_text c ACCESS_DENIED_WEB_LOCAL_SCOPE = ''Local web identity reserved for list_orgs and create_org''"
| "message_text c ACCESS_DENIED_MANAGER_ROLE = ''Manager role required for this department''"
| "message_text c ACCESS_DENIED_OBSERVER_READONLY = ''Observer account is read-only''"
| "message_text c ACCESS_DENIED_OBSERVER_OR_HUMAN = ''Observer or human account required''"
| "message_text c ACCESS_DENIED_GROUP_CREATOR = ''Only the group creator removes a member''"
| "message_text c ACCESS_DENIED_CAN_SEE_ORG_AGENTS = ''Permission can_see_org_agents required''"
| "message_text c ACCESS_DENIED_HUMAN_NO_DEACTIVATE = ''The human account cannot be deactivated''"
| "message_text c ACCESS_DENIED_HUMAN_NO_MODIFY = ''The human account cannot be modified''"
| "message_text c ACCESS_DENIED_HUMAN_NO_PASSWORD = ''The human account has no password of its own''"
| "message_text c AUTH_FAILED_TOO_MANY = ''Too many failed attempts, try again later''"
| "message_text c INVALID_ARGUMENT_CONV_NO_RECEIVED = ''Conversation not found or without a received message''"
| "message_text c INVALID_ARGUMENT_HUMAN_NAME_USED = ''Human account name already used''"
| "message_text c INVALID_ARGUMENT_HUMAN_AUTO = ''Human accounts are created automatically''"
| "message_text c INVALID_ARGUMENT_CURSOR = ''Invalid cursor''"
| "message_text c INVALID_ARGUMENT_CURSOR_FILTERS = ''Invalid cursor for these filters''"
| "message_text c INVALID_ARGUMENT_CURSOR_AGENT = ''Invalid cursor for this agent''"
| "message_text c INVALID_ARGUMENT_CURSOR_COMMAND = ''Invalid cursor for this command''"
| "message_text c INVALID_ARGUMENT_CURSOR_SORT = ''Invalid cursor for this sort''"
| "message_text c INVALID_ARGUMENT_ORG_NAME_USED = ''Organization name already used''"
| "message_text c INVALID_ARGUMENT_APPROVER_SAME = ''The approver must be different from the requester''"
| "message_text c INVALID_ARGUMENT_ORG_DEACTIVATED = ''The organization is already deactivated''"
| "message_text c INVALID_ARGUMENT_RECIPIENT_SAME = ''The recipient must be different from the sender''"
| "message_text c INVALID_ARGUMENT_DEPT_EXISTS = ''This department already exists''"
| "message_text c INVALID_ARGUMENT_HUMAN_NAME_RESERVED = ''This name is reserved for the organization'' @ [CHR 0x27] @ ''s human account''"
| "message_text c INVALID_ARGUMENT_UNKNOWN_ORG = ''Unknown organization''"
| "message_text c INVALID_ARGUMENT_CLIENT_TASK_ID_USED = ''client_task_id already used for another task''"
| "message_text c INVALID_ARGUMENT_EXPIRES_FUTURE = ''expires_at must be in the future''"
| "message_text c INVALID_ARGUMENT_OTHER_USERNAME_SAME = ''other_username must be different from the authenticated agent''"
| "message_text c MESSAGE_ALREADY_EXISTS_CLIENT_ID = ''client_message_id already used with a different recipient or content''"
| "message_text c QUOTA_EXCEEDED_TASK_BUDGET = ''Active task budget exceeded''"
| "message_text c QUOTA_EXCEEDED_MESSAGE_BUDGET = ''Hourly message budget exceeded''"
| "message_text c QUOTA_EXCEEDED_DEPTH = ''Maximum dependency depth exceeded''"
| "message_text c RECIPIENT_NOT_FOUND_ACTIVE = ''The account must be active''"
| "message_text c TASK_STATE_INVALID_COMPLETED_TRANSFER = ''A completed task cannot be transferred''"
| "message_text c USER_NOT_FOUND_DEPT_UNKNOWN = ''Department unknown in this organization''"
| "message_text c USER_NOT_FOUND_NO_CARD = ''This agent has no card to validate''"

section \<open>Exceptions as values\<close>

datatype exc =
    ApiError err_code err_msg
  | ValueError
  | IntegrityError
  | AssertionError
  | IndexError
  | KeyError
  | TypeError

text \<open>Sequencing of computations that may raise, and the two usual guards.\<close>

definition andthen :: "'e + 'a \<Rightarrow> ('a \<Rightarrow> 'e + 'b) \<Rightarrow> 'e + 'b" where
  "andthen m f = (case m of Inl e \<Rightarrow> Inl e | Inr x \<Rightarrow> f x)"

definition require :: "bool \<Rightarrow> 'e \<Rightarrow> 'e + unit" where
  "require b e = (if b then Inr () else Inl e)"

definition some_or :: "'e \<Rightarrow> 'a option \<Rightarrow> 'e + 'a" where
  "some_or e x = (case x of None \<Rightarrow> Inl e | Some y \<Rightarrow> Inr y)"

named_theorems exc_simps \<open>when a sequence of guarded steps returns, and what it returns\<close>

lemma andthen_simps [simp]: "andthen (Inl e) f = Inl e" "andthen (Inr x) f = f x"
  by (simp_all add: andthen_def)

lemma andthen_Inr [exc_simps]:
  "andthen m f = Inr y \<longleftrightarrow> (\<exists>x. m = Inr x \<and> f x = Inr y)"
  by (cases m) auto

lemma andthen_Inl [exc_simps]:
  "andthen m f = Inl e \<longleftrightarrow> m = Inl e \<or> (\<exists>x. m = Inr x \<and> f x = Inl e)"
  by (cases m) auto

lemma require_simps [simp]: "require True e = Inr ()" "require False e = Inl e"
  by (simp_all add: require_def)

lemma require_Inr [exc_simps]: "require b e = Inr u \<longleftrightarrow> b"
  by (simp add: require_def)

lemma require_Inl [exc_simps]: "require b e = Inl e' \<longleftrightarrow> \<not> b \<and> e' = e"
  by (auto simp: require_def)

lemma some_or_simps [simp]: "some_or e None = Inl e" "some_or e (Some x) = Inr x"
  by (simp_all add: some_or_def)

lemma some_or_Inr [exc_simps]: "some_or e x = Inr y \<longleftrightarrow> x = Some y"
  by (cases x) auto

lemma some_or_Inl [exc_simps]: "some_or e x = Inl e' \<longleftrightarrow> x = None \<and> e' = e"
  by (cases x) auto

text \<open>The code the reply carries: every exception but an \<open>ApiError\<close> becomes \<open>INTERNAL_ERROR\<close>.\<close>

fun reply_code :: "exc \<Rightarrow> err_code" where
  "reply_code (ApiError c m) = c"
| "reply_code _ = INTERNAL_ERROR"

definition error_code :: "exc + 'a \<Rightarrow> err_code option" where
  "error_code r = (case r of Inl err \<Rightarrow> Some (reply_code err) | Inr _ \<Rightarrow> None)"

lemma error_code_simps [simp]:
  "error_code (Inl err) = Some (reply_code err)" "error_code (Inr x) = None"
  by (simp_all add: error_code_def)

lemma error_code_None: "error_code r = None \<longleftrightarrow> (\<exists>x. r = Inr x)"
  by (cases r) simp_all

text \<open>A list comprehension whose element expression may raise.\<close>

fun map_exc :: "('a \<Rightarrow> 'e + 'b) \<Rightarrow> 'a list \<Rightarrow> 'e + 'b list" where
  "map_exc f [] = Inr []"
| "map_exc f (x # xs) = andthen (f x) (\<lambda>y. andthen (map_exc f xs) (\<lambda>ys. Inr (y # ys)))"

lemma map_exc_Inr:
  "map_exc f xs = Inr ys \<Longrightarrow>
     length ys = length xs \<and> (\<forall>i < length xs. f (xs ! i) = Inr (ys ! i))"
proof (induction xs arbitrary: ys)
  case (Cons x xs)
  then show ?case by (auto simp: exc_simps nth_Cons split: nat.split)
qed simp

lemma map_exc_total:
  assumes "\<And>x. x \<in> set xs \<Longrightarrow> f x = Inr (g x)"
  shows "map_exc f xs = Inr (map g xs)"
  using assms by (induction xs) auto

end
