(* ===== verification/Hlc.thy ===== *)
theory Hlc
  imports Errors
begin

text \<open>
  The hybrid logical clock of \<^verbatim>\<open>synapse/hlc.py\<close>: a pair \<open>(l, c)\<close> of physical
  milliseconds and a logical counter, its fixed-width text form, and the local-event and merge
  rules. The lock of the class makes each operation atomic, so an operation is a function of
  the clock state. Integers are Python's, hence unbounded; the width of the text form is checked
  by \<open>encode\<close>, after the state has been updated, as in the code.
\<close>

section \<open>Text form\<close>

definition MAX_L :: int where "MAX_L = 10 ^ 13 - 1"

definition MAX_C :: int where "MAX_C = 10 ^ 6 - 1"

definition digit :: "nat \<Rightarrow> char" where
  "digit d = char_of (48 + d)"

text \<open>\<open>f"{n:0wd}"\<close> for \<open>0 \<le> n < 10 ^ w\<close>.\<close>

fun dec_w :: "nat \<Rightarrow> nat \<Rightarrow> string" where
  "dec_w 0 n = []"
| "dec_w (Suc w) n = dec_w w (n div 10) @ [digit (n mod 10)]"

definition encode :: "int \<Rightarrow> int \<Rightarrow> exc + string" where
  "encode l c =
     (if \<not> (0 \<le> l \<and> l \<le> MAX_L) then Inl ValueError
      else if \<not> (0 \<le> c \<and> c \<le> MAX_C) then Inl ValueError
      else Inr (dec_w 13 (nat l) @ ''.'' @ dec_w 6 (nat c)))"

text \<open>
  In a Python \<open>str\<close> pattern \<open>\d\<close> matches every decimal digit of Unicode (category Nd), and
  \<open>int()\<close> reads them all: sixty-six blocks of ten, listed by their zeros (Unicode 14, the
  table of Python 3.11).
\<close>

definition nd_zeros :: "nat list" where
  "nd_zeros = [48, 1632, 1776, 1984, 2406, 2534, 2662, 2790, 2918, 3046, 3174, 3302, 3430,
     3558, 3664, 3792, 3872, 4160, 4240, 6112, 6160, 6470, 6608, 6784, 6800, 6992, 7088, 7232,
     7248, 42528, 43216, 43264, 43472, 43504, 43600, 44016, 65296, 66720, 68912, 69734, 69872,
     69942, 70096, 70384, 70736, 70864, 71248, 71360, 71472, 71904, 72016, 72784, 73040, 73120,
     92768, 92864, 93008, 120782, 120792, 120802, 120812, 120822, 123200, 123632, 125264,
     130032]"

definition decimal :: "nat \<Rightarrow> nat option" where
  "decimal cp = map_option (\<lambda>z. cp - z) (fetch (\<lambda>z. z \<le> cp \<and> cp < z + 10) nd_zeros)"

definition is_digit :: "nat \<Rightarrow> bool" where
  "is_digit cp = (decimal cp \<noteq> None)"

definition is_valid :: "ustr \<Rightarrow> bool" where
  "is_valid s = (length s = 20 \<and> (\<forall>x \<in> set (take 13 s). is_digit x) \<and> s ! 13 = 46
     \<and> (\<forall>x \<in> set (drop 14 s). is_digit x))"

text \<open>\<open>int(s)\<close> on a string of digits.\<close>

definition py_int :: "ustr \<Rightarrow> nat" where
  "py_int s = foldl (\<lambda>a x. 10 * a + (case decimal x of None \<Rightarrow> 0 | Some d \<Rightarrow> d)) 0 s"

definition decode :: "ustr \<Rightarrow> exc + (int \<times> int)" where
  "decode s =
     (if \<not> is_valid s then Inl ValueError
      else Inr (int (py_int (takeWhile (\<lambda>x. x \<noteq> 46) s)),
                int (py_int (tl (dropWhile (\<lambda>x. x \<noteq> 46) s)))))"

section \<open>The clock\<close>

datatype hlc = HLC (hl: int) (hc: int)

text \<open>Causal order: lexicographic on \<open>(l, c)\<close>.\<close>

instantiation hlc :: linorder
begin

definition less_hlc :: "hlc \<Rightarrow> hlc \<Rightarrow> bool" where
  "less_hlc a b = (hl a < hl b \<or> (hl a = hl b \<and> hc a < hc b))"

definition less_eq_hlc :: "hlc \<Rightarrow> hlc \<Rightarrow> bool" where
  "less_eq_hlc a b = (hl a < hl b \<or> (hl a = hl b \<and> hc a \<le> hc b))"

instance
  by standard (auto simp: less_hlc_def less_eq_hlc_def intro: hlc.expand)

end

text \<open>\<open>HLC.__init__\<close>: rehydration from the persisted upper bound, or zero.\<close>

definition hlc_init :: "ustr option \<Rightarrow> exc + hlc" where
  "hlc_init initial =
     (case initial of
        None \<Rightarrow> Inr (HLC 0 0)
      | Some s \<Rightarrow> if \<not> is_valid s then Inl ValueError
                  else andthen (decode s) (\<lambda>(l, c). Inr (HLC l c)))"

definition stamp :: "int \<Rightarrow> hlc \<Rightarrow> (exc + string) \<times> hlc" where
  "stamp pt k =
     (let l = (if hl k > pt then hl k else pt);
          c = (if l = hl k then hc k + 1 else 0)
      in (encode l c, HLC l c))"

definition observe :: "ustr \<Rightarrow> hlc \<Rightarrow> (exc + unit) \<times> hlc" where
  "observe remote k =
     (if \<not> is_valid remote then (Inl ValueError, k)
      else case decode remote of
        Inl e \<Rightarrow> (Inl e, k)
      | Inr (l_r, c_r) \<Rightarrow>
          (let l = (if hl k > l_r then hl k else l_r);
               c = (if hl k = l_r \<and> l_r = l then (if hc k > c_r then hc k else c_r) + 1
                    else if hl k = l then hc k + 1
                    else if l_r = l then c_r + 1
                    else 0)
           in (Inr (), HLC l c)))"

definition peek :: "hlc \<Rightarrow> exc + string" where
  "peek k = encode (hl k) (hc k)"

section \<open>Fixed-width decimals\<close>

lemma length_dec_w [simp]: "length (dec_w w n) = w"
  by (induction w arbitrary: n) auto

lemma of_char_digit: "d < 10 \<Longrightarrow> (of_char (digit d) :: nat) = 48 + d"
  by (simp add: digit_def)

lemma digit_less_iff: "a < 10 \<Longrightarrow> b < 10 \<Longrightarrow> digit a < digit b \<longleftrightarrow> a < b"
  by (simp add: less_char_def of_char_digit)

lemma digit_eq_iff: "a < 10 \<Longrightarrow> b < 10 \<Longrightarrow> digit a = digit b \<longleftrightarrow> a = b"
  by (metis add_left_cancel of_char_digit)

lemma decimal_ascii: "d < 10 \<Longrightarrow> decimal (48 + d) = Some d"
  by (simp add: decimal_def nd_zeros_def fetch_Cons)

lemma less_append_same_length:
  fixes xs ys :: "'a::linorder list"
  assumes "length xs = length ys"
  shows "xs @ us < ys @ vs \<longleftrightarrow> xs < ys \<or> (xs = ys \<and> us < vs)"
  using assms by (induction xs ys rule: list_induct2) auto

lemma dec_w_eq_iff:
  assumes "m < 10 ^ w" and "n < 10 ^ w"
  shows "dec_w w m = dec_w w n \<longleftrightarrow> m = n"
  using assms
proof (induction w arbitrary: m n)
  case 0
  then show ?case by simp
next
  case (Suc w)
  then have "m div 10 < 10 ^ w" and "n div 10 < 10 ^ w" by auto
  then have "dec_w w (m div 10) = dec_w w (n div 10) \<longleftrightarrow> m div 10 = n div 10"
    by (rule Suc.IH)
  then show ?case
    by (auto simp: digit_eq_iff) (metis div_mult_mod_eq)
qed

lemma ten_less_iff:
  "(r :: nat) < 10 \<Longrightarrow> r' < 10 \<Longrightarrow>
     10 * q + r < 10 * q' + r' \<longleftrightarrow> q < q' \<or> (q = q' \<and> r < r')"
  by arith

lemma div_mod_less_iff:
  "(m :: nat) < n \<longleftrightarrow> m div 10 < n div 10 \<or> (m div 10 = n div 10 \<and> m mod 10 < n mod 10)"
  using ten_less_iff [of "m mod 10" "n mod 10" "m div 10" "n div 10"] by simp

lemma dec_w_less_iff:
  assumes "m < 10 ^ w" and "n < 10 ^ w"
  shows "dec_w w m < dec_w w n \<longleftrightarrow> m < n"
  using assms
proof (induction w arbitrary: m n)
  case 0
  then show ?case by simp
next
  case (Suc w)
  then have d: "m div 10 < 10 ^ w" "n div 10 < 10 ^ w" by auto
  then have "dec_w w (m div 10) < dec_w w (n div 10) \<longleftrightarrow> m div 10 < n div 10"
    by (rule Suc.IH)
  with d show ?case
    by (simp add: less_append_same_length digit_less_iff dec_w_eq_iff div_mod_less_iff [of m n])
qed

lemma py_int_snoc: "py_int (s @ [x]) = 10 * py_int s + (case decimal x of None \<Rightarrow> 0 | Some d \<Rightarrow> d)"
  by (simp add: py_int_def)

lemma of_char_digit_mod [simp]: "(of_char (digit (n mod 10)) :: nat) = 48 + n mod 10"
  by (simp add: of_char_digit)

lemma decimal_digit_mod [simp]: "decimal (48 + n mod 10) = Some (n mod 10)"
  by (simp add: decimal_ascii)

lemma py_int_dec_w: "n < 10 ^ w \<Longrightarrow> py_int (cps (dec_w w n)) = n"
proof (induction w arbitrary: n)
  case 0
  then show ?case by (simp add: py_int_def)
next
  case (Suc w)
  then have "n div 10 < 10 ^ w" by auto
  then show ?case
    using Suc.IH [of "n div 10"] by (simp add: py_int_snoc)
qed

lemma dec_w_digits: "x \<in> set (cps (dec_w w n)) \<Longrightarrow> \<exists>d<10. x = 48 + d"
proof (induction w arbitrary: n)
  case (Suc w)
  from Suc.prems consider "x \<in> set (cps (dec_w w (n div 10)))" | "x = 48 + n mod 10"
    by auto
  then show ?case
  proof cases
    case 1
    then show ?thesis by (rule Suc.IH)
  next
    case 2
    then show ?thesis by (intro exI [of _ "n mod 10"]) simp
  qed
qed simp

lemma dec_w_is_digit: "x \<in> set (cps (dec_w w n)) \<Longrightarrow> is_digit x"
  using dec_w_digits decimal_ascii by (fastforce simp: is_digit_def)

lemma dec_w_no_dot: "x \<in> set (cps (dec_w w n)) \<Longrightarrow> x \<noteq> 46"
  using dec_w_digits by fastforce

section \<open>The text form is faithful to the pair\<close>

lemma encode_Inr_iff:
  "encode l c = Inr s \<longleftrightarrow>
     0 \<le> l \<and> l \<le> MAX_L \<and> 0 \<le> c \<and> c \<le> MAX_C
     \<and> s = dec_w 13 (nat l) @ ''.'' @ dec_w 6 (nat c)"
  by (auto simp: encode_def)

lemma encode_bounds:
  assumes "encode l c = Inr s"
  shows "nat l < 10 ^ 13" and "nat c < 10 ^ 6"
  using assms by (simp_all add: encode_Inr_iff MAX_L_def MAX_C_def nat_less_iff)

lemma encode_is_valid: "encode l c = Inr s \<Longrightarrow> is_valid (cps s)"
  by (auto simp: encode_Inr_iff is_valid_def nth_append dec_w_is_digit)

lemma takeWhile_dec_w: "takeWhile (\<lambda>x. x \<noteq> 46) (cps (dec_w w n) @ 46 # t) = cps (dec_w w n)"
  by (simp add: dec_w_no_dot)

lemma dropWhile_dec_w: "dropWhile (\<lambda>x. x \<noteq> 46) (cps (dec_w w n) @ 46 # t) = 46 # t"
  by (simp add: dec_w_no_dot)

lemma decode_encode: "encode l c = Inr s \<Longrightarrow> decode (cps s) = Inr (l, c)"
  using encode_is_valid [of l c s] encode_bounds [of l c s]
  by (auto simp: encode_Inr_iff decode_def takeWhile_dec_w dropWhile_dec_w py_int_dec_w
      simp del: dec_w.simps)

lemma encode_less_iff:
  assumes "encode l c = Inr s" and "encode l' c' = Inr s'"
  shows "s < s' \<longleftrightarrow> HLC l c < HLC l' c'"
proof -
  note b = encode_bounds [OF assms(1)] encode_bounds [OF assms(2)]
  have "s < s' \<longleftrightarrow> nat l < nat l' \<or> (nat l = nat l' \<and> nat c < nat c')"
    using assms b
    by (simp add: encode_Inr_iff less_append_same_length dec_w_less_iff dec_w_eq_iff
        del: dec_w.simps)
  then show ?thesis
    using assms by (auto simp: encode_Inr_iff less_hlc_def)
qed

section \<open>The update rules\<close>

lemma stamp_result:
  "stamp pt k = (r, k') \<Longrightarrow> r = encode (hl k') (hc k') \<and> k < k' \<and> pt \<le> hl k'"
  by (auto simp: stamp_def Let_def less_hlc_def)

lemma stamp_keeps_nonneg: "0 \<le> hl k \<Longrightarrow> 0 \<le> hc k \<Longrightarrow> 0 \<le> hc (snd (stamp pt k))"
  by (auto simp: stamp_def Let_def)

lemma stamp_bound: "hl (snd (stamp pt k)) = max (hl k) pt"
  by (simp add: stamp_def Let_def max_def)

lemma observe_result:
  assumes "decode remote = Inr (l_r, c_r)" and "observe remote k = (r, k')"
  shows "r = Inr () \<and> k < k' \<and> HLC l_r c_r < k' \<and> hl k' = max (hl k) l_r"
  using assms
  by (auto simp: observe_def decode_def less_hlc_def Let_def max_def split: if_splits)

lemma observe_Inl: "observe remote k = (Inl e, k') \<Longrightarrow> k' = k"
  by (auto simp: observe_def split: if_splits sum.splits prod.splits)

lemma observe_mono: "observe remote k = (r, k') \<Longrightarrow> k \<le> k'"
  by (auto simp: observe_def less_eq_hlc_def Let_def split: if_splits sum.splits prod.splits)

end
