(* ===== verification/Schema.thy ===== *)
theory Schema
  imports Hlc
begin

text \<open>
  The storage schema of \<^verbatim>\<open>synapse/db.py\<close>: one record per table (its columns, with the
  \<open>CHECK\<close> enumerations as datatypes and nullable columns as options), the database as a record
  of tables, and the persisted causal upper bound. A table is the list of its rows in insertion
  order. The \<open>AUTOINCREMENT\<close> tables carry the sequence value SQLite keeps, the largest id ever
  given, so that a deleted id is never given again.
\<close>

section \<open>Rows\<close>

record organization_row =
  org_name :: string
  org_password_hash :: string
  org_incoming :: bool
  org_outgoing :: bool
  org_created_at :: string
  org_enabled :: bool

datatype account_status = Active | Disabled

datatype principal_type = Agent | Human

record account_row =
  acc_username :: string
  acc_password_hash :: string
  acc_status :: account_status
  acc_description :: string
  acc_org :: string
  acc_can_see :: bool
  acc_created_at :: string
  acc_principal :: principal_type
  acc_observer :: bool

record conversation_row =
  conv_id :: string
  conv_key :: string
  conv_created_at :: string

record message_row =
  msg_id :: string
  msg_conv :: string
  msg_client_id :: string
  msg_sender :: string
  msg_recipient :: string
  msg_content :: string
  msg_reference :: "string option"
  msg_created_at :: string
  msg_read_at :: "string option"

record reply_state_row =
  rs_conv :: string
  rs_username :: string
  rs_message_id :: "string option"
  rs_marked_at :: "string option"

record auth_failure_row =
  af_username :: string
  af_attempted_at :: string

datatype card_state = Pending | Approved

record card_row =
  card_username :: string
  card_capabilities :: "string list"
  card_domain :: "string option"
  card_model :: "string option"
  card_tools :: "string list"
  card_sla :: "string option"
  card_limits :: "string option"
  card_cost :: "string option"
  card_state :: card_state
  card_approved_by :: "string option"
  card_approved_at :: "string option"
  card_updated_at :: string

datatype task_state =
  Submitted | InProgress | Completed | Failed | Canceled | PendingApproval

datatype priority = Low | Normal | High

record task_row =
  task_id :: string
  task_client_id :: "string option"
  task_title :: string
  task_description :: "string option"
  task_creator :: string
  task_assignee :: string
  task_state :: task_state
  task_priority :: priority
  task_due_at :: "string option"
  task_reference :: "string option"
  task_result :: "string option"
  task_approver :: "string option"
  task_created_at :: string
  task_updated_at :: string

record dependency_row =
  dep_task :: string
  dep_on :: string

record task_event_row =
  te_id :: nat
  te_task :: string
  te_event :: string
  te_by :: string
  te_note :: "string option"
  te_at :: string
  te_hlc :: "string option"

datatype event_type =
    TaskCreated | TaskStateChanged | TaskTransferred | TaskApprovalRequested
  | TaskApproved | TaskRejected | TaskEscalated

record event_row =
  ev_seq :: nat
  ev_principal :: string
  ev_type :: event_type
  ev_ref :: "string option"
  ev_by :: "string option"
  ev_at :: string
  ev_hlc :: "string option"
  ev_prev :: "nat option"

record settings_row =
  set_org :: string
  set_retention :: int

record policy_row =
  pol_org :: string
  pol_enabled :: bool
  pol_due_after :: int
  pol_failed_after :: int
  pol_escalate_to :: string

record budget_row =
  bud_username :: string
  bud_tasks :: "int option"
  bud_messages :: "int option"

record audit_row =
  au_id :: nat
  au_org :: string
  au_at :: string
  au_actor :: string
  au_command :: string
  au_target_type :: "string option"
  au_target :: "string option"
  au_outcome :: string
  au_hlc :: "string option"

record department_row =
  dpt_org :: string
  dpt_name :: string
  dpt_created_at :: string

datatype role = Manager | Employee | Rh

record membership_row =
  mem_username :: string
  mem_org :: string
  mem_department :: string
  mem_role :: role
  mem_created_at :: string

record group_row =
  grp_id :: string
  grp_name :: string
  grp_created_by :: string
  grp_created_at :: string

record group_member_row =
  gm_group :: string
  gm_username :: string
  gm_added_by :: string
  gm_added_at :: string

record group_message_row =
  gmsg_id :: string
  gmsg_group :: string
  gmsg_client_id :: "string option"
  gmsg_sender :: string
  gmsg_content :: string
  gmsg_created_at :: string

record delegation_row =
  del_id :: nat
  del_delegator :: string
  del_delegatee :: string
  del_task :: string
  del_expires_at :: string
  del_created_at :: string

section \<open>The database\<close>

record database =
  organizations :: "organization_row list"
  accounts :: "account_row list"
  conversations :: "conversation_row list"
  messages :: "message_row list"
  reply_states :: "reply_state_row list"
  auth_failures :: "auth_failure_row list"
  agent_cards :: "card_row list"
  tasks :: "task_row list"
  dependencies :: "dependency_row list"
  task_events :: "task_event_row list"
  events :: "event_row list"
  org_settings :: "settings_row list"
  policies :: "policy_row list"
  budgets :: "budget_row list"
  audit_log :: "audit_row list"
  departments :: "department_row list"
  memberships :: "membership_row list"
  groups :: "group_row list"
  group_members :: "group_member_row list"
  group_messages :: "group_message_row list"
  delegations :: "delegation_row list"
  task_events_seq :: nat
  events_seq :: nat
  audit_seq :: nat
  delegations_seq :: nat

text \<open>The database right after \<open>ensure_storage\<close> created it.\<close>

definition empty_db :: database where
  "empty_db = \<lparr>organizations = [], accounts = [], conversations = [], messages = [],
     reply_states = [], auth_failures = [], agent_cards = [], tasks = [], dependencies = [],
     task_events = [], events = [], org_settings = [], policies = [], budgets = [],
     audit_log = [], departments = [], memberships = [], groups = [], group_members = [],
     group_messages = [], delegations = [], task_events_seq = 0, events_seq = 0,
     audit_seq = 0, delegations_seq = 0\<rparr>"

lemma empty_db_tables [simp]:
  "organizations empty_db = []"
  "accounts empty_db = []"
  "conversations empty_db = []"
  "messages empty_db = []"
  "reply_states empty_db = []"
  "auth_failures empty_db = []"
  "agent_cards empty_db = []"
  "tasks empty_db = []"
  "dependencies empty_db = []"
  "task_events empty_db = []"
  "events empty_db = []"
  "org_settings empty_db = []"
  "policies empty_db = []"
  "budgets empty_db = []"
  "audit_log empty_db = []"
  "departments empty_db = []"
  "memberships empty_db = []"
  "groups empty_db = []"
  "group_members empty_db = []"
  "group_messages empty_db = []"
  "delegations empty_db = []"
  "task_events_seq empty_db = 0"
  "events_seq empty_db = 0"
  "audit_seq empty_db = 0"
  "delegations_seq empty_db = 0"
  by (simp_all add: empty_db_def)

section \<open>The persisted causal upper bound\<close>

text \<open>\<open>SELECT MAX(hlc)\<close> over the three stamped tables; \<open>NULL\<close>s do not count.\<close>

definition hlc_column :: "database \<Rightarrow> string list" where
  "hlc_column d = List.map_filter ev_hlc (events d) @ List.map_filter te_hlc (task_events d)
     @ List.map_filter au_hlc (audit_log d)"

definition max_hlc :: "database \<Rightarrow> string option" where
  "max_hlc d = max_col (hlc_column d)"

section \<open>Migration: the causal backfill\<close>

text \<open>
  \<open>_migrate_hlc\<close> gives the rows of one table that have no stamp one, in the order
  \<open>(at, id)\<close>: the milliseconds of \<open>at\<close>, or one more than the previous row's. A row of the
  worklist is \<open>(at_ms, id, stamp)\<close> with the stamp still missing; \<open>l_prev\<close> and \<open>c_same_l\<close> are
  the loop's variables.
\<close>

fun backfill_loop ::
    "int \<Rightarrow> int \<Rightarrow> (int \<times> nat) list \<Rightarrow> exc + (nat \<times> string) list" where
  "backfill_loop l_prev c_same [] = Inr []"
| "backfill_loop l_prev c_same ((at_ms, k) # rows) =
     (let l = max at_ms (l_prev + 1);
          c = (if l = l_prev then c_same + 1 else 0)
      in andthen (encode l c) (\<lambda>s.
         andthen (backfill_loop l c rows) (\<lambda>out. Inr ((k, s) # out))))"

lemma backfill_keys: "backfill_loop l c rows = Inr out \<Longrightarrow> map fst out = map snd rows"
proof (induction rows arbitrary: l c out)
  case Nil
  then show ?case by simp
next
  case (Cons r rows)
  then show ?case by (cases r) (auto simp: exc_simps Let_def)
qed

lemma backfill_increasing:
  assumes "backfill_loop l c rows = Inr out" and "encode l c' = Inr s" and "0 \<le> l"
  shows "sorted_wrt (<) (s # map snd out)"
  using assms
proof (induction rows arbitrary: l c c' s out)
  case Nil
  then show ?case by simp
next
  case (Cons r rows)
  obtain at_ms k where r: "r = (at_ms, k)" by (cases r)
  define l' where "l' = max at_ms (l + 1)"
  have "l < l'" by (simp add: l'_def)
  from Cons.prems(1) obtain s1 out1 where s1: "encode l' 0 = Inr s1"
    and rest: "backfill_loop l' 0 rows = Inr out1" and out: "out = (k, s1) # out1"
    using \<open>l < l'\<close> by (auto simp: r Let_def exc_simps l'_def [symmetric])
  have "sorted_wrt (<) (s1 # map snd out1)"
    using rest s1 Cons.prems(3) \<open>l < l'\<close> by (intro Cons.IH [of l' 0 out1 0]) auto
  moreover have "s < s1"
    using encode_less_iff [OF Cons.prems(2) s1] \<open>l < l'\<close> by (simp add: less_hlc_def)
  ultimately show ?case
    by (auto simp: out)
qed

end
