(* ===== verification/Accounts.thy ===== *)
theory Accounts
  imports Schema
begin

text \<open>
  Organizations, accounts and the journal of authentication failures:
  \<^verbatim>\<open>synapse/store/organizations.py\<close>, \<^verbatim>\<open>store/accounts.py\<close>,
  \<^verbatim>\<open>store/authfail.py\<close>, and the name rules of human accounts
  (\<^verbatim>\<open>validation.py\<close>). A function of the store takes the open transaction's database and
  returns the new one; times are arguments.
\<close>

section \<open>Organizations\<close>

definition organizations_get :: "database \<Rightarrow> string \<Rightarrow> organization_row option" where
  "organizations_get d n = fetch (\<lambda>x. org_name x = n) (organizations d)"

definition organizations_insert ::
    "string \<Rightarrow> string \<Rightarrow> bool \<Rightarrow> bool \<Rightarrow> string \<Rightarrow> database \<Rightarrow> database" where
  "organizations_insert n h incoming outgoing at d =
     d\<lparr>organizations := insert_row
        \<lparr>org_name = n, org_password_hash = h, org_incoming = incoming, org_outgoing = outgoing,
         org_created_at = at, org_enabled = True\<rparr> (organizations d)\<rparr>"

definition update_policies :: "string \<Rightarrow> bool \<Rightarrow> bool \<Rightarrow> database \<Rightarrow> database" where
  "update_policies n incoming outgoing d =
     d\<lparr>organizations := update_where (\<lambda>x. org_name x = n)
        (\<lambda>x. x\<lparr>org_incoming := incoming, org_outgoing := outgoing\<rparr>) (organizations d)\<rparr>"

definition update_password :: "string \<Rightarrow> string \<Rightarrow> database \<Rightarrow> database" where
  "update_password n h d =
     d\<lparr>organizations := update_where (\<lambda>x. org_name x = n)
        (\<lambda>x. x\<lparr>org_password_hash := h\<rparr>) (organizations d)\<rparr>"

section \<open>Accounts\<close>

definition accounts_get :: "database \<Rightarrow> string \<Rightarrow> account_row option" where
  "accounts_get d u = fetch (\<lambda>a. acc_username a = u) (accounts d)"

definition accounts_insert ::
    "string \<Rightarrow> string \<Rightarrow> account_status \<Rightarrow> string \<Rightarrow> string \<Rightarrow> bool \<Rightarrow> principal_type \<Rightarrow> string
     \<Rightarrow> database \<Rightarrow> database" where
  "accounts_insert u h st desc org see pt at d =
     d\<lparr>accounts := insert_row
        \<lparr>acc_username = u, acc_password_hash = h, acc_status = st, acc_description = desc,
         acc_org = org, acc_can_see = see, acc_created_at = at, acc_principal = pt,
         acc_observer = False\<rparr> (accounts d)\<rparr>"

definition update_account ::
    "string \<Rightarrow> (account_row \<Rightarrow> account_row) \<Rightarrow> database \<Rightarrow> database" where
  "update_account u f d = d\<lparr>accounts := update_where (\<lambda>a. acc_username a = u) f (accounts d)\<rparr>"

definition set_status :: "string \<Rightarrow> account_status \<Rightarrow> database \<Rightarrow> database" where
  "set_status u st = update_account u (\<lambda>a. a\<lparr>acc_status := st\<rparr>)"

definition set_password_hash :: "string \<Rightarrow> string \<Rightarrow> database \<Rightarrow> database" where
  "set_password_hash u h = update_account u (\<lambda>a. a\<lparr>acc_password_hash := h\<rparr>)"

definition set_visibility :: "string \<Rightarrow> bool \<Rightarrow> database \<Rightarrow> database" where
  "set_visibility u see = update_account u (\<lambda>a. a\<lparr>acc_can_see := see\<rparr>)"

definition any_account_exists :: "database \<Rightarrow> bool" where
  "any_account_exists d = (accounts d \<noteq> [])"

text \<open>The \<open>WHERE\<close> clauses of \<open>list_by_org\<close> without the cursor, then the paginated query.\<close>

definition org_listing :: "database \<Rightarrow> string \<times> string option \<times> bool \<times> bool \<Rightarrow> account_row list"
where
  "org_listing d = (\<lambda>(org, boundary, active_only, include_humans).
     order_asc acc_username
       (filter (\<lambda>a. acc_org a = org
          \<and> (include_humans \<or> acc_principal a \<noteq> Human)
          \<and> (case boundary of None \<Rightarrow> True | Some b \<Rightarrow> acc_created_at a \<le> b)
          \<and> (active_only \<longrightarrow> acc_status a = Active)) (accounts d)))"

definition list_by_org ::
    "database \<Rightarrow> string \<times> string option \<times> bool \<times> bool \<Rightarrow> string option \<Rightarrow> nat
     \<Rightarrow> account_row list" where
  "list_by_org d f after limit =
     take limit (filter (\<lambda>a. case after of None \<Rightarrow> True | Some u \<Rightarrow> u < acc_username a)
       (org_listing d f))"

definition count_by_org :: "database \<Rightarrow> string \<Rightarrow> nat" where
  "count_by_org d org = count_where (\<lambda>a. acc_org a = org) (accounts d)"

section \<open>Authentication failures\<close>

definition authfail_prune :: "string \<Rightarrow> database \<Rightarrow> database" where
  "authfail_prune cutoff d =
     d\<lparr>auth_failures := delete_where (\<lambda>f. af_attempted_at f < cutoff) (auth_failures d)\<rparr>"

definition count_recent :: "database \<Rightarrow> string \<Rightarrow> string \<Rightarrow> nat" where
  "count_recent d u cutoff =
     count_where (\<lambda>f. af_username f = u \<and> cutoff \<le> af_attempted_at f) (auth_failures d)"

definition authfail_record :: "string \<Rightarrow> string \<Rightarrow> database \<Rightarrow> database" where
  "authfail_record u at d =
     d\<lparr>auth_failures := insert_row \<lparr>af_username = u, af_attempted_at = at\<rparr> (auth_failures d)\<rparr>"

definition authfail_clear :: "string \<Rightarrow> database \<Rightarrow> database" where
  "authfail_clear u d =
     d\<lparr>auth_failures := delete_where (\<lambda>f. af_username f = u) (auth_failures d)\<rparr>"

section \<open>Names of human accounts\<close>

definition HUMAN_SUFFIX :: string where "HUMAN_SUFFIX = ''_humain''"

definition MAX_USERNAME_LEN :: nat where "MAX_USERNAME_LEN = 64"

text \<open>\<open>sha8\<close> is the first eight hexadecimal digits of SHA-256.\<close>

definition human_username_for :: "(string \<Rightarrow> string) \<Rightarrow> string \<Rightarrow> string" where
  "human_username_for sha8 n =
     (let derived = n @ HUMAN_SUFFIX in
      if length derived \<le> MAX_USERNAME_LEN then derived
      else let digest = sha8 n;
               prefix_len = MAX_USERNAME_LEN - length HUMAN_SUFFIX - 1 - length digest
           in take prefix_len n @ HUMAN_SUFFIX @ ''_'' @ digest)"

fun contains :: "string \<Rightarrow> string \<Rightarrow> bool" where
  "contains p [] = (p = [])"
| "contains p (c # s) = (take (length p) (c # s) = p \<or> contains p s)"

definition ends_with :: "string \<Rightarrow> string \<Rightarrow> bool" where
  "ends_with p s = (length p \<le> length s \<and> drop (length s - length p) s = p)"

definition is_reserved_human_username :: "string \<Rightarrow> bool" where
  "is_reserved_human_username u =
     (ends_with HUMAN_SUFFIX u \<or> contains (HUMAN_SUFFIX @ ''_'') u)"

section \<open>Facts\<close>

named_theorems acct_defs \<open>definitions of the account store\<close>

lemmas [acct_defs] = organizations_insert_def update_policies_def update_password_def
  accounts_insert_def update_account_def set_status_def set_password_hash_def
  set_visibility_def

lemma organizations_getD:
  "organizations_get d n = Some x \<Longrightarrow> x \<in> set (organizations d) \<and> org_name x = n"
  by (auto simp: organizations_get_def dest: fetch_SomeD)

lemma accounts_getD:
  "accounts_get d u = Some a \<Longrightarrow> a \<in> set (accounts d) \<and> acc_username a = u"
  by (auto simp: accounts_get_def dest: fetch_SomeD)

lemma accounts_get_None_iff:
  "accounts_get d u = None \<longleftrightarrow> u \<notin> acc_username ` set (accounts d)"
  by (auto simp: accounts_get_def fetch_None_iff)

lemma accounts_get_update_account:
  assumes "\<And>a. acc_username (f a) = acc_username a"
  shows "accounts_get (update_account u f d) v =
    map_option (\<lambda>a. if v = u then f a else a) (accounts_get d v)"
  unfolding accounts_get_def update_account_def
  by (simp, subst fetch_update_where_key, simp add: assms)
    (auto split: option.splits simp: map_option_case dest: fetch_SomeD)

lemma accounts_get_insert:
  "accounts_get (accounts_insert u h st desc org see pt at d) v =
     (case accounts_get d v of
        Some a \<Rightarrow> Some a
      | None \<Rightarrow> if v = u then Some \<lparr>acc_username = u, acc_password_hash = h, acc_status = st,
          acc_description = desc, acc_org = org, acc_can_see = see, acc_created_at = at,
          acc_principal = pt, acc_observer = False\<rparr> else None)"
  by (simp add: accounts_get_def accounts_insert_def fetch_insert_row split: option.split)

text \<open>Pruning with a cutoff at most the window's does not change the count in the window.\<close>

lemma count_recent_prune:
  assumes "cutoff \<le> cutoff'"
  shows "count_recent (authfail_prune cutoff d) u cutoff' = count_recent d u cutoff'"
proof -
  have "(\<not> af_attempted_at f < cutoff \<and> af_username f = u \<and> cutoff' \<le> af_attempted_at f) =
      (af_username f = u \<and> cutoff' \<le> af_attempted_at f)" for f :: auth_failure_row
    using assms by auto
  then show ?thesis
    by (simp add: count_recent_def authfail_prune_def count_where_def delete_where_def)
qed

lemma count_recent_record:
  "cutoff \<le> at \<Longrightarrow> count_recent (authfail_record u at d) v cutoff =
     count_recent d v cutoff + (if v = u then 1 else 0)"
  by (simp add: count_recent_def authfail_record_def tbl)

lemma count_recent_clear [simp]:
  "count_recent (authfail_clear u d) u cutoff = 0"
  by (simp add: count_recent_def authfail_clear_def count_where_0_iff set_delete_where)

lemma contains_append: "contains p (p @ s)"
proof (cases "p @ s")
  case (Cons a t)
  have "take (length p) (p @ s) = p" by simp
  with Cons show ?thesis by simp
qed simp

lemma contains_prefix: "contains p s \<Longrightarrow> contains p (t @ s)"
  by (induction t) auto

lemma human_username_reserved: "is_reserved_human_username (human_username_for sha8 n)"
proof (cases "length (n @ HUMAN_SUFFIX) \<le> MAX_USERNAME_LEN")
  case True
  then show ?thesis
    by (simp add: human_username_for_def is_reserved_human_username_def ends_with_def)
next
  case False
  have "contains (HUMAN_SUFFIX @ ''_'') (t @ (HUMAN_SUFFIX @ ''_'') @ sha8 n)" for t
    by (intro contains_prefix contains_append)
  then show ?thesis using False
    by (simp add: human_username_for_def is_reserved_human_username_def Let_def)
qed

end
