(* ===== verification/Json.thy ===== *)
theory Json
  imports Hlc "HOL-Library.AList"
begin

text \<open>
  What the server uses of Python's \<open>json\<close> module: \<open>dumps(..., ensure_ascii=False)\<close> with the
  default and the compact separators, and \<open>loads\<close>, on UTF-8 text. A dict is an association
  list with distinct keys. Floating-point literals are kept as their text (no modelled
  component writes one). \<open>loads\<close> inverts \<open>dumps\<close>.
\<close>

datatype json =
    JNull
  | JBool bool
  | JInt int
  | JFloat string
  | JStr string
  | JList "json list"
  | JObj "(string \<times> json) list"

section \<open>Writing\<close>

fun nat_text :: "nat \<Rightarrow> string" where
  "nat_text n = (if n < 10 then [digit n] else nat_text (n div 10) @ [digit (n mod 10)])"

declare nat_text.simps [simp del]

definition int_text :: "int \<Rightarrow> string" where
  "int_text i = (if i < 0 then CHR ''-'' # nat_text (nat (- i)) else nat_text (nat i))"

definition hex_digit :: "nat \<Rightarrow> char" where
  "hex_digit n = (if n < 10 then char_of (48 + n) else char_of (87 + n))"

definition BSL :: char where "BSL = CHR 0x5C"
definition QUOTE :: char where "QUOTE = CHR 0x22"

text \<open>\<open>ensure_ascii=False\<close> escapes quotes, backslashes and control characters only.\<close>

definition json_escape :: "char \<Rightarrow> string" where
  "json_escape c =
     (let n = (of_char c :: nat) in
      if n = 34 then [BSL, c]
      else if n = 92 then [BSL, c]
      else if n = 10 then [BSL, CHR ''n'']
      else if n = 13 then [BSL, CHR ''r'']
      else if n = 9 then [BSL, CHR ''t'']
      else if n = 12 then [BSL, CHR ''f'']
      else if n = 8 then [BSL, CHR ''b'']
      else if n < 32 then BSL # ''u00'' @ [hex_digit (n div 16), hex_digit (n mod 16)]
      else [c])"

definition json_string :: "string \<Rightarrow> string" where
  "json_string s = QUOTE # concat (map json_escape s) @ [QUOTE]"

fun join :: "string \<Rightarrow> string list \<Rightarrow> string" where
  "join sep [] = []"
| "join sep [x] = x"
| "join sep (x # y # xs) = x @ sep @ join sep (y # xs)"

fun dumps :: "string \<times> string \<Rightarrow> json \<Rightarrow> string" where
  "dumps sep JNull = ''null''"
| "dumps sep (JBool b) = (if b then ''true'' else ''false'')"
| "dumps sep (JInt i) = int_text i"
| "dumps sep (JFloat t) = t"
| "dumps sep (JStr s) = json_string s"
| "dumps sep (JList xs) = ''['' @ join (fst sep) (map (dumps sep) xs) @ '']''"
| "dumps sep (JObj kvs) =
     ''{'' @ join (fst sep) (map (\<lambda>(k, v). json_string k @ snd sep @ dumps sep v) kvs) @ ''}''"

definition default_separators :: "string \<times> string" where
  "default_separators = ('', '', '': '')"

definition compact_separators :: "string \<times> string" where
  "compact_separators = ('','', '':'')"

section \<open>Reading\<close>

definition is_ws :: "char \<Rightarrow> bool" where
  "is_ws c = (of_char c \<in> {32, 9, 10, 13 :: nat})"

definition skip_ws :: "string \<Rightarrow> string" where
  "skip_ws s = dropWhile is_ws s"

definition hex_val :: "char \<Rightarrow> nat option" where
  "hex_val c =
     (let n = (of_char c :: nat) in
      if 48 \<le> n \<and> n \<le> 57 then Some (n - 48)
      else if 97 \<le> n \<and> n \<le> 102 then Some (n - 87)
      else if 65 \<le> n \<and> n \<le> 70 then Some (n - 55) else None)"

definition hex4 :: "string \<Rightarrow> nat option" where
  "hex4 s = (case map hex_val s of
     [Some a, Some b, Some c, Some d] \<Rightarrow> Some (((a * 16 + b) * 16 + c) * 16 + d)
   | _ \<Rightarrow> None)"

definition utf8 :: "nat \<Rightarrow> string" where
  "utf8 n =
     (if n < 128 then [char_of n]
      else if n < 2048 then [char_of (192 + n div 64), char_of (128 + n mod 64)]
      else if n < 65536 then [char_of (224 + n div 4096), char_of (128 + n div 64 mod 64),
        char_of (128 + n mod 64)]
      else [char_of (240 + n div 262144), char_of (128 + n div 4096 mod 64),
        char_of (128 + n div 64 mod 64), char_of (128 + n mod 64)])"

definition simple_escape :: "char \<Rightarrow> char option" where
  "simple_escape c =
     (if c \<in> {QUOTE, BSL, CHR ''/''} then Some c
      else if c = CHR ''n'' then Some (char_of (10::nat))
      else if c = CHR ''r'' then Some (char_of (13::nat))
      else if c = CHR ''t'' then Some (char_of (9::nat))
      else if c = CHR ''f'' then Some (char_of (12::nat))
      else if c = CHR ''b'' then Some (char_of (8::nat)) else None)"

text \<open>The low half of a surrogate pair, an escape \<open>uDC00\<close> to \<open>uDFFF\<close> that follows.\<close>

definition low_surrogate :: "string \<Rightarrow> nat option" where
  "low_surrogate s =
     (if take 2 s = [BSL, CHR ''u''] then
        (case hex4 (take 4 (drop 2 s)) of
           None \<Rightarrow> None
         | Some v \<Rightarrow> if 56320 \<le> v \<and> v \<le> 57343 then Some v else None)
      else None)"

text \<open>The characters up to the closing quote, and what follows it.\<close>

function str_body :: "string \<Rightarrow> (string \<times> string) option" where
  "str_body [] = None"
| "str_body (c # s) =
     (if c = QUOTE then Some ([], s)
      else if c \<noteq> BSL then
        (if (of_char c :: nat) < 32 then None
         else map_option (\<lambda>(t, r). (c # t, r)) (str_body s))
      else case s of
          [] \<Rightarrow> None
        | e # s' \<Rightarrow>
            if e = CHR ''u'' then
              (case hex4 (take 4 s') of
                 None \<Rightarrow> None
               | Some v \<Rightarrow>
                   if 55296 \<le> v \<and> v \<le> 56319 \<and> low_surrogate (drop 4 s') \<noteq> None then
                     map_option (\<lambda>(t, r).
                         (utf8 (65536 + (v - 55296) * 1024
                            + (the (low_surrogate (drop 4 s')) - 56320)) @ t, r))
                       (str_body (drop 10 s'))
                   else map_option (\<lambda>(t, r). (utf8 v @ t, r)) (str_body (drop 4 s')))
            else (case simple_escape e of
                    None \<Rightarrow> None
                  | Some x \<Rightarrow> map_option (\<lambda>(t, r). (x # t, r)) (str_body s')))"
  by pat_completeness auto
termination by (relation "measure length") auto

definition is_dec :: "char \<Rightarrow> bool" where
  "is_dec c = (48 \<le> (of_char c :: nat) \<and> (of_char c :: nat) \<le> 57)"

text \<open>\<open>(\.\d+)?\<close> and \<open>([eE][-+]?\d+)?\<close>: the text each takes.\<close>

definition frac_part :: "string \<Rightarrow> string" where
  "frac_part s = (case s of [] \<Rightarrow> [] | c # r \<Rightarrow>
     if c = CHR ''.'' \<and> takeWhile is_dec r \<noteq> [] then c # takeWhile is_dec r else [])"

definition exp_part :: "string \<Rightarrow> string" where
  "exp_part s = (case s of [] \<Rightarrow> [] | c # r \<Rightarrow>
     if c = CHR ''e'' \<or> c = CHR ''E'' then
       (let sign = (if r \<noteq> [] \<and> (hd r = CHR ''-'' \<or> hd r = CHR ''+'') then [hd r] else []);
            ds = takeWhile is_dec (drop (length sign) r)
        in if ds = [] then [] else c # sign @ ds)
     else [])"

definition dec_value :: "string \<Rightarrow> nat" where
  "dec_value s = foldl (\<lambda>n c. 10 * n + (of_char c - 48)) 0 s"

text \<open>\<open>0|[1-9]\d*\<close>: a leading zero is the whole integer part.\<close>

definition int_part :: "string \<Rightarrow> string" where
  "int_part ds = (if ds \<noteq> [] \<and> hd ds = CHR ''0'' then [CHR ''0''] else ds)"

definition scan_number :: "string \<Rightarrow> (json \<times> string) option" where
  "scan_number s =
     (let neg = (s \<noteq> [] \<and> hd s = CHR ''-''); s1 = (if neg then tl s else s);
          ds = takeWhile is_dec s1;
          ip = int_part ds;
          s2 = drop (length ip) s1; fp = frac_part s2;
          s3 = drop (length fp) s2; xp = exp_part s3
      in if ds = [] then None
         else if fp = [] \<and> xp = [] then
           Some (JInt (if neg then - int (dec_value ip) else int (dec_value ip)), s2)
         else Some (JFloat ((if neg then ''-'' else []) @ ip @ fp @ xp), drop (length xp) s3))"

definition literals :: "(string \<times> json) list" where
  "literals = [(''null'', JNull), (''true'', JBool True), (''false'', JBool False),
     (''NaN'', JFloat ''NaN''), (''Infinity'', JFloat ''Infinity''),
     (''-Infinity'', JFloat ''-Infinity'')]"

definition scan_literal :: "string \<Rightarrow> (json \<times> string) option" where
  "scan_literal s =
     map_option (\<lambda>(t, j). (j, drop (length t) s))
       (List.find (\<lambda>(t, j). take (length t) s = t) literals)"

text \<open>The scanner keeps the pairs of an object as written; the fuel bounds its depth and length.\<close>

fun scan :: "nat \<Rightarrow> string \<Rightarrow> (json \<times> string) option"
  and scan_items :: "nat \<Rightarrow> string \<Rightarrow> (json list \<times> string) option"
  and scan_members :: "nat \<Rightarrow> string \<Rightarrow> ((string \<times> json) list \<times> string) option" where
  "scan 0 s = None"
| "scan (Suc n) [] = None"
| "scan (Suc n) (c # s) =
     (if c = QUOTE then map_option (\<lambda>(t, r). (JStr t, r)) (str_body s)
      else if c = CHR ''['' then
        (case skip_ws s of
           [] \<Rightarrow> None
         | d # r \<Rightarrow> if d = CHR '']'' then Some (JList [], r)
             else map_option (\<lambda>(xs, q). (JList xs, q)) (scan_items n (d # r)))
      else if c = CHR ''{'' then
        (case skip_ws s of
           [] \<Rightarrow> None
         | d # r \<Rightarrow> if d = CHR ''}'' then Some (JObj [], r)
             else map_option (\<lambda>(kvs, q). (JObj kvs, q)) (scan_members n (d # r)))
      else (case scan_literal (c # s) of
              Some x \<Rightarrow> Some x
            | None \<Rightarrow> scan_number (c # s)))"
| "scan_items 0 s = None"
| "scan_items (Suc n) s =
     (case scan n s of
        None \<Rightarrow> None
      | Some (x, r) \<Rightarrow>
          (case skip_ws r of
             [] \<Rightarrow> None
           | d # r' \<Rightarrow> if d = CHR '']'' then Some ([x], r')
               else if d = CHR '','' then
                 map_option (\<lambda>(xs, q). (x # xs, q)) (scan_items n (skip_ws r'))
               else None))"
| "scan_members 0 s = None"
| "scan_members (Suc n) s =
     (case s of
        [] \<Rightarrow> None
      | c # s1 \<Rightarrow>
          if c \<noteq> QUOTE then None
          else (case str_body s1 of
            None \<Rightarrow> None
          | Some (k, r) \<Rightarrow>
              (case skip_ws r of
                 [] \<Rightarrow> None
               | d # r1 \<Rightarrow>
                   if d \<noteq> CHR '':'' then None
                   else (case scan n (skip_ws r1) of
                     None \<Rightarrow> None
                   | Some (v, r2) \<Rightarrow>
                       (case skip_ws r2 of
                          [] \<Rightarrow> None
                        | e # r3 \<Rightarrow>
                            if e = CHR ''}'' then Some ([(k, v)], r3)
                            else if e = CHR '','' then
                              map_option (\<lambda>(kvs, q). ((k, v) # kvs, q))
                                (scan_members n (skip_ws r3))
                            else None)))))"

text \<open>One value, surrounded by white space only. The fuel is the length.\<close>

definition scan_text :: "string \<Rightarrow> json option" where
  "scan_text s = (case scan (Suc (length s)) (skip_ws s) of
     None \<Rightarrow> None
   | Some (j, r) \<Rightarrow> if skip_ws r = [] then Some j else None)"

text \<open>A dict is built key by key; a repeated key keeps its place and takes the last value.\<close>

definition dict_of :: "(string \<times> json) list \<Rightarrow> (string \<times> json) list" where
  "dict_of kvs = foldl (\<lambda>acc (k, v). AList.update k v acc) [] kvs"

fun dicts :: "json \<Rightarrow> json" where
  "dicts (JList xs) = JList (map dicts xs)"
| "dicts (JObj kvs) = JObj (dict_of (map (\<lambda>(k, v). (k, dicts v)) kvs))"
| "dicts j = j"

definition loads :: "string \<Rightarrow> json option" where
  "loads s = map_option dicts (scan_text s)"

section \<open>Dict access and equality\<close>

fun jget :: "json \<Rightarrow> string \<Rightarrow> json option" where
  "jget (JObj kvs) k = map_of kvs k"
| "jget _ k = None"

text \<open>Python's \<open>==\<close> on these values: dicts up to order, \<open>True == 1\<close>.\<close>

fun json_eq :: "json \<Rightarrow> json \<Rightarrow> bool" where
  "json_eq JNull j = (j = JNull)"
| "json_eq (JBool b) j = (j = JBool b \<or> j = JInt (if b then 1 else 0))"
| "json_eq (JInt i) j = (j = JInt i \<or> (j = JBool True \<and> i = 1) \<or> (j = JBool False \<and> i = 0))"
| "json_eq (JFloat t) j = (j = JFloat t)"
| "json_eq (JStr s) j = (j = JStr s)"
| "json_eq (JList xs) j = (case j of JList ys \<Rightarrow> list_all2 json_eq xs ys | _ \<Rightarrow> False)"
| "json_eq (JObj kvs) j = (case j of
     JObj kvs' \<Rightarrow> length kvs = length kvs'
       \<and> list_all (\<lambda>(k, v). case map_of kvs' k of None \<Rightarrow> False | Some v' \<Rightarrow> json_eq v v') kvs
   | _ \<Rightarrow> False)"

section \<open>Reading what was written\<close>

text \<open>The values the server writes: no float, and the keys of a dict distinct.\<close>

fun json_ok :: "json \<Rightarrow> bool" where
  "json_ok (JFloat t) = False"
| "json_ok (JList xs) = list_all json_ok xs"
| "json_ok (JObj kvs) = (distinct (map fst kvs) \<and> list_all (\<lambda>(k, v). json_ok v) kvs)"
| "json_ok _ = True"

lemma hex_val_digit: "d < 16 \<Longrightarrow> hex_val (hex_digit d) = Some d"
  by (auto simp: hex_val_def hex_digit_def)

lemma BSL_QUOTE: "BSL \<noteq> QUOTE" "(of_char BSL :: nat) = 92" "(of_char QUOTE :: nat) = 34"
  by (simp_all add: BSL_def QUOTE_def)

lemma str_body_simple:
  "e \<noteq> CHR ''u'' \<Longrightarrow> simple_escape e = Some x \<Longrightarrow>
     str_body (BSL # e # s) = map_option (\<lambda>(t, r). (x # t, r)) (str_body s)"
  using BSL_QUOTE(1) by simp

lemma str_body_plain:
  "c \<noteq> QUOTE \<Longrightarrow> c \<noteq> BSL \<Longrightarrow> 32 \<le> (of_char c :: nat) \<Longrightarrow>
     str_body (c # s) = map_option (\<lambda>(t, r). (c # t, r)) (str_body s)"
  by simp

declare str_body.simps(2) [simp del]

lemma str_body_hex:
  assumes "hex4 (take 4 s) = Some v" and "v < 55296"
  shows "str_body (BSL # CHR ''u'' # s) = map_option (\<lambda>(t, r). (utf8 v @ t, r)) (str_body (drop 4 s))"
  using assms BSL_QUOTE(1) by (subst str_body.simps(2)) simp

lemma take_drop_4: "take 4 (a # b # c # d # s) = [a, b, c, d]" "drop 4 (a # b # c # d # s) = s"
  by (simp_all add: numeral_eq_Suc)

lemma str_body_u:
  assumes "n < 32"
  shows "str_body (BSL # ''u00'' @ [hex_digit (n div 16), hex_digit (n mod 16)] @ s) =
    map_option (\<lambda>(t, r). (char_of n # t, r)) (str_body s)"
proof -
  let ?h = "CHR ''0'' # CHR ''0'' # hex_digit (n div 16) # hex_digit (n mod 16) # s"
  have h: "take 4 ?h = [CHR ''0'', CHR ''0'', hex_digit (n div 16), hex_digit (n mod 16)]"
    "drop 4 ?h = s" by (simp_all only: take_drop_4)
  have zero: "hex_val CHR ''0'' = Some 0" by (simp add: hex_val_def)
  have "n div 16 < 16" "n mod 16 < 16" "n div 16 * 16 + n mod 16 = n" using assms by auto
  then have "hex4 (take 4 ?h) = Some n"
    by (simp only: h hex4_def list.map zero hex_val_digit) simp
  moreover have "n < 55296" using assms by simp
  ultimately have
    "str_body (BSL # CHR ''u'' # ?h) = map_option (\<lambda>(t, r). (utf8 n @ t, r)) (str_body (drop 4 ?h))"
    by (rule str_body_hex)
  moreover have "utf8 n = [char_of n]" using assms by (simp add: utf8_def)
  ultimately show ?thesis by (simp only: h append_Cons append_Nil)
qed

lemma json_escape_cases:
  obtains e where "json_escape c = [BSL, e]" "e \<noteq> CHR ''u''" "simple_escape e = Some c"
  | n where "n < 32" "c = char_of n"
      "json_escape c = BSL # ''u00'' @ [hex_digit (n div 16), hex_digit (n mod 16)]"
  | "json_escape c = [c]" "c \<noteq> QUOTE" "c \<noteq> BSL" "32 \<le> (of_char c :: nat)"
proof -
  define n where "n = (of_char c :: nat)"
  have c: "c = char_of n" by (simp add: n_def)
  note esc = json_escape_def [of c, folded n_def, unfolded Let_def]
  have special: "simple_escape QUOTE = Some QUOTE" "simple_escape BSL = Some BSL"
    "simple_escape CHR ''n'' = Some (char_of (10::nat))"
    "simple_escape CHR ''r'' = Some (char_of (13::nat))"
    "simple_escape CHR ''t'' = Some (char_of (9::nat))"
    "simple_escape CHR ''f'' = Some (char_of (12::nat))"
    "simple_escape CHR ''b'' = Some (char_of (8::nat))"
    "QUOTE \<noteq> CHR ''u''" "BSL \<noteq> CHR ''u''"
    by (simp_all add: simple_escape_def QUOTE_def BSL_def)
  consider "n = 34" | "n = 92" | "n = 10" | "n = 13" | "n = 9" | "n = 12" | "n = 8"
    | "n < 32" "n \<notin> {10, 13, 9, 12, 8}" | "32 \<le> n" "n \<noteq> 34" "n \<noteq> 92"
    by fastforce
  then show thesis
  proof cases
    case 1
    then have "c = QUOTE" using BSL_QUOTE(3) by (metis n_def char_of_char)
    with 1 esc special that(1) [of QUOTE] show thesis by simp
  next
    case 2
    then have "c = BSL" using BSL_QUOTE(2) by (metis n_def char_of_char)
    with 2 esc special that(1) [of BSL] show thesis by simp
  next
    case 3
    with c esc special that(1) [of "CHR ''n''"] show thesis by simp
  next
    case 4
    with c esc special that(1) [of "CHR ''r''"] show thesis by simp
  next
    case 5
    with c esc special that(1) [of "CHR ''t''"] show thesis by simp
  next
    case 6
    with c esc special that(1) [of "CHR ''f''"] show thesis by simp
  next
    case 7
    with c esc special that(1) [of "CHR ''b''"] show thesis by simp
  next
    case 8
    with esc have "json_escape c = BSL # ''u00'' @ [hex_digit (n div 16), hex_digit (n mod 16)]"
      by simp
    with that(2) [OF 8(1) c] show thesis .
  next
    case 9
    with esc have "json_escape c = [c]" by simp
    moreover have "c \<noteq> QUOTE" "c \<noteq> BSL" using 9 BSL_QUOTE by (auto simp: n_def)
    ultimately show thesis using that(3) 9(1) by (simp add: n_def)
  qed
qed

lemma str_body_escape:
  "str_body (json_escape c @ s) = map_option (\<lambda>(t, r). (c # t, r)) (str_body s)"
proof (cases c rule: json_escape_cases)
  case (1 e)
  with str_body_simple [OF 1(2,3)] show ?thesis by simp
next
  case (2 n)
  with str_body_u [OF 2(1)] show ?thesis by simp
next
  case 3
  with str_body_plain [OF 3(2-4)] show ?thesis by simp
qed

lemma str_body_written:
  "str_body (concat (map json_escape s) @ QUOTE # r) = Some (s, r)"
  by (induction s) (simp_all add: str_body_escape str_body.simps(2))

subsection \<open>Numbers\<close>

lemma is_dec_digit: "d < 10 \<Longrightarrow> is_dec (digit d) \<and> (of_char (digit d) :: nat) - 48 = d"
  by (simp add: is_dec_def of_char_digit)

lemma nat_text_dec: "list_all is_dec (nat_text n)"
proof (induction n rule: nat_text.induct)
  case (1 n)
  then show ?case by (subst nat_text.simps) (auto simp: is_dec_digit)
qed

lemma nat_text_value: "dec_value (nat_text n) = n"
proof (induction n rule: nat_text.induct)
  case (1 n)
  then show ?case by (subst nat_text.simps) (auto simp: is_dec_digit dec_value_def)
qed

lemma nat_text_Nil [simp]: "nat_text n \<noteq> []"
  by (subst nat_text.simps) simp

lemma nat_text_zero:
  "hd (nat_text n) = CHR ''0'' \<Longrightarrow> nat_text n = ''0''"
proof (induction n rule: nat_text.induct)
  case (1 n)
  have "(of_char CHR ''0'' :: nat) = of_char (digit 0)" by (simp add: of_char_digit)
  then have "CHR ''0'' = digit 0" by (simp only: of_char_eq_iff)
  then have zero: "digit d = CHR ''0'' \<longleftrightarrow> d = 0" if "d < 10" for d
    using digit_eq_iff [of d 0] that by simp
  show ?case
  proof (cases "n < 10")
    case True
    with 1(2) zero [of n] show ?thesis by (subst (asm) nat_text.simps, subst nat_text.simps) simp
  next
    case False
    with 1(2) have "hd (nat_text (n div 10)) = CHR ''0''"
      by (subst (asm) nat_text.simps) simp
    with 1(1) False have "nat_text (n div 10) = ''0''" by simp
    then have "n div 10 = dec_value ''0''" using nat_text_value [of "n div 10"] by simp
    with False show ?thesis by (simp add: dec_value_def)
  qed
qed

text \<open>What may follow a value the server writes.\<close>

definition ends_value :: "string \<Rightarrow> bool" where
  "ends_value r = (r = [] \<or> hd r \<in> {CHR '','', CHR '']'', CHR ''}'', CHR 0x0A})"

lemma takeWhile_ends:
  "list_all is_dec ds \<Longrightarrow> ends_value r \<Longrightarrow> takeWhile is_dec (ds @ r) = ds"
  by (cases r) (auto simp: list_all_iff ends_value_def is_dec_def takeWhile_append2)

lemma frac_exp_ends: "ends_value r \<Longrightarrow> frac_part r = [] \<and> exp_part r = []"
  by (cases r) (auto simp: ends_value_def frac_part_def exp_part_def)

lemma scan_number_written:
  assumes "ends_value r"
  shows "scan_number (int_text i @ r) = Some (JInt i, r)"
proof -
  have minus: "hd (nat_text n @ r) \<noteq> CHR ''-''" for n
    using nat_text_dec [of n] by (cases "nat_text n") (auto simp: is_dec_def)
  have body: "takeWhile is_dec (nat_text n @ r) = nat_text n" for n
    using nat_text_dec assms by (rule takeWhile_ends)
  have ip: "int_part (nat_text n) = nat_text n" for n
    using nat_text_zero [of n] by (simp add: int_part_def)
  note simps = body ip frac_exp_ends [OF assms] nat_text_value append_eq_conv_conj [symmetric]
  show ?thesis
  proof (cases "i < 0")
    case True
    then have "int_text i @ r = CHR ''-'' # nat_text (nat (- i)) @ r" by (simp add: int_text_def)
    with True show ?thesis by (simp add: scan_number_def Let_def simps)
  next
    case False
    then have "int_text i @ r = nat_text (nat i) @ r" by (simp add: int_text_def)
    with False minus show ?thesis by (simp add: scan_number_def Let_def simps)
  qed
qed

lemma int_text_head: "\<exists>c s. int_text i = c # s \<and> (is_dec c \<or> (c = CHR ''-'' \<and> s \<noteq> [] \<and> is_dec (hd s)))"
proof -
  have n: "nat_text n = hd (nat_text n) # tl (nat_text n) \<and> is_dec (hd (nat_text n))" for n
    using nat_text_dec [of n] by (cases "nat_text n") auto
  show ?thesis
  proof (cases "i < 0")
    case True
    with n [of "nat (- i)"] show ?thesis by (simp add: int_text_def)
  next
    case False
    with n [of "nat i"] show ?thesis by (intro exI [of _ "hd (nat_text (nat i))"]
        exI [of _ "tl (nat_text (nat i))"]) (simp add: int_text_def)
  qed
qed

lemma scan_literal_int: "scan_literal (int_text i @ r) = None"
proof -
  obtain c s where cs: "int_text i = c # s" "is_dec c \<or> (c = CHR ''-'' \<and> s \<noteq> [] \<and> is_dec (hd s))"
    using int_text_head by blast
  have no: "\<not> is_dec CHR ''n''" "\<not> is_dec CHR ''t''" "\<not> is_dec CHR ''f''" "\<not> is_dec CHR ''N''"
    "\<not> is_dec CHR ''I''" "\<not> is_dec CHR ''-''"
    by (simp_all add: is_dec_def)
  show ?thesis
  proof (cases "is_dec c")
    case True
    with no cs(1) show ?thesis by (auto simp: scan_literal_def literals_def)
  next
    case False
    with cs(2) no obtain e t where "c = CHR ''-''" "s = e # t" "is_dec e" by (cases s) auto
    with no cs(1) show ?thesis by (auto simp: scan_literal_def literals_def)
  qed
qed

subsection \<open>Values\<close>

lemma dumps_head:
  assumes "json_ok j"
  shows "\<exists>c s. dumps sep j = c # s \<and> \<not> is_ws c \<and> c \<noteq> CHR '']'' \<and> c \<noteq> CHR ''}''"
proof (cases j)
  case (JInt i)
  obtain c s where "int_text i = c # s" "is_dec c \<or> c = CHR ''-''" using int_text_head by blast
  moreover have "\<not> is_ws c \<and> c \<noteq> CHR '']'' \<and> c \<noteq> CHR ''}''" if "is_dec c \<or> c = CHR ''-''" for c
    using that by (auto simp: is_dec_def is_ws_def)
  ultimately show ?thesis using JInt by simp
qed (use assms in \<open>auto simp: json_string_def is_ws_def QUOTE_def\<close>)

lemma skip_ws_head: "\<not> is_ws c \<Longrightarrow> skip_ws (c # s) = c # s"
  by (simp add: skip_ws_def)

lemma skip_ws_dumps: "json_ok j \<Longrightarrow> skip_ws (dumps sep j @ r) = dumps sep j @ r"
  using dumps_head [of j sep] by (auto simp: skip_ws_head)

lemma not_ws [simp]: "\<not> is_ws CHR '',''" "\<not> is_ws CHR '':''" "\<not> is_ws CHR '']''" "\<not> is_ws CHR ''}''"
  "\<not> is_ws QUOTE"
  by (simp_all add: is_ws_def QUOTE_def)

abbreviation compact :: "json \<Rightarrow> string" where "compact \<equiv> dumps compact_separators"

definition member_text :: "string \<times> json \<Rightarrow> string" where
  "member_text = (\<lambda>(k, v). json_string k @ '':'' @ compact v)"

text \<open>\<open>j\<close> is read back by any scan whose fuel is at least the length of its text.\<close>

definition reads_back :: "json \<Rightarrow> bool" where
  "reads_back j = (json_ok j \<and> (\<forall>n r. length (compact j) \<le> n \<longrightarrow> ends_value r \<longrightarrow>
     scan n (compact j @ r) = Some (j, r)))"

lemma ends_value_simps [simp]:
  "ends_value (CHR '','' # r)" "ends_value (CHR '']'' # r)" "ends_value (CHR ''}'' # r)" "ends_value []"
  "ends_value (CHR 0x0A # r)"
  by (simp_all add: ends_value_def)

lemma scan_items_written:
  assumes "list_all reads_back xs" and "xs \<noteq> []"
    and "length (join '','' (map compact xs)) < n"
  shows "scan_items n (join '','' (map compact xs) @ CHR '']'' # r) = Some (xs, r)"
  using assms
proof (induction xs arbitrary: n)
  case (Cons x xs)
  then obtain m where n: "n = Suc m" by (cases n) auto
  have x: "json_ok x" "\<And>k q. length (compact x) \<le> k \<Longrightarrow> ends_value q \<Longrightarrow> scan k (compact x @ q) = Some (x, q)"
    using Cons.prems(1) by (auto simp: reads_back_def)
  show ?case
  proof (cases xs)
    case Nil
    with Cons.prems(3) n x(2) [of m "CHR '']'' # r"] show ?thesis by (simp add: skip_ws_head)
  next
    case (Cons y ys)
    let ?rest = "join '','' (map compact xs) @ CHR '']'' # r"
    have "join '','' (map compact (x # xs)) @ CHR '']'' # r = compact x @ CHR '','' # ?rest"
      by (simp add: Cons)
    moreover have "scan m (compact x @ CHR '','' # ?rest) = Some (x, CHR '','' # ?rest)"
      using Cons.prems(3) n by (intro x(2)) (simp_all add: Cons)
    moreover have "skip_ws ?rest = ?rest"
      using Cons.prems(1) skip_ws_dumps [of y compact_separators]
      by (cases ys) (simp_all add: Cons reads_back_def)
    moreover have "scan_items m ?rest = Some (xs, r)"
      using Cons.prems(1,3) n by (intro Cons.IH) (simp_all add: Cons)
    ultimately show ?thesis by (simp add: n skip_ws_head)
  qed
qed simp

lemma str_body_json_string:
  "json_string k @ q = QUOTE # t \<Longrightarrow> str_body t = Some (k, q)"
  using str_body_written [of k q] by (auto simp: json_string_def)

lemma scan_members_written:
  assumes "list_all (\<lambda>(k, v). reads_back v) kvs" and "kvs \<noteq> []"
    and "length (join '','' (map member_text kvs)) < n"
  shows "scan_members n (join '','' (map member_text kvs) @ CHR ''}'' # r) = Some (kvs, r)"
  using assms
proof (induction kvs arbitrary: n)
  case (Cons kv kvs)
  obtain k v where kv: "kv = (k, v)" by (cases kv)
  obtain m where n: "n = Suc m" using Cons.prems(3) by (cases n) auto
  have v: "json_ok v" "\<And>k q. length (compact v) \<le> k \<Longrightarrow> ends_value q \<Longrightarrow> scan k (compact v @ q) = Some (v, q)"
    using Cons.prems(1) by (auto simp: reads_back_def kv)
  have key: "\<exists>t. json_string k @ q = QUOTE # t \<and> str_body t = Some (k, q)" for q
    using str_body_written [of k q] by (simp add: json_string_def)
  have len: "length (compact v) \<le> m"
    using Cons.prems(3) n by (cases kvs) (simp_all add: kv member_text_def)
  show ?case
  proof (cases kvs)
    case Nil
    obtain t where "json_string k @ CHR '':'' # compact v @ CHR ''}'' # r = QUOTE # t"
      "str_body t = Some (k, CHR '':'' # compact v @ CHR ''}'' # r)" using key by blast
    with v(2) [OF len, of "CHR ''}'' # r"] v(1) show ?thesis
      by (simp add: Nil kv member_text_def n skip_ws_head skip_ws_dumps)
  next
    case (Cons y ys)
    let ?rest = "join '','' (map member_text kvs) @ CHR ''}'' # r"
    obtain t where t: "json_string k @ CHR '':'' # compact v @ CHR '','' # ?rest = QUOTE # t"
      "str_body t = Some (k, CHR '':'' # compact v @ CHR '','' # ?rest)" using key by blast
    have "join '','' (map member_text (kv # kvs)) @ CHR ''}'' # r = QUOTE # t"
      using t(1) by (simp add: Cons kv member_text_def)
    moreover have "scan m (compact v @ CHR '','' # ?rest) = Some (v, CHR '','' # ?rest)"
      using len by (intro v(2)) simp_all
    moreover have "skip_ws ?rest = ?rest"
      by (cases ys) (simp_all add: Cons member_text_def json_string_def skip_ws_head split: prod.split)
    moreover have "scan_members m ?rest = Some (kvs, r)"
      using Cons.prems(1,3) n by (intro Cons.IH) (simp_all add: Cons)
    ultimately show ?thesis using t(2) v(1)
      by (simp add: n kv skip_ws_head skip_ws_dumps)
  qed
qed simp

lemma dict_of_distinct: "distinct (map fst kvs) \<Longrightarrow> dict_of kvs = kvs"
proof -
  have new: "k \<notin> fst ` set acc \<Longrightarrow> AList.update k v acc = acc @ [(k, v)]" for k :: string and v :: json and acc
    by (induction acc) auto
  have "distinct (map fst kvs) \<Longrightarrow> fst ` set kvs \<inter> fst ` set acc = {} \<Longrightarrow>
      foldl (\<lambda>acc (k, v). AList.update k v acc) acc kvs = acc @ kvs" for acc
  proof (induction kvs arbitrary: acc)
    case (Cons kv kvs)
    then have "AList.update (fst kv) (snd kv) acc = acc @ [kv]" by (simp add: new)
    moreover have "foldl (\<lambda>acc (k, v). AList.update k v acc) (acc @ [kv]) kvs = (acc @ [kv]) @ kvs"
      using Cons.prems by (intro Cons.IH) auto
    ultimately show ?case by (cases kv) simp
  qed simp
  from this [of "[]"] show "distinct (map fst kvs) \<Longrightarrow> ?thesis" by (simp add: dict_of_def)
qed

lemma scan_string: "scan (Suc n) (json_string s @ r) = Some (JStr s, r)"
  using str_body_written [of s r] by (simp add: json_string_def)

lemma reads_back_list:
  assumes "list_all reads_back xs"
  shows "reads_back (JList xs)"
proof -
  have ok: "list_all json_ok xs" using assms by (auto simp: list_all_iff reads_back_def)
  have "scan n (compact (JList xs) @ r) = Some (JList xs, r)"
    if len: "length (compact (JList xs)) \<le> n" and "ends_value r" for n r
  proof -
    obtain m where n: "n = Suc m" using len by (cases n) auto
    show ?thesis
    proof (cases xs)
      case Nil
      then show ?thesis by (simp add: n skip_ws_head QUOTE_def)
    next
      case (Cons x ys)
      let ?body = "join '','' (map compact xs) @ CHR '']'' # r"
      obtain c s where body: "?body = c # s" "\<not> is_ws c" "c \<noteq> CHR '']''"
        using dumps_head [of x compact_separators] ok by (cases ys) (auto simp: Cons)
      have "scan_items m ?body = Some (xs, r)"
        using assms len n by (intro scan_items_written) (auto simp: Cons compact_separators_def)
      with body show ?thesis
        by (simp add: n skip_ws_head QUOTE_def compact_separators_def [symmetric])
          (simp add: compact_separators_def skip_ws_head)
    qed
  qed
  with ok show ?thesis by (simp add: reads_back_def)
qed

lemma reads_back_obj:
  assumes "list_all (\<lambda>(k, v). reads_back v) kvs" and "distinct (map fst kvs)"
  shows "reads_back (JObj kvs)"
proof -
  have ok: "json_ok (JObj kvs)" using assms by (auto simp: list_all_iff reads_back_def)
  have shape: "compact (JObj kvs) = CHR ''{'' # join '','' (map member_text kvs) @ ''}''"
    by (simp add: member_text_def compact_separators_def)
  have "scan n (compact (JObj kvs) @ r) = Some (JObj kvs, r)"
    if len: "length (compact (JObj kvs)) \<le> n" and "ends_value r" for n r
  proof -
    obtain m where n: "n = Suc m" using len shape by (cases n) auto
    show ?thesis
    proof (cases kvs)
      case Nil
      then show ?thesis by (simp add: n skip_ws_head QUOTE_def)
    next
      case (Cons kv ys)
      let ?body = "join '','' (map member_text kvs) @ CHR ''}'' # r"
      obtain s where body: "?body = QUOTE # s"
        by (cases kv; cases ys) (auto simp: Cons member_text_def json_string_def)
      have "scan_members m ?body = Some (kvs, r)"
        using assms len n shape by (intro scan_members_written) (auto simp: Cons)
      with body assms(2) have "scan (Suc m) (CHR ''{'' # ?body) = Some (JObj kvs, r)"
        by (simp add: skip_ws_head) (simp add: QUOTE_def)
      then show ?thesis by (simp only: shape n) simp
    qed
  qed
  with ok show ?thesis by (simp only: reads_back_def) simp
qed

lemma compact_nonempty: "json_ok j \<Longrightarrow> 0 < length (compact j)"
  using dumps_head [of j compact_separators] by auto

lemma json_ok_reads_back: "json_ok j \<Longrightarrow> reads_back j"
proof (induction j)
  case (JList xs)
  then show ?case by (intro reads_back_list) (auto simp: list_all_iff)
next
  case (JObj kvs)
  then show ?case by (intro reads_back_obj) (auto simp: list_all_iff)
next
  case (JInt i)
  obtain c s where cs: "int_text i = c # s" "is_dec c \<or> c = CHR ''-''" using int_text_head by blast
  then have c: "c \<noteq> QUOTE" "c \<noteq> CHR ''[''" "c \<noteq> CHR ''{''" by (auto simp: is_dec_def QUOTE_def)
  have "scan (Suc m) (int_text i @ r) = Some (JInt i, r)" if "ends_value r" for m r
    using scan_number_written [OF that, of i] scan_literal_int [of i r] c cs(1) by simp
  with cs(1) show ?case by (auto simp: reads_back_def dest!: Suc_le_D)
next
  case (JStr s)
  have "0 < length (json_string s)" by (simp add: json_string_def)
  then obtain m where m: "length (json_string s) = Suc m" using gr0_implies_Suc by blast
  show ?case by (auto simp: reads_back_def scan_string m dest!: Suc_le_D)
qed (auto simp: reads_back_def scan_literal_def literals_def QUOTE_def dest!: Suc_le_D)

lemma dicts_json_ok: "json_ok j \<Longrightarrow> dicts j = j"
proof (induction j)
  case (JList xs)
  then show ?case by (auto simp: list_all_iff intro!: map_idI)
next
  case (JObj kvs)
  then have "map (\<lambda>(k, v). (k, dicts v)) kvs = kvs" by (auto simp: list_all_iff intro!: map_idI)
  with JObj.prems show ?case by (simp add: dict_of_distinct)
qed simp_all

text \<open>\<open>loads\<close> inverts the compact \<open>dumps\<close>, also on a line that a newline ends.\<close>

lemma scan_line:
  assumes "json_ok j" and "w \<in> {[], [CHR 0x0A]}"
  shows "scan_text (compact j @ w) = Some j"
proof -
  have "ends_value w" "skip_ws w = []" using assms(2) by (auto simp: skip_ws_def is_ws_def)
  then have "scan (Suc (length (compact j @ w))) (compact j @ w) = Some (j, w)"
    using json_ok_reads_back [OF assms(1)] unfolding reads_back_def
    by (elim conjE allE [of _ "Suc (length (compact j @ w))"] allE [of _ w]) simp
  moreover have "skip_ws (compact j @ w) = compact j @ w" using skip_ws_dumps [OF assms(1)] by simp
  ultimately show ?thesis using \<open>skip_ws w = []\<close> by (simp add: scan_text_def)
qed

lemma loads_line: "json_ok j \<Longrightarrow> w \<in> {[], [CHR 0x0A]} \<Longrightarrow> loads (compact j @ w) = Some j"
  using scan_line [of j w] dicts_json_ok [of j] by (simp add: loads_def)

lemma loads_compact: "json_ok j \<Longrightarrow> loads (compact j) = Some j"
  using loads_line [of j "[]"] by simp

end
