(* ===== verification/Cursor.thy ===== *)
theory Cursor
  imports Json
begin

text \<open>
  Signed pagination cursors, \<^verbatim>\<open>synapse/cursor.py\<close>, with the URL-safe base64 of Python's
  standard library (its decoder is the lenient one: characters outside the alphabet are
  skipped). HMAC-SHA256 is the parameter \<open>hmac\<close>, from a key and a text to the digest's bytes.
\<close>

section \<open>Base64\<close>

definition b64_char :: "nat \<Rightarrow> char" where
  "b64_char n = char_of (if n < 26 then 65 + n else if n < 52 then 71 + n
     else if n < 62 then n - 4 else if n = 62 then 45 else 95)"

text \<open>\<open>urlsafe_b64decode\<close> maps \<open>-\<close> and \<open>_\<close> to \<open>+\<close> and \<open>/\<close>, and so accepts both.\<close>

definition b64_val :: "char \<Rightarrow> nat option" where
  "b64_val c =
     (let n = (of_char c :: nat) in
      if 65 \<le> n \<and> n \<le> 90 then Some (n - 65)
      else if 97 \<le> n \<and> n \<le> 122 then Some (n - 71)
      else if 48 \<le> n \<and> n \<le> 57 then Some (n + 4)
      else if n = 45 \<or> n = 43 then Some 62
      else if n = 95 \<or> n = 47 then Some 63 else None)"

fun b64_encode :: "nat list \<Rightarrow> string" where
  "b64_encode [] = []"
| "b64_encode [a] = [b64_char (a div 4), b64_char (a mod 4 * 16)]"
| "b64_encode [a, b] =
     [b64_char (a div 4), b64_char (a mod 4 * 16 + b div 16), b64_char (b mod 16 * 4)]"
| "b64_encode (a # b # c # s) =
     [b64_char (a div 4), b64_char (a mod 4 * 16 + b div 16),
      b64_char (b mod 16 * 4 + c div 64), b64_char (c mod 64)] @ b64_encode s"

text \<open>\<open>urlsafe_b64encode(data).rstrip("=")\<close>.\<close>

definition b64url :: "string \<Rightarrow> string" where
  "b64url s = b64_encode (map of_char s)"

text \<open>
  \<open>binascii.a2b_base64\<close> without strict mode: \<open>quad\<close> is the number of characters of the current
  group, \<open>left\<close> the bits not yet written, \<open>pads\<close> the padding seen. \<open>None\<close> is \<open>binascii.Error\<close>.
\<close>

fun a2b :: "nat \<Rightarrow> nat \<Rightarrow> nat \<Rightarrow> string \<Rightarrow> nat list option" where
  "a2b quad left pads [] = (if quad = 0 then Some [] else None)"
| "a2b quad left pads (c # s) =
     (if c = CHR ''='' then
        (if 2 \<le> quad \<and> 4 \<le> quad + pads + 1 then Some []
         else a2b quad left (if 2 \<le> quad then pads + 1 else pads) s)
      else case b64_val c of
          None \<Rightarrow> a2b quad left pads s
        | Some v \<Rightarrow>
            if quad = 0 then a2b 1 v 0 s
            else if quad = 1 then map_option ((#) (left * 4 + v div 16)) (a2b 2 (v mod 16) 0 s)
            else if quad = 2 then map_option ((#) (left * 16 + v div 4)) (a2b 3 (v mod 4) 0 s)
            else map_option ((#) (left * 64 + v)) (a2b 0 0 0 s))"

definition is_ascii :: "string \<Rightarrow> bool" where
  "is_ascii s = list_all (\<lambda>c. (of_char c :: nat) < 128) s"

text \<open>The length is the number of characters; a text that is not ASCII is refused first.\<close>

definition unb64url :: "string \<Rightarrow> exc + string" where
  "unb64url token =
     (let padding = replicate ((4 - length token mod 4) mod 4) (CHR ''='') in
      if \<not> is_ascii token then Inl (ApiError INVALID_ARGUMENT INVALID_ARGUMENT_CURSOR)
      else case a2b 0 0 0 (token @ padding) of
          None \<Rightarrow> Inl (ApiError INVALID_ARGUMENT INVALID_ARGUMENT_CURSOR)
        | Some bs \<Rightarrow> Inr (map char_of bs))"

section \<open>Cursors\<close>

definition CURSOR_VERSION :: int where "CURSOR_VERSION = 1"

definition encode_cursor :: "(string \<Rightarrow> string \<Rightarrow> string) \<Rightarrow> string \<Rightarrow> json \<Rightarrow> string" where
  "encode_cursor hmac key payload =
     (let body_b64 = b64url (dumps compact_separators payload)
      in body_b64 @ ''.'' @ b64url (hmac key body_b64))"

text \<open>
  The signature is checked before the body is read. Encoding the body as ASCII is not guarded:
  a body with another character raises \<open>UnicodeEncodeError\<close>, a \<open>ValueError\<close>.
\<close>

definition decode_cursor ::
    "(string \<Rightarrow> string \<Rightarrow> string) \<Rightarrow> string \<Rightarrow> string \<Rightarrow> exc + json" where
  "decode_cursor hmac key cursor =
     (let bad = ApiError INVALID_ARGUMENT INVALID_ARGUMENT_CURSOR;
          body_b64 = takeWhile (\<lambda>c. c \<noteq> CHR ''.'') cursor;
          rest = dropWhile (\<lambda>c. c \<noteq> CHR ''.'') cursor
      in case rest of
           [] \<Rightarrow> Inl bad
         | _ # signature_b64 \<Rightarrow>
             andthen (require (is_ascii body_b64) ValueError) (\<lambda>_.
             andthen (unb64url signature_b64) (\<lambda>provided.
             andthen (require (hmac key body_b64 = provided) bad) (\<lambda>_.
             andthen (unb64url body_b64) (\<lambda>text.
               case loads text of
                 None \<Rightarrow> Inl bad
               | Some payload \<Rightarrow>
                   (case payload of
                      JObj kvs \<Rightarrow>
                        (case jget payload ''v'' of
                           None \<Rightarrow> Inl bad
                         | Some v \<Rightarrow> if json_eq v (JInt CURSOR_VERSION) then Inr payload
                             else Inl bad)
                    | _ \<Rightarrow> Inl bad))))))"

definition build_payload ::
    "string \<Rightarrow> string \<Rightarrow> string \<Rightarrow> string \<Rightarrow> json option \<Rightarrow> json option \<Rightarrow> json" where
  "build_payload command username boundary order position filters =
     JObj ([(''v'', JInt CURSOR_VERSION), (''cmd'', JStr command), (''user'', JStr username),
        (''boundary'', JStr boundary), (''sort'', JStr order)]
       @ (case filters of None \<Rightarrow> [] | Some f \<Rightarrow> [(''filters'', f)])
       @ (case position of None \<Rightarrow> [] | Some l \<Rightarrow> [(''last'', l)]))"

definition is_str :: "json option \<Rightarrow> string \<Rightarrow> bool" where
  "is_str j s = (case j of None \<Rightarrow> False | Some v \<Rightarrow> json_eq v (JStr s))"

definition validate_cursor_binding ::
    "json \<Rightarrow> string \<Rightarrow> string \<Rightarrow> string \<Rightarrow> json \<Rightarrow> exc + unit" where
  "validate_cursor_binding payload command username order filters =
     andthen (require (is_str (jget payload ''cmd'') command)
         (ApiError INVALID_ARGUMENT INVALID_ARGUMENT_CURSOR_COMMAND)) (\<lambda>_.
     andthen (require (is_str (jget payload ''user'') username)
         (ApiError INVALID_ARGUMENT INVALID_ARGUMENT_CURSOR_AGENT)) (\<lambda>_.
     andthen (require (is_str (jget payload ''sort'') order)
         (ApiError INVALID_ARGUMENT INVALID_ARGUMENT_CURSOR_SORT)) (\<lambda>_.
     require (case jget payload ''filters'' of None \<Rightarrow> False | Some f \<Rightarrow> json_eq f filters)
         (ApiError INVALID_ARGUMENT INVALID_ARGUMENT_CURSOR_FILTERS))))"

section \<open>Positions\<close>

text \<open>
  \<open>Service._pagination\<close>: the position and the boundary of a request, from its cursor or,
  on a first page, none and the present instant. A payload that passed the checks was written
  by \<open>next_cursor\<close>; reading a missing or mistyped field of another one raises.
\<close>

definition str_items :: "json \<Rightarrow> exc + string list" where
  "str_items j = (case j of
     JList xs \<Rightarrow> map_exc (\<lambda>x. case x of JStr s \<Rightarrow> Inr s | _ \<Rightarrow> Inl ValueError) xs
   | _ \<Rightarrow> Inl ValueError)"

definition pagination ::
    "(string \<Rightarrow> string \<Rightarrow> string) \<Rightarrow> string \<Rightarrow> string \<Rightarrow> string option \<Rightarrow> string \<Rightarrow> string \<Rightarrow> string
     \<Rightarrow> json \<Rightarrow> exc + (string list option \<times> string)" where
  "pagination hmac key now cursor username command order filters =
     (case cursor of
        None \<Rightarrow> Inr (None, now)
      | Some c \<Rightarrow>
          andthen (decode_cursor hmac key c) (\<lambda>payload.
          andthen (validate_cursor_binding payload command username order filters) (\<lambda>_.
          case jget payload ''boundary'' of
            Some (JStr boundary) \<Rightarrow>
              (case jget payload ''last'' of
                 None \<Rightarrow> Inr (None, boundary)
               | Some l \<Rightarrow> if l = JNull \<or> l = JList [] then Inr (None, boundary)
                   else andthen (str_items l) (\<lambda>xs. Inr (Some xs, boundary)))
          | _ \<Rightarrow> Inl KeyError)))"

definition next_cursor ::
    "(string \<Rightarrow> string \<Rightarrow> string) \<Rightarrow> string \<Rightarrow> string \<Rightarrow> string \<Rightarrow> string \<Rightarrow> json \<Rightarrow> string
     \<Rightarrow> string list \<Rightarrow> string" where
  "next_cursor hmac key username command order filters boundary position =
     encode_cursor hmac key
       (build_payload command username boundary order (Some (JList (map JStr position))) (Some filters))"

section \<open>Base64 round trip\<close>

lemma b64_val_char: "n < 64 \<Longrightarrow> b64_val (b64_char n) = Some n"
  by (auto simp: b64_val_def b64_char_def Let_def)

lemma b64_char_ascii: "n < 64 \<Longrightarrow> (of_char (b64_char n) :: nat) < 128"
  by (auto simp: b64_char_def)

lemma b64_char_not: "n < 64 \<Longrightarrow> b64_char n \<noteq> CHR ''='' \<and> b64_char n \<noteq> CHR ''.''"
  by (auto simp: b64_char_def dest!: arg_cong [where f = "of_char :: char \<Rightarrow> nat"])


lemma a2b_step:
  assumes "v < 64"
  shows "a2b 0 left pads (b64_char v # s) = a2b 1 v 0 s"
    and "a2b (Suc 0) left pads (b64_char v # s) = map_option ((#) (left * 4 + v div 16)) (a2b 2 (v mod 16) 0 s)"
    and "a2b 2 left pads (b64_char v # s) = map_option ((#) (left * 16 + v div 4)) (a2b 3 (v mod 4) 0 s)"
    and "a2b 3 left pads (b64_char v # s) = map_option ((#) (left * 64 + v)) (a2b 0 0 0 s)"
  using b64_char_not [OF assms] b64_val_char [OF assms] by simp_all

declare a2b.simps [simp del]

lemma a2b_end: "a2b 0 l p [] = Some []" "a2b 2 l 0 ''=='' = Some []" "a2b 3 l 0 ''='' = Some []"
  by (simp_all add: a2b.simps)

definition b64_pad :: "nat \<Rightarrow> string" where
  "b64_pad n = replicate ((4 - n mod 4) mod 4) (CHR ''='')"

lemma b64_pad_simps:
  "b64_pad 0 = []" "b64_pad 2 = ''==''" "b64_pad 3 = ''=''" "b64_pad (4 + n) = b64_pad n"
  by (simp_all add: b64_pad_def numeral_2_eq_2)

lemma bits6:
  fixes a b :: nat
  shows "a < 256 \<Longrightarrow> a div 4 < 64" "a mod 4 * 16 < 64" "b < 256 \<Longrightarrow> a mod 4 * 16 + b div 16 < 64"
    "a mod 16 * 4 < 64" "b < 256 \<Longrightarrow> a mod 16 * 4 + b div 64 < 64" "a mod 64 < 64"
proof -
  have m: "a mod 4 < 4" "a mod 16 < 16" "a mod 64 < 64" by simp_all
  then show "a mod 4 * 16 < 64" "a mod 16 * 4 < 64" "a mod 64 < 64" by linarith+
  show "a < 256 \<Longrightarrow> a div 4 < 64" by auto
  assume "b < 256"
  then have "b div 16 < 16" "b div 64 < 4" by auto
  with m show "a mod 4 * 16 + b div 16 < 64" "a mod 16 * 4 + b div 64 < 64" by linarith+
qed

lemma unpack:
  fixes a b c :: nat
  shows "a div 4 * 4 + a mod 4 * 16 div 16 = a"
    and "b < 256 \<Longrightarrow> a div 4 * 4 + (a mod 4 * 16 + b div 16) div 16 = a"
    and "b < 256 \<Longrightarrow> (a mod 4 * 16 + b div 16) mod 16 * 16 + b mod 16 * 4 div 4 = b"
    and "b < 256 \<Longrightarrow> c < 256 \<Longrightarrow>
      (a mod 4 * 16 + b div 16) mod 16 * 16 + (b mod 16 * 4 + c div 64) div 4 = b"
    and "c < 256 \<Longrightarrow> (b mod 16 * 4 + c div 64) mod 4 * 64 + c mod 64 = c"
proof -
  have m: "(a mod 4 * 16 + b div 16) div 16 = a mod 4" "(a mod 4 * 16 + b div 16) mod 16 = b div 16"
    if "b < 256"
  proof -
    have "b div 16 < 16" using that by auto
    then show "(a mod 4 * 16 + b div 16) div 16 = a mod 4" "(a mod 4 * 16 + b div 16) mod 16 = b div 16"
      by simp_all
  qed
  have n: "(b mod 16 * 4 + c div 64) div 4 = b mod 16" "(b mod 16 * 4 + c div 64) mod 4 = c div 64"
    if "c < 256"
  proof -
    have "c div 64 < 4" using that by auto
    then show "(b mod 16 * 4 + c div 64) div 4 = b mod 16" "(b mod 16 * 4 + c div 64) mod 4 = c div 64"
      by simp_all
  qed
  show "a div 4 * 4 + a mod 4 * 16 div 16 = a" by simp
  show "b < 256 \<Longrightarrow> a div 4 * 4 + (a mod 4 * 16 + b div 16) div 16 = a"
    "b < 256 \<Longrightarrow> (a mod 4 * 16 + b div 16) mod 16 * 16 + b mod 16 * 4 div 4 = b"
    by (simp_all only: m) simp_all
  show "b < 256 \<Longrightarrow> c < 256 \<Longrightarrow>
      (a mod 4 * 16 + b div 16) mod 16 * 16 + (b mod 16 * 4 + c div 64) div 4 = b"
    "c < 256 \<Longrightarrow> (b mod 16 * 4 + c div 64) mod 4 * 64 + c mod 64 = c"
    by (simp_all only: m n) simp_all
qed

lemma nibbles:
  fixes b :: nat
  assumes "b < 256"
  shows "b div 16 div 16 = 0" "b div 16 mod 16 = b div 16" "b div 64 div 4 = 0" "b div 64 mod 4 = b div 64"
proof -
  have "b div 16 < 16" "b div 64 < 4" using assms by auto
  then show "b div 16 div 16 = 0" "b div 16 mod 16 = b div 16" "b div 64 div 4 = 0" "b div 64 mod 4 = b div 64"
    by (simp_all only: div_less mod_less)
qed

lemma a2b_encode:
  "list_all (\<lambda>b. b < 256) bs \<Longrightarrow> a2b 0 0 0 (b64_encode bs @ b64_pad (length (b64_encode bs))) = Some bs"
proof (induction bs rule: b64_encode.induct)
  case 1
  then show ?case by (simp add: b64_pad_simps a2b_end)
next
  case (2 a)
  then have "a2b 0 0 0 (b64_encode [a] @ ''=='') = Some [a]"
    by (simp add: a2b_step bits6 unpack nibbles a2b_end)
  then show ?case by (simp add: b64_pad_simps numeral_2_eq_2 [symmetric])
next
  case (3 a b)
  then have "a2b 0 0 0 (b64_encode [a, b] @ ''='') = Some [a, b]"
    by (simp add: a2b_step bits6 unpack nibbles a2b_end)
  then show ?case by (simp add: b64_pad_simps numeral_3_eq_3 [symmetric])
next
  case (4 a b c s)
  have "length (b64_encode (a # b # c # s)) = 4 + length (b64_encode s)" by simp
  moreover have "a2b 0 0 0 (b64_encode (a # b # c # s) @ t) =
      map_option (\<lambda>bs. a # b # c # bs) (a2b 0 0 0 (b64_encode s @ t))" for t
    using 4 by (simp add: a2b_step bits6 unpack nibbles
        option.map_comp comp_def)
  ultimately show ?case using 4 by (simp only: b64_pad_simps) simp
qed

lemma b64_encode_chars:
  "list_all (\<lambda>b. b < 256) bs \<Longrightarrow>
     list_all (\<lambda>c. (of_char c :: nat) < 128 \<and> c \<noteq> CHR ''.'') (b64_encode bs)"
  by (induction bs rule: b64_encode.induct)
    (auto simp: b64_char_ascii b64_char_not bits6)

lemma bytes_ok: "list_all (\<lambda>b. b < 256) (map of_char s :: nat list)"
  by (induction s) auto

lemma b64url_chars:
  "is_ascii (b64url s)" "CHR ''.'' \<notin> set (b64url s)"
  using b64_encode_chars [OF bytes_ok [of s]]
  by (auto simp: b64url_def is_ascii_def list_all_iff)

lemma unb64url_b64url: "unb64url (b64url s) = Inr s"
  using a2b_encode [OF bytes_ok [of s]] b64url_chars(1) [of s]
  by (simp add: unb64url_def Let_def b64_pad_def b64url_def comp_def)

section \<open>Facts about cursors\<close>

lemma take_drop_dot:
  "CHR ''.'' \<notin> set a \<Longrightarrow> takeWhile (\<lambda>c. c \<noteq> CHR ''.'') (a @ CHR ''.'' # b) = a"
  "CHR ''.'' \<notin> set a \<Longrightarrow> dropWhile (\<lambda>c. c \<noteq> CHR ''.'') (a @ CHR ''.'' # b) = CHR ''.'' # b"
  by (induction a) auto

lemma decode_encode_cursor:
  assumes "json_ok payload" and "jget payload ''v'' = Some (JInt CURSOR_VERSION)"
  shows "decode_cursor hmac key (encode_cursor hmac key payload) = Inr payload"
proof -
  obtain kvs where p: "payload = JObj kvs" using assms(2) by (cases payload) auto
  have "loads (compact (JObj kvs)) = Some (JObj kvs)" using assms(1) unfolding p by (rule loads_compact)
  moreover have "map_of kvs ''v'' = Some (JInt CURSOR_VERSION)" using assms(2) by (simp add: p)
  ultimately show ?thesis
    by (simp add: decode_cursor_def encode_cursor_def Let_def take_drop_dot b64url_chars
        unb64url_b64url p del: dumps.simps)
qed

lemma strings_ok: "list_all json_ok (map JStr xs)"
  by (induction xs) auto

lemma build_payload_ok:
  "json_ok filters \<Longrightarrow> json_ok (build_payload c u b srt (Some (JList (map JStr pos))) (Some filters))"
  using strings_ok by (simp add: build_payload_def)

lemma map_exc_strings: "map_exc (\<lambda>x. case x of JStr s \<Rightarrow> Inr s | _ \<Rightarrow> Inl ValueError) (map JStr xs) = Inr xs"
  by (induction xs) auto

text \<open>A dict equals itself when its keys are distinct.\<close>

lemma json_eq_refl: "json_ok j \<Longrightarrow> json_eq j j"
proof (induction j)
  case (JList xs)
  then show ?case by (auto simp: list_all_iff list_all2_conv_all_nth)
next
  case (JObj kvs)
  then have "json_eq v v" if "(k, v) \<in> set kvs" for k v
    using that by (fastforce simp: list_all_iff)
  with JObj.prems show ?case by (auto simp: list_all_iff)
qed auto

text \<open>The cursor a page gives out takes the same request back to its position and boundary.\<close>

lemma pagination_next_cursor:
  assumes "json_ok filters" and "pos \<noteq> []"
  shows "pagination hmac key now (Some (next_cursor hmac key u c srt filters boundary pos))
    u c srt filters = Inr (Some pos, boundary)"
proof -
  let ?p = "build_payload c u boundary srt (Some (JList (map JStr pos))) (Some filters)"
  have "decode_cursor hmac key (next_cursor hmac key u c srt filters boundary pos) = Inr ?p"
    unfolding next_cursor_def
    by (rule decode_encode_cursor) (rule build_payload_ok [OF assms(1)], simp add: build_payload_def)
  moreover have "validate_cursor_binding ?p c u srt filters = Inr ()"
    using json_eq_refl [OF assms(1)]
    by (simp add: validate_cursor_binding_def build_payload_def is_str_def)
  moreover have "jget ?p ''boundary'' = Some (JStr boundary)"
    "jget ?p ''last'' = Some (JList (map JStr pos))"
    by (simp_all add: build_payload_def)
  ultimately show ?thesis
    using assms(2) by (simp add: pagination_def str_items_def map_exc_strings)
qed

text \<open>What a decoded cursor carries was signed with the key.\<close>

lemma decode_cursor_signed:
  assumes "decode_cursor hmac key cursor = Inr payload"
  shows "\<exists>body sig txt. cursor = body @ ''.'' @ sig \<and> unb64url sig = Inr (hmac key body)
    \<and> unb64url body = Inr txt \<and> loads txt = Some payload"
proof -
  let ?body = "takeWhile (\<lambda>c. c \<noteq> CHR ''.'') cursor"
  let ?rest = "dropWhile (\<lambda>c. c \<noteq> CHR ''.'') cursor"
  obtain x sig where rest: "?rest = x # sig"
    using assms by (cases ?rest) (auto simp: decode_cursor_def Let_def)
  have "x = CHR ''.''" using hd_dropWhile [of "\<lambda>c. c \<noteq> CHR ''.''" cursor] rest by simp
  then have "cursor = ?body @ ''.'' @ sig"
    using takeWhile_dropWhile_id [of "\<lambda>c. c \<noteq> CHR ''.''" cursor] rest by simp
  moreover from assms rest obtain jt where "unb64url sig = Inr (hmac key ?body)"
    "unb64url ?body = Inr jt" and last_check: "(case loads jt of
        None \<Rightarrow> Inl (ApiError INVALID_ARGUMENT INVALID_ARGUMENT_CURSOR)
      | Some payload \<Rightarrow> (case payload of
          JObj kvs \<Rightarrow> (case jget payload ''v'' of
              None \<Rightarrow> Inl (ApiError INVALID_ARGUMENT INVALID_ARGUMENT_CURSOR)
            | Some v \<Rightarrow> if json_eq v (JInt CURSOR_VERSION) then Inr payload
                else Inl (ApiError INVALID_ARGUMENT INVALID_ARGUMENT_CURSOR))
        | _ \<Rightarrow> Inl (ApiError INVALID_ARGUMENT INVALID_ARGUMENT_CURSOR))) = Inr payload"
    by (simp add: decode_cursor_def Let_def exc_simps del: jget.simps) blast
  moreover have "loads jt = Some payload"
  proof (cases "loads jt")
    case (Some j)
    with last_check show ?thesis by (cases j) (auto split: option.splits if_splits)
  qed (use last_check in simp)
  ultimately show ?thesis by blast
qed

lemma decode_cursor_body_not_ascii:
  assumes "\<not> is_ascii body" and "CHR ''.'' \<notin> set body"
  shows "decode_cursor hmac key (body @ ''.'' @ sig) = Inl ValueError"
  using assms by (simp add: decode_cursor_def Let_def take_drop_dot)

end
