(* ===== verification/World.thy ===== *)
theory World
  imports Accounts Cursor
begin

text \<open>
  What a request reads from outside the database (\<open>env\<close>), the server's configuration, the
  state of the process \<open>Service\<close> (\<^verbatim>\<open>synapse/service.py\<close>) with its causal clock, and the
  two transaction brackets of \<^verbatim>\<open>synapse/db.py\<close>. A request sees one instant: its calls
  of \<open>now_utc()\<close> return the same text. Cryptography (Argon2id, SHA-256, HMAC) and \<open>uuid4\<close>
  are functions of the environment.
\<close>

record env =
  now :: string
  ago :: "int \<Rightarrow> string"
  fresh :: "nat \<Rightarrow> string"
  first :: "string \<Rightarrow> string \<Rightarrow> bool"
  physical :: int
  monotonic :: int
  verify_hash :: "string \<Rightarrow> string \<Rightarrow> bool"
  hash_pw :: "string \<Rightarrow> string"
  sentinel :: string
  sha256 :: "string \<Rightarrow> string"
  hmac :: "string \<Rightarrow> string \<Rightarrow> string"
  cursor_key :: string

record config =
  auth_max_failures :: nat
  auth_window_seconds :: int
  auth_cache_ttl_seconds :: int
  event_retention_days :: int
  clock_skew_ms :: int

type_synonym auth_cache = "(string \<times> (string \<times> string \<times> int)) list"

record service =
  db :: database
  clock :: "hlc option"
  cache :: auth_cache
  web_token :: "string option"
  requests_total :: nat
  started_at :: int

section \<open>The process clock\<close>

text \<open>\<open>_build_clock\<close>: rehydration from the largest stamp the committed database holds.\<close>

definition build_clock :: "service \<Rightarrow> exc + hlc" where
  "build_clock s = hlc_init (map_option cps (max_hlc (db s)))"

text \<open>\<open>_stamp\<close>: the clock is created on first use; it advances even when encoding fails.\<close>

definition service_stamp :: "config \<Rightarrow> env \<Rightarrow> service \<Rightarrow> (exc + string) \<times> service" where
  "service_stamp cfg e s =
     (case (case clock s of Some k \<Rightarrow> Inr k | None \<Rightarrow> build_clock s) of
        Inl err \<Rightarrow> (Inl err, s)
      | Inr k \<Rightarrow> (let (r, k') = stamp (physical e + clock_skew_ms cfg) k
                  in (r, s\<lparr>clock := Some k'\<rparr>)))"

section \<open>Transactions\<close>

text \<open>
  \<open>with db.begin_immediate(conn)\<close>: commit on a normal exit, roll back on an exception. The
  second bracket is the one whose first statement is \<open>hlc = service._stamp()\<close>.
\<close>

definition write_txn ::
    "(database \<Rightarrow> exc + ('a \<times> database)) \<Rightarrow> service \<Rightarrow> (exc + 'a) \<times> service" where
  "write_txn body s =
     (case body (db s) of Inl err \<Rightarrow> (Inl err, s) | Inr (x, d) \<Rightarrow> (Inr x, s\<lparr>db := d\<rparr>))"

definition stamped_txn ::
    "config \<Rightarrow> env \<Rightarrow> (string \<Rightarrow> database \<Rightarrow> exc + ('a \<times> database)) \<Rightarrow> service
     \<Rightarrow> (exc + 'a) \<times> service" where
  "stamped_txn cfg e body s =
     (case service_stamp cfg e s of
        (Inl err, s') \<Rightarrow> (Inl err, s')
      | (Inr hlc, s') \<Rightarrow> write_txn (body hlc) s')"

definition read_txn :: "(database \<Rightarrow> exc + 'a) \<Rightarrow> service \<Rightarrow> (exc + 'a) \<times> service" where
  "read_txn body s = (body (db s), s)"

section \<open>Facts\<close>

lemma service_stamp_db [simp]: "db (snd (service_stamp cfg e s)) = db s"
  by (simp add: service_stamp_def Let_def split: sum.split prod.split)

lemma write_txn_cases:
  obtains err where "body (db s) = Inl err" "write_txn body s = (Inl err, s)"
  | x d where "body (db s) = Inr (x, d)" "write_txn body s = (Inr x, s\<lparr>db := d\<rparr>)"
  by (cases "body (db s)") (auto simp: write_txn_def)

text \<open>A transaction changes the database only by its body's committed result.\<close>

lemma write_txn_invariant:
  assumes "P (db s)" and "\<And>x d'. body (db s) = Inr (x, d') \<Longrightarrow> P d'"
  shows "P (db (snd (write_txn body s)))"
  by (cases rule: write_txn_cases [of body s]) (use assms in auto)

lemma stamped_txn_invariant:
  assumes "P (db s)" and "\<And>h x d'. body h (db s) = Inr (x, d') \<Longrightarrow> P d'"
  shows "P (db (snd (stamped_txn cfg e body s)))"
proof (cases "service_stamp cfg e s")
  case (Pair r s')
  have same: "db s' = db s" using service_stamp_db [of cfg e s] Pair by simp
  show ?thesis
  proof (cases r)
    case (Inl err)
    with Pair same assms(1) show ?thesis by (simp add: stamped_txn_def)
  next
    case (Inr h)
    have "P (db (snd (write_txn (body h) s')))"
      by (rule write_txn_invariant) (use assms same in auto)
    with Pair Inr show ?thesis by (simp add: stamped_txn_def)
  qed
qed

lemma read_txn_db [simp]: "db (snd (read_txn body s)) = db s"
  by (simp add: read_txn_def)

section \<open>A small concrete world\<close>

text \<open>
  An environment and a database with two organizations, for closed instances of the theorems:
  \<open>acme\<close> (no external traffic) with the agents \<open>alice\<close> and \<open>bob\<close> and its human account, and
  \<open>beta\<close> (open) with the agent \<open>carol\<close>. A password hash is the password.
\<close>

definition plain_env :: env where
  "plain_env = \<lparr>now = ''2026-01-01T12:00:00.000Z'', ago = (\<lambda>_. ''2026-01-01T11:00:00.000Z''),
     fresh = (\<lambda>n. ''id-'' @ replicate (Suc n) (CHR ''x'')), first = (\<lambda>a b. a < b),
     physical = 7, monotonic = 0, verify_hash = (\<lambda>h p. h = p), hash_pw = (\<lambda>p. p),
     sentinel = ''!'', sha256 = (\<lambda>s. s), hmac = (\<lambda>k t. k @ t), cursor_key = ''key''\<rparr>"

definition plain_config :: config where
  "plain_config = \<lparr>auth_max_failures = 2, auth_window_seconds = 900,
     auth_cache_ttl_seconds = 300, event_retention_days = 30, clock_skew_ms = 0\<rparr>"

definition plain_org :: "string \<Rightarrow> bool \<Rightarrow> organization_row" where
  "plain_org n opn = \<lparr>org_name = n, org_password_hash = n @ ''-password'', org_incoming = opn,
     org_outgoing = opn, org_created_at = ''2025-01-01T00:00:00.000Z'', org_enabled = True\<rparr>"

definition plain_account :: "string \<Rightarrow> string \<Rightarrow> principal_type \<Rightarrow> account_row" where
  "plain_account n org pt = \<lparr>acc_username = n, acc_password_hash = n @ ''-password'',
     acc_status = Active, acc_description = ''agent'', acc_org = org, acc_can_see = True,
     acc_created_at = ''2025-01-01T00:00:00.000Z'', acc_principal = pt, acc_observer = False\<rparr>"

definition plain_db :: database where
  "plain_db = empty_db\<lparr>
     organizations := [plain_org ''acme'' False, plain_org ''beta'' True],
     accounts := [plain_account ''alice'' ''acme'' Agent, plain_account ''bob'' ''acme'' Agent,
       plain_account ''carol'' ''beta'' Agent, plain_account ''acme_humain'' ''acme'' Human]\<rparr>"

definition plain_service :: service where
  "plain_service = \<lparr>db = plain_db, clock = None, cache = [], web_token = Some ''token'',
     requests_total = 0, started_at = 0\<rparr>"

end
