(* ===== verification/Auth.thy ===== *)
theory Auth
  imports World
begin

text \<open>
  Authentication, \<^verbatim>\<open>Service._authenticate\<close> and its relatives in
  \<^verbatim>\<open>synapse/service.py\<close>: the cache of successful verifications, the local trust token of
  the web interface, the lockout over a sliding window. The failure journal is written outside
  any transaction, so it keeps what a refused request recorded.
\<close>

section \<open>The web token\<close>

text \<open>
  \<open>hmac.compare_digest\<close> on two \<open>str\<close> raises \<open>TypeError\<close> when one is not ASCII.
\<close>

definition web_token_matches :: "service \<Rightarrow> string \<Rightarrow> exc + bool" where
  "web_token_matches s password =
     (case web_token s of
        None \<Rightarrow> Inr False
      | Some t \<Rightarrow> if is_ascii password \<and> is_ascii t then Inr (password = t)
          else Inl TypeError)"

section \<open>The cache\<close>

definition MAX_AUTH_CACHE_ENTRIES :: nat where "MAX_AUTH_CACHE_ENTRIES = 2048"

definition prune_auth_cache :: "env \<Rightarrow> auth_cache \<Rightarrow> auth_cache" where
  "prune_auth_cache e c = filter (\<lambda>(k, (h, dg, expiry)). \<not> expiry \<le> monotonic e) c"

definition cached_password_ok ::
    "config \<Rightarrow> env \<Rightarrow> string \<Rightarrow> string \<Rightarrow> string \<Rightarrow> service \<Rightarrow> bool \<times> service" where
  "cached_password_ok cfg e key password_hash password s =
     (let dg = sha256 e password;
          hit = (case map_of (cache s) key of
                   None \<Rightarrow> False
                 | Some (h, g, expiry) \<Rightarrow> h = password_hash \<and> g = dg \<and> monotonic e < expiry)
      in if hit then (True, s)
         else if verify_hash e password_hash password then
           (let c = (if MAX_AUTH_CACHE_ENTRIES \<le> length (cache s)
                     then prune_auth_cache e (cache s) else cache s)
            in (True, s\<lparr>cache := AList.update key
                  (password_hash, dg, monotonic e + auth_cache_ttl_seconds cfg) c\<rparr>))
         else (False, s))"

section \<open>Agents and humans\<close>

definition WEB_LOCAL :: string where "WEB_LOCAL = ''_web_local''"

definition with_db :: "(database \<Rightarrow> database) \<Rightarrow> service \<Rightarrow> service" where
  "with_db f s = s\<lparr>db := f (db s)\<rparr>"

text \<open>\<open>authfail.record(conn, name); raise ApiError(AUTH_FAILED)\<close>.\<close>

definition auth_refused :: "env \<Rightarrow> string \<Rightarrow> service \<Rightarrow> (exc + 'a) \<times> service" where
  "auth_refused e name s =
     (Inl (ApiError AUTH_FAILED Default), with_db (authfail_record name (now e)) s)"

text \<open>
  The last step, on an active account of an enabled organization: a human is checked against
  the password of the organization (or the web token), an agent against its own.
\<close>

definition check_account ::
    "config \<Rightarrow> env \<Rightarrow> string \<Rightarrow> account_row \<Rightarrow> organization_row \<Rightarrow> string \<Rightarrow> service
     \<Rightarrow> (exc + (string \<times> account_row option)) \<times> service" where
  "check_account cfg e username row org_row password s =
     (if acc_principal row = Human then
        (case cached_password_ok cfg e username (org_password_hash org_row) password s of
           (ok, s2) \<Rightarrow>
             (case (if ok then Inr True else web_token_matches s2 password) of
                Inl err \<Rightarrow> (Inl err, s2)
              | Inr matched \<Rightarrow>
                  if \<not> matched then auth_refused e username s2
                  else (Inr (username, Some row), with_db (authfail_clear username) s2)))
      else
        (case cached_password_ok cfg e username (acc_password_hash row) password s of
           (ok, s2) \<Rightarrow>
             if \<not> ok then auth_refused e username s2
             else (Inr (username, Some row), with_db (authfail_clear username) s2)))"

definition authenticate ::
    "config \<Rightarrow> env \<Rightarrow> string \<Rightarrow> string \<Rightarrow> service
     \<Rightarrow> (exc + (string \<times> account_row option)) \<times> service" where
  "authenticate cfg e name_raw password s =
     (let username = lower name_raw; cutoff = ago e (auth_window_seconds cfg) in
      if username = WEB_LOCAL then
        (case web_token_matches s password of
           Inl err \<Rightarrow> (Inl err, s)
         | Inr matched \<Rightarrow>
             if matched then (Inr (WEB_LOCAL, None), with_db (authfail_clear username) s)
             else auth_refused e username s)
      else
        let s1 = with_db (authfail_prune cutoff) s in
        if auth_max_failures cfg \<le> count_recent (db s1) username cutoff
        then (Inl (ApiError AUTH_FAILED AUTH_FAILED_TOO_MANY), s1)
        else case accounts_get (db s1) username of
            None \<Rightarrow> auth_refused e username s1
          | Some row \<Rightarrow>
              if acc_status row \<noteq> Active then auth_refused e username s1
              else (case organizations_get (db s1) (acc_org row) of
                  None \<Rightarrow> auth_refused e username s1
                | Some org_row \<Rightarrow>
                    if \<not> org_enabled org_row then auth_refused e username s1
                    else check_account cfg e username row org_row password s1))"

section \<open>Organizations\<close>

definition authenticate_organization ::
    "config \<Rightarrow> env \<Rightarrow> string \<Rightarrow> string \<Rightarrow> service \<Rightarrow> (exc + string) \<times> service" where
  "authenticate_organization cfg e name_raw password s =
     (let org_name = lower name_raw; key = ''org:'' @ org_name;
          cutoff = ago e (auth_window_seconds cfg);
          s1 = with_db (authfail_prune cutoff) s in
      if auth_max_failures cfg \<le> count_recent (db s1) key cutoff
      then (Inl (ApiError AUTH_FAILED AUTH_FAILED_TOO_MANY), s1)
      else case organizations_get (db s1) org_name of
          Some row \<Rightarrow>
            if \<not> org_enabled row then auth_refused e key s1
            else (case cached_password_ok cfg e key (org_password_hash row) password s1 of
               (True, s2) \<Rightarrow> (Inr org_name, with_db (authfail_clear key) s2)
             | (False, s2) \<Rightarrow>
                 (case web_token_matches s2 password of
                    Inl err \<Rightarrow> (Inl err, s2)
                  | Inr True \<Rightarrow> (Inr org_name, with_db (authfail_clear key) s2)
                  | Inr False \<Rightarrow> auth_refused e key s2))
        | None \<Rightarrow>
            if accounts_get (db s1) org_name \<noteq> None
            then (Inl (ApiError ACCESS_DENIED ACCESS_DENIED_ORG_COMMANDS), s1)
            else auth_refused e key s1)"

section \<open>Facts\<close>

lemma with_db_simps [simp]:
  "db (with_db f s) = f (db s)" "cache (with_db f s) = cache s"
  "web_token (with_db f s) = web_token s" "clock (with_db f s) = clock s"
  by (simp_all add: with_db_def)

lemma cached_password_frame [simp]:
  "db (snd (cached_password_ok cfg e k h p s)) = db s"
  "web_token (snd (cached_password_ok cfg e k h p s)) = web_token s"
  "clock (snd (cached_password_ok cfg e k h p s)) = clock s"
  by (simp_all add: cached_password_ok_def Let_def)

lemma cached_password_same:
  "cache s = cache s' \<Longrightarrow>
     fst (cached_password_ok cfg e k h p s) = fst (cached_password_ok cfg e k h p s')"
  by (simp add: cached_password_ok_def Let_def split: if_split)

text \<open>Every cache entry comes from a verification that succeeded.\<close>

definition cache_ok :: "env \<Rightarrow> auth_cache \<Rightarrow> bool" where
  "cache_ok e c = (\<forall>(k, (h, g, t)) \<in> set c. \<exists>p. sha256 e p = g \<and> verify_hash e h p)"

lemma set_alist_update: "set (AList.update k v c) \<subseteq> insert (k, v) (set c)"
  by (induction c) auto

lemma cache_ok_update:
  "cache_ok e c \<Longrightarrow> verify_hash e h p \<Longrightarrow> cache_ok e (AList.update k (h, sha256 e p, t) c)"
  using set_alist_update [of k "(h, sha256 e p, t)" c] by (fastforce simp: cache_ok_def)

lemma cache_ok_prune: "cache_ok e c \<Longrightarrow> cache_ok e (prune_auth_cache e c)"
  by (auto simp: cache_ok_def prune_auth_cache_def)

lemma cached_password_cache_ok:
  "cache_ok e (cache s) \<Longrightarrow> cache_ok e (cache (snd (cached_password_ok cfg e k h p s)))"
  by (auto simp: cached_password_ok_def Let_def cache_ok_update cache_ok_prune)

lemma cached_password_sound:
  assumes "fst (cached_password_ok cfg e k h p s)" and "cache_ok e (cache s)"
    and "\<And>q. sha256 e q = sha256 e p \<Longrightarrow> q = p"
  shows "verify_hash e h p"
proof (cases "verify_hash e h p")
  case False
  with assms(1) obtain t where "(k, (h, sha256 e p, t)) \<in> set (cache s)"
    by (auto simp: cached_password_ok_def Let_def split: if_splits option.splits dest!: map_of_SomeD)
  then obtain q where "sha256 e q = sha256 e p" "verify_hash e h q"
    using assms(2) by (auto simp: cache_ok_def)
  moreover from this(1) have "q = p" by (rule assms(3))
  ultimately show ?thesis by simp
qed

definition auth_cutoff :: "config \<Rightarrow> env \<Rightarrow> string" where
  "auth_cutoff cfg e = ago e (auth_window_seconds cfg)"

lemma accounts_get_authfail [simp]:
  "accounts_get (authfail_prune c d) u = accounts_get d u"
  "accounts_get (authfail_record n t d) u = accounts_get d u"
  "accounts_get (authfail_clear n d) u = accounts_get d u"
  "organizations_get (authfail_prune c d) g = organizations_get d g"
  "organizations_get (authfail_record n t d) g = organizations_get d g"
  "organizations_get (authfail_clear n d) g = organizations_get d g"
  by (simp_all add: accounts_get_def organizations_get_def authfail_prune_def authfail_record_def
      authfail_clear_def)

text \<open>The password that opened the account, by the kind of the account.\<close>

definition proves :: "env \<Rightarrow> service \<Rightarrow> account_row \<Rightarrow> organization_row \<Rightarrow> string \<Rightarrow> bool" where
  "proves e s row org password =
     (if acc_principal row = Human
      then verify_hash e (org_password_hash org) password \<or> web_token s = Some password
      else verify_hash e (acc_password_hash row) password)"

lemma web_token_matches_True:
  "web_token_matches s p = Inr True \<Longrightarrow> web_token s = Some p"
  by (auto simp: web_token_matches_def split: option.splits if_splits)

lemma cached_password_result:
  assumes "cached_password_ok cfg e k h p s1 = (b, s2)" and "cache_ok e (cache s1)"
    and "\<And>q. sha256 e q = sha256 e p \<Longrightarrow> q = p"
  shows "b \<Longrightarrow> verify_hash e h p" and "web_token s2 = web_token s1" and "db s2 = db s1"
    and "cache_ok e (cache s2)"
  using assms cached_password_sound [OF _ assms(2,3), of cfg k h]
    cached_password_frame [of cfg e k h p s1] cached_password_cache_ok [OF assms(2), of cfg k h p]
  by simp_all

lemma check_account_Inr:
  assumes "check_account cfg e n row org p s1 = (Inr (u, r), s')" and "cache_ok e (cache s1)"
    and "\<And>q. sha256 e q = sha256 e p \<Longrightarrow> q = p"
  shows "u = n \<and> r = Some row \<and> proves e s1 row org p \<and> cache_ok e (cache s')"
proof (cases "acc_principal row = Human")
  case True
  obtain b s2 where c: "cached_password_ok cfg e n (org_password_hash org) p s1 = (b, s2)" by force
  from assms(1) True c cached_password_result [OF c assms(2,3)] show ?thesis
    by (auto simp: check_account_def auth_refused_def proves_def dest!: web_token_matches_True
        split: if_splits sum.splits)
next
  case False
  obtain b s2 where c: "cached_password_ok cfg e n (acc_password_hash row) p s1 = (b, s2)" by force
  from assms(1) False c cached_password_result [OF c assms(2,3)] show ?thesis
    by (auto simp: check_account_def auth_refused_def proves_def split: if_splits)
qed

definition pruned :: "config \<Rightarrow> env \<Rightarrow> service \<Rightarrow> service" where
  "pruned cfg e s = with_db (authfail_prune (auth_cutoff cfg e)) s"

lemma pruned_simps [simp]:
  "cache (pruned cfg e s) = cache s" "web_token (pruned cfg e s) = web_token s"
  "clock (pruned cfg e s) = clock s"
  "accounts_get (db (pruned cfg e s)) u = accounts_get (db s) u"
  "organizations_get (db (pruned cfg e s)) g = organizations_get (db s) g"
  "count_recent (db (pruned cfg e s)) u (auth_cutoff cfg e) = count_recent (db s) u (auth_cutoff cfg e)"
  by (simp_all add: pruned_def count_recent_prune)

text \<open>What an authentication of a name other than the local identity does.\<close>

lemma authenticate_cases:
  assumes "lower name \<noteq> WEB_LOCAL"
  obtains
    "auth_max_failures cfg \<le> count_recent (db s) (lower name) (auth_cutoff cfg e)"
    "authenticate cfg e name p s = (Inl (ApiError AUTH_FAILED AUTH_FAILED_TOO_MANY), pruned cfg e s)"
  | "count_recent (db s) (lower name) (auth_cutoff cfg e) < auth_max_failures cfg"
    "authenticate cfg e name p s = auth_refused e (lower name) (pruned cfg e s)"
  | row org where
    "count_recent (db s) (lower name) (auth_cutoff cfg e) < auth_max_failures cfg"
    "accounts_get (db s) (lower name) = Some row" "acc_status row = Active"
    "organizations_get (db s) (acc_org row) = Some org" "org_enabled org"
    "authenticate cfg e name p s = check_account cfg e (lower name) row org p (pruned cfg e s)"
proof -
  note unf = authenticate_def [of cfg e name p s, unfolded Let_def, folded auth_cutoff_def,
      folded pruned_def]
  show thesis
  proof (cases "auth_max_failures cfg \<le> count_recent (db s) (lower name) (auth_cutoff cfg e)")
    case True
    with assms that(1) show thesis by (simp add: unf)
  next
    case False
    show thesis
    proof (cases "\<exists>row org. accounts_get (db s) (lower name) = Some row \<and> acc_status row = Active
        \<and> organizations_get (db s) (acc_org row) = Some org \<and> org_enabled org")
      case True
      then obtain row org where found: "accounts_get (db s) (lower name) = Some row"
        "acc_status row = Active" "organizations_get (db s) (acc_org row) = Some org" "org_enabled org"
        by blast
      with assms False have
        "authenticate cfg e name p s = check_account cfg e (lower name) row org p (pruned cfg e s)"
        by (simp add: unf)
      with found False that(3) show thesis by simp
    next
      case none: False
      with assms False have "authenticate cfg e name p s = auth_refused e (lower name) (pruned cfg e s)"
        by (auto simp: unf split: option.split)
      with False that(2) show thesis by simp
    qed
  qed
qed

lemma proves_pruned [simp]: "proves e (pruned cfg e' s) = proves e s"
  by (intro ext) (simp add: proves_def)

lemma authenticate_Inr:
  assumes "authenticate cfg e name p s = (Inr (u, r), s')" and "cache_ok e (cache s)"
    and "\<And>q. sha256 e q = sha256 e p \<Longrightarrow> q = p" and "lower name \<noteq> WEB_LOCAL"
  shows "u = lower name \<and> cache_ok e (cache s')
    \<and> count_recent (db s) u (auth_cutoff cfg e) < auth_max_failures cfg
    \<and> (\<exists>row org. r = Some row \<and> accounts_get (db s) u = Some row \<and> acc_status row = Active
      \<and> organizations_get (db s) (acc_org row) = Some org \<and> org_enabled org \<and> proves e s row org p)"
  using assms(4)
proof (cases rule: authenticate_cases [where cfg = cfg and e = e and s = s and p = p])
  case (3 row org)
  with assms(1) have "check_account cfg e (lower name) row org p (pruned cfg e s) = (Inr (u, r), s')"
    by simp
  from check_account_Inr [OF this _ assms(3)] assms(2) 3 show ?thesis by auto
qed (use assms(1) in \<open>simp_all add: auth_refused_def\<close>)

lemma count_recent_refused:
  assumes "auth_cutoff cfg e \<le> now e"
  shows "count_recent (db (snd (auth_refused e n s))) u (auth_cutoff cfg e) =
    count_recent (db s) u (auth_cutoff cfg e) + (if u = n then 1 else 0)"
  using assms by (simp add: auth_refused_def count_recent_record)

text \<open>A refusal of the password is counted once.\<close>

lemma check_account_refused:
  assumes "fst (check_account cfg e n row org p s1) = Inl (ApiError AUTH_FAILED Default)"
    and "auth_cutoff cfg e \<le> now e"
  shows "count_recent (db (snd (check_account cfg e n row org p s1))) n (auth_cutoff cfg e) =
    count_recent (db s1) n (auth_cutoff cfg e) + 1"
proof -
  have web: "web_token_matches s2 p = Inl x \<Longrightarrow> x = TypeError" for s2 x
    by (auto simp: web_token_matches_def split: option.splits if_splits)
  show ?thesis
  proof (cases "acc_principal row = Human")
    case True
    obtain b s2 where c: "cached_password_ok cfg e n (org_password_hash org) p s1 = (b, s2)" by force
    with cached_password_frame(1) [of cfg e n "org_password_hash org" p s1] assms True
    show ?thesis
      by (auto simp: check_account_def count_recent_refused dest!: web split: if_splits sum.splits)
  next
    case False
    obtain b s2 where c: "cached_password_ok cfg e n (acc_password_hash row) p s1 = (b, s2)" by force
    with cached_password_frame(1) [of cfg e n "acc_password_hash row" p s1] assms False
    show ?thesis by (auto simp: check_account_def count_recent_refused split: if_splits)
  qed
qed

section \<open>Properties\<close>



lemma authenticate_locked:
  assumes "lower name \<noteq> WEB_LOCAL"
    and "auth_max_failures cfg \<le> count_recent (db s) (lower name) (auth_cutoff cfg e)"
  shows "authenticate cfg e name p s =
    (Inl (ApiError AUTH_FAILED AUTH_FAILED_TOO_MANY), pruned cfg e s)"
  using assms(1)
  by (cases rule: authenticate_cases [where cfg = cfg and e = e and s = s and p = p])
    (use assms(2) in auto)

lemma authenticate_organization_locked:
  assumes "auth_max_failures cfg \<le> count_recent (db s) (''org:'' @ lower name) (auth_cutoff cfg e)"
  shows "authenticate_organization cfg e name p s =
    (Inl (ApiError AUTH_FAILED AUTH_FAILED_TOO_MANY), pruned cfg e s)"
proof -
  have "auth_max_failures cfg \<le>
      count_recent (db (pruned cfg e s)) (''org:'' @ lower name) (auth_cutoff cfg e)"
    using assms by (simp only: pruned_simps)
  then show ?thesis
    by (simp add: authenticate_organization_def Let_def pruned_def auth_cutoff_def)
qed

text \<open>
  The lockout: once the failures of a principal in the window reach the maximum, every
  attempt (one with the right password too) is refused with \<open>AUTH_FAILED_TOO_MANY\<close> and is
  not itself recorded: the failures in the window stay as they were. An organization's
  failures are counted under its own \<open>org:\<close> name.
\<close>

theorem lockout:
  "(lower name \<noteq> WEB_LOCAL
      \<and> auth_max_failures cfg \<le> count_recent (db s) (lower name) (auth_cutoff cfg e) \<longrightarrow>
      (case authenticate cfg e name p s of (r, s') \<Rightarrow>
         r = Inl (ApiError AUTH_FAILED AUTH_FAILED_TOO_MANY) \<and> cache s' = cache s
         \<and> count_recent (db s') u (auth_cutoff cfg e) = count_recent (db s) u (auth_cutoff cfg e)))
   \<and> (auth_max_failures cfg \<le> count_recent (db s) (''org:'' @ lower name) (auth_cutoff cfg e) \<longrightarrow>
      (case authenticate_organization cfg e name p s of (r, s') \<Rightarrow>
         r = Inl (ApiError AUTH_FAILED AUTH_FAILED_TOO_MANY) \<and> cache s' = cache s
         \<and> count_recent (db s') u (auth_cutoff cfg e) = count_recent (db s) u (auth_cutoff cfg e)))"
  by (auto simp: authenticate_locked authenticate_organization_locked)

text \<open>A service on which two recent failures of \<open>alice\<close> are recorded.\<close>

definition locked_service :: service where
  "locked_service = with_db (authfail_record ''alice'' (now plain_env)
     \<circ> authfail_record ''alice'' (now plain_env)) plain_service"

theorem lockout_witness:
  "fst (authenticate plain_config plain_env ''alice'' ''alice-password'' locked_service) =
     Inl (ApiError AUTH_FAILED AUTH_FAILED_TOO_MANY)"
proof -
  have "lower ''alice'' \<noteq> WEB_LOCAL" by code_simp
  moreover have "auth_max_failures plain_config
      \<le> count_recent (db locked_service) (lower ''alice'') (auth_cutoff plain_config plain_env)"
    by code_simp
  ultimately have "case authenticate plain_config plain_env ''alice'' ''alice-password'' locked_service
      of (r, s') \<Rightarrow> r = Inl (ApiError AUTH_FAILED AUTH_FAILED_TOO_MANY) \<and> cache s' = cache locked_service
         \<and> count_recent (db s') ''alice'' (auth_cutoff plain_config plain_env)
           = count_recent (db locked_service) ''alice'' (auth_cutoff plain_config plain_env)"
    by (intro lockout [THEN conjunct1, THEN mp] conjI)
  then show ?thesis by (simp split: prod.splits)
qed

text \<open>A sequence of attempts on one name, each at its own instant: replies and final state.\<close>

fun attempts ::
    "config \<Rightarrow> string \<Rightarrow> (env \<times> string) list \<Rightarrow> service
     \<Rightarrow> (exc + (string \<times> account_row option)) list \<times> service" where
  "attempts cfg name [] s = ([], s)"
| "attempts cfg name ((e, p) # rest) s =
     (let (r, s1) = authenticate cfg e name p s; (rs, s2) = attempts cfg name rest s1
      in (r # rs, s2))"

lemma authenticate_refused_count:
  assumes "fst (authenticate cfg e name p s) = Inl (ApiError AUTH_FAILED Default)"
    and "lower name \<noteq> WEB_LOCAL" and "auth_cutoff cfg e \<le> cutoff" and "cutoff \<le> now e"
  shows "count_recent (db (snd (authenticate cfg e name p s))) (lower name) cutoff =
    count_recent (db s) (lower name) cutoff + 1"
proof -
  have prune: "count_recent (db (pruned cfg e s)) u cutoff = count_recent (db s) u cutoff" for u
    using assms(3) by (simp add: pruned_def count_recent_prune)
  have refused: "snd (auth_refused e (lower name) s2) = with_db (authfail_record (lower name) (now e)) s2" for s2
    by (simp add: auth_refused_def)
  show ?thesis
    using assms(2)
  proof (cases rule: authenticate_cases [where cfg = cfg and e = e and s = s and p = p])
    case 1
    with assms(1) show ?thesis by simp
  next
    case 2
    then show ?thesis using assms(4) by (simp add: refused count_recent_record prune)
  next
    case (3 row org)
    have web: "web_token_matches s2 q = Inl x \<Longrightarrow> x = TypeError" for s2 q x
      by (auto simp: web_token_matches_def split: option.splits if_splits)
    have "\<exists>s2. db s2 = db (pruned cfg e s) \<and>
        check_account cfg e (lower name) row org p (pruned cfg e s) = auth_refused e (lower name) s2"
    proof (cases "acc_principal row = Human")
      case True
      obtain b s2 where c: "cached_password_ok cfg e (lower name) (org_password_hash org) p
          (pruned cfg e s) = (b, s2)" by force
      with cached_password_frame(1) [of cfg e "lower name" "org_password_hash org" p "pruned cfg e s"]
        assms(1) 3 True show ?thesis
        by (auto simp: check_account_def intro!: exI [of _ s2] dest!: web split: if_splits sum.splits)
    next
      case False
      obtain b s2 where c: "cached_password_ok cfg e (lower name) (acc_password_hash row) p
          (pruned cfg e s) = (b, s2)" by force
      with cached_password_frame(1) [of cfg e "lower name" "acc_password_hash row" p "pruned cfg e s"]
        assms(1) 3 False show ?thesis
        by (auto simp: check_account_def intro!: exI [of _ s2] split: if_splits)
    qed
    with 3 show ?thesis using assms(4) by (auto simp: refused count_recent_record prune)
  qed
qed

lemma attempts_count:
  assumes "list_all (\<lambda>r. r = Inl (ApiError AUTH_FAILED Default)) (fst (attempts cfg name tries s))"
    and "lower name \<noteq> WEB_LOCAL"
    and "\<forall>(e, p) \<in> set tries. auth_cutoff cfg e \<le> cutoff \<and> cutoff \<le> now e"
  shows "count_recent (db (snd (attempts cfg name tries s))) (lower name) cutoff =
    count_recent (db s) (lower name) cutoff + length tries"
  using assms(1,3)
proof (induction tries arbitrary: s)
  case (Cons t tries)
  obtain e p where t: "t = (e, p)" by (cases t)
  obtain r s1 where step: "authenticate cfg e name p s = (r, s1)" by force
  have "count_recent (db s1) (lower name) cutoff = count_recent (db s) (lower name) cutoff + 1"
    using authenticate_refused_count [of cfg e name p s cutoff] Cons.prems assms(2) step
    by (auto simp: t split: prod.splits)
  with Cons.IH [of s1] Cons.prems step show ?case by (auto simp: t split: prod.splits)
qed simp

text \<open>
  C2. Guessing is bounded: when as many attempts as the maximum were refused for their
  credentials within the window, the next attempt is locked out whatever its password.
\<close>

theorem guessing_bounded:
  assumes "list_all (\<lambda>r. r = Inl (ApiError AUTH_FAILED Default)) (fst (attempts cfg name tries s))"
    and "lower name \<noteq> WEB_LOCAL" and "auth_max_failures cfg \<le> length tries"
    and "\<forall>(e', p) \<in> set tries. auth_cutoff cfg e' \<le> auth_cutoff cfg e \<and> auth_cutoff cfg e \<le> now e'"
  shows "fst (authenticate cfg e name p (snd (attempts cfg name tries s))) =
    Inl (ApiError AUTH_FAILED AUTH_FAILED_TOO_MANY)"
  using attempts_count [OF assms(1,2), of "auth_cutoff cfg e"] assms(2-4)
  by (simp add: authenticate_locked)

theorem guessing_bounded_witness:
  "fst (authenticate plain_config plain_env ''alice'' ''alice-password''
     (snd (attempts plain_config ''alice'' [(plain_env, ''guess''), (plain_env, ''other'')] plain_service))) =
   Inl (ApiError AUTH_FAILED AUTH_FAILED_TOO_MANY)"
proof (rule guessing_bounded)
  show "list_all (\<lambda>r. r = Inl (ApiError AUTH_FAILED Default)) (fst (attempts plain_config ''alice''
      [(plain_env, ''guess''), (plain_env, ''other'')] plain_service))" by code_simp
  show "lower ''alice'' \<noteq> WEB_LOCAL" by code_simp
  show "auth_max_failures plain_config \<le> length [(plain_env, ''guess''), (plain_env, ''other'')]"
    by code_simp
  show "\<forall>(e', p) \<in> set [(plain_env, ''guess''), (plain_env, ''other'')].
      auth_cutoff plain_config e' \<le> auth_cutoff plain_config plain_env
      \<and> auth_cutoff plain_config plain_env \<le> now e'" by code_simp
qed

lemma check_account_type_error:
  assumes "acc_principal row = Human" and "web_token s = Some t" and "\<not> is_ascii p"
    and "\<not> fst (cached_password_ok cfg e n (org_password_hash org) p s)"
  shows "\<exists>s2. check_account cfg e n row org p s = (Inl TypeError, s2) \<and> db s2 = db s"
proof -
  obtain b s2 where c: "cached_password_ok cfg e n (org_password_hash org) p s = (b, s2)" by force
  with cached_password_frame [of cfg e n "org_password_hash org" p s] assms show ?thesis
    by (simp add: check_account_def web_token_matches_def)
qed

text \<open>
  C10. A guess that is not ASCII is never counted: when the web token is set, a wrong password
  with a character outside ASCII for a human account (whose password is the organization's)
  makes \<open>compare_digest\<close> raise, so the request fails with \<open>TypeError\<close> instead of
  \<open>AUTH_FAILED\<close> and the failures in the window do not grow: the lockout never comes.
\<close>

theorem non_ascii_guess_uncounted:
  assumes "accounts_get (db s) (lower name) = Some row" and "acc_status row = Active"
    and "acc_principal row = Human" and "organizations_get (db s) (acc_org row) = Some org"
    and "org_enabled org" and "lower name \<noteq> WEB_LOCAL" and "web_token s = Some t"
    and "count_recent (db s) (lower name) (auth_cutoff cfg e) < auth_max_failures cfg"
    and "\<not> is_ascii p" and "\<not> fst (cached_password_ok cfg e (lower name) (org_password_hash org) p s)"
  shows "fst (authenticate cfg e name p s) = Inl TypeError
    \<and> count_recent (db (snd (authenticate cfg e name p s))) (lower name) (auth_cutoff cfg e) =
        count_recent (db s) (lower name) (auth_cutoff cfg e)"
proof -
  have run: "authenticate cfg e name p s = check_account cfg e (lower name) row org p (pruned cfg e s)"
    using assms(1,2,4,5,6,8)
    by (simp add: authenticate_def Let_def auth_cutoff_def [symmetric] pruned_def [symmetric])
  have wrong: "\<not> fst (cached_password_ok cfg e (lower name) (org_password_hash org) p (pruned cfg e s))"
    using assms(10) cached_password_same [of s "pruned cfg e s" cfg e "lower name" "org_password_hash org" p]
    by simp
  have token: "web_token (pruned cfg e s) = Some t" using assms(7) by simp
  from check_account_type_error [OF assms(3) token assms(9) wrong] obtain s2 where
    s2: "check_account cfg e (lower name) row org p (pruned cfg e s) = (Inl TypeError, s2)"
      "db s2 = db (pruned cfg e s)" by blast
  show ?thesis unfolding run s2(1) by (simp add: s2(2))
qed

theorem non_ascii_guess_uncounted_witness:
  "fst (authenticate plain_config plain_env ''acme_humain'' [char_of (233::nat)] plain_service) = Inl TypeError"
proof -
  let ?row = "plain_account ''acme_humain'' ''acme'' Human"
  let ?org = "plain_org ''acme'' False"
  let ?p = "[char_of (233::nat)]"
  have "lower ''acme_humain'' = ''acme_humain''" by code_simp
  then show ?thesis
    using non_ascii_guess_uncounted [of plain_service "''acme_humain''" ?row ?org "''token''"
        plain_config plain_env ?p]
    by (simp add: WEB_LOCAL_def plain_service_def plain_db_def accounts_get_def organizations_get_def
        plain_account_def plain_org_def fetch_Cons is_ascii_def count_recent_def count_where_def
        plain_config_def cached_password_ok_def plain_env_def)
qed

end
