(* ===== verification/Journal.thy ===== *)
theory Journal
  imports Prelude
begin

text \<open>
  The interface of an append-only journal over an \<open>INTEGER PRIMARY KEY AUTOINCREMENT\<close> table:
  every insertion appends one row whose id is one more than the largest id ever given. The
  provider of an instance shows these two laws for its insertion; the journal's order and the
  permanence of what was written follow here once.
\<close>

locale journal =
  fixes rows :: "'d \<Rightarrow> 'r list"
    and seq :: "'d \<Rightarrow> nat"
    and ident :: "'r \<Rightarrow> nat"
    and add :: "'x \<Rightarrow> 'd \<Rightarrow> 'd"
    and entry :: "'x \<Rightarrow> 'd \<Rightarrow> 'r"
  assumes rows_add: "rows (add x d) = rows d @ [entry x d]"
    and seq_add: "seq (add x d) = Suc (seq d)"
    and ident_entry: "ident (entry x d) = Suc (seq d)"
begin

definition wf :: "'d \<Rightarrow> bool" where
  "wf d = (sorted_wrt (<) (map ident (rows d)) \<and> (\<forall>r \<in> set (rows d). ident r \<le> seq d))"

lemma wf_add: "wf d \<Longrightarrow> wf (add x d)"
  by (auto simp: wf_def rows_add seq_add ident_entry sorted_wrt_append)

lemma wf_keep:
  assumes "wf d" and "rows d' = filter P (rows d)" and "seq d' = seq d"
  shows "wf d'"
  using assms
  by (auto simp: wf_def sorted_wrt_map sorted_wrt_filter)

lemma wf_cong: "rows d' = rows d \<Longrightarrow> seq d' = seq d \<Longrightarrow> wf d' = wf d"
  by (simp add: wf_def)

lemma wf_distinct: "wf d \<Longrightarrow> distinct (map ident (rows d))"
  by (auto simp: wf_def strict_sorted_iff)

lemma old_rows_kept: "set (rows d) \<subseteq> set (rows (add x d))"
  by (auto simp: rows_add)

lemma new_id_fresh: "wf d \<Longrightarrow> r \<in> set (rows d) \<Longrightarrow> ident r < ident (entry x d)"
  by (fastforce simp: wf_def ident_entry)

text \<open>Any sequence of insertions keeps the earlier journal as a prefix.\<close>

lemma fold_prefix: "\<exists>new. rows (fold add xs d) = rows d @ new \<and> length new = length xs"
proof (induction xs arbitrary: d)
  case (Cons x xs)
  from Cons.IH [of "add x d"] show ?case by (auto simp: rows_add)
qed simp

lemma fold_wf: "wf d \<Longrightarrow> wf (fold add xs d)"
  by (induction xs arbitrary: d) (auto intro: wf_add)

text \<open>
  A stamp column that grows with every insertion is in the order of the ids.
\<close>

definition stamped :: "('r \<Rightarrow> 's::linorder option) \<Rightarrow> 'd \<Rightarrow> bool" where
  "stamped col d = sorted (List.map_filter col (rows d))"

lemma stamped_add:
  assumes "stamped col d" and "\<And>s. s \<in> set (List.map_filter col (rows d)) \<Longrightarrow> s \<le> h"
    and "col (entry x d) = Some h"
  shows "stamped col (add x d)"
  using assms by (simp add: stamped_def rows_add List.map_filter_def sorted_append)

end

end
