(* ===== verification/Keyset.thy ===== *)
theory Keyset
  imports Prelude
begin

text \<open>
  Keyset pagination, the interface every paginated query of the store offers to the service.
  A query returns up to \<open>limit + 1\<close> rows after a position; the handler cuts the page at
  \<open>limit\<close> and, when a row is left over, gives the position of the last row it returned.
  A client follows the positions until there is none. The locale \<open>keyset\<close> states what a query
  promises (its rows come in strictly increasing position order, a page is the next rows after
  the position) and proves once what the client then gets: every row exactly once, in order.
\<close>

text \<open>\<open>has_more = len(rows) > limit; rows = rows[:limit]; next_cursor = key(rows[-1])\<close>.\<close>

definition next_page :: "nat \<Rightarrow> ('r \<Rightarrow> 'k) \<Rightarrow> 'r list \<Rightarrow> 'r list \<times> 'k option" where
  "next_page limit key rows =
     (let has_more = limit < length rows; rows' = take limit rows
      in (rows', if has_more then Some (key (last rows')) else None))"

text \<open>The pages a client reads by following the cursors, at most \<open>fuel\<close> of them.\<close>

fun follow :: "('k option \<Rightarrow> 'r list \<times> 'k option) \<Rightarrow> nat \<Rightarrow> 'k option \<Rightarrow> 'r list list" where
  "follow get 0 pos = []"
| "follow get (Suc fuel) pos =
     (case get pos of
        (rows, None) \<Rightarrow> [rows]
      | (rows, Some k) \<Rightarrow> rows # follow get fuel (Some k))"

definition beyond :: "('k \<Rightarrow> 'k \<Rightarrow> bool) \<Rightarrow> 'k option \<Rightarrow> 'k \<Rightarrow> bool" where
  "beyond before pos k = (case pos of None \<Rightarrow> True | Some p \<Rightarrow> before p k)"

lemma beyond_simps [simp]: "beyond before None k" "beyond before (Some p) k = before p k"
  by (simp_all add: beyond_def)

lemma next_page_length: "length (fst (next_page limit key rows)) \<le> limit"
  by (simp add: next_page_def Let_def)

lemma take_last_split:
  assumes "0 < n" and "n < length xs"
  shows "xs = butlast (take n xs) @ last (take n xs) # drop n xs"
proof -
  have "butlast (take n xs) @ [last (take n xs)] = take n xs"
    by (rule append_butlast_last_id) (use assms in auto)
  then have "xs = (butlast (take n xs) @ [last (take n xs)]) @ drop n xs"
    by (simp only: append_take_drop_id)
  then show ?thesis
    by (simp only: append_assoc append_Cons append_Nil)
qed

locale keyset =
  fixes before :: "'k \<Rightarrow> 'k \<Rightarrow> bool"
    and key :: "'r \<Rightarrow> 'k"
    and invar :: "'d \<Rightarrow> bool"
    and rows :: "'d \<Rightarrow> 'f \<Rightarrow> 'r list"
    and page :: "'d \<Rightarrow> 'f \<Rightarrow> 'k option \<Rightarrow> nat \<Rightarrow> 'r list"
  assumes before_trans: "before a b \<Longrightarrow> before b c \<Longrightarrow> before a c"
    and before_irrefl: "\<not> before a a"
    and rows_sorted: "invar d \<Longrightarrow> sorted_wrt (\<lambda>r s. before (key r) (key s)) (rows d f)"
    and page_eq: "page d f pos limit =
      take (limit + 1) (filter (\<lambda>r. beyond before pos (key r)) (rows d f))"
begin

definition remaining :: "'d \<Rightarrow> 'f \<Rightarrow> 'k option \<Rightarrow> 'r list" where
  "remaining d f pos = filter (\<lambda>r. beyond before pos (key r)) (rows d f)"

lemma filter_after_split:
  assumes "sorted_wrt (\<lambda>r s. before (key r) (key s)) (xs @ x # ys)"
  shows "filter (\<lambda>r. before (key x) (key r)) (xs @ x # ys) = ys"
proof -
  have "\<not> before (key x) (key r)" if "r \<in> set xs" for r
  proof
    assume "before (key x) (key r)"
    moreover have "before (key r) (key x)" using assms that by (simp add: sorted_wrt_append)
    ultimately have "before (key x) (key x)" by (rule before_trans)
    then show False by (simp add: before_irrefl)
  qed
  then have "filter (\<lambda>r. before (key x) (key r)) xs = []"
    by (simp add: filter_empty_conv)
  moreover have "filter (\<lambda>r. before (key x) (key r)) ys = ys"
    using assms by (simp add: sorted_wrt_append)
  ultimately show ?thesis by (simp add: before_irrefl)
qed

lemma filter_after_take:
  assumes "sorted_wrt (\<lambda>r s. before (key r) (key s)) ys" and "0 < n" and "n < length ys"
  shows "filter (\<lambda>r. before (key (last (take n ys))) (key r)) ys = drop n ys"
proof -
  note split = take_last_split [OF assms(2,3), symmetric]
  have "sorted_wrt (\<lambda>r s. before (key r) (key s))
      (butlast (take n ys) @ last (take n ys) # drop n ys)"
    using assms(1) by (simp only: split)
  from filter_after_split [OF this] show ?thesis by (simp only: split)
qed

lemma beyond_trans: "beyond before pos a \<Longrightarrow> before a b \<Longrightarrow> beyond before pos b"
  by (cases pos) (simp_all, erule (1) before_trans)

lemma remaining_after:
  "beyond before pos k \<Longrightarrow>
     remaining d f (Some k) = filter (\<lambda>r. before k (key r)) (remaining d f pos)"
  by (auto simp: remaining_def intro: beyond_trans intro!: filter_cong)

lemma remaining_next:
  assumes "invar d" and "limit < length (remaining d f pos)" and "0 < limit"
  shows "remaining d f (Some (key (last (take limit (remaining d f pos)))))
    = drop limit (remaining d f pos)"
proof -
  let ?rem = "remaining d f pos"
  let ?x = "last (take limit ?rem)"
  have "sorted_wrt (\<lambda>r s. before (key r) (key s)) ?rem"
    using rows_sorted [OF assms(1)] by (simp add: remaining_def sorted_wrt_filter)
  from this assms(3,2) have later: "filter (\<lambda>r. before (key ?x) (key r)) ?rem = drop limit ?rem"
    by (rule filter_after_take)
  have "take limit ?rem \<noteq> []" using assms(2,3) by auto
  from last_in_set [OF this] have "?x \<in> set ?rem" by (rule in_set_takeD)
  then have "beyond before pos (key ?x)"
    by (simp add: remaining_def)
  from remaining_after [OF this]
  have "remaining d f (Some (key ?x)) = filter (\<lambda>r. before (key ?x) (key r)) ?rem" .
  from this later show ?thesis by (rule trans)
qed

lemma follow_from:
  assumes "invar d" and "0 < limit" and "length (remaining d f pos) < fuel"
  shows "concat (follow (\<lambda>p. next_page limit key (page d f p limit)) fuel pos)
    = remaining d f pos"
  using assms(3)
proof (induction fuel arbitrary: pos)
  case (Suc fuel)
  let ?rem = "remaining d f pos"
  have page: "page d f pos limit = take (limit + 1) ?rem"
    by (simp add: page_eq remaining_def)
  show ?case
  proof (cases "limit < length ?rem")
    case False
    then show ?thesis by (simp add: page next_page_def Let_def)
  next
    case True
    note next_rem = remaining_next [OF assms(1) True assms(2)]
    have "length (drop limit ?rem) < fuel"
      using Suc.prems True assms(2) by simp
    then have "concat (follow (\<lambda>p. next_page limit key (page d f p limit)) fuel
        (Some (key (last (take limit ?rem))))) = drop limit ?rem"
      using Suc.IH [of "Some (key (last (take limit ?rem)))"] next_rem by simp
    moreover have "next_page limit key (page d f pos limit) =
        (take limit ?rem, Some (key (last (take limit ?rem))))"
      using True by (simp add: page next_page_def Let_def min_def)
    ultimately show ?thesis by simp
  qed
qed simp

text \<open>Following the cursors from the first page gives exactly the rows, in order.\<close>

lemma follow_complete:
  assumes "invar d" and "0 < limit" and "length (rows d f) < fuel"
  shows "concat (follow (\<lambda>p. next_page limit key (page d f p limit)) fuel None) = rows d f"
  using follow_from [of d limit f None fuel] assms by (simp add: remaining_def)

lemma rows_distinct: "invar d \<Longrightarrow> distinct (rows d f)"
proof -
  have "sorted_wrt (\<lambda>r s. before (key r) (key s)) xs \<Longrightarrow> distinct xs" for xs
    using before_irrefl by (induction xs) auto
  then show "invar d \<Longrightarrow> ?thesis" using rows_sorted by blast
qed

lemma page_subset: "set (page d f pos limit) \<subseteq> set (rows d f)"
  by (auto simp: page_eq dest: in_set_takeD)

end

lemma follow_page_bound:
  assumes "p \<in> set (follow (\<lambda>pos. next_page limit key (page pos)) fuel pos)"
  shows "length p \<le> limit"
  using assms
proof (induction fuel arbitrary: pos)
  case (Suc fuel)
  show ?case
  proof (cases "next_page limit key (page pos)")
    case (Pair rows nxt)
    then have "length rows \<le> limit"
      using next_page_length [of limit key "page pos"] by simp
    with Suc Pair show ?thesis by (auto split: option.splits)
  qed
qed simp

end
