(* ===== verification/Events.thy ===== *)
theory Events
  imports Schema Journal Keyset
begin

text \<open>
  The event journal of each principal and the audit journal of each organization:
  \<^verbatim>\<open>synapse/store/events.py\<close> and \<^verbatim>\<open>synapse/store/audit.py\<close>. Reading the clock
  (\<open>now_utc_offset(s)\<close>, the instant \<open>s\<close> seconds ago) is the parameter \<open>ago\<close>; the iteration
  order of the two-element set of principals is the parameter \<open>first\<close>.
\<close>

section \<open>Events\<close>

record event_entry =
  ee_principal :: string
  ee_type :: event_type
  ee_ref :: "string option"
  ee_by :: "string option"
  ee_at :: string
  ee_hlc :: string

definition event_prev :: "database \<Rightarrow> string \<Rightarrow> nat option" where
  "event_prev d p = max_col (map ev_seq (filter (\<lambda>e. ev_principal e = p) (events d)))"

definition event_row_of :: "event_entry \<Rightarrow> database \<Rightarrow> event_row" where
  "event_row_of x d =
     \<lparr>ev_seq = Suc (events_seq d), ev_principal = ee_principal x, ev_type = ee_type x,
      ev_ref = ee_ref x, ev_by = ee_by x, ev_at = ee_at x, ev_hlc = Some (ee_hlc x),
      ev_prev = event_prev d (ee_principal x)\<rparr>"

definition insert_event :: "event_entry \<Rightarrow> database \<Rightarrow> database" where
  "insert_event x d = d\<lparr>events := insert_row (event_row_of x d) (events d),
     events_seq := Suc (events_seq d)\<rparr>"

definition purge_old :: "(int \<Rightarrow> string) \<Rightarrow> int \<Rightarrow> database \<Rightarrow> database" where
  "purge_old ago retention_days d =
     (let cutoff = ago (86400 * retention_days)
      in d\<lparr>events := delete_where (\<lambda>e. ev_at e < cutoff) (events d)\<rparr>)"

definition events_append ::
    "(int \<Rightarrow> string) \<Rightarrow> int option \<Rightarrow> event_entry \<Rightarrow> database \<Rightarrow> database" where
  "events_append ago retention x d =
     insert_event x (case retention of None \<Rightarrow> d | Some days \<Rightarrow> purge_old ago days d)"

text \<open>The iteration order of \<open>{creator, assignee}\<close>.\<close>

definition principals :: "(string \<Rightarrow> string \<Rightarrow> bool) \<Rightarrow> string \<Rightarrow> string \<Rightarrow> string list" where
  "principals first a b = (if a = b then [a] else if first a b then [a, b] else [b, a])"

definition append_for_task ::
    "(int \<Rightarrow> string) \<Rightarrow> (string \<Rightarrow> string \<Rightarrow> bool) \<Rightarrow> int option \<Rightarrow> task_row \<Rightarrow> event_type
     \<Rightarrow> string \<Rightarrow> string \<Rightarrow> string \<Rightarrow> database \<Rightarrow> database" where
  "append_for_task ago first retention t et by at hlc =
     fold (\<lambda>p. events_append ago retention
         \<lparr>ee_principal = p, ee_type = et, ee_ref = Some (task_id t), ee_by = Some by,
          ee_at = at, ee_hlc = hlc\<rparr>)
       (principals first (task_creator t) (task_assignee t))"

text \<open>An empty set of types is no filter (\<open>if types:\<close>).\<close>

record event_filter =
  ef_principal :: string
  ef_types :: "event_type list"
  ef_boundary :: string

definition event_clauses :: "event_filter \<Rightarrow> event_row \<Rightarrow> bool" where
  "event_clauses f e = (ev_principal e = ef_principal f \<and> ev_at e \<le> ef_boundary f
     \<and> (ef_types f \<noteq> [] \<longrightarrow> ev_type e \<in> set (ef_types f)))"

definition events_page ::
    "database \<Rightarrow> event_filter \<Rightarrow> nat option \<Rightarrow> nat \<Rightarrow> event_row list" where
  "events_page d f last_seq limit =
     take (limit + 1) (order_asc ev_seq (filter (\<lambda>e. event_clauses f e
       \<and> (case last_seq of None \<Rightarrow> True | Some s \<Rightarrow> s < ev_seq e)) (events d)))"

section \<open>Audit\<close>

record audit_entry =
  ae_org :: string
  ae_at :: string
  ae_actor :: string
  ae_command :: string
  ae_target_type :: "string option"
  ae_target :: "string option"
  ae_outcome :: string
  ae_hlc :: string

definition audit_row_of :: "audit_entry \<Rightarrow> database \<Rightarrow> audit_row" where
  "audit_row_of x d =
     \<lparr>au_id = Suc (audit_seq d), au_org = ae_org x, au_at = ae_at x, au_actor = ae_actor x,
      au_command = ae_command x, au_target_type = ae_target_type x, au_target = ae_target x,
      au_outcome = ae_outcome x, au_hlc = Some (ae_hlc x)\<rparr>"

definition audit_append :: "audit_entry \<Rightarrow> database \<Rightarrow> database" where
  "audit_append x d = d\<lparr>audit_log := insert_row (audit_row_of x d) (audit_log d),
     audit_seq := Suc (audit_seq d)\<rparr>"

record audit_filter =
  auf_org :: string
  auf_since :: "string option"
  auf_actor :: "string option"
  auf_command :: "string option"
  auf_boundary :: string

definition audit_clauses :: "audit_filter \<Rightarrow> audit_row \<Rightarrow> bool" where
  "audit_clauses f e = (au_org e = auf_org f \<and> au_at e \<le> auf_boundary f
     \<and> (case auf_since f of None \<Rightarrow> True | Some s \<Rightarrow> s \<le> au_at e)
     \<and> (case auf_actor f of None \<Rightarrow> True | Some a \<Rightarrow> au_actor e = a)
     \<and> (case auf_command f of None \<Rightarrow> True | Some c \<Rightarrow> au_command e = c))"

definition audit_page ::
    "database \<Rightarrow> audit_filter \<Rightarrow> nat option \<Rightarrow> nat \<Rightarrow> audit_row list" where
  "audit_page d f last_id limit =
     take (limit + 1) (order_asc au_id (filter (\<lambda>e. audit_clauses f e
       \<and> (case last_id of None \<Rightarrow> True | Some i \<Rightarrow> i < au_id e)) (audit_log d)))"

section \<open>Both are journals, and page\<close>

interpretation ej: journal events events_seq ev_seq insert_event event_row_of
  by unfold_locales (simp_all add: insert_event_def insert_row_def event_row_of_def)

interpretation aj: journal audit_log audit_seq au_id audit_append audit_row_of
  by unfold_locales (simp_all add: audit_append_def insert_row_def audit_row_of_def)

interpretation ep: keyset "\<lambda>a b. a < b" ev_seq ej.wf
  "\<lambda>d f. order_asc ev_seq (filter (event_clauses f) (events d))" events_page
proof unfold_locales
  fix d f pos limit
  show "events_page d f pos limit = take (limit + 1) (filter (\<lambda>r. beyond (\<lambda>a b. a < b) pos (ev_seq r))
      (order_asc ev_seq (filter (event_clauses f) (events d))))"
    by (cases pos) (simp_all add: events_page_def filter_order_asc conj_commute)
next
  fix d f
  assume "ej.wf d"
  from ej.wf_distinct [OF this]
  show "sorted_wrt (\<lambda>r s. ev_seq r < ev_seq s) (order_asc ev_seq (filter (event_clauses f) (events d)))"
    by (intro sorted_wrt_order_asc distinct_map_filter)
qed auto

interpretation ap: keyset "\<lambda>a b. a < b" au_id aj.wf
  "\<lambda>d f. order_asc au_id (filter (audit_clauses f) (audit_log d))" audit_page
proof unfold_locales
  fix d f pos limit
  show "audit_page d f pos limit = take (limit + 1) (filter (\<lambda>r. beyond (\<lambda>a b. a < b) pos (au_id r))
      (order_asc au_id (filter (audit_clauses f) (audit_log d))))"
    by (cases pos) (simp_all add: audit_page_def filter_order_asc conj_commute)
next
  fix d f
  assume "aj.wf d"
  from aj.wf_distinct [OF this]
  show "sorted_wrt (\<lambda>r s. au_id r < au_id s) (order_asc au_id (filter (audit_clauses f) (audit_log d)))"
    by (intro sorted_wrt_order_asc distinct_map_filter)
qed auto

section \<open>The chain of a principal's events\<close>

text \<open>
  \<open>prev_event\<close> links an event to its immediate predecessor in the journal of its principal:
  it is an earlier event of the same principal, and nothing of that principal lies between.
  The retention may delete the predecessor; the link then points before what is left.
\<close>

definition linked :: "event_row list \<Rightarrow> event_row \<Rightarrow> bool" where
  "linked es e =
     (case ev_prev e of
        None \<Rightarrow> \<forall>x \<in> set es. ev_principal x = ev_principal e \<longrightarrow> \<not> ev_seq x < ev_seq e
      | Some s \<Rightarrow> s < ev_seq e
          \<and> (\<forall>x \<in> set es. (ev_seq x = s \<longrightarrow> ev_principal x = ev_principal e)
               \<and> (ev_principal x = ev_principal e \<and> ev_seq x < ev_seq e \<longrightarrow> ev_seq x \<le> s)))"

definition chained :: "database \<Rightarrow> bool" where
  "chained d = (\<forall>e \<in> set (events d). linked (events d) e)"

definition events_wf :: "database \<Rightarrow> bool" where
  "events_wf d = (ej.wf d \<and> chained d)"

lemma events_wf_empty: "events_wf empty_db"
  by (simp add: events_wf_def ej.wf_def chained_def)

lemma events_wf_cong:
  "events d' = events d \<Longrightarrow> events_seq d' = events_seq d \<Longrightarrow> events_wf d' = events_wf d"
  by (simp add: events_wf_def ej.wf_def chained_def)

lemma event_prev_None: "event_prev d p = None \<Longrightarrow> x \<in> set (events d) \<Longrightarrow> ev_principal x \<noteq> p"
  by (auto simp: event_prev_def filter_empty_conv)

lemma event_prev_Some:
  assumes "event_prev d p = Some s"
  shows "\<exists>x \<in> set (events d). ev_principal x = p \<and> ev_seq x = s"
    and "x \<in> set (events d) \<Longrightarrow> ev_principal x = p \<Longrightarrow> ev_seq x \<le> s"
  using max_col_in [of "map ev_seq (filter (\<lambda>e. ev_principal e = p) (events d))" s]
    max_col_upper [of "map ev_seq (filter (\<lambda>e. ev_principal e = p) (events d))" s "ev_seq x"] assms
  by (auto simp: event_prev_def)

lemma linked_subset: "linked es e \<Longrightarrow> set es' \<subseteq> set es \<Longrightarrow> linked es' e"
  by (auto simp: linked_def split: option.splits)

lemma linked_later: "linked es e \<Longrightarrow> ev_seq e < ev_seq r \<Longrightarrow> linked (es @ [r]) e"
  by (auto simp: linked_def split: option.splits)

lemma linked_new:
  assumes "ej.wf d"
  shows "linked (events d @ [event_row_of x d]) (event_row_of x d)"
proof (cases "event_prev d (ee_principal x)")
  case None
  from event_prev_None [OF None] show ?thesis
    by (auto simp: linked_def event_row_of_def None)
next
  case (Some s)
  from event_prev_Some(1) [OF Some] obtain q where
    q: "q \<in> set (events d)" "ev_principal q = ee_principal x" "ev_seq q = s" by blast
  have "s < Suc (events_seq d)"
    using ej.new_id_fresh [OF assms q(1), of x] q(3) by (simp add: event_row_of_def)
  moreover have "ev_principal r = ee_principal x" if "r \<in> set (events d)" "ev_seq r = s" for r
  proof -
    have "inj_on ev_seq (set (events d))" using ej.wf_distinct [OF assms] by (simp add: distinct_map)
    from inj_onD [OF this, of r q] that q show ?thesis by simp
  qed
  moreover have "ev_seq r \<le> s" if "r \<in> set (events d)" "ev_principal r = ee_principal x" for r
    using Some that by (rule event_prev_Some(2))
  ultimately show ?thesis
    by (simp add: linked_def event_row_of_def Some)
qed

lemma chained_insert:
  assumes "events_wf d"
  shows "chained (insert_event x d)"
  using assms linked_new [of d x] ej.new_id_fresh [of d _ x]
  by (auto simp: events_wf_def chained_def insert_event_def insert_row_def intro!: linked_later)

lemma events_wf_insert: "events_wf d \<Longrightarrow> events_wf (insert_event x d)"
  using chained_insert by (simp add: events_wf_def ej.wf_add)

lemma events_wf_purge: "events_wf d \<Longrightarrow> events_wf (purge_old ago days d)"
proof -
  assume wf: "events_wf d"
  have "ej.wf (purge_old ago days d)"
    by (rule ej.wf_keep [of d _ "\<lambda>e. \<not> ev_at e < ago (86400 * days)"])
      (use wf in \<open>simp_all add: events_wf_def purge_old_def Let_def delete_where_def\<close>)
  moreover have "chained (purge_old ago days d)"
    using wf by (auto simp: events_wf_def chained_def purge_old_def Let_def set_delete_where
        elim!: linked_subset)
  ultimately show ?thesis by (simp add: events_wf_def)
qed

lemma events_wf_append: "events_wf d \<Longrightarrow> events_wf (events_append ago retention x d)"
  by (simp add: events_append_def events_wf_insert events_wf_purge split: option.split)

lemma events_wf_task: "events_wf d \<Longrightarrow> events_wf (append_for_task ago first r t et by at hlc d)"
  by (auto simp: append_for_task_def principals_def events_wf_append)

text \<open>What appending an event leaves alone.\<close>

lemma insert_event_other [simp]:
  "organizations (insert_event x d) = organizations d"
  "accounts (insert_event x d) = accounts d"
  "tasks (insert_event x d) = tasks d"
  by (simp_all add: insert_event_def)

lemma events_append_frame:
  "\<exists>ev. events_append ago r x d = d\<lparr>events := ev, events_seq := Suc (events_seq d)\<rparr>"
  by (auto simp: events_append_def insert_event_def purge_old_def Let_def split: option.split)

lemma append_for_task_frame:
  "\<exists>ev s. append_for_task ago first r t et by at hlc d = d\<lparr>events := ev, events_seq := s\<rparr>"
proof -
  have "\<exists>ev s. events_append ago r x d' = d'\<lparr>events := ev, events_seq := s\<rparr>" for x d'
    using events_append_frame by blast
  then have "\<exists>ev s. fold (\<lambda>p. events_append ago r (f p)) ps d = d\<lparr>events := ev, events_seq := s\<rparr>"
    for f and ps :: "string list"
  proof (induction ps arbitrary: d)
    case Nil
    have "d = d\<lparr>events := events d, events_seq := events_seq d\<rparr>" by simp
    then show ?case by (simp only: fold.simps id_apply) blast
  next
    case (Cons p ps)
    obtain ev s where "events_append ago r (f p) d = d\<lparr>events := ev, events_seq := s\<rparr>"
      using Cons.prems by blast
    with Cons.IH [OF Cons.prems, of "d\<lparr>events := ev, events_seq := s\<rparr>"] show ?case by simp
  qed
  then show ?thesis by (simp add: append_for_task_def)
qed

end
