(* ===== verification/Messages.thy ===== *)
theory Messages
  imports Schema
begin

text \<open>
  Messages, conversations and reply states: \<^verbatim>\<open>synapse/store/messages.py\<close>. The service
  draws identifiers from \<open>uuid4\<close>; here a fresh identifier is an argument, and an insertion
  whose primary or unique key is taken raises \<open>IntegrityError\<close>, as SQLite does.
\<close>

section \<open>Conversations\<close>

text \<open>\<open>min(a,b) + ":" + max(a,b)\<close>.\<close>

definition conversation_key :: "string \<Rightarrow> string \<Rightarrow> string" where
  "conversation_key a b = (if a \<le> b then a @ '':'' @ b else b @ '':'' @ a)"

definition get_conversation_by_key :: "database \<Rightarrow> string \<Rightarrow> conversation_row option" where
  "get_conversation_by_key d k = fetch (\<lambda>c. conv_key c = k) (conversations d)"

definition get_conversation_by_id :: "database \<Rightarrow> string \<Rightarrow> conversation_row option" where
  "get_conversation_by_id d i = fetch (\<lambda>c. conv_id c = i) (conversations d)"

definition fetch_or_create_conversation ::
    "string \<Rightarrow> string \<Rightarrow> string \<Rightarrow> database \<Rightarrow> exc + (string \<times> database)" where
  "fetch_or_create_conversation uuid key at d =
     (case get_conversation_by_key d key of
        Some c \<Rightarrow> Inr (conv_id c, d)
      | None \<Rightarrow>
          if \<exists>c \<in> set (conversations d). conv_id c = uuid \<or> conv_key c = key
          then (case get_conversation_by_key d key of
                  None \<Rightarrow> Inl IntegrityError
                | Some c \<Rightarrow> Inr (conv_id c, d))
          else Inr (uuid, d\<lparr>conversations := insert_row
                 \<lparr>conv_id = uuid, conv_key = key, conv_created_at = at\<rparr> (conversations d)\<rparr>))"

section \<open>Messages\<close>

definition insert_message ::
    "string \<Rightarrow> string \<Rightarrow> string \<Rightarrow> string \<Rightarrow> string \<Rightarrow> string \<Rightarrow> string \<Rightarrow> string option \<Rightarrow> database
     \<Rightarrow> exc + database" where
  "insert_message uuid conv client_id sender recipient content at reference d =
     (if \<exists>m \<in> set (messages d). msg_id m = uuid
           \<or> (msg_sender m = sender \<and> msg_client_id m = client_id)
      then Inl IntegrityError
      else Inr (d\<lparr>messages := insert_row
        \<lparr>msg_id = uuid, msg_conv = conv, msg_client_id = client_id, msg_sender = sender,
         msg_recipient = recipient, msg_content = content, msg_reference = reference,
         msg_created_at = at, msg_read_at = None\<rparr> (messages d)\<rparr>))"

definition find_message_by_client_id :: "database \<Rightarrow> string \<Rightarrow> string \<Rightarrow> message_row option" where
  "find_message_by_client_id d sender client_id =
     fetch (\<lambda>m. msg_sender m = sender \<and> msg_client_id m = client_id) (messages d)"

definition get_message_by_id :: "database \<Rightarrow> string \<Rightarrow> message_row option" where
  "get_message_by_id d i = fetch (\<lambda>m. msg_id m = i) (messages d)"

definition mark_read_conditional :: "string \<Rightarrow> string \<Rightarrow> database \<Rightarrow> database" where
  "mark_read_conditional i at d =
     d\<lparr>messages := update_where (\<lambda>m. msg_id m = i \<and> msg_read_at m = None)
        (\<lambda>m. m\<lparr>msg_read_at := Some at\<rparr>) (messages d)\<rparr>"

section \<open>Reply states\<close>

definition set_no_reply ::
    "string \<Rightarrow> string \<Rightarrow> string option \<Rightarrow> string option \<Rightarrow> database \<Rightarrow> database" where
  "set_no_reply conv u mid at d =
     d\<lparr>reply_states := upsert (\<lambda>r. rs_conv r = conv \<and> rs_username r = u)
        (\<lambda>r. r\<lparr>rs_message_id := mid, rs_marked_at := at\<rparr>)
        \<lparr>rs_conv = conv, rs_username = u, rs_message_id = mid, rs_marked_at = at\<rparr>
        (reply_states d)\<rparr>"

definition get_no_reply :: "database \<Rightarrow> string \<Rightarrow> string \<Rightarrow> reply_state_row option" where
  "get_no_reply d conv u =
     fetch (\<lambda>r. rs_conv r = conv \<and> rs_username r = u) (reply_states d)"

section \<open>Rows as JSON objects\<close>

datatype read_status = Read | Unread

record message_view =
  mv_id :: string
  mv_conv :: string
  mv_client_id :: string
  mv_sender :: string
  mv_sender_org :: "string option"
  mv_recipient :: string
  mv_content :: string
  mv_reference :: "string option"
  mv_created_at :: string
  mv_status :: read_status
  mv_read_at :: "string option"

text \<open>The read fields include the sender's organization, read from the accounts.\<close>

definition sender_org :: "database \<Rightarrow> message_row \<Rightarrow> string option" where
  "sender_org d m =
     map_option acc_org (fetch (\<lambda>a. acc_username a = msg_sender m) (accounts d))"

definition row_to_message :: "database \<Rightarrow> message_row \<Rightarrow> message_view" where
  "row_to_message d m =
     \<lparr>mv_id = msg_id m, mv_conv = msg_conv m, mv_client_id = msg_client_id m,
      mv_sender = msg_sender m, mv_sender_org = sender_org d m,
      mv_recipient = msg_recipient m, mv_content = msg_content m,
      mv_reference = msg_reference m, mv_created_at = msg_created_at m,
      mv_status = (if msg_read_at m \<noteq> None then Read else Unread),
      mv_read_at = msg_read_at m\<rparr>"

definition row_to_message_as_of :: "database \<Rightarrow> message_row \<Rightarrow> string \<Rightarrow> message_view" where
  "row_to_message_as_of d m boundary =
     (let read_eff = (case msg_read_at m of
                        None \<Rightarrow> None
                      | Some r \<Rightarrow> if r \<le> boundary then Some r else None)
      in (row_to_message d m)\<lparr>mv_read_at := read_eff,
            mv_status := (if read_eff \<noteq> None then Read else Unread)\<rparr>)"

definition raise_message_already_exists :: "exc + 'a" where
  "raise_message_already_exists =
     Inl (ApiError MESSAGE_ALREADY_EXISTS MESSAGE_ALREADY_EXISTS_CLIENT_ID)"

section \<open>Facts\<close>

lemma conversation_key_commute: "conversation_key a b = conversation_key b a"
  by (auto simp: conversation_key_def)

lemma append_colon_inject:
  assumes "CHR '':'' \<notin> set a" and "CHR '':'' \<notin> set c"
  shows "a @ CHR '':'' # b = c @ CHR '':'' # d \<longleftrightarrow> a = c \<and> b = d"
  using assms
proof (induction a arbitrary: c)
  case Nil
  then show ?case by (cases c) auto
next
  case (Cons x a)
  then show ?case by (cases c) auto
qed

lemma conversation_key_inject:
  assumes "CHR '':'' \<notin> set a \<union> set b \<union> set a' \<union> set b'"
    and "conversation_key a b = conversation_key a' b'"
  shows "{a, b} = {a', b'}"
  using assms by (auto simp: conversation_key_def append_colon_inject split: if_splits)

lemma get_conversation_by_keyD:
  "get_conversation_by_key d k = Some c \<Longrightarrow> c \<in> set (conversations d) \<and> conv_key c = k"
  by (auto simp: get_conversation_by_key_def dest: fetch_SomeD)

lemma get_conversation_by_idD:
  "get_conversation_by_id d i = Some c \<Longrightarrow> c \<in> set (conversations d) \<and> conv_id c = i"
  by (auto simp: get_conversation_by_id_def dest: fetch_SomeD)

lemma find_message_by_client_idD:
  "find_message_by_client_id d s c = Some m \<Longrightarrow>
     m \<in> set (messages d) \<and> msg_sender m = s \<and> msg_client_id m = c"
  by (auto simp: find_message_by_client_id_def dest: fetch_SomeD)

lemma get_message_by_idD:
  "get_message_by_id d i = Some m \<Longrightarrow> m \<in> set (messages d) \<and> msg_id m = i"
  by (auto simp: get_message_by_id_def dest: fetch_SomeD)

text \<open>
  \<open>fetch_or_create\<close> returns the conversation of the key: the one that exists, or a new one.
\<close>

lemma fetch_or_create_cases:
  assumes "fetch_or_create_conversation uuid key at d = Inr (cid, d')"
  obtains c where "get_conversation_by_key d key = Some c" "cid = conv_id c" "d' = d"
  | "get_conversation_by_key d key = None" "cid = uuid"
    "\<forall>c \<in> set (conversations d). conv_id c \<noteq> uuid \<and> conv_key c \<noteq> key"
    "d' = d\<lparr>conversations := insert_row
       \<lparr>conv_id = uuid, conv_key = key, conv_created_at = at\<rparr> (conversations d)\<rparr>"
  using assms
  by (auto simp: fetch_or_create_conversation_def split: option.splits if_splits)

lemma insert_message_Inr:
  "insert_message uuid conv client_id sender recipient content at reference d = Inr d' \<longleftrightarrow>
     (\<forall>m \<in> set (messages d). msg_id m \<noteq> uuid
        \<and> \<not> (msg_sender m = sender \<and> msg_client_id m = client_id))
     \<and> d' = d\<lparr>messages := insert_row
        \<lparr>msg_id = uuid, msg_conv = conv, msg_client_id = client_id, msg_sender = sender,
         msg_recipient = recipient, msg_content = content, msg_reference = reference,
         msg_created_at = at, msg_read_at = None\<rparr> (messages d)\<rparr>"
  by (auto simp: insert_message_def)

lemma mark_read_row:
  "m \<in> set (messages d) \<Longrightarrow>
   (if msg_id m = i \<and> msg_read_at m = None then m\<lparr>msg_read_at := Some at\<rparr> else m)
     \<in> set (messages (mark_read_conditional i at d))"
  by (auto simp: mark_read_conditional_def set_update_where)

section \<open>Well-formed messages\<close>

text \<open>
  What every operation keeps of the messages: the primary and unique keys, each message filed
  under the conversation of its two participants, and no message to oneself.
\<close>

definition filed :: "conversation_row list \<Rightarrow> message_row \<Rightarrow> bool" where
  "filed cs m = (\<exists>c \<in> set cs. conv_id c = msg_conv m
     \<and> conv_key c = conversation_key (msg_sender m) (msg_recipient m))"

definition messages_wf :: "database \<Rightarrow> bool" where
  "messages_wf d =
     (distinct (map conv_id (conversations d)) \<and> distinct (map conv_key (conversations d))
      \<and> distinct (map msg_id (messages d))
      \<and> distinct (map (\<lambda>m. (msg_sender m, msg_client_id m)) (messages d))
      \<and> (\<forall>m \<in> set (messages d). filed (conversations d) m \<and> msg_sender m \<noteq> msg_recipient m))"

lemma messages_wf_empty: "messages_wf empty_db"
  by (simp add: messages_wf_def)

lemma messages_wf_cong:
  "messages d' = messages d \<Longrightarrow> conversations d' = conversations d \<Longrightarrow>
     messages_wf d' = messages_wf d"
  by (simp add: messages_wf_def)

lemma filed_mono: "filed cs m \<Longrightarrow> set cs \<subseteq> set cs' \<Longrightarrow> filed cs' m"
  by (auto simp: filed_def)

lemma fetch_or_create_wf:
  assumes "messages_wf d" and "fetch_or_create_conversation uuid key at d = Inr (cid, d')"
  shows "messages_wf d'"
    and "messages d' = messages d"
    and "\<exists>c \<in> set (conversations d'). conv_id c = cid \<and> conv_key c = key"
  using assms(2)
  by (cases rule: fetch_or_create_cases,
      insert assms(1), auto simp: messages_wf_def insert_row_def
        dest: get_conversation_by_keyD elim!: filed_mono)+

lemma insert_message_wf:
  assumes "messages_wf d" and "sender \<noteq> recipient"
    and "\<exists>c \<in> set (conversations d). conv_id c = conv \<and> conv_key c = conversation_key sender recipient"
    and "insert_message uuid conv client_id sender recipient content at reference d = Inr d'"
  shows "messages_wf d'"
  using assms
  by (auto simp: messages_wf_def insert_message_Inr insert_row_def filed_def)

lemma mark_read_wf: "messages_wf d \<Longrightarrow> messages_wf (mark_read_conditional i at d)"
  by (auto simp: messages_wf_def mark_read_conditional_def map_update_where set_update_where
      filed_def)

end
