(* ===== verification/Tasks.thy ===== *)
theory Tasks
  imports Accounts Events Messages
begin

text \<open>
  Tasks, \<^verbatim>\<open>synapse/store/tasks.py\<close>: rows, dependencies, history, the queries over
  them, and the transitions \<open>update_task_state\<close> allows. Queries without \<open>ORDER BY\<close> are read
  in insertion order.
\<close>

section \<open>The state machine\<close>

definition TERMINAL_STATES :: "task_state list" where
  "TERMINAL_STATES = [Completed, Failed, Canceled]"

definition ACTIVE_STATES :: "task_state list" where
  "ACTIVE_STATES = [Submitted, InProgress, PendingApproval]"

fun transitions :: "task_state \<Rightarrow> task_state list option" where
  "transitions Submitted = Some [InProgress, Canceled]"
| "transitions InProgress = Some [Completed, Failed, Canceled]"
| "transitions _ = None"

definition ensure_transition :: "task_state \<Rightarrow> task_state \<Rightarrow> exc + unit" where
  "ensure_transition from_state to_state =
     (case transitions from_state of
        None \<Rightarrow> Inl (ApiError TASK_STATE_INVALID Default)
      | Some allowed \<Rightarrow> if to_state \<in> set allowed then Inr ()
          else Inl (ApiError TASK_STATE_INVALID Default))"

section \<open>Rows\<close>

definition tasks_get :: "database \<Rightarrow> string \<Rightarrow> task_row option" where
  "tasks_get d i = fetch (\<lambda>t. task_id t = i) (tasks d)"

definition get_by_client_key :: "database \<Rightarrow> string \<Rightarrow> string \<Rightarrow> task_row option" where
  "get_by_client_key d creator client =
     fetch (\<lambda>t. task_creator t = creator \<and> task_client_id t = Some client) (tasks d)"

record task_fields =
  tf_client :: "string option"
  tf_title :: string
  tf_description :: "string option"
  tf_creator :: string
  tf_assignee :: string
  tf_priority :: priority
  tf_due_at :: "string option"
  tf_reference :: "string option"

definition new_task :: "string \<Rightarrow> task_fields \<Rightarrow> string \<Rightarrow> task_row" where
  "new_task i f at =
     \<lparr>task_id = i, task_client_id = tf_client f, task_title = tf_title f,
      task_description = tf_description f, task_creator = tf_creator f,
      task_assignee = tf_assignee f, task_state = Submitted, task_priority = tf_priority f,
      task_due_at = tf_due_at f, task_reference = tf_reference f, task_result = None,
      task_approver = None, task_created_at = at, task_updated_at = at\<rparr>"

text \<open>\<open>PRIMARY KEY (task_id)\<close>, \<open>UNIQUE (creator_username, client_task_id)\<close>; \<open>NULL\<close>s differ.\<close>

definition tasks_insert :: "string \<Rightarrow> task_fields \<Rightarrow> string \<Rightarrow> database \<Rightarrow> exc + database" where
  "tasks_insert i f at d =
     (if \<exists>t \<in> set (tasks d). task_id t = i
           \<or> (tf_client f \<noteq> None \<and> task_creator t = tf_creator f \<and> task_client_id t = tf_client f)
      then Inl IntegrityError
      else Inr (d\<lparr>tasks := insert_row (new_task i f at) (tasks d)\<rparr>))"

definition update_task :: "string \<Rightarrow> (task_row \<Rightarrow> task_row) \<Rightarrow> database \<Rightarrow> database" where
  "update_task i f d = d\<lparr>tasks := update_where (\<lambda>t. task_id t = i) f (tasks d)\<rparr>"

definition set_state :: "string \<Rightarrow> task_state \<Rightarrow> string option \<Rightarrow> string \<Rightarrow> database \<Rightarrow> database"
where
  "set_state i st res at =
     update_task i (\<lambda>t. t\<lparr>task_state := st, task_result := res, task_updated_at := at\<rparr>)"

definition set_assignee :: "string \<Rightarrow> string \<Rightarrow> string \<Rightarrow> database \<Rightarrow> database" where
  "set_assignee i u at =
     update_task i (\<lambda>t. t\<lparr>task_assignee := u, task_updated_at := at\<rparr>)"

definition set_approver :: "string \<Rightarrow> string \<Rightarrow> string \<Rightarrow> database \<Rightarrow> database" where
  "set_approver i u at =
     update_task i (\<lambda>t. t\<lparr>task_approver := Some u, task_updated_at := at\<rparr>)"

section \<open>Dependencies and history\<close>

fun insert_dependencies ::
    "string \<Rightarrow> string list \<Rightarrow> dependency_row list \<Rightarrow> exc + dependency_row list" where
  "insert_dependencies i [] t = Inr t"
| "insert_dependencies i (dep # deps) t =
     (if \<lparr>dep_task = i, dep_on = dep\<rparr> \<in> set t then Inl IntegrityError
      else insert_dependencies i deps (insert_row \<lparr>dep_task = i, dep_on = dep\<rparr> t))"

definition replace_dependencies :: "string \<Rightarrow> string list \<Rightarrow> database \<Rightarrow> exc + database" where
  "replace_dependencies i deps d =
     andthen (insert_dependencies i deps
         (delete_where (\<lambda>r. dep_task r = i) (dependencies d)))
       (\<lambda>t. Inr (d\<lparr>dependencies := t\<rparr>))"

definition get_dependencies :: "database \<Rightarrow> string \<Rightarrow> string list" where
  "get_dependencies d i =
     map dep_on (order_asc dep_on (filter (\<lambda>r. dep_task r = i) (dependencies d)))"

text \<open>The join of the dependencies with the tasks that are not completed is empty.\<close>

definition dependencies_met :: "database \<Rightarrow> string \<Rightarrow> bool" where
  "dependencies_met d i =
     (concat (map (\<lambda>r. filter (\<lambda>t. task_id t = dep_on r \<and> task_state t \<noteq> Completed) (tasks d))
        (filter (\<lambda>r. dep_task r = i) (dependencies d))) = [])"

record task_event_entry =
  tx_task :: string
  tx_event :: string
  tx_by :: string
  tx_note :: "string option"
  tx_at :: string
  tx_hlc :: string

definition task_event_of :: "task_event_entry \<Rightarrow> database \<Rightarrow> task_event_row" where
  "task_event_of x d =
     \<lparr>te_id = Suc (task_events_seq d), te_task = tx_task x, te_event = tx_event x,
      te_by = tx_by x, te_note = tx_note x, te_at = tx_at x, te_hlc = Some (tx_hlc x)\<rparr>"

definition add_event :: "task_event_entry \<Rightarrow> database \<Rightarrow> database" where
  "add_event x d = d\<lparr>task_events := insert_row (task_event_of x d) (task_events d),
     task_events_seq := Suc (task_events_seq d)\<rparr>"

record history_view =
  hv_event :: string
  hv_by :: string
  hv_note :: "string option"
  hv_at :: string

definition get_history :: "database \<Rightarrow> string \<Rightarrow> history_view list" where
  "get_history d i =
     map (\<lambda>r. \<lparr>hv_event = te_event r, hv_by = te_by r, hv_note = te_note r, hv_at = te_at r\<rparr>)
       (order_asc te_id (filter (\<lambda>r. te_task r = i) (task_events d)))"

record task_view =
  tv_row :: task_row
  tv_depends_on :: "string list"
  tv_history :: "history_view list"

definition row_to_task :: "database \<Rightarrow> task_row \<Rightarrow> task_view" where
  "row_to_task d t =
     \<lparr>tv_row = t, tv_depends_on = get_dependencies d (task_id t),
      tv_history = get_history d (task_id t)\<rparr>"

section \<open>Counts and pages\<close>

definition active_count :: "database \<Rightarrow> string \<Rightarrow> nat" where
  "active_count d u =
     count_where (\<lambda>t. task_assignee t = u \<and> task_state t \<in> set ACTIVE_STATES) (tasks d)"

definition messages_in_hour :: "database \<Rightarrow> string \<Rightarrow> string \<Rightarrow> nat" where
  "messages_in_hour d u since =
     count_where (\<lambda>m. msg_sender m = u \<and> since < msg_created_at m) (messages d)
     + count_where (\<lambda>m. gmsg_sender m = u \<and> since < gmsg_created_at m) (group_messages d)"

record task_filter =
  tkf_me :: string
  tkf_assignee :: "string option"
  tkf_state :: "task_state option"
  tkf_priority :: "priority option"
  tkf_due_before :: "string option"
  tkf_boundary :: string

definition task_clauses :: "task_filter \<Rightarrow> task_row \<Rightarrow> bool" where
  "task_clauses f t =
     ((task_creator t = tkf_me f \<or> task_assignee t = tkf_me f)
      \<and> task_created_at t \<le> tkf_boundary f
      \<and> (case tkf_assignee f of None \<Rightarrow> True | Some a \<Rightarrow> task_assignee t = a)
      \<and> (case tkf_state f of None \<Rightarrow> True | Some s \<Rightarrow> task_state t = s)
      \<and> (case tkf_priority f of None \<Rightarrow> True | Some p \<Rightarrow> task_priority t = p)
      \<and> (case tkf_due_before f of None \<Rightarrow> True
         | Some b \<Rightarrow> (case task_due_at t of None \<Rightarrow> False | Some a \<Rightarrow> a < b)))"

definition task_pos :: "task_row \<Rightarrow> string \<times> string" where
  "task_pos t = (task_created_at t, task_id t)"

definition list_visible ::
    "database \<Rightarrow> task_filter \<Rightarrow> (string \<times> string) option \<Rightarrow> nat \<Rightarrow> task_row list" where
  "list_visible d f after limit =
     take (limit + 1) (order_asc task_pos (filter (\<lambda>t. task_clauses f t
       \<and> (case after of None \<Rightarrow> True
          | Some p \<Rightarrow> fst p < task_created_at t
              \<or> (task_created_at t = fst p \<and> snd p < task_id t))) (tasks d)))"

definition NO_DUE_AT :: string where "NO_DUE_AT = ''9999''"

definition due_or_last :: "task_row \<Rightarrow> string" where
  "due_or_last t = (case task_due_at t of None \<Rightarrow> NO_DUE_AT | Some a \<Rightarrow> a)"

definition work_pos :: "task_row \<Rightarrow> string \<times> string \<times> string" where
  "work_pos t = (due_or_last t, task_created_at t, task_id t)"

text \<open>The queue of \<open>me\<close>, read at a boundary.\<close>

definition work_clauses :: "string \<times> string \<Rightarrow> task_row \<Rightarrow> bool" where
  "work_clauses f t =
     (((task_assignee t = fst f \<and> task_state t \<in> set ACTIVE_STATES)
       \<or> (task_approver t = Some (fst f) \<and> task_state t = PendingApproval))
      \<and> task_created_at t \<le> snd f)"

definition list_work ::
    "database \<Rightarrow> string \<times> string \<Rightarrow> (string \<times> string \<times> string) option \<Rightarrow> nat
     \<Rightarrow> task_row list" where
  "list_work d f after limit =
     take (limit + 1) (order_asc work_pos (filter (\<lambda>t. work_clauses f t
       \<and> (case after of None \<Rightarrow> True
          | Some (due, created, i) \<Rightarrow> due < due_or_last t
              \<or> (due_or_last t = due \<and> created < task_created_at t)
              \<or> (due_or_last t = due \<and> task_created_at t = created \<and> i < task_id t)))
       (tasks d)))"

definition due_tasks_to_escalate ::
    "database \<Rightarrow> string \<Rightarrow> string \<Rightarrow> string \<Rightarrow> string \<Rightarrow> task_row list" where
  "due_tasks_to_escalate d org exclude due_before failed_before =
     concat (map (\<lambda>t. map (\<lambda>a. t)
        (filter (\<lambda>a. acc_username a = task_assignee t \<and> acc_org a = org) (accounts d)))
      (filter (\<lambda>t. task_assignee t \<noteq> exclude \<and> task_state t \<in> {Submitted, InProgress}
         \<and> ((case task_due_at t of None \<Rightarrow> False | Some a \<Rightarrow> a < due_before)
            \<or> (task_state t = InProgress \<and> task_updated_at t < failed_before))) (tasks d)))"

section \<open>Facts\<close>

lemma tasks_getD: "tasks_get d i = Some t \<Longrightarrow> t \<in> set (tasks d) \<and> task_id t = i"
  by (auto simp: tasks_get_def dest: fetch_SomeD)

lemma get_by_client_keyD:
  "get_by_client_key d u c = Some t \<Longrightarrow>
     t \<in> set (tasks d) \<and> task_creator t = u \<and> task_client_id t = Some c"
  by (auto simp: get_by_client_key_def dest: fetch_SomeD)

lemma tasks_insert_get:
  assumes "tasks_insert i f at d = Inr d'"
  shows "tasks_get d i = None"
    and "tasks_get d' j = (if j = i then Some (new_task i f at) else tasks_get d j)"
    and "d' = d\<lparr>tasks := insert_row (new_task i f at) (tasks d)\<rparr>"
proof -
  show none: "tasks_get d i = None"
    using assms by (auto simp: tasks_get_def fetch_None_iff tasks_insert_def split: if_splits)
  show d': "d' = d\<lparr>tasks := insert_row (new_task i f at) (tasks d)\<rparr>"
    using assms by (auto simp: tasks_insert_def split: if_splits)
  have "task_id (new_task i f at) = i" by (simp add: new_task_def)
  then show "tasks_get d' j = (if j = i then Some (new_task i f at) else tasks_get d j)"
    using none by (simp add: d' tasks_get_def fetch_insert_row split: option.split)
qed

lemma tasks_get_update_task:
  assumes "\<And>t. task_id (f t) = task_id t"
  shows "tasks_get (update_task i f d) j = map_option (\<lambda>t. if j = i then f t else t) (tasks_get d j)"
  unfolding tasks_get_def update_task_def
  by (simp, subst fetch_update_where_key, simp add: assms)
    (auto split: option.splits simp: map_option_case dest: fetch_SomeD)

lemmas tasks_get_set =
  tasks_get_update_task [where f = "\<lambda>t. t\<lparr>task_state := st, task_result := res, task_updated_at := at\<rparr>"
    for st res at, simplified, folded set_state_def]
  tasks_get_update_task [where f = "\<lambda>t. t\<lparr>task_assignee := u, task_updated_at := at\<rparr>"
    for u at, simplified, folded set_assignee_def]
  tasks_get_update_task [where f = "\<lambda>t. t\<lparr>task_approver := Some u, task_updated_at := at\<rparr>"
    for u at, simplified, folded set_approver_def]

lemma ensure_transition_Inr [exc_simps]:
  "ensure_transition a b = Inr u \<longleftrightarrow>
     (a, b) \<in> {(Submitted, InProgress), (Submitted, Canceled), (InProgress, Completed),
               (InProgress, Failed), (InProgress, Canceled)}"
  by (cases a; cases b) (simp_all add: ensure_transition_def)

lemma ensure_transition_Inl:
  "ensure_transition a b = Inl e \<Longrightarrow> e = ApiError TASK_STATE_INVALID Default"
  by (auto simp: ensure_transition_def split: option.splits if_splits)

lemma dependencies_met_iff:
  "dependencies_met d i \<longleftrightarrow>
     (\<forall>r \<in> set (dependencies d). dep_task r = i \<longrightarrow>
        (\<forall>t \<in> set (tasks d). task_id t = dep_on r \<longrightarrow> task_state t = Completed))"
  by (auto simp: dependencies_met_def filter_empty_conv)

lemma set_get_dependencies:
  "set (get_dependencies d i) = {j. \<lparr>dep_task = i, dep_on = j\<rparr> \<in> set (dependencies d)}"
proof -
  have row: "\<lparr>dep_task = i, dep_on = dep_on r\<rparr> \<in> set (dependencies d)"
    if "r \<in> set (dependencies d)" "dep_task r = i" for r
  proof -
    have "r = \<lparr>dep_task = i, dep_on = dep_on r\<rparr>" using that(2) by simp
    with that(1) show ?thesis by (simp only:)
  qed
  have "dep_on \<lparr>dep_task = i, dep_on = j\<rparr> = j" for j by simp
  with row show ?thesis
    by (fastforce simp: get_dependencies_def set_order_asc intro: rev_image_eqI)
qed

lemma insert_dependencies_Inr:
  "insert_dependencies i deps t = Inr t' \<longleftrightarrow>
     distinct deps \<and> (\<forall>j \<in> set deps. \<lparr>dep_task = i, dep_on = j\<rparr> \<notin> set t)
     \<and> t' = t @ map (\<lambda>j. \<lparr>dep_task = i, dep_on = j\<rparr>) deps"
  by (induction deps arbitrary: t) (auto simp: insert_row_def)

lemma replace_dependencies_Inr:
  "replace_dependencies i deps d = Inr d' \<longleftrightarrow>
     distinct deps \<and> d' = d\<lparr>dependencies := delete_where (\<lambda>r. dep_task r = i) (dependencies d)
        @ map (\<lambda>j. \<lparr>dep_task = i, dep_on = j\<rparr>) deps\<rparr>"
  by (auto simp: replace_dependencies_def exc_simps insert_dependencies_Inr set_delete_where)

lemma get_dependencies_replace:
  "replace_dependencies i deps d = Inr d' \<Longrightarrow> set (get_dependencies d' i) = set deps"
  by (auto simp: replace_dependencies_Inr set_get_dependencies set_delete_where)

interpretation tj: journal task_events task_events_seq te_id add_event task_event_of
  by unfold_locales (simp_all add: add_event_def insert_row_def task_event_of_def)

section \<open>Well-formed tasks\<close>

definition client_keys :: "task_row list \<Rightarrow> (string \<times> string) list" where
  "client_keys ts = List.map_filter
     (\<lambda>t. map_option (Pair (task_creator t)) (task_client_id t)) ts"

definition tasks_wf :: "database \<Rightarrow> bool" where
  "tasks_wf d =
     (distinct (map task_id (tasks d)) \<and> distinct (client_keys (tasks d))
      \<and> distinct (dependencies d) \<and> tj.wf d
      \<and> (\<forall>r \<in> set (dependencies d). dep_task r \<in> task_id ` set (tasks d)
           \<and> dep_on r \<in> task_id ` set (tasks d))
      \<and> (\<forall>e \<in> set (task_events d). te_task e \<in> task_id ` set (tasks d)))"

lemma tasks_wf_empty: "tasks_wf empty_db"
  by (simp add: tasks_wf_def client_keys_def tj.wf_def List.map_filter_def)

lemma tasks_wf_cong:
  assumes "tasks d' = tasks d" and "dependencies d' = dependencies d"
    and "task_events d' = task_events d" and "task_events_seq d' = task_events_seq d"
  shows "tasks_wf d' = tasks_wf d"
  using tj.wf_cong [OF assms(3,4)] assms by (simp add: tasks_wf_def)

lemma tasks_wf_insert:
  assumes "tasks_wf d" and "tasks_insert i f at d = Inr d'"
  shows "tasks_wf d'"
proof -
  have "tj.wf d'" using assms by (auto simp: tasks_wf_def tasks_insert_def tj.wf_def split: if_splits)
  moreover have "client_keys (tasks d @ [new_task i f at]) =
      client_keys (tasks d) @ (case tf_client f of None \<Rightarrow> [] | Some c \<Rightarrow> [(tf_creator f, c)])"
    by (simp add: client_keys_def List.map_filter_def new_task_def split: option.split)
  ultimately show ?thesis
    using assms
    by (auto simp: tasks_wf_def tasks_insert_def insert_row_def new_task_def client_keys_def
        List.map_filter_def split: if_splits option.splits)
qed

lemma client_keys_update:
  assumes "\<And>t. task_creator (f t) = task_creator t \<and> task_client_id (f t) = task_client_id t"
  shows "client_keys (update_where P f ts) = client_keys ts"
  using assms by (induction ts) (auto simp: client_keys_def update_where_def split: option.splits)

lemma tasks_wf_update:
  assumes "tasks_wf d"
    and "\<And>t. task_id (f t) = task_id t \<and> task_creator (f t) = task_creator t
          \<and> task_client_id (f t) = task_client_id t"
  shows "tasks_wf (update_task i f d)"
proof -
  have ids: "map task_id (update_where P f ts) = map task_id ts" for P ts
    using assms(2) by (intro map_update_where) simp
  then have id_set: "task_id ` set (update_where P f ts) = task_id ` set ts" for P ts
    by (metis list.set_map)
  have "tj.wf (update_task i f d) = tj.wf d"
    by (rule tj.wf_cong) (simp_all add: update_task_def)
  with assms show ?thesis
    by (simp add: tasks_wf_def update_task_def ids id_set client_keys_update)
qed

lemma tasks_wf_set:
  assumes "tasks_wf d"
  shows "tasks_wf (set_state i st res at d)" "tasks_wf (set_assignee i u at d)"
    "tasks_wf (set_approver i u at d)"
  unfolding set_state_def set_assignee_def set_approver_def
  by (rule tasks_wf_update [OF assms], simp)+

lemma tasks_wf_add_event:
  assumes "tasks_wf d" and "tx_task x \<in> task_id ` set (tasks d)"
  shows "tasks_wf (add_event x d)"
  using assms tj.wf_add [of d x]
  by (auto simp: tasks_wf_def add_event_def insert_row_def task_event_of_def)

lemma tasks_wf_replace:
  assumes "tasks_wf d" and "replace_dependencies i deps d = Inr d'"
    and "i \<in> task_id ` set (tasks d)" and "set deps \<subseteq> task_id ` set (tasks d)"
  shows "tasks_wf d'"
proof -
  have d': "d' = d\<lparr>dependencies := delete_where (\<lambda>r. dep_task r = i) (dependencies d)
        @ map (\<lambda>j. \<lparr>dep_task = i, dep_on = j\<rparr>) deps\<rparr>" "distinct deps"
    using assms(2) by (simp_all add: replace_dependencies_Inr)
  have "tj.wf d' = tj.wf d" by (rule tj.wf_cong) (simp_all add: d')
  with assms(1,3,4) d' show ?thesis
    by (auto simp: tasks_wf_def delete_where_def distinct_map inj_on_def)
qed

section \<open>The queries page through their rows\<close>

lemma tasks_wf_ids: "tasks_wf d \<Longrightarrow> distinct (map task_id (tasks d))"
  by (simp add: tasks_wf_def)

lemma distinct_task_pos:
  "distinct (map task_id ts) \<Longrightarrow> distinct (map task_pos ts) \<and> distinct (map work_pos ts)"
  by (auto simp: distinct_map inj_on_def task_pos_def work_pos_def)

interpretation lv: keyset "\<lambda>p q. p < q" task_pos tasks_wf
  "\<lambda>d f. order_asc task_pos (filter (task_clauses f) (tasks d))" list_visible
proof unfold_locales
  fix d f pos limit
  have "(fst p < a \<or> (a = fst p \<and> snd p < i)) = (p < (a, i))" for p :: "string \<times> string" and a i
    by (cases p) auto
  then show "list_visible d f pos limit = take (limit + 1) (filter (\<lambda>r. beyond (\<lambda>p q. p < q) pos (task_pos r))
      (order_asc task_pos (filter (task_clauses f) (tasks d))))"
    by (cases pos) (simp_all add: list_visible_def filter_order_asc task_pos_def conj_commute)
next
  fix d f
  assume "tasks_wf d"
  with distinct_task_pos show "sorted_wrt (\<lambda>r s. task_pos r < task_pos s)
      (order_asc task_pos (filter (task_clauses f) (tasks d)))"
    by (intro sorted_wrt_order_asc distinct_map_filter) (simp add: tasks_wf_ids)
qed auto

interpretation lw: keyset "\<lambda>p q. p < q" work_pos tasks_wf
  "\<lambda>d f. order_asc work_pos (filter (work_clauses f) (tasks d))" list_work
proof unfold_locales
  fix d f pos limit
  have "(case p of (due, created, i) \<Rightarrow> due < a \<or> (a = due \<and> created < b)
      \<or> (a = due \<and> b = created \<and> i < j)) = (p < (a, b, j))"
    for p :: "string \<times> string \<times> string" and a b j
    by (cases p) auto
  then show "list_work d f pos limit = take (limit + 1) (filter (\<lambda>r. beyond (\<lambda>p q. p < q) pos (work_pos r))
      (order_asc work_pos (filter (work_clauses f) (tasks d))))"
    by (cases pos) (simp_all add: list_work_def filter_order_asc work_pos_def conj_commute)
next
  fix d f
  assume "tasks_wf d"
  with distinct_task_pos show "sorted_wrt (\<lambda>r s. work_pos r < work_pos s)
      (order_asc work_pos (filter (work_clauses f) (tasks d)))"
    by (intro sorted_wrt_order_asc distinct_map_filter) (simp add: tasks_wf_ids)
qed auto

end
