(* ===== verification/Queries.thy ===== *)
theory Queries
  imports Messages Keyset
begin

text \<open>
  The read queries over messages, \<^verbatim>\<open>synapse/store/queries.py\<close>: the computed reply state of
  a participant, and the paginated reads frozen at a snapshot boundary. Both descending and
  ascending queries are instances of the interface \<open>keyset\<close>.
\<close>

section \<open>Message order\<close>

definition msg_pos :: "message_row \<Rightarrow> string \<times> string" where
  "msg_pos m = (msg_created_at m, msg_id m)"

text \<open>\<open>created_at < ? OR (created_at = ? AND message_id < ?)\<close> is the pair order.\<close>

definition pos_before :: "string \<times> string \<Rightarrow> string \<Rightarrow> string \<Rightarrow> bool" where
  "pos_before p a i = (a < fst p \<or> (a = fst p \<and> i < snd p))"

definition pos_after :: "string \<times> string \<Rightarrow> string \<Rightarrow> string \<Rightarrow> bool" where
  "pos_after p a i = (fst p < a \<or> (a = fst p \<and> snd p < i))"

lemma pos_before_pair: "pos_before p a i \<longleftrightarrow> (a, i) < p"
  by (cases p) (auto simp: pos_before_def)

lemma pos_after_pair: "pos_after p a i \<longleftrightarrow> p < (a, i)"
  by (cases p) (auto simp: pos_after_def)

section \<open>Reply state\<close>

datatype reply_state = NeedsReply | NoReplyNeeded

definition received :: "database \<Rightarrow> string \<Rightarrow> string \<Rightarrow> message_row list" where
  "received d u boundary =
     filter (\<lambda>m. msg_recipient m = u \<and> msg_created_at m \<le> boundary) (messages d)"

definition reply_status :: "database \<Rightarrow> string \<Rightarrow> string \<Rightarrow> string \<Rightarrow> reply_state \<times> string option"
where
  "reply_status d conv u boundary =
     (case order_desc msg_pos (filter (\<lambda>m. msg_conv m = conv \<and> msg_recipient m = u
             \<and> msg_created_at m \<le> boundary) (messages d)) of
        [] \<Rightarrow> (NoReplyNeeded, None)
      | row # _ \<Rightarrow>
          let last_id = msg_id row in
          if msg_sender row = u then (NoReplyNeeded, Some last_id)
          else if (case msg_read_at row of None \<Rightarrow> True | Some r \<Rightarrow> boundary < r)
          then (NoReplyNeeded, Some last_id)
          else if \<exists>x \<in> set (messages d). msg_conv x = conv \<and> msg_sender x = u
             \<and> msg_created_at x \<le> boundary
             \<and> (msg_created_at row < msg_created_at x
                \<or> (msg_created_at x = msg_created_at row \<and> last_id < msg_id x))
          then (NoReplyNeeded, Some last_id)
          else (case get_no_reply d conv u of
             Some mark \<Rightarrow> if rs_message_id mark = Some last_id
               then (NoReplyNeeded, Some last_id) else (NeedsReply, Some last_id)
           | None \<Rightarrow> (NeedsReply, Some last_id)))"

definition last_received_message :: "database \<Rightarrow> string \<Rightarrow> string \<Rightarrow> string option" where
  "last_received_message d conv u =
     (case order_desc msg_pos
        (filter (\<lambda>m. msg_conv m = conv \<and> msg_recipient m = u) (messages d)) of
        [] \<Rightarrow> None | m # _ \<Rightarrow> Some (msg_id m))"

section \<open>Pages of messages\<close>

record message_filter =
  mf_username :: string
  mf_boundary :: string
  mf_status :: "read_status option"
  mf_sender :: "string option"
  mf_conv :: "string option"

definition message_clauses :: "message_filter \<Rightarrow> message_row \<Rightarrow> bool" where
  "message_clauses f m =
     (msg_recipient m = mf_username f \<and> msg_created_at m \<le> mf_boundary f
      \<and> (case mf_status f of
           Some Unread \<Rightarrow> (case msg_read_at m of None \<Rightarrow> True | Some r \<Rightarrow> mf_boundary f < r)
         | Some Read \<Rightarrow> (case msg_read_at m of None \<Rightarrow> False | Some r \<Rightarrow> r \<le> mf_boundary f)
         | None \<Rightarrow> True)
      \<and> (case mf_sender f of None \<Rightarrow> True | Some s \<Rightarrow> msg_sender m = s)
      \<and> (case mf_conv f of None \<Rightarrow> True | Some c \<Rightarrow> msg_conv m = c))"

definition message_page ::
    "database \<Rightarrow> message_filter \<Rightarrow> (string \<times> string) option \<Rightarrow> nat \<Rightarrow> message_row list" where
  "message_page d f after limit =
     take (limit + 1) (order_desc msg_pos (filter (\<lambda>m. message_clauses f m
       \<and> (case after of None \<Rightarrow> True | Some p \<Rightarrow> pos_before p (msg_created_at m) (msg_id m)))
       (messages d)))"

definition conversation_page ::
    "database \<Rightarrow> string \<times> string \<Rightarrow> (string \<times> string) option \<Rightarrow> nat \<Rightarrow> message_row list" where
  "conversation_page d = (\<lambda>(conv, boundary) after limit.
     take (limit + 1) (order_asc msg_pos (filter (\<lambda>m. msg_conv m = conv
       \<and> msg_created_at m \<le> boundary
       \<and> (case after of None \<Rightarrow> True | Some p \<Rightarrow> pos_after p (msg_created_at m) (msg_id m)))
       (messages d))))"

section \<open>Notifications\<close>

definition is_unread_at :: "string \<Rightarrow> message_row \<Rightarrow> bool" where
  "is_unread_at boundary m =
     (case msg_read_at m of None \<Rightarrow> True | Some r \<Rightarrow> boundary < r)"

text \<open>One pair per sender of the group; the JSON object's key order is immaterial.\<close>

definition unread_by_sender :: "database \<Rightarrow> string \<Rightarrow> string \<Rightarrow> (string \<times> nat) list" where
  "unread_by_sender d u boundary =
     (let rows = filter (\<lambda>m. msg_recipient m = u \<and> msg_created_at m \<le> boundary
                    \<and> is_unread_at boundary m) (messages d)
      in map (\<lambda>s. (s, count_where (\<lambda>m. msg_sender m = s) rows))
           (remdups (map msg_sender rows)))"

record notification =
  nt_conv :: string
  nt_other :: string
  nt_other_org :: "string option"
  nt_unread :: nat
  nt_last_at :: string

text \<open>\<open>low, high = conv_key.split(":", 1)\<close>; a key without a colon does not unpack.\<close>

definition other_participant :: "string \<Rightarrow> string \<Rightarrow> exc + string" where
  "other_participant key u =
     (let low = takeWhile (\<lambda>c. c \<noteq> CHR '':'') key;
          rest = dropWhile (\<lambda>c. c \<noteq> CHR '':'') key
      in case rest of
           [] \<Rightarrow> Inl ValueError
         | _ # high \<Rightarrow> Inr (if low = u then high else low))"

text \<open>\<open>ROW_NUMBER() OVER (PARTITION BY conversation_id ORDER BY ... DESC) = 1\<close>.\<close>

definition row_number_one :: "message_row list \<Rightarrow> message_row \<Rightarrow> bool" where
  "row_number_one part l =
     (\<not> (\<exists>m \<in> set part. msg_conv m = msg_conv l \<and> msg_pos l < msg_pos m))"

definition notification_clauses :: "database \<Rightarrow> string \<Rightarrow> string \<Rightarrow> message_row \<Rightarrow> bool" where
  "notification_clauses d u boundary l =
     (row_number_one (received d u boundary) l
      \<and> (case msg_read_at l of None \<Rightarrow> False | Some r \<Rightarrow> r \<le> boundary)
      \<and> \<not> (\<exists>x \<in> set (messages d). msg_conv x = msg_conv l \<and> msg_sender x = u
            \<and> msg_created_at x \<le> boundary
            \<and> (msg_created_at l < msg_created_at x
               \<or> (msg_created_at x = msg_created_at l \<and> msg_id l < msg_id x)))
      \<and> (case get_no_reply d (msg_conv l) u of
           None \<Rightarrow> True | Some r \<Rightarrow> rs_message_id r \<noteq> Some (msg_id l)))"

definition notif_pos :: "message_row \<times> conversation_row \<Rightarrow> string \<times> string" where
  "notif_pos = (\<lambda>(l, c). (msg_created_at l, msg_conv l))"

text \<open>\<open>lastrec l JOIN conversations c ON c.conversation_id = l.conversation_id\<close>.\<close>

definition join_conversations ::
    "database \<Rightarrow> message_row list \<Rightarrow> (message_row \<times> conversation_row) list" where
  "join_conversations d ls =
     concat (map (\<lambda>l. map (Pair l) (filter (\<lambda>c. conv_id c = msg_conv l) (conversations d))) ls)"

definition notification_rows ::
    "database \<Rightarrow> string \<times> string \<Rightarrow> (message_row \<times> conversation_row) list" where
  "notification_rows d = (\<lambda>(u, boundary).
     order_desc notif_pos (join_conversations d
       (filter (notification_clauses d u boundary) (received d u boundary))))"

definition notification_query ::
    "database \<Rightarrow> string \<times> string \<Rightarrow> (string \<times> string) option \<Rightarrow> nat
     \<Rightarrow> (message_row \<times> conversation_row) list" where
  "notification_query d f after limit =
     take (limit + 1) (filter (\<lambda>(l, c). case after of None \<Rightarrow> True
       | Some p \<Rightarrow> pos_before p (msg_created_at l) (msg_conv l)) (notification_rows d f))"

definition notification_row ::
    "database \<Rightarrow> string \<Rightarrow> string \<Rightarrow> message_row \<times> conversation_row \<Rightarrow> exc + notification" where
  "notification_row d u boundary = (\<lambda>(l, c).
     andthen (other_participant (conv_key c) u) (\<lambda>other.
       Inr \<lparr>nt_conv = msg_conv l, nt_other = other, nt_other_org = sender_org d l,
         nt_unread = count_where (\<lambda>m. msg_conv m = msg_conv l \<and> msg_recipient m = u
            \<and> msg_created_at m \<le> boundary \<and> is_unread_at boundary m) (messages d),
         nt_last_at = msg_created_at l\<rparr>))"

definition notification_page ::
    "database \<Rightarrow> string \<times> string \<Rightarrow> (string \<times> string) option \<Rightarrow> nat
     \<Rightarrow> exc + notification list" where
  "notification_page d f after limit =
     map_exc (notification_row d (fst f) (snd f)) (notification_query d f after limit)"

section \<open>The queries page through their rows\<close>

lemma distinct_msg_pos: "distinct (map msg_id ms) \<Longrightarrow> distinct (map msg_pos ms)"
  by (auto simp: distinct_map inj_on_def msg_pos_def)

lemma messages_wf_ids: "messages_wf d \<Longrightarrow> distinct (map msg_id (messages d))"
  by (simp add: messages_wf_def)

interpretation mp: keyset "\<lambda>p q. q < p" msg_pos messages_wf
  "\<lambda>d f. order_desc msg_pos (filter (message_clauses f) (messages d))" message_page
proof unfold_locales
  fix d f pos limit
  show "message_page d f pos limit = take (limit + 1)
      (filter (\<lambda>r. beyond (\<lambda>p q. q < p) pos (msg_pos r))
        (order_desc msg_pos (filter (message_clauses f) (messages d))))"
    by (cases pos) (simp_all add: message_page_def filter_order_desc pos_before_pair msg_pos_def
        conj_commute)
next
  fix d f
  assume "messages_wf d"
  then have "distinct (map msg_pos (filter (message_clauses f) (messages d)))"
    by (intro distinct_map_filter distinct_msg_pos messages_wf_ids)
  then show "sorted_wrt (\<lambda>r s. msg_pos s < msg_pos r)
      (order_desc msg_pos (filter (message_clauses f) (messages d)))"
    by (rule sorted_wrt_order_desc)
qed auto

definition conversation_clauses :: "string \<times> string \<Rightarrow> message_row \<Rightarrow> bool" where
  "conversation_clauses f m = (msg_conv m = fst f \<and> msg_created_at m \<le> snd f)"

interpretation cp: keyset "\<lambda>p q. p < q" msg_pos messages_wf
  "\<lambda>d f. order_asc msg_pos (filter (conversation_clauses f) (messages d))" conversation_page
proof unfold_locales
  fix d f pos limit
  show "conversation_page d f pos limit = take (limit + 1)
      (filter (\<lambda>r. beyond (\<lambda>p q. p < q) pos (msg_pos r))
        (order_asc msg_pos (filter (conversation_clauses f) (messages d))))"
    by (cases pos; cases f) (simp_all add: conversation_page_def filter_order_asc pos_after_pair
        msg_pos_def conversation_clauses_def conj_commute conj_left_commute)
next
  fix d f
  assume "messages_wf d"
  then have "distinct (map msg_pos (filter (conversation_clauses f) (messages d)))"
    by (intro distinct_map_filter distinct_msg_pos messages_wf_ids)
  then show "sorted_wrt (\<lambda>r s. msg_pos r < msg_pos s)
      (order_asc msg_pos (filter (conversation_clauses f) (messages d)))"
    by (rule sorted_wrt_order_asc)
qed auto

text \<open>The join gives each message its one conversation.\<close>

lemma join_conversations_mem:
  "(l, c) \<in> set (join_conversations d ls) \<longleftrightarrow>
     l \<in> set ls \<and> c \<in> set (conversations d) \<and> conv_id c = msg_conv l"
  by (auto simp: join_conversations_def)

lemma notification_row_mem:
  "(l, c) \<in> set (notification_rows d (u, boundary)) \<longleftrightarrow>
     l \<in> set (received d u boundary) \<and> notification_clauses d u boundary l
     \<and> c \<in> set (conversations d) \<and> conv_id c = msg_conv l"
  by (auto simp: notification_rows_def set_order_desc join_conversations_mem)

lemma filter_key_singleton:
  "distinct (map k cs) \<Longrightarrow>
     filter (\<lambda>c. k c = x) cs = (case fetch (\<lambda>c. k c = x) cs of None \<Rightarrow> [] | Some c \<Rightarrow> [c])"
proof (induction cs)
  case (Cons c cs)
  show ?case
  proof (cases "k c = x")
    case True
    with Cons.prems have "x \<notin> k ` set cs" by auto
    then have "filter (\<lambda>c. k c = x) cs = []"
      by (auto simp: filter_empty_conv)
    with True show ?thesis by (simp add: fetch_Cons)
  next
    case False
    with Cons show ?thesis by (simp add: fetch_Cons)
  qed
qed simp

lemma distinct_join:
  assumes "distinct (map k ls)" and "distinct (map conv_id (conversations d))"
  shows "distinct (map (\<lambda>(l, c). k l) (join_conversations d ls))"
  using assms
proof (induction ls)
  case (Cons l ls)
  have "k l \<noteq> k l'" if "(l', c) \<in> set (join_conversations d ls)" for l' c
  proof -
    have "l' \<in> set ls" using that by (simp only: join_conversations_mem)
    then have "k l' \<in> k ` set ls" by (rule imageI)
    with Cons.prems(1) show ?thesis by auto
  qed
  moreover have "join_conversations d (l # ls) = map (Pair l)
      (filter (\<lambda>c. conv_id c = msg_conv l) (conversations d)) @ join_conversations d ls"
    by (simp add: join_conversations_def)
  moreover have "filter (\<lambda>c. conv_id c = msg_conv l) (conversations d) =
      (case fetch (\<lambda>c. conv_id c = msg_conv l) (conversations d) of None \<Rightarrow> [] | Some c \<Rightarrow> [c])"
    using Cons.prems(2) by (rule filter_key_singleton)
  ultimately show ?case using Cons
    by (auto split: option.splits)
qed (simp add: join_conversations_def)

text \<open>At most one row per conversation has the row number one.\<close>

lemma row_number_one_unique:
  assumes "l \<in> set part" and "m \<in> set part" and "msg_conv l = msg_conv m"
    and "row_number_one part l" and "row_number_one part m" and "distinct (map msg_id part)"
  shows "l = m"
proof -
  have "\<not> msg_pos l < msg_pos m" "\<not> msg_pos m < msg_pos l"
    using assms(1-5) by (auto simp: row_number_one_def)
  then have "msg_pos l = msg_pos m" by (rule order.antisym[OF leI leI, rotated])
  then have "msg_id l = msg_id m" by (simp add: msg_pos_def)
  with assms(1,2,6) show ?thesis by (auto simp: distinct_map inj_on_def)
qed

lemma distinct_notif_pos:
  assumes "messages_wf d"
  shows "distinct (map notif_pos (join_conversations d
    (filter (notification_clauses d u boundary) (received d u boundary))))"
proof -
  let ?ls = "filter (notification_clauses d u boundary) (received d u boundary)"
  have ids: "distinct (map msg_id (received d u boundary))"
    using messages_wf_ids [OF assms] by (simp add: received_def distinct_map_filter)
  have "l = m" if "l \<in> set ?ls" "m \<in> set ?ls" "msg_conv l = msg_conv m" for l m
    using that ids
    by (intro row_number_one_unique [of l "received d u boundary" m])
      (auto simp: notification_clauses_def)
  then have "inj_on (\<lambda>l. (msg_created_at l, msg_conv l)) (set ?ls)"
    by (auto intro: inj_onI)
  moreover have "distinct ?ls" using ids by (auto simp: distinct_map)
  ultimately have "distinct (map (\<lambda>l. (msg_created_at l, msg_conv l)) ?ls)"
    by (simp only: distinct_map)
  from distinct_join [OF this] assms show ?thesis
    by (simp add: notif_pos_def messages_wf_def)
qed

interpretation np: keyset "\<lambda>p q. q < p" notif_pos messages_wf notification_rows notification_query
proof unfold_locales
  fix d f pos limit
  show "notification_query d f pos limit = take (limit + 1)
      (filter (\<lambda>r. beyond (\<lambda>p q. q < p) pos (notif_pos r)) (notification_rows d f))"
    by (cases pos) (auto simp: notification_query_def notif_pos_def pos_before_pair
        intro!: arg_cong [where f = "take _"] filter_cong)
next
  fix d f
  assume "messages_wf d"
  from distinct_notif_pos [OF this]
  show "sorted_wrt (\<lambda>r s. notif_pos s < notif_pos r) (notification_rows d f)"
    by (cases f) (simp add: notification_rows_def sorted_wrt_order_desc)
qed auto

section \<open>Notifications are the conversations that need a reply\<close>

text \<open>The message \<open>reply_status\<close> looks at is the one with row number one.\<close>

lemma row_number_one_head:
  assumes "order_desc msg_pos (filter (\<lambda>m. msg_conv m = conv \<and> msg_recipient m = u
      \<and> msg_created_at m \<le> boundary) (messages d)) = h # rest"
  shows "h \<in> set (received d u boundary)" and "msg_conv h = conv"
    and "row_number_one (received d u boundary) h"
  using order_desc_head [OF assms]
  by (auto simp: received_def row_number_one_def not_less)

lemma notification_clauses_reply_status:
  assumes "messages_wf d" and "order_desc msg_pos (filter (\<lambda>m. msg_conv m = conv
      \<and> msg_recipient m = u \<and> msg_created_at m \<le> boundary) (messages d)) = h # rest"
  shows "notification_clauses d u boundary h \<longleftrightarrow>
    fst (reply_status d conv u boundary) = NeedsReply"
proof -
  note head = row_number_one_head [OF assms(2)]
  have "msg_sender h \<noteq> u" using head(1) assms(1) by (auto simp: received_def messages_wf_def)
  then show ?thesis using head
    by (auto simp: notification_clauses_def reply_status_def assms(2) Let_def not_less
        split: option.splits)
qed

lemma notification_iff_needs_reply:
  assumes "messages_wf d"
  shows "conv \<in> (\<lambda>(l, c). msg_conv l) ` set (notification_rows d (u, boundary)) \<longleftrightarrow>
    fst (reply_status d conv u boundary) = NeedsReply"
    (is "?lhs \<longleftrightarrow> ?rhs")
proof (cases "order_desc msg_pos (filter (\<lambda>m. msg_conv m = conv \<and> msg_recipient m = u
      \<and> msg_created_at m \<le> boundary) (messages d))")
  case Nil
  then have none: "msg_conv l \<noteq> conv" if "l \<in> set (received d u boundary)" for l
    using that by (auto simp: received_def filter_empty_conv)
  have "\<not> ?rhs" using Nil by (simp add: reply_status_def del: order_desc_Nil)
  moreover have "\<not> ?lhs" using none by (force simp: notification_row_mem)
  ultimately show ?thesis by simp
next
  case (Cons h rest)
  note head = row_number_one_head [OF Cons]
  have h_iff: "notification_clauses d u boundary h \<longleftrightarrow> ?rhs"
    using assms Cons by (rule notification_clauses_reply_status)
  have only: "l = h" if "l \<in> set (received d u boundary)" "msg_conv l = conv"
      "notification_clauses d u boundary l" for l
    using that head messages_wf_ids [OF assms]
    by (intro row_number_one_unique [of l "received d u boundary" h])
      (auto simp: notification_clauses_def received_def distinct_map_filter)
  obtain c where c: "c \<in> set (conversations d)" "conv_id c = conv"
    using assms head by (auto simp: messages_wf_def filed_def received_def)
  show ?thesis
  proof
    assume ?lhs
    then obtain l where "l \<in> set (received d u boundary)" "msg_conv l = conv"
      "notification_clauses d u boundary l" by (auto simp: notification_row_mem)
    with only [OF this] h_iff show ?rhs by simp
  next
    assume ?rhs
    then have "(h, c) \<in> set (notification_rows d (u, boundary))"
      using h_iff head c by (simp add: notification_row_mem)
    then show ?lhs using head(2) by (force intro: rev_image_eqI)
  qed
qed

lemma other_participant_of_key:
  assumes "CHR '':'' \<notin> set u" and "CHR '':'' \<notin> set v"
  shows "other_participant (conversation_key u v) u = Inr v"
    and "other_participant (conversation_key u v) v = Inr u"
proof -
  have colon: "takeWhile (\<lambda>c. c \<noteq> CHR '':'') (a @ CHR '':'' # b) = a"
      "dropWhile (\<lambda>c. c \<noteq> CHR '':'') (a @ CHR '':'' # b) = CHR '':'' # b"
      if "CHR '':'' \<notin> set a" for a b
    using that by (induction a) auto
  show "other_participant (conversation_key u v) u = Inr v"
    "other_participant (conversation_key u v) v = Inr u"
    using assms by (auto simp: other_participant_def conversation_key_def colon Let_def)
qed

end
