(* ===== verification/Cards.thy ===== *)
theory Cards
  imports Accounts Keyset Json
begin

text \<open>
  Agent cards, \<^verbatim>\<open>synapse/store/cards.py\<close>. The lists of a card are stored as JSON
  text; the search matches that text with SQL \<open>LIKE\<close>.
\<close>

section \<open>SQL LIKE\<close>

text \<open>
  SQLite's \<open>LIKE\<close>: \<open>%\<close> matches any run of characters, \<open>_\<close> one character (its first byte and
  the continuation bytes that follow), every other byte itself up to ASCII case.
\<close>

definition next_char :: "string \<Rightarrow> string" where
  "next_char s = dropWhile (\<lambda>c. 128 \<le> (of_char c :: nat) \<and> (of_char c :: nat) < 192) (tl s)"

lemma next_char_shorter: "s \<noteq> [] \<Longrightarrow> length (next_char s) < length s"
  using length_dropWhile_le [of _ "tl s"] by (cases s) (auto simp: next_char_def less_Suc_eq_le)

function like :: "string \<Rightarrow> string \<Rightarrow> bool" where
  "like [] s = (s = [])"
| "like (p # ps) s =
     (if p = CHR ''%''
      then like ps s \<or> (if s = [] then False else like (p # ps) (next_char s))
      else if s = [] then False
      else if p = CHR ''_'' then like ps (next_char s)
      else ascii_lower_char (hd s) = ascii_lower_char p \<and> like ps (tl s))"
  by pat_completeness auto

termination
  by (relation "measures [\<lambda>(p, s). length p + length s]")
    (auto dest!: next_char_shorter)

definition like_contains :: "string \<Rightarrow> string \<Rightarrow> bool" where
  "like_contains needle s = like (''%'' @ needle @ ''%'') s"

section \<open>The store\<close>

definition cards_get :: "database \<Rightarrow> string \<Rightarrow> card_row option" where
  "cards_get d u = fetch (\<lambda>c. card_username c = u) (agent_cards d)"

record card_fields =
  cf_capabilities :: "string list"
  cf_domain :: "string option"
  cf_model :: "string option"
  cf_tools :: "string list"
  cf_sla :: "string option"
  cf_limits :: "string option"
  cf_cost :: "string option"

definition card_of :: "string \<Rightarrow> card_fields \<Rightarrow> string \<Rightarrow> card_row" where
  "card_of u f at =
     \<lparr>card_username = u, card_capabilities = cf_capabilities f, card_domain = cf_domain f,
      card_model = cf_model f, card_tools = cf_tools f, card_sla = cf_sla f,
      card_limits = cf_limits f, card_cost = cf_cost f, card_state = Pending,
      card_approved_by = None, card_approved_at = None, card_updated_at = at\<rparr>"

definition cards_upsert :: "string \<Rightarrow> card_fields \<Rightarrow> string \<Rightarrow> database \<Rightarrow> database" where
  "cards_upsert u f at d =
     d\<lparr>agent_cards := upsert (\<lambda>c. card_username c = u)
        (\<lambda>c. c\<lparr>card_capabilities := cf_capabilities f, card_domain := cf_domain f,
           card_model := cf_model f, card_tools := cf_tools f, card_sla := cf_sla f,
           card_limits := cf_limits f, card_cost := cf_cost f, card_state := Pending,
           card_approved_by := None, card_approved_at := None, card_updated_at := at\<rparr>)
        (card_of u f at) (agent_cards d)\<rparr>"

definition cards_approve :: "string \<Rightarrow> string \<Rightarrow> string \<Rightarrow> database \<Rightarrow> database" where
  "cards_approve u by at d =
     d\<lparr>agent_cards := update_where (\<lambda>c. card_username c = u)
        (\<lambda>c. c\<lparr>card_state := Approved, card_approved_by := Some by,
           card_approved_at := Some at\<rparr>) (agent_cards d)\<rparr>"

text \<open>\<open>if capability:\<close> skips a missing and an empty filter alike.\<close>

definition like_filter :: "string option \<Rightarrow> string option \<Rightarrow> bool" where
  "like_filter f col = (case f of None \<Rightarrow> True | Some p \<Rightarrow>
     p = [] \<or> (case col of None \<Rightarrow> False | Some s \<Rightarrow> like_contains p s))"

record card_filter =
  cdf_org :: string
  cdf_capability :: "string option"
  cdf_domain :: "string option"
  cdf_name :: "string option"

definition card_clauses :: "card_filter \<Rightarrow> card_row \<times> account_row \<Rightarrow> bool" where
  "card_clauses f = (\<lambda>(c, a). acc_org a = cdf_org f \<and> acc_status a = Active
     \<and> like_filter (cdf_capability f) (Some (dumps default_separators (JList (map JStr (card_capabilities c)))))
     \<and> like_filter (cdf_domain f) (card_domain c)
     \<and> like_filter (cdf_name f) (Some (card_username c)))"

text \<open>\<open>agent_cards c JOIN accounts a ON a.username = c.username\<close>.\<close>

definition join_accounts :: "database \<Rightarrow> (card_row \<times> account_row) list" where
  "join_accounts d =
     concat (map (\<lambda>c. map (Pair c) (filter (\<lambda>a. acc_username a = card_username c) (accounts d)))
       (agent_cards d))"

text \<open>The page starts after the last name, or after the empty string.\<close>

definition cards_search ::
    "database \<Rightarrow> card_filter \<Rightarrow> string option \<Rightarrow> nat \<Rightarrow> (card_row \<times> account_row) list" where
  "cards_search d f last_username limit =
     take (limit + 1) (order_asc (\<lambda>(c, a). card_username c)
       (filter (\<lambda>(c, a). (case last_username of None \<Rightarrow> '''' | Some u \<Rightarrow> u) < card_username c
          \<and> card_clauses f (c, a)) (join_accounts d)))"

section \<open>Facts\<close>

lemma cards_getD:
  "cards_get d u = Some c \<Longrightarrow> c \<in> set (agent_cards d) \<and> card_username c = u"
  by (auto simp: cards_get_def dest: fetch_SomeD)

text \<open>A submission is pending whatever the card was before; only its owner's card changes.\<close>

lemma cards_get_upsert:
  "cards_get (cards_upsert u f at d) v = (if v = u then Some (card_of u f at) else cards_get d v)"
proof -
  have row: "c\<lparr>card_capabilities := cf_capabilities f, card_domain := cf_domain f,
      card_model := cf_model f, card_tools := cf_tools f, card_sla := cf_sla f,
      card_limits := cf_limits f, card_cost := cf_cost f, card_state := Pending,
      card_approved_by := None, card_approved_at := None, card_updated_at := at\<rparr> = card_of u f at"
    if "card_username c = u" for c :: card_row
    using that by (cases c) (simp add: card_of_def)
  show ?thesis
  proof (cases "v = u")
    case True
    have "cards_get (cards_upsert u f at d) u = Some (case cards_get d u of None \<Rightarrow> card_of u f at
      | Some c \<Rightarrow> c\<lparr>card_capabilities := cf_capabilities f, card_domain := cf_domain f,
         card_model := cf_model f, card_tools := cf_tools f, card_sla := cf_sla f,
         card_limits := cf_limits f, card_cost := cf_cost f, card_state := Pending,
         card_approved_by := None, card_approved_at := None, card_updated_at := at\<rparr>)"
      unfolding cards_get_def cards_upsert_def
      by (simp, rule fetch_upsert) (simp_all add: card_of_def)
    with True row show ?thesis by (auto dest: cards_getD split: option.splits)
  next
    case False
    have "fetch (\<lambda>c. card_username c = v) (agent_cards (cards_upsert u f at d)) =
        fetch (\<lambda>c. card_username c = v) (agent_cards d)"
      unfolding cards_upsert_def
      by (simp, rule fetch_upsert_other) (use False in \<open>auto simp: card_of_def\<close>)
    with False show ?thesis by (simp add: cards_get_def)
  qed
qed

lemma cards_get_approve:
  "cards_get (cards_approve u by at d) v = map_option (\<lambda>c. if v = u
     then c\<lparr>card_state := Approved, card_approved_by := Some by, card_approved_at := Some at\<rparr>
     else c) (cards_get d v)"
  unfolding cards_get_def cards_approve_def
  by (simp, subst fetch_update_where_key, simp)
    (auto split: option.splits simp: map_option_case dest: fetch_SomeD)

lemma join_accounts_mem:
  "(c, a) \<in> set (join_accounts d) \<longleftrightarrow>
     c \<in> set (agent_cards d) \<and> a \<in> set (accounts d) \<and> acc_username a = card_username c"
  by (auto simp: join_accounts_def)

end
