(* ===== verification/Common.thy ===== *)
theory Common
  imports World Tasks Queries Cards
begin

text \<open>
  The checks the handlers of \<^verbatim>\<open>synapse/service.py\<close> share: membership, visibility,
  budgets, the external-communication policies, the retention of events, the audit entry.
\<close>

section \<open>Accounts and organizations\<close>

definition org_of :: "database \<Rightarrow> string \<Rightarrow> exc + string" where
  "org_of d u = (case accounts_get d u of None \<Rightarrow> Inl AssertionError | Some a \<Rightarrow> Inr (acc_org a))"

definition org_require_member :: "database \<Rightarrow> string \<Rightarrow> string \<Rightarrow> exc + account_row" where
  "org_require_member d u org =
     (case accounts_get d u of
        None \<Rightarrow> Inl (ApiError USER_NOT_FOUND Default)
      | Some row \<Rightarrow> if acc_org row \<noteq> org then Inl (ApiError USER_NOT_FOUND Default) else Inr row)"

definition require_active_account :: "database \<Rightarrow> string \<Rightarrow> exc + unit" where
  "require_active_account d u =
     (case accounts_get d u of
        None \<Rightarrow> Inl (ApiError USER_NOT_FOUND Default)
      | Some row \<Rightarrow> if acc_status row \<noteq> Active
          then Inl (ApiError RECIPIENT_NOT_FOUND RECIPIENT_NOT_FOUND_ACTIVE) else Inr ())"

definition external_comm_allowed :: "database \<Rightarrow> string \<Rightarrow> string \<Rightarrow> bool" where
  "external_comm_allowed d me other =
     (case (accounts_get d me, accounts_get d other) of
        (Some a, Some b) \<Rightarrow>
          if acc_org a = acc_org b then True
          else (case (organizations_get d (acc_org a), organizations_get d (acc_org b)) of
              (Some oa, Some ob) \<Rightarrow> org_outgoing oa \<and> org_incoming ob
            | _ \<Rightarrow> False)
      | _ \<Rightarrow> False)"

section \<open>Tasks\<close>

text \<open>The task, and whether access goes through a delegation.\<close>

definition task_visible_or_404 ::
    "env \<Rightarrow> database \<Rightarrow> string \<Rightarrow> string \<Rightarrow> bool \<Rightarrow> exc + (task_row \<times> bool)" where
  "task_visible_or_404 e d i me allow_delegation =
     (case tasks_get d i of
        None \<Rightarrow> Inl (ApiError TASK_NOT_FOUND Default)
      | Some row \<Rightarrow>
          if task_creator row = me \<or> task_assignee row = me then Inr (row, False)
          else if allow_delegation \<and> (\<exists>x \<in> set (delegations d). del_delegatee x = me
             \<and> del_task x = i \<and> now e < del_expires_at x)
          then Inr (row, True)
          else Inl (ApiError TASK_NOT_FOUND Default))"

section \<open>Budgets\<close>

definition budget_get :: "database \<Rightarrow> string \<Rightarrow> budget_row option" where
  "budget_get d u = fetch (\<lambda>b. bud_username b = u) (budgets d)"

definition check_task_budget :: "database \<Rightarrow> string \<Rightarrow> exc + unit" where
  "check_task_budget d assignee =
     (case budget_get d assignee of
        None \<Rightarrow> Inr ()
      | Some b \<Rightarrow> (case bud_tasks b of
           None \<Rightarrow> Inr ()
         | Some n \<Rightarrow> if n \<le> int (active_count d assignee)
             then Inl (ApiError QUOTA_EXCEEDED QUOTA_EXCEEDED_TASK_BUDGET) else Inr ()))"

definition check_message_budget :: "env \<Rightarrow> database \<Rightarrow> string \<Rightarrow> exc + unit" where
  "check_message_budget e d sender =
     (case budget_get d sender of
        None \<Rightarrow> Inr ()
      | Some b \<Rightarrow> (case bud_messages b of
           None \<Rightarrow> Inr ()
         | Some n \<Rightarrow> if n \<le> int (messages_in_hour d sender (ago e 3600))
             then Inl (ApiError QUOTA_EXCEEDED QUOTA_EXCEEDED_MESSAGE_BUDGET) else Inr ()))"

section \<open>Journals\<close>

definition event_retention_days_of :: "database \<Rightarrow> string \<Rightarrow> int \<Rightarrow> int" where
  "event_retention_days_of d org dflt =
     (case fetch (\<lambda>r. set_org r = org) (org_settings d) of
        None \<Rightarrow> dflt | Some r \<Rightarrow> set_retention r)"

definition audit ::
    "string \<Rightarrow> string \<Rightarrow> string \<Rightarrow> string \<Rightarrow> string option \<Rightarrow> string option \<Rightarrow> string \<Rightarrow> string
     \<Rightarrow> database \<Rightarrow> database" where
  "audit org at actor command target_type target outcome hlc =
     audit_append \<lparr>ae_org = org, ae_at = at, ae_actor = actor, ae_command = command,
       ae_target_type = target_type, ae_target = target, ae_outcome = outcome, ae_hlc = hlc\<rparr>"

text \<open>One event for the creator and one for the assignee, with the organization's retention.\<close>

definition task_event ::
    "config \<Rightarrow> env \<Rightarrow> string \<Rightarrow> task_row \<Rightarrow> event_type \<Rightarrow> string \<Rightarrow> string \<Rightarrow> string \<Rightarrow> database
     \<Rightarrow> database" where
  "task_event cfg e org t et by at hlc d =
     append_for_task (ago e) (first e) (Some (event_retention_days_of d org (event_retention_days cfg)))
       t et by at hlc d"

section \<open>Pages\<close>

text \<open>A position carried by a cursor, unpacked as the handler unpacks it.\<close>

definition pair_pos :: "string list option \<Rightarrow> exc + (string \<times> string) option" where
  "pair_pos pos = (case pos of
     None \<Rightarrow> Inr None | Some [a, b] \<Rightarrow> Inr (Some (a, b)) | Some _ \<Rightarrow> Inl ValueError)"

definition first_pos :: "string list option \<Rightarrow> string option" where
  "first_pos pos = (case pos of None \<Rightarrow> None | Some xs \<Rightarrow> (case xs of [] \<Rightarrow> None | a # _ \<Rightarrow> Some a))"

section \<open>Facts\<close>

lemma org_of_Inr [exc_simps]:
  "org_of d u = Inr g \<longleftrightarrow> (\<exists>a. accounts_get d u = Some a \<and> g = acc_org a)"
  by (auto simp: org_of_def split: option.split)

lemma org_require_member_Inr [exc_simps]:
  "org_require_member d u g = Inr row \<longleftrightarrow> accounts_get d u = Some row \<and> acc_org row = g"
  by (auto simp: org_require_member_def split: option.split)

lemma require_active_account_Inr [exc_simps]:
  "require_active_account d u = Inr x \<longleftrightarrow> (\<exists>a. accounts_get d u = Some a \<and> acc_status a = Active)"
  by (auto simp: require_active_account_def split: option.split)

lemma task_visible_Inr [exc_simps]:
  "task_visible_or_404 e d i me allow = Inr (row, delegated) \<longleftrightarrow>
     tasks_get d i = Some row
     \<and> (if task_creator row = me \<or> task_assignee row = me then \<not> delegated
        else delegated \<and> allow \<and> (\<exists>x \<in> set (delegations d). del_delegatee x = me
          \<and> del_task x = i \<and> now e < del_expires_at x))"
  by (auto simp: task_visible_or_404_def split: option.split)

lemma check_task_budget_Inr [exc_simps]:
  "check_task_budget d u = Inr x \<longleftrightarrow>
     (\<forall>b n. budget_get d u = Some b \<longrightarrow> bud_tasks b = Some n \<longrightarrow> int (active_count d u) < n)"
  by (auto simp: check_task_budget_def split: option.split)

lemma check_message_budget_Inr [exc_simps]:
  "check_message_budget e d u = Inr x \<longleftrightarrow>
     (\<forall>b n. budget_get d u = Some b \<longrightarrow> bud_messages b = Some n \<longrightarrow>
        int (messages_in_hour d u (ago e 3600)) < n)"
  by (auto simp: check_message_budget_def split: option.split)

lemma external_comm_allowed_iff:
  "external_comm_allowed d me other \<longleftrightarrow>
     (\<exists>a b. accounts_get d me = Some a \<and> accounts_get d other = Some b
        \<and> (acc_org a = acc_org b
           \<or> (\<exists>oa ob. organizations_get d (acc_org a) = Some oa \<and> organizations_get d (acc_org b) = Some ob
                \<and> org_outgoing oa \<and> org_incoming ob)))"
  by (auto simp: external_comm_allowed_def split: option.splits)

text \<open>What the journals leave alone.\<close>

lemma audit_frame [simp]:
  "tasks (audit org at actor c tt t out h d) = tasks d"
  "accounts (audit org at actor c tt t out h d) = accounts d"
  "organizations (audit org at actor c tt t out h d) = organizations d"
  "dependencies (audit org at actor c tt t out h d) = dependencies d"
  "task_events (audit org at actor c tt t out h d) = task_events d"
  "task_events_seq (audit org at actor c tt t out h d) = task_events_seq d"
  "events (audit org at actor c tt t out h d) = events d"
  "events_seq (audit org at actor c tt t out h d) = events_seq d"
  "messages (audit org at actor c tt t out h d) = messages d"
  "conversations (audit org at actor c tt t out h d) = conversations d"
  "reply_states (audit org at actor c tt t out h d) = reply_states d"
  "groups (audit org at actor c tt t out h d) = groups d"
  "group_members (audit org at actor c tt t out h d) = group_members d"
  "group_messages (audit org at actor c tt t out h d) = group_messages d"
  "delegations (audit org at actor c tt t out h d) = delegations d"
  "delegations_seq (audit org at actor c tt t out h d) = delegations_seq d"
  "budgets (audit org at actor c tt t out h d) = budgets d"
  "policies (audit org at actor c tt t out h d) = policies d"
  by (simp_all add: audit_def audit_append_def)

lemma task_event_frame [simp]:
  "tasks (task_event cfg e org t et by at h d) = tasks d"
  "accounts (task_event cfg e org t et by at h d) = accounts d"
  "organizations (task_event cfg e org t et by at h d) = organizations d"
  "dependencies (task_event cfg e org t et by at h d) = dependencies d"
  "task_events (task_event cfg e org t et by at h d) = task_events d"
  "task_events_seq (task_event cfg e org t et by at h d) = task_events_seq d"
  "audit_log (task_event cfg e org t et by at h d) = audit_log d"
  "audit_seq (task_event cfg e org t et by at h d) = audit_seq d"
  "messages (task_event cfg e org t et by at h d) = messages d"
  "conversations (task_event cfg e org t et by at h d) = conversations d"
  "group_messages (task_event cfg e org t et by at h d) = group_messages d"
  "groups (task_event cfg e org t et by at h d) = groups d"
  "group_members (task_event cfg e org t et by at h d) = group_members d"
  "delegations (task_event cfg e org t et by at h d) = delegations d"
  "delegations_seq (task_event cfg e org t et by at h d) = delegations_seq d"
  "budgets (task_event cfg e org t et by at h d) = budgets d"
  "policies (task_event cfg e org t et by at h d) = policies d"
proof -
  obtain ev s where "task_event cfg e org t et by at h d = d\<lparr>events := ev, events_seq := s\<rparr>"
    using append_for_task_frame unfolding task_event_def by blast
  then show
    "tasks (task_event cfg e org t et by at h d) = tasks d"
    "accounts (task_event cfg e org t et by at h d) = accounts d"
    "organizations (task_event cfg e org t et by at h d) = organizations d"
    "dependencies (task_event cfg e org t et by at h d) = dependencies d"
    "task_events (task_event cfg e org t et by at h d) = task_events d"
    "task_events_seq (task_event cfg e org t et by at h d) = task_events_seq d"
    "audit_log (task_event cfg e org t et by at h d) = audit_log d"
    "audit_seq (task_event cfg e org t et by at h d) = audit_seq d"
    "messages (task_event cfg e org t et by at h d) = messages d"
    "conversations (task_event cfg e org t et by at h d) = conversations d"
    "group_messages (task_event cfg e org t et by at h d) = group_messages d"
    "groups (task_event cfg e org t et by at h d) = groups d"
    "group_members (task_event cfg e org t et by at h d) = group_members d"
    "delegations (task_event cfg e org t et by at h d) = delegations d"
    "delegations_seq (task_event cfg e org t et by at h d) = delegations_seq d"
    "budgets (task_event cfg e org t et by at h d) = budgets d"
    "policies (task_event cfg e org t et by at h d) = policies d"
    by simp_all
qed

lemma add_event_frame [simp]:
  "tasks (add_event x d) = tasks d"
  "accounts (add_event x d) = accounts d"
  "organizations (add_event x d) = organizations d"
  "dependencies (add_event x d) = dependencies d"
  "events (add_event x d) = events d"
  "events_seq (add_event x d) = events_seq d"
  "audit_log (add_event x d) = audit_log d"
  "audit_seq (add_event x d) = audit_seq d"
  "messages (add_event x d) = messages d"
  "conversations (add_event x d) = conversations d"
  "group_messages (add_event x d) = group_messages d"
  "groups (add_event x d) = groups d"
  "group_members (add_event x d) = group_members d"
  "delegations (add_event x d) = delegations d"
  "delegations_seq (add_event x d) = delegations_seq d"
  "budgets (add_event x d) = budgets d"
  "policies (add_event x d) = policies d"
  by (simp_all add: add_event_def)

lemma update_task_frame [simp]:
  "accounts (update_task i f d) = accounts d"
  "organizations (update_task i f d) = organizations d"
  "dependencies (update_task i f d) = dependencies d"
  "task_events (update_task i f d) = task_events d"
  "task_events_seq (update_task i f d) = task_events_seq d"
  "events (update_task i f d) = events d"
  "events_seq (update_task i f d) = events_seq d"
  "audit_log (update_task i f d) = audit_log d"
  "audit_seq (update_task i f d) = audit_seq d"
  "messages (update_task i f d) = messages d"
  "conversations (update_task i f d) = conversations d"
  "group_messages (update_task i f d) = group_messages d"
  "groups (update_task i f d) = groups d"
  "group_members (update_task i f d) = group_members d"
  "delegations (update_task i f d) = delegations d"
  "delegations_seq (update_task i f d) = delegations_seq d"
  "budgets (update_task i f d) = budgets d"
  "policies (update_task i f d) = policies d"
  by (simp_all add: update_task_def)

text \<open>The lookups depend on their table only.\<close>

lemma get_cong:
  "accounts d' = accounts d \<Longrightarrow> accounts_get d' = accounts_get d"
  "organizations d' = organizations d \<Longrightarrow> organizations_get d' = organizations_get d"
  "tasks d' = tasks d \<Longrightarrow> tasks_get d' = tasks_get d"
  "budgets d' = budgets d \<Longrightarrow> budget_get d' = budget_get d"
  "tasks d' = tasks d \<Longrightarrow> active_count d' = active_count d"
  by (simp_all add: fun_eq_iff accounts_get_def organizations_get_def tasks_get_def budget_get_def
      active_count_def)

end
