(* ===== verification/Paging.thy ===== *)
theory Paging
  imports Common
begin

text \<open>
  The paginated commands of \<^verbatim>\<open>synapse/service.py\<close>. Each opens its cursor
  (\<open>_pagination\<close>), queries the rows after the position at the boundary, cuts the page and
  seals the position of its last row in the next cursor (\<open>_next_cursor\<close>). The locale
  \<open>paged\<close> extends the interface of the queries with the coding of positions in cursors, and
  shows what a client gets that follows the cursors, at whatever instants.
\<close>

section \<open>One page\<close>

record binding =
  bi_user :: string
  bi_command :: string
  bi_order :: string
  bi_filters :: json

definition SORT_DESC :: string where "SORT_DESC = ''desc''"
definition SORT_ASC :: string where "SORT_ASC = ''asc''"
definition SORT_USERNAME :: string where "SORT_USERNAME = ''username_asc''"

definition open_page ::
    "env \<Rightarrow> binding \<Rightarrow> string option \<Rightarrow> (string list option \<Rightarrow> exc + 'k option)
     \<Rightarrow> exc + ('k option \<times> string)" where
  "open_page e b cursor unpack =
     andthen (pagination (hmac e) (cursor_key e) (now e) cursor (bi_user b) (bi_command b)
        (bi_order b) (bi_filters b)) (\<lambda>(pos, boundary).
     andthen (unpack pos) (\<lambda>after. Inr (after, boundary)))"

definition close_page ::
    "env \<Rightarrow> binding \<Rightarrow> string \<Rightarrow> ('k \<Rightarrow> string list) \<Rightarrow> nat \<Rightarrow> ('r \<Rightarrow> 'k) \<Rightarrow> 'r list
     \<Rightarrow> 'r list \<times> string option" where
  "close_page e b boundary pack limit key rows =
     (let (rows', nxt) = next_page limit key rows
      in (rows', map_option (\<lambda>k. next_cursor (hmac e) (cursor_key e) (bi_user b) (bi_command b)
            (bi_order b) (bi_filters b) boundary (pack k)) nxt))"

text \<open>
  The shape all the paginated commands have; \<open>query\<close> gives what the reply carries beside the
  rows and up to \<open>limit + 1\<close> rows, \<open>view\<close> writes a row into the reply.
\<close>

definition paged_reply ::
    "env \<Rightarrow> binding \<Rightarrow> string option \<Rightarrow> (string list option \<Rightarrow> exc + 'k option) \<Rightarrow> ('k \<Rightarrow> string list)
     \<Rightarrow> nat \<Rightarrow> ('r \<Rightarrow> 'k) \<Rightarrow> (string \<Rightarrow> 'k option \<Rightarrow> exc + ('x \<times> 'r list)) \<Rightarrow> (string \<Rightarrow> 'r \<Rightarrow> 'v)
     \<Rightarrow> exc + ('x \<times> 'v list \<times> string option)" where
  "paged_reply e b cursor unpack pack limit key query view =
     andthen (open_page e b cursor unpack) (\<lambda>(after, boundary).
     andthen (query boundary after) (\<lambda>(x, rows).
     let (rows', nxt) = close_page e b boundary pack limit key rows
     in Inr (x, map (view boundary) rows', nxt)))"

text \<open>A nullable text in the filters a cursor is bound to.\<close>

definition jopt :: "string option \<Rightarrow> json" where
  "jopt x = (case x of None \<Rightarrow> JNull | Some s \<Rightarrow> JStr s)"

text \<open>A numeric position travels as its decimal text; \<open>int(last[0])\<close> reads it back.\<close>

definition id_list :: "nat \<Rightarrow> string list" where
  "id_list n = [nat_text n, []]"

definition decimal_nat :: "string \<Rightarrow> exc + nat" where
  "decimal_nat s = (if s \<noteq> [] \<and> list_all is_dec s then Inr (dec_value s) else Inl ValueError)"

definition id_pos :: "string list option \<Rightarrow> exc + nat option" where
  "id_pos pos = (case first_pos pos of None \<Rightarrow> Inr None
     | Some s \<Rightarrow> andthen (decimal_nat s) (\<lambda>n. Inr (Some n)))"

definition pair_list :: "string \<times> string \<Rightarrow> string list" where
  "pair_list p = [fst p, snd p]"

text \<open>A client that follows the cursors from the first page, for at most \<open>fuel\<close> pages.\<close>

fun read_all ::
    "(string option \<Rightarrow> exc + ('x \<times> 'v list \<times> string option)) \<Rightarrow> nat \<Rightarrow> string option \<Rightarrow> exc + 'v list"
where
  "read_all get 0 c = Inr []"
| "read_all get (Suc n) c =
     andthen (get c) (\<lambda>(x, items, nxt). case nxt of
        None \<Rightarrow> Inr items
      | Some c' \<Rightarrow> andthen (read_all get n (Some c')) (\<lambda>rest. Inr (items @ rest)))"

section \<open>Following the cursors\<close>

lemma json_str_ok [simp]: "json_ok (JStr s)" "json_ok JNull"
  by simp_all

lemma open_next:
  assumes "json_ok (bi_filters b)" and "pack k \<noteq> []" and "unpack (Some (pack k)) = Inr (Some k)"
  shows "open_page e b (Some (next_cursor (hmac e) (cursor_key e) (bi_user b) (bi_command b)
      (bi_order b) (bi_filters b) boundary (pack k))) unpack = Inr (Some k, boundary)"
  using assms by (simp add: open_page_def pagination_next_cursor)

text \<open>Two instants of one server: the keys that seal the cursors are the same.\<close>

definition same_keys :: "env \<Rightarrow> env \<Rightarrow> bool" where
  "same_keys e e' \<longleftrightarrow> hmac e' = hmac e \<and> cursor_key e' = cursor_key e"

locale paged = keyset before key invar rows page
  for before :: "'k \<Rightarrow> 'k \<Rightarrow> bool" and key :: "'r \<Rightarrow> 'k" and invar :: "'d \<Rightarrow> bool"
    and rows :: "'d \<Rightarrow> 'f \<Rightarrow> 'r list" and page :: "'d \<Rightarrow> 'f \<Rightarrow> 'k option \<Rightarrow> nat \<Rightarrow> 'r list" +
  fixes pack :: "'k \<Rightarrow> string list" and unpack :: "string list option \<Rightarrow> exc + 'k option"
  assumes unpack_pack: "unpack (Some (pack k)) = Inr (Some k)"
    and unpack_None: "unpack None = Inr None"
    and pack_nonempty: "pack k \<noteq> []"
begin

lemma read_all_follow:
  assumes "json_ok (bi_filters b)" and "\<And>c. same_keys e (ev c)"
  shows "read_all (\<lambda>c. paged_reply (ev c) b c unpack pack limit key
        (\<lambda>bd after. Inr (x bd, page d (flt bd) after limit)) view) n
      (Some (next_cursor (hmac e) (cursor_key e) (bi_user b) (bi_command b) (bi_order b)
        (bi_filters b) bd (pack k))) =
    Inr (map (view bd) (concat (follow (\<lambda>p. next_page limit key (page d (flt bd) p limit)) n (Some k))))"
proof (induction n arbitrary: k)
  case (Suc n)
  let ?c = "\<lambda>k. next_cursor (hmac e) (cursor_key e) (bi_user b) (bi_command b) (bi_order b) (bi_filters b) bd (pack k)"
  have keys: "hmac (ev c) = hmac e" "cursor_key (ev c) = cursor_key e" for c
    using assms(2) [of c] by (simp_all add: same_keys_def)
  have "open_page (ev (Some (?c k))) b (Some (?c k)) unpack = Inr (Some k, bd)"
    using open_next [where e = "ev (Some (?c k))" and b = b and pack = pack and k = k and unpack = unpack]
      assms(1) pack_nonempty unpack_pack by (simp add: keys)
  then show ?case
    using Suc by (simp add: paged_reply_def close_page_def keys split: prod.split option.split)
qed simp

text \<open>
  Every row of the first page's boundary, once and in order, however the pages are cut and
  whatever the instants of the later pages.
\<close>

theorem read_all_complete:
  assumes "json_ok (bi_filters b)" and "\<And>c. same_keys (ev None) (ev c)" and "invar d" and "0 < limit"
    and "length (rows d (flt (now (ev None)))) < n"
  shows "read_all (\<lambda>c. paged_reply (ev c) b c unpack pack limit key
        (\<lambda>bd after. Inr (x bd, page d (flt bd) after limit)) view) n None =
    Inr (map (view (now (ev None))) (rows d (flt (now (ev None)))))"
proof -
  let ?bd = "now (ev None)"
  obtain m where n: "n = Suc m" using assms(5) by (cases n) auto
  have first: "open_page (ev None) b None unpack = Inr (None, ?bd)"
    by (simp add: open_page_def pagination_def unpack_None)
  have "read_all (\<lambda>c. paged_reply (ev c) b c unpack pack limit key
        (\<lambda>bd after. Inr (x bd, page d (flt bd) after limit)) view) n None =
      Inr (map (view ?bd) (concat (follow (\<lambda>p. next_page limit key (page d (flt ?bd) p limit)) n None)))"
    using read_all_follow [where e = "ev None" and b = b and ev = ev and limit = limit and x = x
        and d = d and flt = flt and view = view and n = m and bd = ?bd] assms(1,2)
    by (simp add: n paged_reply_def first close_page_def split: prod.split option.split)
  with follow_complete [OF assms(3-5)] show ?thesis by simp
qed

end

lemma pair_coding:
  "pair_pos (Some (pair_list k)) = Inr (Some k)" "pair_pos None = Inr None" "pair_list k \<noteq> []"
  by (simp_all add: pair_pos_def pair_list_def)

lemma id_coding:
  "id_pos (Some (id_list k)) = Inr (Some k)" "id_pos None = Inr None" "id_list k \<noteq> []"
  by (simp_all add: id_pos_def id_list_def first_pos_def decimal_nat_def nat_text_dec nat_text_value)

interpretation pmp: paged "\<lambda>p q. q < p" msg_pos messages_wf
  "\<lambda>d f. order_desc msg_pos (filter (message_clauses f) (messages d))" message_page pair_list pair_pos
  by unfold_locales (rule pair_coding)+

interpretation pcp: paged "\<lambda>p q. p < q" msg_pos messages_wf
  "\<lambda>d f. order_asc msg_pos (filter (conversation_clauses f) (messages d))" conversation_page
  pair_list pair_pos
  by unfold_locales (rule pair_coding)+

text \<open>The items of \<open>get_notifications\<close>, when every conversation key has its colon.\<close>

definition notification_item :: "database \<Rightarrow> string \<times> string \<Rightarrow> message_row \<times> conversation_row \<Rightarrow> notification" where
  "notification_item d f = (\<lambda>(l, c).
     \<lparr>nt_conv = msg_conv l,
      nt_other = (case other_participant (conv_key c) (fst f) of Inl _ \<Rightarrow> [] | Inr u \<Rightarrow> u),
      nt_other_org = sender_org d l,
      nt_unread = count_where (\<lambda>m. msg_conv m = msg_conv l \<and> msg_recipient m = fst f
         \<and> msg_created_at m \<le> snd f \<and> is_unread_at (snd f) m) (messages d),
      nt_last_at = msg_created_at l\<rparr>)"

definition nt_pos :: "notification \<Rightarrow> string \<times> string" where
  "nt_pos n = (nt_last_at n, nt_conv n)"

lemma nt_pos_item: "nt_pos (notification_item d f lc) = notif_pos lc"
  by (cases lc) (simp add: nt_pos_def notification_item_def notif_pos_def)

interpretation pnp: paged "\<lambda>p q. q < p" nt_pos messages_wf
  "\<lambda>d f. map (notification_item d f) (notification_rows d f)"
  "\<lambda>d f pos limit. map (notification_item d f) (notification_query d f pos limit)" pair_list pair_pos
proof unfold_locales
  fix d f pos limit
  show "map (notification_item d f) (notification_query d f pos limit) =
      take (limit + 1) (filter (\<lambda>r. beyond (\<lambda>p q. q < p) pos (nt_pos r))
        (map (notification_item d f) (notification_rows d f)))"
    by (simp add: np.page_eq filter_map comp_def nt_pos_item take_map)
next
  fix d f
  assume "messages_wf d"
  from np.rows_sorted [OF this]
  show "sorted_wrt (\<lambda>r s. nt_pos s < nt_pos r) (map (notification_item d f) (notification_rows d f))"
    by (simp add: sorted_wrt_map nt_pos_item)
qed (auto simp: pair_coding)

end
