(* ===== verification/ServiceMessages.thy ===== *)
theory ServiceMessages
  imports Paging
begin

text \<open>
  The message commands of \<^verbatim>\<open>synapse/service.py\<close>: sending, the three paginated reads, the
  first read of a message and the marking of a conversation. Whole handlers, in the order of
  their statements; what they guarantee is in \<open>MessageProperties\<close>.
\<close>

section \<open>Sending\<close>

record send_params =
  sm_recipient :: string
  sm_message :: string
  sm_client :: string
  sm_reference :: "string option"

text \<open>An existing message of the key is the same request when these three columns agree.\<close>

definition same_request :: "send_params \<Rightarrow> message_row \<Rightarrow> bool" where
  "same_request p m =
     (msg_recipient m = sm_recipient p \<and> msg_content m = sm_message p
      \<and> msg_reference m = sm_reference p)"

text \<open>The external communication policies, and what a sender may learn of the recipient.\<close>

definition check_recipient ::
    "database \<Rightarrow> account_row \<Rightarrow> organization_row \<Rightarrow> string \<Rightarrow> exc + unit" where
  "check_recipient d sender home recipient =
     (let outgoing_blocked = \<not> org_outgoing home;
          unavailable = Inl (ApiError (if outgoing_blocked then POLICY_DENIED
             else RECIPIENT_NOT_FOUND) Default)
      in case accounts_get d recipient of
           None \<Rightarrow> unavailable
         | Some recip \<Rightarrow>
             let recip_org = organizations_get d (acc_org recip);
                 recip_org_enabled = (case recip_org of None \<Rightarrow> False | Some og \<Rightarrow> org_enabled og)
             in if acc_status recip \<noteq> Active \<or> \<not> recip_org_enabled then unavailable
                else if acc_org recip \<noteq> acc_org sender then
                  (if outgoing_blocked then Inl (ApiError POLICY_DENIED Default)
                   else andthen (some_or AssertionError recip_org) (\<lambda>og.
                        require (org_incoming og) (ApiError POLICY_DENIED Default)))
                else Inr ())"

definition deliver ::
    "env \<Rightarrow> send_params \<Rightarrow> string \<Rightarrow> database \<Rightarrow> exc + (message_view \<times> database)" where
  "deliver e p me d =
     (let at = now e; message_id = fresh e 1 in
      andthen (fetch_or_create_conversation (fresh e 0) (conversation_key me (sm_recipient p)) at d)
        (\<lambda>(conversation_id, d1).
      case insert_message message_id conversation_id (sm_client p) me (sm_recipient p)
             (sm_message p) at (sm_reference p) d1 of
        Inl IntegrityError \<Rightarrow>
          (case find_message_by_client_id d1 me (sm_client p) of
             None \<Rightarrow> raise_message_already_exists
           | Some existing \<Rightarrow> if same_request p existing
               then Inr (row_to_message d1 existing, d1) else raise_message_already_exists)
      | Inl err \<Rightarrow> Inl err
      | Inr d2 \<Rightarrow>
          let d3 = set_no_reply conversation_id (sm_recipient p) None None d2;
              d4 = set_no_reply conversation_id me None None d3
          in andthen (some_or AssertionError (get_message_by_id d4 message_id)) (\<lambda>row.
             Inr (row_to_message d4 row, d4))))"

definition agent_send_message ::
    "env \<Rightarrow> send_params \<Rightarrow> string \<Rightarrow> database \<Rightarrow> exc + (message_view \<times> database)" where
  "agent_send_message e p me d =
     andthen (require (sm_recipient p \<noteq> me)
        (ApiError INVALID_ARGUMENT INVALID_ARGUMENT_RECIPIENT_SAME)) (\<lambda>_.
     andthen (some_or AssertionError (accounts_get d me)) (\<lambda>sender.
     andthen (some_or AssertionError (organizations_get d (acc_org sender))) (\<lambda>home.
     case find_message_by_client_id d me (sm_client p) of
       Some existing \<Rightarrow> if same_request p existing
         then Inr (row_to_message d existing, d) else raise_message_already_exists
     | None \<Rightarrow>
         andthen (check_message_budget e d me) (\<lambda>_.
         andthen (check_recipient d sender home (sm_recipient p)) (\<lambda>_.
         deliver e p me d)))))"

section \<open>Paginated reads\<close>

definition read_status_json :: "read_status option \<Rightarrow> json" where
  "read_status_json s =
     jopt (map_option (\<lambda>x. case x of Read \<Rightarrow> ''read'' | Unread \<Rightarrow> ''unread'') s)"

record get_messages_params =
  gm_limit :: nat
  gm_status :: "read_status option"
  gm_sender :: "string option"
  gm_conv :: "string option"

definition get_messages_binding :: "get_messages_params \<Rightarrow> string \<Rightarrow> binding" where
  "get_messages_binding p me = \<lparr>bi_user = me, bi_command = ''get_messages'', bi_order = SORT_DESC,
     bi_filters = JObj [(''status'', read_status_json (gm_status p)), (''sender'', jopt (gm_sender p)),
       (''conversation_id'', jopt (gm_conv p))]\<rparr>"

definition get_messages_filter :: "get_messages_params \<Rightarrow> string \<Rightarrow> string \<Rightarrow> message_filter" where
  "get_messages_filter p me boundary = \<lparr>mf_username = me, mf_boundary = boundary,
     mf_status = gm_status p, mf_sender = gm_sender p, mf_conv = gm_conv p\<rparr>"

definition agent_get_messages ::
    "env \<Rightarrow> get_messages_params \<Rightarrow> string option \<Rightarrow> string \<Rightarrow> database
     \<Rightarrow> exc + (unit \<times> message_view list \<times> string option)" where
  "agent_get_messages e p cursor me d =
     paged_reply e (get_messages_binding p me) cursor pair_pos pair_list (gm_limit p) msg_pos
       (\<lambda>boundary after. Inr ((), message_page d (get_messages_filter p me boundary) after (gm_limit p)))
       (\<lambda>boundary m. row_to_message_as_of d m boundary)"

definition get_conversation_binding :: "string \<Rightarrow> string \<Rightarrow> binding" where
  "get_conversation_binding other me = \<lparr>bi_user = me, bi_command = ''get_conversation'',
     bi_order = SORT_ASC, bi_filters = JObj [(''other_username'', JStr other)]\<rparr>"

text \<open>The reply carries the conversation's id and the caller's reply state.\<close>

definition agent_get_conversation ::
    "env \<Rightarrow> string \<Rightarrow> nat \<Rightarrow> string option \<Rightarrow> string \<Rightarrow> database
     \<Rightarrow> exc + ((string \<times> reply_state) \<times> message_view list \<times> string option)" where
  "agent_get_conversation e other limit cursor me d =
     andthen (require (other \<noteq> me)
        (ApiError INVALID_ARGUMENT INVALID_ARGUMENT_OTHER_USERNAME_SAME)) (\<lambda>_.
     paged_reply e (get_conversation_binding other me) cursor pair_pos pair_list limit msg_pos
       (\<lambda>boundary after.
          case get_conversation_by_key d (conversation_key me other) of
            None \<Rightarrow> Inl (ApiError CONVERSATION_NOT_FOUND Default)
          | Some conv \<Rightarrow> Inr ((conv_id conv, fst (reply_status d (conv_id conv) me boundary)),
              conversation_page d (conv_id conv, boundary) after limit))
       (\<lambda>boundary m. row_to_message_as_of d m boundary))"

definition get_notifications_binding :: "string \<Rightarrow> binding" where
  "get_notifications_binding me = \<lparr>bi_user = me, bi_command = ''get_notifications'',
     bi_order = SORT_DESC, bi_filters = JObj []\<rparr>"

definition agent_get_notifications ::
    "env \<Rightarrow> nat \<Rightarrow> string option \<Rightarrow> string \<Rightarrow> database
     \<Rightarrow> exc + ((string \<times> nat) list \<times> notification list \<times> string option)" where
  "agent_get_notifications e limit cursor me d =
     paged_reply e (get_notifications_binding me) cursor pair_pos pair_list limit nt_pos
       (\<lambda>boundary after. andthen (notification_page d (me, boundary) after limit) (\<lambda>items.
          Inr (unread_by_sender d me boundary, items)))
       (\<lambda>_ n. n)"

section \<open>Reading and marking\<close>

text \<open>
  The first lookup runs without a transaction: \<open>early\<close> is the database it saw, \<open>d\<close> the one the
  write transaction of a first read begins on.
\<close>

definition agent_read_message ::
    "env \<Rightarrow> string \<Rightarrow> string \<Rightarrow> database \<Rightarrow> database \<Rightarrow> exc + (message_view \<times> database)" where
  "agent_read_message e i me early d =
     (case get_message_by_id early i of
        None \<Rightarrow> Inl (ApiError MESSAGE_NOT_FOUND Default)
      | Some row \<Rightarrow>
          if msg_sender row \<noteq> me \<and> msg_recipient row \<noteq> me
          then Inl (ApiError MESSAGE_NOT_FOUND Default)
          else if msg_recipient row = me \<and> msg_read_at row = None then
            andthen (some_or AssertionError (get_message_by_id d i)) (\<lambda>row1.
            if msg_read_at row1 = None then
              let d1 = mark_read_conditional i (now e) d
              in andthen (some_or AssertionError (get_message_by_id d1 i)) (\<lambda>row2.
                 Inr (row_to_message d1 row2, d1))
            else Inr (row_to_message d row1, d))
          else Inr (row_to_message early row, d))"

definition agent_mark_conversation_no_reply ::
    "env \<Rightarrow> string \<Rightarrow> string \<Rightarrow> database \<Rightarrow> exc + ((string \<times> string) \<times> database)" where
  "agent_mark_conversation_no_reply e conversation_id me d =
     (case get_conversation_by_id d conversation_id of
        None \<Rightarrow> Inl (ApiError INVALID_ARGUMENT INVALID_ARGUMENT_CONV_NO_RECEIVED)
      | Some conv \<Rightarrow> (case last_received_message d (conv_id conv) me of
           None \<Rightarrow> Inl (ApiError INVALID_ARGUMENT INVALID_ARGUMENT_CONV_NO_RECEIVED)
         | Some m \<Rightarrow> Inr ((conv_id conv, m),
             set_no_reply (conv_id conv) me (Some m) (Some (now e)) d)))"

section \<open>Facts\<close>

lemma check_recipient_Inr [exc_simps]:
  "check_recipient d sender home recipient = Inr u \<longleftrightarrow>
     (\<exists>recip og. accounts_get d recipient = Some recip \<and> acc_status recip = Active
        \<and> organizations_get d (acc_org recip) = Some og \<and> org_enabled og
        \<and> (acc_org recip = acc_org sender \<or> org_outgoing home \<and> org_incoming og))"
  by (auto simp: check_recipient_def Let_def exc_simps split: option.split)

lemma set_no_reply_frame [simp]:
  "messages (set_no_reply c u m at d) = messages d"
  "conversations (set_no_reply c u m at d) = conversations d"
  "accounts (set_no_reply c u m at d) = accounts d"
  "organizations (set_no_reply c u m at d) = organizations d"
  "budgets (set_no_reply c u m at d) = budgets d"
  by (simp_all add: set_no_reply_def)

text \<open>The row a delivery appends, and what else it writes.\<close>

definition sent_row :: "env \<Rightarrow> send_params \<Rightarrow> string \<Rightarrow> string \<Rightarrow> message_row" where
  "sent_row e p me conv = \<lparr>msg_id = fresh e 1, msg_conv = conv, msg_client_id = sm_client p,
     msg_sender = me, msg_recipient = sm_recipient p, msg_content = sm_message p,
     msg_reference = sm_reference p, msg_created_at = now e, msg_read_at = None\<rparr>"

definition sent_db :: "env \<Rightarrow> send_params \<Rightarrow> string \<Rightarrow> string \<Rightarrow> database \<Rightarrow> database" where
  "sent_db e p me conv d1 = set_no_reply conv me None None (set_no_reply conv (sm_recipient p) None None
     (d1\<lparr>messages := insert_row (sent_row e p me conv) (messages d1)\<rparr>))"

lemma sent_db_frame [simp]:
  "messages (sent_db e p me conv d1) = insert_row (sent_row e p me conv) (messages d1)"
  "conversations (sent_db e p me conv d1) = conversations d1"
  "accounts (sent_db e p me conv d1) = accounts d1"
  "organizations (sent_db e p me conv d1) = organizations d1"
  "budgets (sent_db e p me conv d1) = budgets d1"
  by (simp_all add: sent_db_def)

lemma find_message_cong:
  "messages d' = messages d \<Longrightarrow> find_message_by_client_id d' = find_message_by_client_id d"
  by (simp add: fun_eq_iff find_message_by_client_id_def)

lemma insert_message_sent:
  "insert_message (fresh e 1) conv (sm_client p) me (sm_recipient p) (sm_message p) (now e)
     (sm_reference p) d = Inr d' \<longleftrightarrow>
   (\<forall>m \<in> set (messages d). msg_id m \<noteq> fresh e 1 \<and> \<not> (msg_sender m = me \<and> msg_client_id m = sm_client p))
   \<and> d' = d\<lparr>messages := insert_row (sent_row e p me conv) (messages d)\<rparr>"
  by (simp only: insert_message_Inr sent_row_def)

lemma insert_message_Inl:
  "insert_message u c cl s r t at f d = Inl err \<Longrightarrow> err = IntegrityError"
  by (auto simp: insert_message_def split: if_splits)

lemma get_sent:
  assumes "\<forall>m \<in> set (messages d1). msg_id m \<noteq> fresh e 1"
  shows "get_message_by_id (sent_db e p me conv d1) (fresh e 1) = Some (sent_row e p me conv)"
proof -
  have "fetch (\<lambda>m. msg_id m = fresh e 1) (messages d1) = None" using assms by (simp add: fetch_None_iff)
  then show ?thesis
    by (simp add: get_message_by_id_def insert_row_def fetch_append fetch_Cons sent_row_def)
qed

text \<open>A delivery to a key that is free either writes the message or reports that its id is taken.\<close>

lemma deliver_run:
  assumes "find_message_by_client_id d me (sm_client p) = None"
    and "fetch_or_create_conversation (fresh e 0) (conversation_key me (sm_recipient p)) (now e) d = Inr (conv, d1)"
  shows "deliver e p me d =
    (if \<forall>m \<in> set (messages d). msg_id m \<noteq> fresh e 1
     then Inr (row_to_message (sent_db e p me conv d1) (sent_row e p me conv), sent_db e p me conv d1)
     else raise_message_already_exists)"
proof -
  have same: "messages d1 = messages d"
    using assms(2) by (cases rule: fetch_or_create_cases) auto
  have free: "\<not> (msg_sender m = me \<and> msg_client_id m = sm_client p)" if "m \<in> set (messages d)" for m
    using assms(1) that by (auto simp: find_message_by_client_id_def fetch_None_iff)
  have none: "find_message_by_client_id d1 me (sm_client p) = None"
    using assms(1) by (simp add: find_message_cong [OF same])
  show ?thesis
  proof (cases "insert_message (fresh e 1) conv (sm_client p) me (sm_recipient p) (sm_message p) (now e)
      (sm_reference p) d1")
    case (Inl err)
    have taken: "\<not> (\<forall>m \<in> set (messages d). msg_id m \<noteq> fresh e 1)"
      using Inl free insert_message_sent [of e conv p me d1] by (auto simp: same)
    show ?thesis
      using Inl insert_message_Inl [OF Inl] none
      by (simp only: deliver_def Let_def assms(2) andthen_simps prod.case sum.case exc.case option.case
          if_not_P [OF taken])
  next
    case (Inr d2)
    then have d2: "d2 = d1\<lparr>messages := insert_row (sent_row e p me conv) (messages d1)\<rparr>"
      and fresh: "\<forall>m \<in> set (messages d1). msg_id m \<noteq> fresh e 1"
      unfolding insert_message_sent by blast+
    have d4: "set_no_reply conv me None None (set_no_reply conv (sm_recipient p) None None d2) = sent_db e p me conv d1"
      by (simp add: sent_db_def d2)
    have ok: "\<forall>m \<in> set (messages d). msg_id m \<noteq> fresh e 1" using fresh by (simp add: same)
    show ?thesis
      by (simp only: deliver_def Let_def assms(2) andthen_simps prod.case Inr sum.case d4
          get_sent [OF fresh] some_or_simps if_P [OF ok])
  qed
qed

lemma deliver_Inr:
  assumes "find_message_by_client_id d me (sm_client p) = None" and "deliver e p me d = Inr (v, d')"
  obtains conv d1 where
    "fetch_or_create_conversation (fresh e 0) (conversation_key me (sm_recipient p)) (now e) d = Inr (conv, d1)"
    "\<forall>m \<in> set (messages d). msg_id m \<noteq> fresh e 1"
    "d' = sent_db e p me conv d1" "v = row_to_message d' (sent_row e p me conv)"
proof -
  obtain conv d1 where f: "fetch_or_create_conversation (fresh e 0) (conversation_key me (sm_recipient p)) (now e) d = Inr (conv, d1)"
    using assms(2) unfolding deliver_def Let_def andthen_Inr by auto
  from assms(2) deliver_run [OF assms(1) f] that [OF f] show thesis
    by (auto simp: raise_message_already_exists_def split: if_splits)
qed

text \<open>A send returns the existing message and writes nothing, or it delivers.\<close>

lemma send_message_cases:
  assumes "agent_send_message e p me d = Inr (v, d')"
  obtains m where "find_message_by_client_id d me (sm_client p) = Some m" "same_request p m"
      "d' = d" "v = row_to_message d m"
  | sender home where "find_message_by_client_id d me (sm_client p) = None" "sm_recipient p \<noteq> me"
      "accounts_get d me = Some sender" "organizations_get d (acc_org sender) = Some home"
      "check_message_budget e d me = Inr ()" "check_recipient d sender home (sm_recipient p) = Inr ()"
      "deliver e p me d = Inr (v, d')"
proof -
  obtain sender home where s: "sm_recipient p \<noteq> me" "accounts_get d me = Some sender"
      "organizations_get d (acc_org sender) = Some home"
    using assms unfolding agent_send_message_def by (auto simp only: andthen_Inr require_Inr some_or_Inr)
  show thesis
  proof (cases "find_message_by_client_id d me (sm_client p)")
    case (Some m)
    with assms s that(1) [OF Some] show thesis
      by (auto simp: agent_send_message_def raise_message_already_exists_def split: if_splits)
  next
    case None
    with assms s that(2) [OF None] show thesis
      by (auto simp: agent_send_message_def andthen_Inr)
  qed
qed

end
