(* ===== verification/ServiceGroups.thy ===== *)
theory ServiceGroups
  imports Paging
begin

text \<open>
  Groups and delegations of \<^verbatim>\<open>synapse/service.py\<close>: creating a group, its members, its
  messages and their reads; giving a task to another agent for a time, taking it back, and
  listing what was given. A command that writes takes the stamp of its transaction.
\<close>

section \<open>Groups\<close>

definition group_member :: "database \<Rightarrow> string \<Rightarrow> string \<Rightarrow> bool" where
  "group_member d g u = (\<exists>m \<in> set (group_members d). gm_group m = g \<and> gm_username m = u)"

definition group_require_member :: "database \<Rightarrow> string \<Rightarrow> string \<Rightarrow> exc + group_row" where
  "group_require_member d g me =
     (case fetch (\<lambda>x. grp_id x = g) (groups d) of
        None \<Rightarrow> Inl (ApiError GROUP_NOT_FOUND Default)
      | Some grp \<Rightarrow> if group_member d g me then Inr grp
          else Inl (ApiError GROUP_NOT_FOUND Default))"

definition agent_create_group ::
    "env \<Rightarrow> string \<Rightarrow> string \<Rightarrow> string \<Rightarrow> database \<Rightarrow> exc + (group_row \<times> database)" where
  "agent_create_group e name me hlc d =
     (let at = now e; g = fresh e 0;
          grp = \<lparr>grp_id = g, grp_name = name, grp_created_by = me, grp_created_at = at\<rparr>
      in andthen (require (fetch (\<lambda>x. grp_id x = g) (groups d) = None) IntegrityError) (\<lambda>_.
         let d1 = d\<lparr>groups := insert_row grp (groups d)\<rparr>
         in andthen (require (\<not> group_member d1 g me) IntegrityError) (\<lambda>_.
         let d2 = d1\<lparr>group_members := insert_row
                \<lparr>gm_group = g, gm_username = me, gm_added_by = me, gm_added_at = at\<rparr> (group_members d1)\<rparr>
         in andthen (org_of d2 me) (\<lambda>org.
            Inr (grp, audit org at me ''create_group'' (Some ''group'') (Some g) name hlc d2)))))"

definition agent_add_group_member ::
    "env \<Rightarrow> string \<Rightarrow> string \<Rightarrow> string \<Rightarrow> string \<Rightarrow> database \<Rightarrow> exc + ((string \<times> string) \<times> database)" where
  "agent_add_group_member e g u me hlc d =
     andthen (group_require_member d g me) (\<lambda>_.
     andthen (require_active_account d u) (\<lambda>_.
     andthen (require (external_comm_allowed d me u) (ApiError POLICY_DENIED Default)) (\<lambda>_.
     let d1 = (if group_member d g u then d
            else d\<lparr>group_members := insert_row
              \<lparr>gm_group = g, gm_username = u, gm_added_by = me, gm_added_at = now e\<rparr> (group_members d)\<rparr>)
     in andthen (org_of d1 me) (\<lambda>org.
        Inr ((g, u), audit org (now e) me ''add_group_member'' (Some ''group'') (Some g) u hlc d1)))))"

definition agent_remove_group_member ::
    "env \<Rightarrow> string \<Rightarrow> string \<Rightarrow> string \<Rightarrow> string \<Rightarrow> database \<Rightarrow> exc + ((string \<times> string) \<times> database)" where
  "agent_remove_group_member e g u me hlc d =
     andthen (group_require_member d g me) (\<lambda>grp.
     andthen (require (me = grp_created_by grp \<or> me = u)
        (ApiError ACCESS_DENIED ACCESS_DENIED_GROUP_CREATOR)) (\<lambda>_.
     let d1 = d\<lparr>group_members := delete_where (\<lambda>m. gm_group m = g \<and> gm_username m = u)
            (group_members d)\<rparr>
     in andthen (org_of d1 me) (\<lambda>org.
        Inr ((g, u), audit org (now e) me ''remove_group_member'' (Some ''group'') (Some g) u hlc d1))))"

section \<open>Group messages\<close>

record group_message_view =
  gv_id :: string
  gv_group :: string
  gv_sender :: string
  gv_content :: string
  gv_created_at :: string

definition group_message_view_of :: "group_message_row \<Rightarrow> group_message_view" where
  "group_message_view_of m = \<lparr>gv_id = gmsg_id m, gv_group = gmsg_group m, gv_sender = gmsg_sender m,
     gv_content = gmsg_content m, gv_created_at = gmsg_created_at m\<rparr>"

record group_send_params =
  gs_group :: string
  gs_message :: string
  gs_client :: "string option"

definition find_group_message :: "database \<Rightarrow> string \<Rightarrow> string \<Rightarrow> group_message_row option" where
  "find_group_message d sender client =
     fetch (\<lambda>m. gmsg_sender m = sender \<and> gmsg_client_id m = Some client) (group_messages d)"

definition new_group_message :: "env \<Rightarrow> group_send_params \<Rightarrow> string \<Rightarrow> group_message_row" where
  "new_group_message e p me = \<lparr>gmsg_id = fresh e 0, gmsg_group = gs_group p,
     gmsg_client_id = gs_client p, gmsg_sender = me, gmsg_content = gs_message p,
     gmsg_created_at = now e\<rparr>"

text \<open>The insertion: \<open>PRIMARY KEY (message_id)\<close>, \<open>UNIQUE (sender_username, client_message_id)\<close>.\<close>

definition insert_group_message :: "group_message_row \<Rightarrow> database \<Rightarrow> exc + database" where
  "insert_group_message m d =
     (if \<exists>x \<in> set (group_messages d). gmsg_id x = gmsg_id m
           \<or> (gmsg_client_id m \<noteq> None \<and> gmsg_sender x = gmsg_sender m
              \<and> gmsg_client_id x = gmsg_client_id m)
      then Inl IntegrityError
      else Inr (d\<lparr>group_messages := insert_row m (group_messages d)\<rparr>))"

text \<open>No member of another organization whom the policies keep from \<open>me\<close>.\<close>

definition all_members_allowed :: "database \<Rightarrow> string \<Rightarrow> string \<Rightarrow> bool" where
  "all_members_allowed d g me =
     list_all (\<lambda>m. gm_username m = me \<or> external_comm_allowed d me (gm_username m))
       (filter (\<lambda>m. gm_group m = g) (group_members d))"

definition agent_send_group_message ::
    "env \<Rightarrow> group_send_params \<Rightarrow> string \<Rightarrow> string \<Rightarrow> database \<Rightarrow> exc + (group_message_view \<times> database)"
where
  "agent_send_group_message e p me hlc d =
     andthen (group_require_member d (gs_group p) me) (\<lambda>_.
     case (case gs_client p of None \<Rightarrow> None | Some c \<Rightarrow> find_group_message d me c) of
       Some row \<Rightarrow> Inr (group_message_view_of row, d)
     | None \<Rightarrow>
         andthen (check_message_budget e d me) (\<lambda>_.
         andthen (require (all_members_allowed d (gs_group p) me) (ApiError POLICY_DENIED Default)) (\<lambda>_.
         let m = new_group_message e p me
         in andthen (insert_group_message m d) (\<lambda>d1.
            andthen (org_of d1 me) (\<lambda>org.
            Inr (group_message_view_of m, audit org (now e) me ''send_group_message'' (Some ''group'')
              (Some (gs_group p)) (gmsg_id m) hlc d1))))))"

definition group_pos :: "group_message_row \<Rightarrow> string \<times> string" where
  "group_pos m = (gmsg_created_at m, gmsg_id m)"

definition group_clauses :: "string \<times> string \<Rightarrow> group_message_row \<Rightarrow> bool" where
  "group_clauses f m = (gmsg_group m = fst f \<and> gmsg_created_at m \<le> snd f)"

definition group_message_page ::
    "database \<Rightarrow> string \<times> string \<Rightarrow> (string \<times> string) option \<Rightarrow> nat \<Rightarrow> group_message_row list" where
  "group_message_page d f after limit =
     take (limit + 1) (order_desc group_pos (filter (\<lambda>m. group_clauses f m
       \<and> (case after of None \<Rightarrow> True
          | Some p \<Rightarrow> gmsg_created_at m < fst p
              \<or> (gmsg_created_at m = fst p \<and> gmsg_id m < snd p))) (group_messages d)))"

definition get_group_messages_binding :: "string \<Rightarrow> string \<Rightarrow> binding" where
  "get_group_messages_binding g me = \<lparr>bi_user = me, bi_command = ''get_group_messages'',
     bi_order = SORT_DESC, bi_filters = JObj [(''group_id'', JStr g)]\<rparr>"

definition agent_get_group_messages ::
    "env \<Rightarrow> string \<Rightarrow> nat \<Rightarrow> string option \<Rightarrow> string \<Rightarrow> database
     \<Rightarrow> exc + (string \<times> group_message_view list \<times> string option)" where
  "agent_get_group_messages e g limit cursor me d =
     paged_reply e (get_group_messages_binding g me) cursor pair_pos pair_list limit group_pos
       (\<lambda>boundary after. andthen (group_require_member d g me) (\<lambda>_.
          Inr (g, group_message_page d (g, boundary) after limit)))
       (\<lambda>_ m. group_message_view_of m)"

definition agent_get_group_members ::
    "string \<Rightarrow> string \<Rightarrow> database \<Rightarrow> exc + (string \<times> string list)" where
  "agent_get_group_members g me d =
     andthen (group_require_member d g me) (\<lambda>_.
     Inr (g, map gm_username (order_asc (\<lambda>m. (gm_added_at m, gm_username m))
       (filter (\<lambda>m. gm_group m = g) (group_members d)))))"

section \<open>My groups\<close>

definition grp_pos :: "group_row \<Rightarrow> string \<times> string" where
  "grp_pos x = (grp_created_at x, grp_id x)"

text \<open>The join of the groups with the memberships of \<open>me\<close>, at a boundary.\<close>

definition my_groups :: "database \<Rightarrow> string \<times> string \<Rightarrow> group_row list" where
  "my_groups d f = concat (map (\<lambda>x. map (\<lambda>m. x)
       (filter (\<lambda>m. gm_group m = grp_id x \<and> gm_username m = fst f) (group_members d)))
     (filter (\<lambda>x. grp_created_at x \<le> snd f) (groups d)))"

definition my_groups_page ::
    "database \<Rightarrow> string \<times> string \<Rightarrow> (string \<times> string) option \<Rightarrow> nat \<Rightarrow> group_row list" where
  "my_groups_page d f after limit =
     take (limit + 1) (order_asc grp_pos (filter (\<lambda>x. case after of None \<Rightarrow> True
          | Some p \<Rightarrow> fst p < grp_created_at x \<or> (grp_created_at x = fst p \<and> snd p < grp_id x))
       (my_groups d f)))"

definition list_my_groups_binding :: "string \<Rightarrow> binding" where
  "list_my_groups_binding me = \<lparr>bi_user = me, bi_command = ''list_my_groups'', bi_order = SORT_ASC,
     bi_filters = JObj []\<rparr>"

definition agent_list_my_groups ::
    "env \<Rightarrow> nat \<Rightarrow> string option \<Rightarrow> string \<Rightarrow> database
     \<Rightarrow> exc + (unit \<times> (group_row \<times> nat) list \<times> string option)" where
  "agent_list_my_groups e limit cursor me d =
     paged_reply e (list_my_groups_binding me) cursor pair_pos pair_list limit grp_pos
       (\<lambda>boundary after. Inr ((), my_groups_page d (me, boundary) after limit))
       (\<lambda>_ x. (x, count_where (\<lambda>m. gm_group m = grp_id x) (group_members d)))"

section \<open>Delegations\<close>

definition agent_create_delegation ::
    "env \<Rightarrow> string \<Rightarrow> string \<Rightarrow> string \<Rightarrow> string \<Rightarrow> string \<Rightarrow> database
     \<Rightarrow> exc + ((string \<times> string \<times> string \<times> string) \<times> database)" where
  "agent_create_delegation e i delegatee expires_at me hlc d =
     andthen (task_visible_or_404 e d i me False) (\<lambda>_.
     andthen (require_active_account d delegatee) (\<lambda>_.
     andthen (require (external_comm_allowed d me delegatee) (ApiError POLICY_DENIED Default)) (\<lambda>_.
     andthen (require (\<not> expires_at \<le> now e)
        (ApiError INVALID_ARGUMENT INVALID_ARGUMENT_EXPIRES_FUTURE)) (\<lambda>_.
     let d1 = d\<lparr>delegations := insert_row \<lparr>del_id = Suc (delegations_seq d), del_delegator = me,
              del_delegatee = delegatee, del_task = i, del_expires_at = expires_at,
              del_created_at = now e\<rparr> (delegations d),
            delegations_seq := Suc (delegations_seq d)\<rparr>
     in andthen (org_of d1 me) (\<lambda>org.
        Inr ((i, delegatee, expires_at, now e),
          audit org (now e) me ''create_delegation'' (Some ''task'') (Some i) delegatee hlc d1))))))"

definition agent_revoke_delegation ::
    "env \<Rightarrow> string \<Rightarrow> string \<Rightarrow> string \<Rightarrow> string \<Rightarrow> database
     \<Rightarrow> exc + ((string \<times> string \<times> bool) \<times> database)" where
  "agent_revoke_delegation e i delegatee me hlc d =
     andthen (task_visible_or_404 e d i me False) (\<lambda>_.
     let P = (\<lambda>x. del_delegator x = me \<and> del_task x = i \<and> del_delegatee x = delegatee);
         d1 = d\<lparr>delegations := delete_where P (delegations d)\<rparr>
     in andthen (org_of d1 me) (\<lambda>org.
        Inr ((i, delegatee, 0 < count_where P (delegations d)),
          audit org (now e) me ''revoke_delegation'' (Some ''task'') (Some i) delegatee hlc d1)))"

definition delegation_clauses :: "string \<times> string \<Rightarrow> delegation_row \<Rightarrow> bool" where
  "delegation_clauses f x = (del_delegatee x = fst f \<and> snd f < del_expires_at x)"

definition delegation_page ::
    "database \<Rightarrow> string \<times> string \<Rightarrow> nat option \<Rightarrow> nat \<Rightarrow> delegation_row list" where
  "delegation_page d f last_id limit =
     take (limit + 1) (order_asc del_id (filter (\<lambda>x. delegation_clauses f x
       \<and> (case last_id of None \<Rightarrow> 0 | Some i \<Rightarrow> i) < del_id x) (delegations d)))"

definition get_my_delegations_binding :: "string \<Rightarrow> binding" where
  "get_my_delegations_binding me = \<lparr>bi_user = me, bi_command = ''get_my_delegations'',
     bi_order = ''id_asc'', bi_filters = JObj []\<rparr>"

definition agent_get_my_delegations ::
    "env \<Rightarrow> nat \<Rightarrow> string option \<Rightarrow> string \<Rightarrow> database
     \<Rightarrow> exc + (unit \<times> delegation_row list \<times> string option)" where
  "agent_get_my_delegations e limit cursor me d =
     paged_reply e (get_my_delegations_binding me) cursor id_pos id_list limit del_id
       (\<lambda>_ after. Inr ((), delegation_page d (me, now e) after limit))
       (\<lambda>_ x. x)"

end
