(* ===== verification/Directory.thy ===== *)
theory Directory
  imports Paging
begin

text \<open>
  The directory of \<^verbatim>\<open>synapse/service.py\<close>: the reputation the server measures from the tasks
  (F16), the agent's own organization, descriptions, the agent list, agent cards and their
  search (F2, F3).
\<close>

section \<open>Reputation\<close>

record reputation =
  rep_completed :: nat
  rep_failed :: nat
  rep_canceled :: nat
  rep_active :: nat
  rep_rate :: "int option"

text \<open>
  \<open>round(completed / done, 4)\<close> in ten-thousandths. The quotient is the double nearest to the
  ratio: \<open>c * 2 ^ s / d\<close> rounded to an integer of 53 bits, ties to even; the rounding to four
  decimals is exact on that double, ties to even. \<open>div_shift\<close> finds the scale \<open>s\<close>, for ratios
  up to 1 and down to \<open>2 ^ -100\<close>.
\<close>

definition round_half_even :: "nat \<Rightarrow> nat \<Rightarrow> nat" where
  "round_half_even a b =
     (let q = a div b; r = a mod b
      in if b < 2 * r \<or> (2 * r = b \<and> odd q) then q + 1 else q)"

fun div_shift :: "nat \<Rightarrow> nat \<Rightarrow> nat \<Rightarrow> nat \<Rightarrow> nat" where
  "div_shift 0 c d s = s"
| "div_shift (Suc fuel) c d s = (if 2 ^ 52 * d \<le> c * 2 ^ s then s else div_shift fuel c d (s + 1))"

definition rate4 :: "nat \<Rightarrow> nat \<Rightarrow> int" where
  "rate4 c d =
     (let s = div_shift 160 c d 0; m = round_half_even (c * 2 ^ s) d
      in int (round_half_even (10000 * m) (2 ^ s)))"

definition tasks_in :: "database \<Rightarrow> string \<Rightarrow> (task_state \<Rightarrow> bool) \<Rightarrow> nat" where
  "tasks_in d u P = count_where (\<lambda>t. task_assignee t = u \<and> P (task_state t)) (tasks d)"

definition reputation_counts :: "database \<Rightarrow> string \<Rightarrow> reputation" where
  "reputation_counts d u =
     (let completed = tasks_in d u (\<lambda>s. s = Completed);
          failed = tasks_in d u (\<lambda>s. s = Failed);
          finished = completed + failed
      in \<lparr>rep_completed = completed, rep_failed = failed,
          rep_canceled = tasks_in d u (\<lambda>s. s = Canceled),
          rep_active = tasks_in d u (\<lambda>s. s \<notin> {Completed, Failed, Canceled}),
          rep_rate = (if finished \<noteq> 0 then Some (rate4 completed finished) else None)\<rparr>)"

datatype qualitative = Unknown | Excellent | Good | Average | Poor

definition qualify :: "int option \<Rightarrow> qualitative" where
  "qualify rate = (case rate of
     None \<Rightarrow> Unknown
   | Some r \<Rightarrow> if 9000 \<le> r then Excellent else if 7000 \<le> r then Good
       else if 5000 \<le> r then Average else Poor)"

text \<open>The detail for oneself, the mention for the others.\<close>

definition reputation_summary :: "database \<Rightarrow> string \<Rightarrow> string \<Rightarrow> reputation + qualitative" where
  "reputation_summary d u viewer =
     (if u = viewer then Inl (reputation_counts d u) else Inr (qualify (rep_rate (reputation_counts d u))))"

definition agent_get_agent_reputation ::
    "string \<Rightarrow> string \<Rightarrow> database \<Rightarrow> exc + (reputation + qualitative)" where
  "agent_get_agent_reputation u me d =
     (case accounts_get d u of
        None \<Rightarrow> Inl (ApiError USER_NOT_FOUND Default)
      | Some _ \<Rightarrow> Inr (reputation_summary d u me))"

section \<open>Accounts as agents see them\<close>

definition get_my_organization :: "string \<Rightarrow> database \<Rightarrow> exc + (string \<times> bool \<times> bool)" where
  "get_my_organization me d =
     andthen (some_or AssertionError (accounts_get d me)) (\<lambda>row.
     andthen (some_or AssertionError (organizations_get d (acc_org row))) (\<lambda>og.
     Inr (acc_org row, org_incoming og, org_outgoing og)))"

definition get_agent_description :: "string \<Rightarrow> database \<Rightarrow> exc + (string \<times> string \<times> string)" where
  "get_agent_description u d =
     (case accounts_get d u of
        None \<Rightarrow> Inl (ApiError USER_NOT_FOUND Default)
      | Some row \<Rightarrow> Inr (u, acc_org row, acc_description row))"

text \<open>A position in a list of names: the name and an empty string.\<close>

definition name_list :: "string \<Rightarrow> string list" where
  "name_list u = [u, []]"

definition name_pos :: "string list option \<Rightarrow> exc + string option" where
  "name_pos pos = Inr (first_pos pos)"

definition list_org_agents_binding :: "string \<Rightarrow> binding" where
  "list_org_agents_binding me = \<lparr>bi_user = me, bi_command = ''list_org_agents'',
     bi_order = SORT_USERNAME, bi_filters = JObj []\<rparr>"

definition list_org_agents ::
    "env \<Rightarrow> nat \<Rightarrow> string option \<Rightarrow> string \<Rightarrow> database \<Rightarrow> exc + (unit \<times> string list \<times> string option)"
where
  "list_org_agents e limit cursor me d =
     paged_reply e (list_org_agents_binding me) cursor name_pos name_list limit acc_username
       (\<lambda>boundary after.
          andthen (some_or AssertionError (accounts_get d me)) (\<lambda>row.
          andthen (require (acc_can_see row)
             (ApiError ACCESS_DENIED ACCESS_DENIED_CAN_SEE_ORG_AGENTS)) (\<lambda>_.
          Inr ((), list_by_org d (acc_org row, Some boundary, True, False) after (limit + 1)))))
       (\<lambda>_ a. acc_username a)"

section \<open>Cards\<close>

definition agent_set_agent_card ::
    "env \<Rightarrow> card_fields \<Rightarrow> string \<Rightarrow> database \<Rightarrow> exc + (card_row \<times> database)" where
  "agent_set_agent_card e f me d =
     (let d1 = cards_upsert me f (now e) d
      in andthen (some_or AssertionError (cards_get d1 me)) (\<lambda>row. Inr (row, d1)))"

text \<open>An account without a card has an empty one.\<close>

definition agent_get_agent_card ::
    "string \<Rightarrow> string \<Rightarrow> database \<Rightarrow> exc + (card_row option \<times> (reputation + qualitative))" where
  "agent_get_agent_card u me d =
     (case accounts_get d u of
        None \<Rightarrow> Inl (ApiError USER_NOT_FOUND Default)
      | Some _ \<Rightarrow> Inr (cards_get d u, reputation_summary d u me))"

record find_params =
  fa_limit :: nat
  fa_capability :: "string option"
  fa_domain :: "string option"
  fa_name :: "string option"

definition find_agents_binding :: "find_params \<Rightarrow> string \<Rightarrow> binding" where
  "find_agents_binding p me = \<lparr>bi_user = me, bi_command = ''find_agents'', bi_order = SORT_USERNAME,
     bi_filters = JObj [(''capability'', jopt (fa_capability p)),
       (''domain'', jopt (fa_domain p)), (''name_contains'', jopt (fa_name p))]\<rparr>"

definition agent_find_agents ::
    "env \<Rightarrow> find_params \<Rightarrow> string option \<Rightarrow> string \<Rightarrow> database
     \<Rightarrow> exc + (unit \<times> (card_row \<times> account_row) list \<times> string option)" where
  "agent_find_agents e p cursor me d =
     paged_reply e (find_agents_binding p me) cursor name_pos name_list (fa_limit p)
       (\<lambda>(c, a). card_username c)
       (\<lambda>boundary after.
          andthen (some_or AssertionError (accounts_get d me)) (\<lambda>row.
          andthen (require (acc_can_see row)
             (ApiError ACCESS_DENIED ACCESS_DENIED_CAN_SEE_ORG_AGENTS)) (\<lambda>_.
          Inr ((), cards_search d \<lparr>cdf_org = acc_org row, cdf_capability = fa_capability p,
             cdf_domain = fa_domain p, cdf_name = fa_name p\<rparr> after (fa_limit p)))))
       (\<lambda>_ r. r)"

section \<open>Reputation facts\<close>

lemma count_where_split:
  "count_where P t = count_where (\<lambda>x. P x \<and> Q x) t + count_where (\<lambda>x. P x \<and> \<not> Q x) t"
  by (induction t) (auto simp: count_where_def)

text \<open>
  The four counts partition an agent's tasks: each task assigned to it is counted exactly
  once, as completed, failed, canceled or active.
\<close>

theorem reputation_partitions_tasks:
  "rep_completed (reputation_counts d u) + rep_failed (reputation_counts d u)
     + rep_canceled (reputation_counts d u) + rep_active (reputation_counts d u)
   = count_where (\<lambda>t. task_assignee t = u) (tasks d)"
proof -
  have "count_where (\<lambda>t. task_assignee t = u \<and> task_state t = Completed) ts
      + count_where (\<lambda>t. task_assignee t = u \<and> task_state t = Failed) ts
      + count_where (\<lambda>t. task_assignee t = u \<and> task_state t = Canceled) ts
      + count_where (\<lambda>t. task_assignee t = u \<and> task_state t \<notin> {Completed, Failed, Canceled}) ts
      = count_where (\<lambda>t. task_assignee t = u) ts" for ts
    by (induction ts) (auto simp: count_where_def)
  then show ?thesis by (simp add: reputation_counts_def tasks_in_def Let_def)
qed

lemma round_half_even_le:
  assumes "a \<le> k * b" and "0 < b"
  shows "round_half_even a b \<le> k"
proof -
  have q: "a div b \<le> k" using assms by (metis div_le_mono div_mult_self_is_m mult.commute)
  show ?thesis
  proof (cases "a div b = k")
    case True
    then have "k * b + a mod b = a" by (metis div_mult_mod_eq)
    with assms(1) have "a mod b = 0" by linarith
    with True assms(2) show ?thesis by (simp add: round_half_even_def)
  next
    case False
    with q show ?thesis by (simp add: round_half_even_def Let_def)
  qed
qed

lemma rate4_bounds: "c \<le> d \<Longrightarrow> 0 < d \<Longrightarrow> 0 \<le> rate4 c d \<and> rate4 c d \<le> 10000"
proof -
  assume cd: "c \<le> d" "0 < d"
  define s where "s = div_shift 160 c d 0"
  have "round_half_even (c * 2 ^ s) d \<le> 2 ^ s"
    by (rule round_half_even_le) (use cd in \<open>simp_all add: mult.commute\<close>)
  then have "round_half_even (10000 * round_half_even (c * 2 ^ s) d) (2 ^ s) \<le> 10000"
    by (intro round_half_even_le) simp_all
  then show ?thesis by (simp add: rate4_def Let_def s_def [symmetric])
qed

section \<open>Lists of names\<close>

definition accounts_wf :: "database \<Rightarrow> bool" where
  "accounts_wf d = distinct (map acc_username (accounts d))"

interpretation nl: keyset "\<lambda>p q. p < q" acc_username accounts_wf org_listing
  "\<lambda>d f pos limit. list_by_org d f pos (limit + 1)"
proof unfold_locales
  fix d f pos limit
  show "list_by_org d f pos (limit + 1) =
      take (limit + 1) (filter (\<lambda>r. beyond (\<lambda>p q. p < q) pos (acc_username r)) (org_listing d f))"
    by (cases pos) (simp_all add: list_by_org_def)
next
  fix d f
  assume "accounts_wf d"
  then have "distinct (map acc_username (filter P (accounts d)))" for P
    by (simp add: accounts_wf_def distinct_map_filter)
  then show "sorted_wrt (\<lambda>r s. acc_username r < acc_username s) (org_listing d f)"
    by (cases f) (simp add: org_listing_def sorted_wrt_order_asc)
qed auto

interpretation pnl: paged "\<lambda>p q. p < q" acc_username accounts_wf org_listing
  "\<lambda>d f pos limit. list_by_org d f pos (limit + 1)" name_list name_pos
  by unfold_locales (simp_all add: name_list_def name_pos_def first_pos_def)

text \<open>
  The agent list is complete and closed: an agent with the permission that follows the
  cursors gets, each once and in order, the active agents of its own organization created by
  the first page's instant, and no one else (no human account, no other organization).
\<close>

theorem list_org_agents_complete:
  assumes "accounts_wf d" and "accounts_get d me = Some row" and "acc_can_see row" and "0 < limit"
    and "\<And>c. same_keys (ev None) (ev c)" and "length (accounts d) < n"
  shows "\<exists>names. read_all (\<lambda>c. list_org_agents (ev c) limit c me d) n None = Inr names
    \<and> sorted_wrt (<) names
    \<and> set names = {acc_username a |a. a \<in> set (accounts d) \<and> acc_org a = acc_org row
         \<and> acc_principal a \<noteq> Human \<and> acc_status a = Active \<and> acc_created_at a \<le> now (ev None)}"
proof -
  let ?f = "\<lambda>bd. (acc_org row, Some bd, True, False)"
  let ?names = "map acc_username (org_listing d (?f (now (ev None))))"
  have "json_ok (bi_filters (list_org_agents_binding me))" by (simp add: list_org_agents_binding_def)
  moreover have "length (org_listing d (?f (now (ev None)))) < n"
    using assms(6) by (simp add: org_listing_def order_asc_def) (meson le_less_trans length_filter_le)
  ultimately have "read_all (\<lambda>c. paged_reply (ev c) (list_org_agents_binding me) c name_pos name_list limit acc_username
      (\<lambda>bd after. Inr ((), list_by_org d (?f bd) after (limit + 1))) (\<lambda>_ a. acc_username a)) n None = Inr ?names"
    using pnl.read_all_complete [where b = "list_org_agents_binding me" and ev = ev and d = d and limit = limit
        and flt = ?f and x = "\<lambda>_. ()" and view = "\<lambda>_ a. acc_username a" and n = n] assms(1,4,5) by simp
  then have "read_all (\<lambda>c. list_org_agents (ev c) limit c me d) n None = Inr ?names"
    by (simp add: list_org_agents_def assms(2,3))
  moreover have "sorted_wrt (<) ?names"
    using nl.rows_sorted [OF assms(1), of "?f (now (ev None))"] by (simp add: sorted_wrt_map)
  moreover have "set ?names = {acc_username a |a. a \<in> set (accounts d) \<and> acc_org a = acc_org row
         \<and> acc_principal a \<noteq> Human \<and> acc_status a = Active \<and> acc_created_at a \<le> now (ev None)}"
    by (auto simp: org_listing_def set_order_asc)
  ultimately show ?thesis by blast
qed

theorem list_org_agents_complete_witness:
  "\<exists>names. read_all (\<lambda>c. list_org_agents plain_env 1 c ''alice'' plain_db) 9 None = Inr names
     \<and> ''bob'' \<in> set names \<and> ''carol'' \<notin> set names \<and> ''acme_humain'' \<notin> set names"
proof -
  have "accounts_wf plain_db" "accounts_get plain_db ''alice'' = Some (plain_account ''alice'' ''acme'' Agent)"
    "acc_can_see (plain_account ''alice'' ''acme'' Agent)" "length (accounts plain_db) < 9" by code_simp+
  moreover have "same_keys plain_env plain_env" by (simp add: same_keys_def)
  ultimately obtain names where run: "read_all (\<lambda>c. list_org_agents plain_env 1 c ''alice'' plain_db) 9 None = Inr names"
    and names: "set names = {acc_username a |a. a \<in> set (accounts plain_db)
         \<and> acc_org a = acc_org (plain_account ''alice'' ''acme'' Agent)
         \<and> acc_principal a \<noteq> Human \<and> acc_status a = Active \<and> acc_created_at a \<le> now plain_env}"
    using list_org_agents_complete [of plain_db "''alice''" "plain_account ''alice'' ''acme'' Agent" 1 "\<lambda>_. plain_env" 9]
    by auto
  have "plain_account ''bob'' ''acme'' Agent \<in> set (accounts plain_db)" by (simp add: plain_db_def)
  moreover have "acc_created_at (plain_account ''bob'' ''acme'' Agent) \<le> now plain_env" by code_simp
  ultimately have "''bob'' \<in> set names" unfolding names by (force simp: plain_account_def)
  moreover have out: "list_all (\<lambda>a. \<not> (acc_org a = acc_org (plain_account ''alice'' ''acme'' Agent)
      \<and> acc_principal a \<noteq> Human \<and> acc_username a \<in> {''carol'', ''acme_humain''})) (accounts plain_db)"
    by code_simp
  have "''carol'' \<notin> set names" "''acme_humain'' \<notin> set names"
    unfolding names using out by (force simp: list_all_iff)+
  ultimately show ?thesis using run by blast
qed

end
