(* ===== verification/ServiceOrg.thy ===== *)
theory ServiceOrg
  imports Directory
begin

text \<open>
  The organization commands of \<^verbatim>\<open>synapse/service.py\<close>: the management of agents, policies,
  passwords, cards, budgets, escalation, departments and observers, and the reads an
  organization has of itself. \<open>org\<close> is the authenticated organization; a handler that stamps
  takes its stamp.
\<close>

section \<open>Agents\<close>

record create_agent_params =
  ca_username :: string
  ca_password :: string
  ca_description :: string
  ca_can_see :: bool
  ca_principal :: principal_type

definition org_create_agent ::
    "env \<Rightarrow> create_agent_params \<Rightarrow> string \<Rightarrow> database \<Rightarrow> exc + (create_agent_params \<times> database)" where
  "org_create_agent e p org d =
     andthen (require (\<not> is_reserved_human_username (ca_username p))
        (ApiError INVALID_ARGUMENT INVALID_ARGUMENT_HUMAN_NAME_RESERVED)) (\<lambda>_.
     andthen (require (ca_principal p \<noteq> Human)
        (ApiError INVALID_ARGUMENT INVALID_ARGUMENT_HUMAN_AUTO)) (\<lambda>_.
     let password_hash = hash_pw e (ca_password p)
     in andthen (require (accounts_get d (ca_username p) = None)
        (ApiError USERNAME_ALREADY_EXISTS Default)) (\<lambda>_.
     Inr (p, accounts_insert (ca_username p) password_hash Active (ca_description p) org
        (ca_can_see p) (ca_principal p) (now e) d))))"

definition org_deactivate_agent ::
    "string \<Rightarrow> string \<Rightarrow> database \<Rightarrow> exc + ((string \<times> account_status) \<times> database)" where
  "org_deactivate_agent u org d =
     andthen (org_require_member d u org) (\<lambda>row.
     andthen (require (acc_principal row \<noteq> Human)
        (ApiError ACCESS_DENIED ACCESS_DENIED_HUMAN_NO_DEACTIVATE)) (\<lambda>_.
     if acc_status row = Disabled then Inr ((u, Disabled), d)
     else Inr ((u, Disabled), set_status u Disabled d)))"

definition org_reactivate_agent ::
    "string \<Rightarrow> string \<Rightarrow> database \<Rightarrow> exc + ((string \<times> account_status) \<times> database)" where
  "org_reactivate_agent u org d =
     andthen (org_require_member d u org) (\<lambda>row.
     if acc_status row = Active then Inr ((u, Active), d)
     else Inr ((u, Active), set_status u Active d))"

definition org_change_password ::
    "env \<Rightarrow> string \<Rightarrow> string \<Rightarrow> string \<Rightarrow> database \<Rightarrow> exc + ((string \<times> account_status) \<times> database)" where
  "org_change_password e u new_password org d =
     andthen (org_require_member d u org) (\<lambda>row.
     andthen (require (acc_principal row \<noteq> Human)
        (ApiError ACCESS_DENIED ACCESS_DENIED_HUMAN_NO_PASSWORD)) (\<lambda>_.
     Inr ((u, acc_status row), set_password_hash u (hash_pw e new_password) d)))"

definition org_set_visibility ::
    "string \<Rightarrow> bool \<Rightarrow> string \<Rightarrow> database \<Rightarrow> exc + ((string \<times> bool) \<times> database)" where
  "org_set_visibility u see org d =
     andthen (org_require_member d u org) (\<lambda>_. Inr ((u, see), set_visibility u see d))"

definition org_change_agent_description ::
    "string \<Rightarrow> string \<Rightarrow> string \<Rightarrow> database \<Rightarrow> exc + ((string \<times> string) \<times> database)" where
  "org_change_agent_description u description org d =
     andthen (org_require_member d u org) (\<lambda>row.
     andthen (require (acc_principal row \<noteq> Human)
        (ApiError ACCESS_DENIED ACCESS_DENIED_HUMAN_NO_MODIFY)) (\<lambda>_.
     Inr ((u, description), update_account u (\<lambda>a. a\<lparr>acc_description := description\<rparr>) d)))"

record agent_view =
  av_username :: string
  av_description :: string
  av_status :: account_status
  av_can_see :: bool
  av_principal :: principal_type
  av_reputation :: reputation

definition agent_view_of :: "database \<Rightarrow> account_row \<Rightarrow> agent_view" where
  "agent_view_of d a = \<lparr>av_username = acc_username a, av_description = acc_description a,
     av_status = acc_status a, av_can_see = acc_can_see a, av_principal = acc_principal a,
     av_reputation = reputation_counts d (acc_username a)\<rparr>"

definition get_org_agents_binding :: "string \<Rightarrow> binding" where
  "get_org_agents_binding org = \<lparr>bi_user = org, bi_command = ''get_org_agents'',
     bi_order = SORT_USERNAME, bi_filters = JObj []\<rparr>"

definition org_get_agents ::
    "env \<Rightarrow> nat \<Rightarrow> string option \<Rightarrow> string \<Rightarrow> database
     \<Rightarrow> exc + (unit \<times> agent_view list \<times> string option)" where
  "org_get_agents e limit cursor org d =
     paged_reply e (get_org_agents_binding org) cursor name_pos name_list limit acc_username
       (\<lambda>boundary after. Inr ((), list_by_org d (org, Some boundary, False, True) after (limit + 1)))
       (\<lambda>_ a. agent_view_of d a)"

section \<open>The organization itself\<close>

definition org_set_policy ::
    "bool \<Rightarrow> bool \<Rightarrow> string \<Rightarrow> database \<Rightarrow> exc + ((string \<times> bool \<times> bool) \<times> database)" where
  "org_set_policy incoming outgoing org d =
     Inr ((org, incoming, outgoing), update_policies org incoming outgoing d)"

definition org_get_policy :: "string \<Rightarrow> database \<Rightarrow> exc + (string \<times> bool \<times> bool)" where
  "org_get_policy org d =
     andthen (some_or AssertionError (organizations_get d org)) (\<lambda>row.
     Inr (org, org_incoming row, org_outgoing row))"

definition org_change_organization_password ::
    "env \<Rightarrow> string \<Rightarrow> string \<Rightarrow> database \<Rightarrow> exc + (string \<times> database)" where
  "org_change_organization_password e new_password org d =
     Inr (org, update_password org (hash_pw e new_password) d)"

definition org_approve_agent_card ::
    "env \<Rightarrow> string \<Rightarrow> string \<Rightarrow> database \<Rightarrow> exc + (string \<times> database)" where
  "org_approve_agent_card e u org d =
     andthen (org_require_member d u org) (\<lambda>_.
     andthen (some_or (ApiError USER_NOT_FOUND USER_NOT_FOUND_NO_CARD) (cards_get d u)) (\<lambda>_.
     let d1 = cards_approve u org (now e) d
     in andthen (some_or AssertionError (cards_get d1 u)) (\<lambda>_. Inr (u, d1))))"

section \<open>Settings, escalation, budgets\<close>

definition org_set_event_retention_days ::
    "env \<Rightarrow> int \<Rightarrow> string \<Rightarrow> string \<Rightarrow> database \<Rightarrow> exc + (int \<times> database)" where
  "org_set_event_retention_days e days org hlc d =
     (let d1 = d\<lparr>org_settings := upsert (\<lambda>r. set_org r = org) (\<lambda>r. r\<lparr>set_retention := days\<rparr>)
            \<lparr>set_org = org, set_retention = days\<rparr> (org_settings d)\<rparr>
      in Inr (days, audit org (now e) org ''set_event_retention_days'' (Some ''organization'')
            (Some org) ''ok'' hlc d1))"

record escalation_params =
  es_enabled :: bool
  es_due_after :: int
  es_failed_after :: int
  es_to :: string

definition org_set_escalation_policy ::
    "env \<Rightarrow> escalation_params \<Rightarrow> string \<Rightarrow> string \<Rightarrow> database
     \<Rightarrow> exc + (escalation_params \<times> database)" where
  "org_set_escalation_policy e p org hlc d =
     andthen (org_require_member d (es_to p) org) (\<lambda>_.
     let d1 = d\<lparr>policies := upsert (\<lambda>r. pol_org r = org)
            (\<lambda>r. r\<lparr>pol_enabled := es_enabled p, pol_due_after := es_due_after p,
               pol_failed_after := es_failed_after p, pol_escalate_to := es_to p\<rparr>)
            \<lparr>pol_org = org, pol_enabled = es_enabled p, pol_due_after = es_due_after p,
             pol_failed_after = es_failed_after p, pol_escalate_to = es_to p\<rparr> (policies d)\<rparr>
     in Inr (p, audit org (now e) org ''set_escalation_policy'' (Some ''organization'')
            (Some org) ''ok'' hlc d1))"

text \<open>The policy, or the default: disabled, with nothing else.\<close>

definition org_get_escalation_policy :: "string \<Rightarrow> database \<Rightarrow> exc + policy_row option" where
  "org_get_escalation_policy org d = Inr (fetch (\<lambda>r. pol_org r = org) (policies d))"

text \<open>A limit that is not given keeps the stored one (\<open>COALESCE\<close>); two missing delete the budget.\<close>

definition coalesce :: "'a option \<Rightarrow> 'a option \<Rightarrow> 'a option" where
  "coalesce x y = (case x of None \<Rightarrow> y | Some _ \<Rightarrow> x)"

definition org_set_agent_budget ::
    "env \<Rightarrow> string \<Rightarrow> int option \<Rightarrow> int option \<Rightarrow> string \<Rightarrow> string \<Rightarrow> database
     \<Rightarrow> exc + ((string \<times> int option \<times> int option) \<times> database)" where
  "org_set_agent_budget e u max_tasks max_messages org hlc d =
     andthen (org_require_member d u org) (\<lambda>_.
     let d1 = (if max_tasks = None \<and> max_messages = None
            then d\<lparr>budgets := delete_where (\<lambda>b. bud_username b = u) (budgets d)\<rparr>
            else d\<lparr>budgets := upsert (\<lambda>b. bud_username b = u)
              (\<lambda>b. b\<lparr>bud_tasks := coalesce max_tasks (bud_tasks b),
                 bud_messages := coalesce max_messages (bud_messages b)\<rparr>)
              \<lparr>bud_username = u, bud_tasks = max_tasks, bud_messages = max_messages\<rparr> (budgets d)\<rparr>);
         d2 = audit org (now e) org ''set_agent_budget'' (Some ''agent'') (Some u) ''ok'' hlc d1
     in Inr (case budget_get d2 u of
          None \<Rightarrow> (u, None, None)
        | Some b \<Rightarrow> (u, bud_tasks b, bud_messages b), d2))"

section \<open>Departments\<close>

definition department_exists :: "database \<Rightarrow> string \<Rightarrow> string \<Rightarrow> bool" where
  "department_exists d org dept =
     (\<exists>x \<in> set (departments d). dpt_org x = org \<and> dpt_name x = dept)"

definition org_create_department ::
    "env \<Rightarrow> string \<Rightarrow> string \<Rightarrow> database \<Rightarrow> exc + ((string \<times> string) \<times> database)" where
  "org_create_department e dept org d =
     andthen (require (\<not> department_exists d org dept)
        (ApiError INVALID_ARGUMENT INVALID_ARGUMENT_DEPT_EXISTS)) (\<lambda>_.
     Inr ((dept, org), d\<lparr>departments := insert_row
        \<lparr>dpt_org = org, dpt_name = dept, dpt_created_at = now e\<rparr> (departments d)\<rparr>))"

definition org_set_agent_department ::
    "env \<Rightarrow> string \<Rightarrow> string \<Rightarrow> role \<Rightarrow> string \<Rightarrow> database
     \<Rightarrow> exc + ((string \<times> string \<times> role) \<times> database)" where
  "org_set_agent_department e u dept r org d =
     andthen (org_require_member d u org) (\<lambda>_.
     andthen (require (department_exists d org dept)
        (ApiError USER_NOT_FOUND USER_NOT_FOUND_DEPT_UNKNOWN)) (\<lambda>_.
     Inr ((u, dept, r), d\<lparr>memberships := upsert (\<lambda>m. mem_username m = u)
        (\<lambda>m. m\<lparr>mem_department := dept, mem_role := r, mem_created_at := now e\<rparr>)
        \<lparr>mem_username = u, mem_org = org, mem_department = dept, mem_role = r,
         mem_created_at = now e\<rparr> (memberships d)\<rparr>)))"

text \<open>The departments in name order, each with its members in name order.\<close>

definition structure_by_department ::
    "database \<Rightarrow> string \<Rightarrow> (string \<times> (string \<times> role) list) list" where
  "structure_by_department d org =
     (let names = map dpt_name (order_asc dpt_name (filter (\<lambda>x. dpt_org x = org) (departments d)));
          members = order_asc mem_username (filter (\<lambda>m. mem_org m = org) (memberships d));
          extra = filter (\<lambda>x. x \<notin> set names) (remdups (map mem_department members))
      in map (\<lambda>x. (x, map (\<lambda>m. (mem_username m, mem_role m))
            (filter (\<lambda>m. mem_department m = x) members))) (remdups names @ extra))"

definition org_get_org_structure ::
    "string \<Rightarrow> database \<Rightarrow> exc + ((string \<times> (string \<times> role) list) list \<times> string list)" where
  "org_get_org_structure org d =
     (let by_dept = structure_by_department d org;
          all_agents = list_by_org d (org, None, False, True) None 10000;
          member_names = concat (map (\<lambda>(_, ms). map fst ms) by_dept)
      in Inr (order_asc fst by_dept,
           map acc_username (filter (\<lambda>a. acc_username a \<notin> set member_names) all_agents)))"

section \<open>Audit, metrics, status\<close>

record get_audit_params =
  ga_limit :: nat
  ga_since :: "string option"
  ga_actor :: "string option"
  ga_command :: "string option"

definition get_org_audit_binding :: "get_audit_params \<Rightarrow> string \<Rightarrow> binding" where
  "get_org_audit_binding p org = \<lparr>bi_user = org, bi_command = ''get_org_audit'', bi_order = ''id_asc'',
     bi_filters = JObj [(''since'', jopt (ga_since p)), (''actor'', jopt (ga_actor p)),
       (''command'', jopt (ga_command p))]\<rparr>"

definition org_get_audit ::
    "env \<Rightarrow> get_audit_params \<Rightarrow> string option \<Rightarrow> string \<Rightarrow> database
     \<Rightarrow> exc + (unit \<times> audit_row list \<times> string option)" where
  "org_get_audit e p cursor org d =
     paged_reply e (get_org_audit_binding p org) cursor id_pos id_list (ga_limit p) au_id
       (\<lambda>boundary after. Inr ((), audit_page d \<lparr>auf_org = org, auf_since = ga_since p,
           auf_actor = ga_actor p, auf_command = ga_command p, auf_boundary = boundary\<rparr>
         after (ga_limit p)))
       (\<lambda>_ r. r)"

record metrics =
  mt_total :: nat
  mt_active :: nat
  mt_tasks :: "(task_state \<times> nat) list"
  mt_messages :: nat

definition of_org :: "database \<Rightarrow> string \<Rightarrow> string \<Rightarrow> nat" where
  "of_org d org u = count_where (\<lambda>a. acc_username a = u \<and> acc_org a = org) (accounts d)"

text \<open>Each row joins with the accounts of its user: the sum over the rows of the matches.\<close>

definition join_count :: "database \<Rightarrow> string \<Rightarrow> ('r \<Rightarrow> string) \<Rightarrow> 'r list \<Rightarrow> nat" where
  "join_count d org who rows = sum_list (map (\<lambda>r. of_org d org (who r)) rows)"

text \<open>\<open>GROUP BY state\<close>: the states that occur, in the order of their texts, with their counts.\<close>

definition tasks_by_state :: "database \<Rightarrow> string \<Rightarrow> (task_state \<times> nat) list" where
  "tasks_by_state d org =
     filter (\<lambda>(s, n). n \<noteq> 0)
       (map (\<lambda>s. (s, join_count d org task_assignee (filter (\<lambda>t. task_state t = s) (tasks d))))
         [Canceled, Completed, Failed, InProgress, PendingApproval, Submitted])"

definition org_get_metrics :: "env \<Rightarrow> string \<Rightarrow> database \<Rightarrow> exc + metrics" where
  "org_get_metrics e org d =
     Inr \<lparr>mt_total = count_by_org d org,
       mt_active = count_where (\<lambda>a. acc_org a = org \<and> acc_status a = Active) (accounts d),
       mt_tasks = tasks_by_state d org,
       mt_messages = join_count d org msg_sender
           (filter (\<lambda>m. ago e 3600 < msg_created_at m) (messages d))
         + join_count d org gmsg_sender
           (filter (\<lambda>m. ago e 3600 < gmsg_created_at m) (group_messages d))\<rparr>"

text \<open>Process counters: the commands known, the requests served, the uptime in seconds.\<close>

definition org_get_server_status :: "nat \<Rightarrow> env \<Rightarrow> service \<Rightarrow> nat \<times> nat \<times> int" where
  "org_get_server_status commands e s = (commands, requests_total s, monotonic e - started_at s)"

section \<open>Observers\<close>

record observer_params =
  ob_name :: string
  ob_password :: string
  ob_description :: string

definition org_create_observer_account ::
    "env \<Rightarrow> observer_params \<Rightarrow> string \<Rightarrow> string \<Rightarrow> database \<Rightarrow> exc + (string \<times> database)" where
  "org_create_observer_account e p org hlc d =
     andthen (require (accounts_get d (ob_name p) = None)
        (ApiError USERNAME_ALREADY_EXISTS Default)) (\<lambda>_.
     let d1 = accounts_insert (ob_name p) (hash_pw e (ob_password p)) Active (ob_description p) org
            True Agent (now e) d;
         d2 = update_account (ob_name p) (\<lambda>a. a\<lparr>acc_observer := True\<rparr>) d1
     in Inr (ob_name p, audit org (now e) org ''create_observer_account'' (Some ''agent'')
          (Some (ob_name p)) ''created'' hlc d2))"

definition org_revoke_observer_account ::
    "env \<Rightarrow> string \<Rightarrow> string \<Rightarrow> string \<Rightarrow> database \<Rightarrow> exc + (string \<times> database)" where
  "org_revoke_observer_account e u org hlc d =
     andthen (org_require_member d u org) (\<lambda>_.
     Inr (u, audit org (now e) org ''revoke_observer_account'' (Some ''agent'') (Some u) ''revoked'' hlc
        (set_status u Disabled d)))"

definition org_list_observers :: "string \<Rightarrow> database \<Rightarrow> exc + account_row list" where
  "org_list_observers org d =
     Inr (order_asc acc_username (filter (\<lambda>a. acc_org a = org \<and> acc_observer a) (accounts d)))"

end
