(* ===== verification/ServiceHuman.thy ===== *)
theory ServiceHuman
  imports ServiceOrg
begin

text \<open>
  The commands of human accounts and of the local web identity in
  \<^verbatim>\<open>synapse/service.py\<close>: the list of organizations, creating and disabling one, the
  conversations of an organization, and its snapshot for observers and humans. Rows that tie
  in an \<open>ORDER BY\<close> come in the engine's scan order, the parameter \<open>sc\<close> of the snapshot.
\<close>

section \<open>Organizations\<close>

text \<open>The active organizations, and the disabled ones when asked for and there are any.\<close>

definition human_list_orgs ::
    "bool \<Rightarrow> bool \<Rightarrow> database \<Rightarrow> exc + (string list \<times> string list option)" where
  "human_list_orgs include_disabled web_local d =
     (let names = (\<lambda>b. map org_name (order_asc org_name (filter (\<lambda>g. org_enabled g = b) (organizations d))));
          disabled = names False
      in Inr (names True,
           if include_disabled \<and> \<not> web_local \<and> disabled \<noteq> [] then Some disabled else None))"

definition human_create_org ::
    "env \<Rightarrow> string \<Rightarrow> string \<Rightarrow> database \<Rightarrow> exc + ((string \<times> string) \<times> database)" where
  "human_create_org e org password d =
     (let human_name = human_username_for (\<lambda>n. take 8 (sha256 e n)) org;
          human_hash = sentinel e;
          org_password_hash = hash_pw e password
      in andthen (require (organizations_get d org = None)
           (ApiError INVALID_ARGUMENT INVALID_ARGUMENT_ORG_NAME_USED)) (\<lambda>_.
         andthen (require (accounts_get d human_name = None)
           (ApiError INVALID_ARGUMENT INVALID_ARGUMENT_HUMAN_NAME_USED)) (\<lambda>_.
         Inr ((org, human_name), accounts_insert human_name human_hash Active
           (''Human account of the organization '' @ org @ '' (web access)'') org True Human (now e)
           (organizations_insert org org_password_hash False False (now e) d)))))"

definition human_disable_org ::
    "string \<Rightarrow> string \<Rightarrow> database \<Rightarrow> exc + ((string \<times> bool) \<times> database)" where
  "human_disable_org target me d =
     andthen (org_of d me) (\<lambda>me_org.
     andthen (require (target = me_org) (ApiError ACCESS_DENIED ACCESS_DENIED_HUMAN_ONLY_ORG)) (\<lambda>_.
     andthen (some_or (ApiError INVALID_ARGUMENT INVALID_ARGUMENT_UNKNOWN_ORG)
        (organizations_get d target)) (\<lambda>row.
     andthen (require (org_enabled row)
        (ApiError INVALID_ARGUMENT INVALID_ARGUMENT_ORG_DEACTIVATED)) (\<lambda>_.
     Inr ((target, False), d\<lparr>organizations := update_where (\<lambda>g. org_name g = target)
        (\<lambda>g. g\<lparr>org_enabled := False\<rparr>) (organizations d)\<rparr>)))))"

section \<open>Conversations of the organization\<close>

text \<open>The messages joined with the accounts of both ends, one of them in the organization.\<close>

definition joined_messages ::
    "database \<Rightarrow> (account_row \<Rightarrow> account_row \<Rightarrow> bool) \<Rightarrow> message_row list \<Rightarrow> message_row list" where
  "joined_messages d P ms =
     concat (map (\<lambda>m. concat (map (\<lambda>s. map (\<lambda>r. m)
         (filter (\<lambda>r. acc_username r = msg_recipient m \<and> P s r) (accounts d)))
       (filter (\<lambda>s. acc_username s = msg_sender m) (accounts d)))) ms)"

fun split_colon :: "string \<Rightarrow> string list" where
  "split_colon [] = [[]]"
| "split_colon (c # s) = (if c = CHR '':'' then [] # split_colon s
     else (case split_colon s of [] \<Rightarrow> [[c]] | w # ws \<Rightarrow> (c # w) # ws))"

record org_conversation =
  oc_id :: string
  oc_participants :: "string list"
  oc_count :: nat
  oc_unread :: nat
  oc_last_at :: string

record org_conversations_filter =
  of_me :: string
  of_org :: string
  of_boundary :: string

definition org_conversation_of ::
    "database \<Rightarrow> org_conversations_filter \<Rightarrow> conversation_row \<Rightarrow> org_conversation option" where
  "org_conversation_of d f c =
     (let ms = joined_messages d (\<lambda>s r. acc_org s = of_org f \<or> acc_org r = of_org f)
            (filter (\<lambda>m. msg_conv m = conv_id c) (messages d))
      in case max_col (map msg_created_at ms) of
           None \<Rightarrow> None
         | Some last_at \<Rightarrow>
             if last_at \<le> of_boundary f then
               Some \<lparr>oc_id = conv_id c, oc_participants = filter (\<lambda>u. u \<noteq> []) (split_colon (conv_key c)),
                 oc_count = length ms,
                 oc_unread = count_where (\<lambda>m. msg_recipient m = of_me f \<and> msg_read_at m = None) ms,
                 oc_last_at = last_at\<rparr>
             else None)"

definition oc_pos :: "org_conversation \<Rightarrow> string \<times> string" where
  "oc_pos x = (oc_last_at x, oc_id x)"

definition org_conversations_query ::
    "database \<Rightarrow> org_conversations_filter \<Rightarrow> (string \<times> string) option \<Rightarrow> nat \<Rightarrow> org_conversation list"
where
  "org_conversations_query d f after limit =
     take (limit + 1) (order_desc oc_pos (filter (\<lambda>x. case after of None \<Rightarrow> True
          | Some p \<Rightarrow> oc_last_at x < fst p \<or> (oc_last_at x = fst p \<and> oc_id x < snd p))
       (List.map_filter (org_conversation_of d f) (conversations d))))"

definition list_org_conversations_binding :: "string \<Rightarrow> binding" where
  "list_org_conversations_binding me = \<lparr>bi_user = me, bi_command = ''list_org_conversations'',
     bi_order = SORT_DESC, bi_filters = JObj []\<rparr>"

definition human_list_org_conversations ::
    "env \<Rightarrow> nat \<Rightarrow> string option \<Rightarrow> string \<Rightarrow> database
     \<Rightarrow> exc + (unit \<times> org_conversation list \<times> string option)" where
  "human_list_org_conversations e limit cursor me d =
     andthen (org_of d me) (\<lambda>org.
     paged_reply e (list_org_conversations_binding me) cursor pair_pos pair_list limit oc_pos
       (\<lambda>boundary after. Inr ((), org_conversations_query d
          \<lparr>of_me = me, of_org = org, of_boundary = boundary\<rparr> after limit))
       (\<lambda>_ x. x))"

text \<open>The content of one conversation: refused as not found when neither end is of the organization.\<close>

definition in_org :: "database \<Rightarrow> string \<Rightarrow> string \<Rightarrow> bool" where
  "in_org d org u = (\<exists>a \<in> set (accounts d). acc_username a = u \<and> acc_org a = org)"

definition conversation_visible :: "database \<Rightarrow> string \<Rightarrow> string \<Rightarrow> bool" where
  "conversation_visible d org conv =
     (\<exists>m \<in> set (messages d). msg_conv m = conv
        \<and> (in_org d org (msg_sender m) \<or> in_org d org (msg_recipient m)))"

definition get_org_conversation_binding :: "string \<Rightarrow> string \<Rightarrow> binding" where
  "get_org_conversation_binding conv me = \<lparr>bi_user = me, bi_command = ''get_org_conversation'',
     bi_order = SORT_ASC, bi_filters = JObj [(''conversation_id'', JStr conv)]\<rparr>"

definition human_get_org_conversation ::
    "env \<Rightarrow> string \<Rightarrow> nat \<Rightarrow> string option \<Rightarrow> string \<Rightarrow> database
     \<Rightarrow> exc + (string \<times> message_row list \<times> string option)" where
  "human_get_org_conversation e conv limit cursor me d =
     andthen (org_of d me) (\<lambda>org.
     andthen (require (\<exists>c \<in> set (conversations d). conv_id c = conv)
        (ApiError CONVERSATION_NOT_FOUND Default)) (\<lambda>_.
     andthen (require (conversation_visible d org conv) (ApiError CONVERSATION_NOT_FOUND Default)) (\<lambda>_.
     paged_reply e (get_org_conversation_binding conv me) cursor pair_pos pair_list limit msg_pos
       (\<lambda>boundary after. Inr (conv, conversation_page d (conv, boundary) after limit))
       (\<lambda>_ m. m))))"

section \<open>The snapshot\<close>

record conversation_flow =
  cf_a :: string
  cf_b :: string
  cf_count :: nat
  cf_last_at :: string
  cf_unread :: nat

record task_meta =
  tm_id :: string
  tm_state :: task_state
  tm_priority :: priority
  tm_creator :: string
  tm_assignee :: string
  tm_approver :: "string option"
  tm_due_at :: "string option"
  tm_created_at :: string
  tm_updated_at :: string

definition task_meta_of :: "task_row \<Rightarrow> task_meta" where
  "task_meta_of t = \<lparr>tm_id = task_id t, tm_state = task_state t, tm_priority = task_priority t,
     tm_creator = task_creator t, tm_assignee = task_assignee t, tm_approver = task_approver t,
     tm_due_at = task_due_at t, tm_created_at = task_created_at t, tm_updated_at = task_updated_at t\<rparr>"

record snapshot =
  sn_org :: string
  sn_agents :: "(string \<times> string \<times> account_status \<times> principal_type \<times> bool) list"
  sn_tasks_by_state :: "(task_state \<times> nat) list"
  sn_departments :: "(string \<times> (string \<times> role) list) list"
  sn_audit :: "(nat \<times> string \<times> string \<times> string \<times> string) list"
  sn_messages :: nat
  sn_conversations :: "conversation_flow list"
  sn_tasks :: "task_meta list"

text \<open>One flow per conversation with a message between two accounts of the organization.\<close>

definition flow_of :: "database \<Rightarrow> string \<Rightarrow> string \<Rightarrow> conversation_flow option" where
  "flow_of d org conv =
     (let ms = joined_messages d (\<lambda>s r. acc_org s = org \<and> acc_org r = org)
            (filter (\<lambda>m. msg_conv m = conv) (messages d))
      in case ms of
           [] \<Rightarrow> None
         | m # _ \<Rightarrow> Some \<lparr>cf_a = min (msg_sender m) (msg_recipient m),
             cf_b = max (msg_sender m) (msg_recipient m), cf_count = length ms,
             cf_last_at = the (max_col (map msg_created_at ms)),
             cf_unread = count_where (\<lambda>x. msg_read_at x = None) ms\<rparr>)"

definition join_tasks :: "database \<Rightarrow> string \<Rightarrow> task_row list" where
  "join_tasks d org =
     concat (map (\<lambda>t. concat (map (\<lambda>c. map (\<lambda>a. t)
         (filter (\<lambda>a. acc_username a = task_assignee t \<and> (acc_org c = org \<or> acc_org a = org)) (accounts d)))
       (filter (\<lambda>c. acc_username c = task_creator t) (accounts d)))) (tasks d))"

record scan_order =
  scan_flows :: "conversation_flow list \<Rightarrow> conversation_flow list"
  scan_tasks :: "task_row list \<Rightarrow> task_row list"

definition agent_get_org_snapshot ::
    "env \<Rightarrow> scan_order \<Rightarrow> string \<Rightarrow> database \<Rightarrow> exc + snapshot" where
  "agent_get_org_snapshot e sc me d =
     andthen (some_or AssertionError (accounts_get d me)) (\<lambda>row.
     andthen (require (acc_observer row \<or> acc_principal row = Human)
        (ApiError ACCESS_DENIED ACCESS_DENIED_OBSERVER_OR_HUMAN)) (\<lambda>_.
     let org = acc_org row in
     Inr \<lparr>sn_org = org,
       sn_agents = map (\<lambda>a. (acc_username a, acc_description a, acc_status a, acc_principal a, acc_observer a))
         (order_asc acc_username (filter (\<lambda>a. acc_org a = org) (accounts d))),
       sn_tasks_by_state = tasks_by_state d org,
       sn_departments = structure_by_department d org,
       sn_audit = map (\<lambda>r. (au_id r, au_at r, au_actor r, au_command r, au_outcome r))
         (take 20 (order_desc au_id (filter (\<lambda>r. au_org r = org) (audit_log d)))),
       sn_messages = join_count d org msg_sender
         (filter (\<lambda>m. ago e 3600 < msg_created_at m) (messages d)),
       sn_conversations = take 300 (order_desc cf_last_at (scan_flows sc
         (List.map_filter (flow_of d org) (remdups (map msg_conv (messages d)))))),
       sn_tasks = map task_meta_of (take 300 (order_desc task_updated_at
         (scan_tasks sc (join_tasks d org))))\<rparr>))"

end
