(* ===== verification/ServiceTasks.thy ===== *)
theory ServiceTasks
  imports Common
begin

text \<open>
  The task commands of \<^verbatim>\<open>synapse/service.py\<close>: creation, state changes, transfer,
  approval, the automatic escalation each write may trigger, and the reads. A command that
  writes takes the causal stamp of its transaction.
\<close>

section \<open>Escalation\<close>

definition escalate_task ::
    "config \<Rightarrow> env \<Rightarrow> string \<Rightarrow> string \<Rightarrow> string \<Rightarrow> string \<Rightarrow> task_row \<Rightarrow> database \<Rightarrow> database" where
  "escalate_task cfg e org escalate_to at hlc row d =
     (if (case budget_get d escalate_to of
            None \<Rightarrow> False
          | Some b \<Rightarrow> (case bud_tasks b of
               None \<Rightarrow> False | Some n \<Rightarrow> n \<le> int (active_count d escalate_to)))
      then d
      else
        let i = task_id row;
            d1 = set_assignee i escalate_to at d;
            d2 = add_event \<lparr>tx_task = i, tx_event = ''escalated'', tx_by = escalate_to,
                   tx_note = Some ''automatic escalation'', tx_at = at, tx_hlc = hlc\<rparr> d1;
            d3 = task_event cfg e org (row\<lparr>task_assignee := escalate_to\<rparr>) TaskEscalated
                   escalate_to at hlc d2
        in audit org at escalate_to ''escalate_task'' (Some ''task'') (Some i) ''escalated'' hlc d3)"

definition check_escalations ::
    "config \<Rightarrow> env \<Rightarrow> string \<Rightarrow> string \<Rightarrow> string \<Rightarrow> database \<Rightarrow> database" where
  "check_escalations cfg e org at hlc d =
     (case fetch (\<lambda>p. pol_org p = org) (policies d) of
        None \<Rightarrow> d
      | Some policy \<Rightarrow>
          if \<not> pol_enabled policy then d
          else
            let escalate_to = pol_escalate_to policy in
            case accounts_get d escalate_to of
              None \<Rightarrow> d
            | Some target \<Rightarrow>
                if acc_status target \<noteq> Active then d
                else fold (escalate_task cfg e org escalate_to at hlc)
                  (due_tasks_to_escalate d org escalate_to (ago e (pol_due_after policy))
                     (ago e (pol_failed_after policy))) d)"

section \<open>Depth of the dependencies\<close>

definition MAX_DEPENDENCY_DEPTH :: nat where "MAX_DEPENDENCY_DEPTH = 8"

text \<open>The bounded breadth-first loop; \<open>left\<close> is \<open>max_depth + 1 - depth\<close>.\<close>

fun depth_loop :: "database \<Rightarrow> nat \<Rightarrow> string list \<Rightarrow> string list \<Rightarrow> nat \<Rightarrow> nat" where
  "depth_loop d 0 seen frontier depth = depth"
| "depth_loop d (Suc left) seen frontier depth =
     (if frontier = [] then depth
      else
        let rows = filter (\<lambda>r. dep_task r \<in> set frontier) (dependencies d);
            frontier' = filter (\<lambda>i. i \<notin> set seen) (map dep_on rows)
        in depth_loop d left (seen @ frontier') frontier' (depth + 1))"

definition dependency_depth :: "database \<Rightarrow> string list \<Rightarrow> nat \<Rightarrow> nat" where
  "dependency_depth d task_ids max_depth = depth_loop d (max_depth + 1) task_ids task_ids 0"

fun require_tasks :: "database \<Rightarrow> string list \<Rightarrow> exc + unit" where
  "require_tasks d [] = Inr ()"
| "require_tasks d (dep # deps) =
     (case tasks_get d dep of
        None \<Rightarrow> Inl (ApiError INVALID_ARGUMENT
          (Custom (''The dependent task '' @ dep @ '' does not exist'')))
      | Some _ \<Rightarrow> require_tasks d deps)"

section \<open>Creating a task\<close>

record create_task_params =
  ct_client :: "string option"
  ct_title :: string
  ct_description :: "string option"
  ct_assignee :: string
  ct_priority :: priority
  ct_due_at :: "string option"
  ct_reference :: "string option"
  ct_depends_on :: "string list"

definition create_task_fields :: "create_task_params \<Rightarrow> string \<Rightarrow> task_fields" where
  "create_task_fields p me =
     \<lparr>tf_client = ct_client p, tf_title = ct_title p, tf_description = ct_description p,
      tf_creator = me, tf_assignee = ct_assignee p, tf_priority = ct_priority p,
      tf_due_at = ct_due_at p, tf_reference = ct_reference p\<rparr>"

text \<open>The insertion and everything the transaction does after it.\<close>

definition insert_new_task ::
    "config \<Rightarrow> env \<Rightarrow> create_task_params \<Rightarrow> string \<Rightarrow> string \<Rightarrow> string \<Rightarrow> database
     \<Rightarrow> exc + (task_view \<times> database)" where
  "insert_new_task cfg e p me org hlc d =
     (let i = fresh e 0; at = now e in
      andthen (tasks_insert i (create_task_fields p me) at d) (\<lambda>d1.
      andthen (if ct_depends_on p = [] then Inr d1
               else replace_dependencies i (ct_depends_on p) d1) (\<lambda>d2.
      let d3 = add_event \<lparr>tx_task = i, tx_event = ''created'', tx_by = me, tx_note = None,
                 tx_at = at, tx_hlc = hlc\<rparr> d2
      in andthen (some_or AssertionError (tasks_get d3 i)) (\<lambda>row.
         let d4 = task_event cfg e org row TaskCreated me at hlc d3;
             d5 = audit org at me ''create_task'' (Some ''task'') (Some i) ''ok'' hlc d4
         in andthen (org_of d5 (ct_assignee p)) (\<lambda>assignee_org.
            Inr (row_to_task d3 row, check_escalations cfg e assignee_org at hlc d5))))))"

definition agent_create_task ::
    "config \<Rightarrow> env \<Rightarrow> create_task_params \<Rightarrow> string \<Rightarrow> string \<Rightarrow> database
     \<Rightarrow> exc + (task_view \<times> database)" where
  "agent_create_task cfg e p me hlc d =
     andthen (org_of d me) (\<lambda>org.
     case (case ct_client p of None \<Rightarrow> None | Some c \<Rightarrow> get_by_client_key d me c) of
       Some existing \<Rightarrow>
         if task_assignee existing = ct_assignee p \<and> task_title existing = ct_title p
         then (let d1 = audit org (now e) me ''create_task'' (Some ''task'')
                     (Some (task_id existing)) ''idempotent'' hlc d
               in Inr (row_to_task d1 existing, d1))
         else Inl (ApiError INVALID_ARGUMENT INVALID_ARGUMENT_CLIENT_TASK_ID_USED)
     | None \<Rightarrow>
         andthen (require_active_account d (ct_assignee p)) (\<lambda>_.
         andthen (require (external_comm_allowed d me (ct_assignee p))
             (ApiError POLICY_DENIED Default)) (\<lambda>_.
         andthen (check_task_budget d (ct_assignee p)) (\<lambda>_.
         andthen (require_tasks d (ct_depends_on p)) (\<lambda>_.
         andthen (require (dependency_depth d (ct_depends_on p) MAX_DEPENDENCY_DEPTH
               \<le> MAX_DEPENDENCY_DEPTH) (ApiError QUOTA_EXCEEDED QUOTA_EXCEEDED_DEPTH)) (\<lambda>_.
         insert_new_task cfg e p me org hlc d))))))"

section \<open>Changing the state\<close>

fun state_text :: "task_state \<Rightarrow> string" where
  "state_text Submitted = ''submitted''"
| "state_text InProgress = ''in_progress''"
| "state_text Completed = ''completed''"
| "state_text Failed = ''failed''"
| "state_text Canceled = ''canceled''"
| "state_text PendingApproval = ''pending_approval''"

text \<open>
  What every task command does once its checks passed: the update, the history line, the
  events and the audit line; the view it returns is of the updated row.
\<close>

definition record_change ::
    "config \<Rightarrow> env \<Rightarrow> string \<Rightarrow> string \<Rightarrow> string \<Rightarrow> string \<times> string option \<times> event_type
     \<Rightarrow> string \<times> string \<Rightarrow> string \<Rightarrow> (database \<Rightarrow> database) \<Rightarrow> database
     \<Rightarrow> exc + (task_view \<times> database)" where
  "record_change cfg e i me org = (\<lambda>(line, note, et) (command, outcome) hlc change d.
     let at = now e;
         d1 = add_event \<lparr>tx_task = i, tx_event = line, tx_by = me, tx_note = note, tx_at = at,
                tx_hlc = hlc\<rparr> (change d)
     in andthen (some_or AssertionError (tasks_get d1 i)) (\<lambda>updated.
        let d2 = task_event cfg e org updated et me at hlc d1
        in Inr (row_to_task d1 updated,
             audit org at me command (Some ''task'') (Some i) outcome hlc d2)))"

definition agent_update_task_state ::
    "config \<Rightarrow> env \<Rightarrow> string \<Rightarrow> task_state \<Rightarrow> string option \<Rightarrow> string \<Rightarrow> string \<Rightarrow> database
     \<Rightarrow> exc + (task_view \<times> database)" where
  "agent_update_task_state cfg e i new_state result_arg me hlc d =
     andthen (task_visible_or_404 e d i me True) (\<lambda>(row, delegated).
     andthen (org_of d me) (\<lambda>org.
     andthen (ensure_transition (task_state row) new_state) (\<lambda>_.
     andthen (require (\<not> (new_state = InProgress \<and> \<not> dependencies_met d i))
         (ApiError TASK_DEPENDENCY_NOT_MET Default)) (\<lambda>_.
     let res = (if new_state \<in> {Completed, Failed} then result_arg else None)
     in andthen (record_change cfg e i me org
          (''state_changed:'' @ state_text (task_state row) @ ''->'' @ state_text new_state,
           None, TaskStateChanged)
          (''update_task_state'',
           if \<not> delegated then state_text new_state else state_text new_state @ '':delegated'')
          hlc (set_state i new_state res (now e)) d) (\<lambda>(view, d1).
        Inr (view, check_escalations cfg e org (now e) hlc d1))))))"

definition agent_transfer_task ::
    "config \<Rightarrow> env \<Rightarrow> string \<Rightarrow> string \<Rightarrow> string option \<Rightarrow> string \<Rightarrow> string \<Rightarrow> database
     \<Rightarrow> exc + (task_view \<times> database)" where
  "agent_transfer_task cfg e i assignee note me hlc d =
     andthen (task_visible_or_404 e d i me False) (\<lambda>(row, _).
     andthen (org_of d me) (\<lambda>org.
     andthen (require_active_account d assignee) (\<lambda>_.
     andthen (require (external_comm_allowed d me assignee) (ApiError POLICY_DENIED Default)) (\<lambda>_.
     andthen (check_task_budget d assignee) (\<lambda>_.
     andthen (require (task_state row \<notin> set TERMINAL_STATES)
         (ApiError TASK_STATE_INVALID TASK_STATE_INVALID_COMPLETED_TRANSFER)) (\<lambda>_.
     andthen (record_change cfg e i me org (''transferred'', note, TaskTransferred)
          (''transfer_task'', assignee) hlc (set_assignee i assignee (now e)) d) (\<lambda>(view, d1).
     andthen (org_of d1 assignee) (\<lambda>assignee_org.
        Inr (view, check_escalations cfg e assignee_org (now e) hlc d1)))))))))"

section \<open>Approval\<close>

definition agent_request_approval ::
    "config \<Rightarrow> env \<Rightarrow> string \<Rightarrow> string \<Rightarrow> string \<Rightarrow> string \<Rightarrow> database
     \<Rightarrow> exc + (task_view \<times> database)" where
  "agent_request_approval cfg e i approver me hlc d =
     andthen (task_visible_or_404 e d i me False) (\<lambda>(row, _).
     andthen (org_of d me) (\<lambda>org.
     andthen (require (\<not> (task_state row \<in> set TERMINAL_STATES \<or> task_state row = PendingApproval))
         (ApiError TASK_STATE_INVALID Default)) (\<lambda>_.
     andthen (require_active_account d approver) (\<lambda>_.
     andthen (require (approver \<noteq> me)
         (ApiError INVALID_ARGUMENT INVALID_ARGUMENT_APPROVER_SAME)) (\<lambda>_.
     record_change cfg e i me org
       (''approval_requested'', Some (''approbateur: '' @ approver), TaskApprovalRequested)
       (''request_approval'', approver) hlc
       (set_state i PendingApproval None (now e) \<circ> set_approver i approver (now e)) d)))))"

text \<open>Both answers are the approver's only, and only while the approval is pending.\<close>

definition pending_for :: "database \<Rightarrow> string \<Rightarrow> string \<Rightarrow> exc + (task_row \<times> string)" where
  "pending_for d i me =
     (case tasks_get d i of
        None \<Rightarrow> Inl (ApiError TASK_NOT_FOUND Default)
      | Some row \<Rightarrow>
          if task_approver row \<noteq> Some me then Inl (ApiError TASK_NOT_FOUND Default)
          else andthen (org_of d me) (\<lambda>org.
               andthen (require (task_state row = PendingApproval)
                 (ApiError TASK_STATE_INVALID Default)) (\<lambda>_. Inr (row, org))))"

definition agent_approve_task ::
    "config \<Rightarrow> env \<Rightarrow> string \<Rightarrow> string \<Rightarrow> string \<Rightarrow> database \<Rightarrow> exc + (task_view \<times> database)" where
  "agent_approve_task cfg e i me hlc d =
     andthen (pending_for d i me) (\<lambda>(row, org).
     record_change cfg e i me org (''approved'', None, TaskApproved) (''approve_task'', ''ok'') hlc
       (set_state i Completed (task_result row) (now e)) d)"

definition agent_reject_task ::
    "config \<Rightarrow> env \<Rightarrow> string \<Rightarrow> string option \<Rightarrow> string \<Rightarrow> string \<Rightarrow> database
     \<Rightarrow> exc + (task_view \<times> database)" where
  "agent_reject_task cfg e i reason me hlc d =
     andthen (pending_for d i me) (\<lambda>(row, org).
     record_change cfg e i me org (''rejected'', reason, TaskRejected) (''reject_task'', ''rejected'')
       hlc (set_state i InProgress None (now e)) d)"

section \<open>Reads\<close>

definition agent_get_task :: "env \<Rightarrow> string \<Rightarrow> string \<Rightarrow> database \<Rightarrow> exc + task_view" where
  "agent_get_task e i me d =
     andthen (task_visible_or_404 e d i me True) (\<lambda>(row, _). Inr (row_to_task d row))"

section \<open>What an escalation changes\<close>

lemma require_tasks_Inr: "require_tasks d js = Inr u \<longleftrightarrow> (\<forall>j \<in> set js. tasks_get d j \<noteq> None)"
  by (induction js) (auto split: option.splits)

lemma check_escalations_induct:
  assumes "P d"
    and "\<And>to row d'. row \<in> set (tasks d) \<Longrightarrow> acc_status (the (accounts_get d to)) = Active
      \<Longrightarrow> accounts_get d to \<noteq> None \<Longrightarrow> task_state row \<in> {Submitted, InProgress}
      \<Longrightarrow> P d' \<Longrightarrow> P (escalate_task cfg e org to at hlc row d')"
  shows "P (check_escalations cfg e org at hlc d)"
proof -
  have fold: "P (fold (escalate_task cfg e org to at hlc) rows d')"
    if "P d'" "\<And>row. row \<in> set rows \<Longrightarrow> row \<in> set (tasks d) \<and> task_state row \<in> {Submitted, InProgress}"
      "accounts_get d to \<noteq> None" "acc_status (the (accounts_get d to)) = Active"
    for to rows d'
    using that
  proof (induction rows arbitrary: d')
    case (Cons row rows)
    have "P (escalate_task cfg e org to at hlc row d')"
      using Cons.prems by (intro assms(2)) auto
    with Cons show ?case by simp
  qed simp
  show ?thesis
    by (auto simp: check_escalations_def Let_def due_tasks_to_escalate_def assms(1)
        split: option.split intro!: fold)
qed

lemma escalate_task_tasks:
  "tasks (escalate_task cfg e org to at hlc row d) = tasks d \<or>
   tasks (escalate_task cfg e org to at hlc row d) = tasks (set_assignee (task_id row) to at d)"
  by (simp add: escalate_task_def Let_def set_assignee_def)

definition state_of :: "database \<Rightarrow> string \<Rightarrow> task_state option" where
  "state_of d i = map_option task_state (tasks_get d i)"

lemma state_of_cong: "tasks d' = tasks d \<Longrightarrow> state_of d' = state_of d"
  by (simp add: fun_eq_iff state_of_def tasks_get_def)

lemma state_of_set:
  "state_of (set_state i st res at d) j = (if j = i then map_option (\<lambda>_. st) (state_of d j) else state_of d j)"
  "state_of (set_assignee i u at d) = state_of d"
  "state_of (set_approver i u at d) = state_of d"
  unfolding state_of_def fun_eq_iff set_state_def set_assignee_def set_approver_def
  by (auto simp: tasks_get_update_task option.map_comp comp_def intro!: option.map_cong)

lemma state_of_escalate: "state_of (escalate_task cfg e org to at hlc row d) = state_of d"
  using escalate_task_tasks [of cfg e org to at hlc row d]
  by (metis state_of_cong state_of_set(2))

lemma state_of_check [simp]: "state_of (check_escalations cfg e org at hlc d) = state_of d"
  by (rule check_escalations_induct) (simp_all add: state_of_escalate)

end
