(* ===== verification/TaskReads.thy ===== *)
theory TaskReads
  imports Paging ServiceTasks
begin

text \<open>
  The reads of \<^verbatim>\<open>synapse/service.py\<close> on tasks and events: \<open>list_tasks\<close>, \<open>get_my_work\<close>,
  \<open>get_events\<close> and the department's tasks. The two task listings read each row's dependencies
  and history in a transaction of its own, after the page: \<open>late\<close> gives the database that each
  of these sees.
\<close>

section \<open>Listings\<close>

record list_tasks_params =
  lt_limit :: nat
  lt_assignee :: "string option"
  lt_state :: "task_state option"
  lt_priority :: "priority option"
  lt_due_before :: "string option"

fun priority_text :: "priority \<Rightarrow> string" where
  "priority_text Low = ''low''"
| "priority_text Normal = ''normal''"
| "priority_text High = ''high''"

definition list_tasks_binding :: "list_tasks_params \<Rightarrow> string \<Rightarrow> binding" where
  "list_tasks_binding p me = \<lparr>bi_user = me, bi_command = ''list_tasks'', bi_order = ''task_asc'',
     bi_filters = JObj [(''assignee'', jopt (lt_assignee p)),
       (''state'', jopt (map_option state_text (lt_state p))),
       (''priority'', jopt (map_option priority_text (lt_priority p))),
       (''due_before'', jopt (lt_due_before p))]\<rparr>"

definition list_tasks_filter :: "list_tasks_params \<Rightarrow> string \<Rightarrow> string \<Rightarrow> task_filter" where
  "list_tasks_filter p me boundary = \<lparr>tkf_me = me, tkf_assignee = lt_assignee p,
     tkf_state = lt_state p, tkf_priority = lt_priority p, tkf_due_before = lt_due_before p,
     tkf_boundary = boundary\<rparr>"

definition agent_list_tasks ::
    "env \<Rightarrow> list_tasks_params \<Rightarrow> string option \<Rightarrow> string \<Rightarrow> (task_row \<Rightarrow> database) \<Rightarrow> database
     \<Rightarrow> exc + (unit \<times> task_view list \<times> string option)" where
  "agent_list_tasks e p cursor me late d =
     paged_reply e (list_tasks_binding p me) cursor pair_pos pair_list (lt_limit p) task_pos
       (\<lambda>boundary after. Inr ((), list_visible d (list_tasks_filter p me boundary) after (lt_limit p)))
       (\<lambda>_ t. row_to_task (late t) t)"

text \<open>\<open>row["due_at"] or NO_DUE_AT\<close>: an empty text counts as none here.\<close>

definition work_cursor :: "task_row \<Rightarrow> string \<times> string \<times> string" where
  "work_cursor t = ((case task_due_at t of None \<Rightarrow> NO_DUE_AT | Some a \<Rightarrow> if a = [] then NO_DUE_AT else a),
     task_created_at t, task_id t)"

definition triple_list :: "string \<times> string \<times> string \<Rightarrow> string list" where
  "triple_list p = (case p of (a, b, c) \<Rightarrow> [a, b, c])"

definition triple_pos :: "string list option \<Rightarrow> exc + (string \<times> string \<times> string) option" where
  "triple_pos pos = (case pos of
     None \<Rightarrow> Inr None | Some [a, b, c] \<Rightarrow> Inr (Some (a, b, c)) | Some _ \<Rightarrow> Inl ValueError)"

definition get_my_work_binding :: "string \<Rightarrow> binding" where
  "get_my_work_binding me = \<lparr>bi_user = me, bi_command = ''get_my_work'', bi_order = ''work_asc'',
     bi_filters = JObj []\<rparr>"

definition agent_get_my_work ::
    "env \<Rightarrow> nat \<Rightarrow> string option \<Rightarrow> string \<Rightarrow> (task_row \<Rightarrow> database) \<Rightarrow> database
     \<Rightarrow> exc + (unit \<times> task_view list \<times> string option)" where
  "agent_get_my_work e limit cursor me late d =
     paged_reply e (get_my_work_binding me) cursor triple_pos triple_list limit work_cursor
       (\<lambda>boundary after. Inr ((), list_work d (me, boundary) after limit))
       (\<lambda>_ t. row_to_task (late t) t)"

section \<open>Events\<close>

definition EVENTS_NO_BOUNDARY :: string where
  "EVENTS_NO_BOUNDARY = ''9999-12-31T23:59:59.999Z''"

fun event_text :: "event_type \<Rightarrow> string" where
  "event_text TaskCreated = ''task.created''"
| "event_text TaskStateChanged = ''task.state_changed''"
| "event_text TaskTransferred = ''task.transferred''"
| "event_text TaskApprovalRequested = ''task.approval_requested''"
| "event_text TaskApproved = ''task.approved''"
| "event_text TaskRejected = ''task.rejected''"
| "event_text TaskEscalated = ''task.escalated''"

definition types_json :: "event_type list option \<Rightarrow> json" where
  "types_json types = (case types of None \<Rightarrow> JNull
     | Some ts \<Rightarrow> JList (map (\<lambda>t. JStr (event_text t)) ts))"

definition get_events_binding :: "event_type list option \<Rightarrow> string \<Rightarrow> binding" where
  "get_events_binding types me = \<lparr>bi_user = me, bi_command = ''get_events'', bi_order = ''seq_asc'',
     bi_filters = JObj [(''types'', types_json types)]\<rparr>"

definition get_events_filter :: "event_type list option \<Rightarrow> string \<Rightarrow> event_filter" where
  "get_events_filter types me = \<lparr>ef_principal = me,
     ef_types = (case types of None \<Rightarrow> [] | Some ts \<Rightarrow> ts), ef_boundary = EVENTS_NO_BOUNDARY\<rparr>"

definition agent_get_events ::
    "env \<Rightarrow> nat \<Rightarrow> event_type list option \<Rightarrow> string option \<Rightarrow> string \<Rightarrow> database
     \<Rightarrow> exc + (unit \<times> event_row list \<times> string option)" where
  "agent_get_events e limit types cursor me d =
     paged_reply e (get_events_binding types me) cursor id_pos id_list limit ev_seq
       (\<lambda>_ after. Inr ((), events_page d (get_events_filter types me) after limit))
       (\<lambda>_ r. r)"

section \<open>Tasks of a department\<close>

definition require_role ::
    "database \<Rightarrow> string \<Rightarrow> role set \<Rightarrow> string option \<Rightarrow> exc + role" where
  "require_role d u allowed department =
     (case fetch (\<lambda>m. mem_username m = u \<and> (case department of
           None \<Rightarrow> True | Some dept \<Rightarrow> mem_department m = dept)) (memberships d) of
        None \<Rightarrow> Inl (ApiError ACCESS_DENIED ACCESS_DENIED_MANAGER_ROLE)
      | Some m \<Rightarrow> if mem_role m \<in> allowed then Inr (mem_role m)
          else Inl (ApiError ACCESS_DENIED ACCESS_DENIED_MANAGER_ROLE))"

record department_task =
  dt_id :: string
  dt_title :: string
  dt_assignee :: string
  dt_state :: task_state
  dt_priority :: priority
  dt_due_at :: "string option"
  dt_created_at :: string
  dt_updated_at :: string

definition department_task_of :: "task_row \<Rightarrow> department_task" where
  "department_task_of t = \<lparr>dt_id = task_id t, dt_title = task_title t, dt_assignee = task_assignee t,
     dt_state = task_state t, dt_priority = task_priority t, dt_due_at = task_due_at t,
     dt_created_at = task_created_at t, dt_updated_at = task_updated_at t\<rparr>"

text \<open>The active tasks of the members of a department of one organization, at a boundary.\<close>

record department_filter =
  df_department :: string
  df_org :: string
  df_boundary :: string

definition department_clauses :: "database \<Rightarrow> department_filter \<Rightarrow> task_row \<Rightarrow> bool" where
  "department_clauses d f t =
     ((\<exists>m \<in> set (memberships d). mem_username m = task_assignee t
         \<and> mem_department m = df_department f \<and> mem_org m = df_org f)
      \<and> task_state t \<in> set ACTIVE_STATES \<and> task_created_at t \<le> df_boundary f)"

definition department_query ::
    "database \<Rightarrow> department_filter \<Rightarrow> (string \<times> string) option \<Rightarrow> nat \<Rightarrow> task_row list" where
  "department_query d f after limit =
     take (limit + 1) (order_asc task_pos (filter (\<lambda>t. department_clauses d f t
       \<and> (case after of None \<Rightarrow> True
          | Some p \<Rightarrow> fst p < task_created_at t
              \<or> (task_created_at t = fst p \<and> snd p < task_id t))) (tasks d)))"

definition list_department_tasks_binding :: "string \<Rightarrow> string \<Rightarrow> binding" where
  "list_department_tasks_binding dept me = \<lparr>bi_user = me, bi_command = ''list_department_tasks'',
     bi_order = ''task_asc'', bi_filters = JObj [(''department_name'', JStr dept)]\<rparr>"

definition agent_list_department_tasks ::
    "env \<Rightarrow> string \<Rightarrow> nat \<Rightarrow> string option \<Rightarrow> string \<Rightarrow> database
     \<Rightarrow> exc + (string \<times> department_task list \<times> string option)" where
  "agent_list_department_tasks e dept limit cursor me d =
     paged_reply e (list_department_tasks_binding dept me) cursor pair_pos pair_list limit task_pos
       (\<lambda>boundary after.
          andthen (require_role d me {Manager} (Some dept)) (\<lambda>_.
          andthen (org_of d me) (\<lambda>org.
          Inr (dept, department_query d
             \<lparr>df_department = dept, df_org = org, df_boundary = boundary\<rparr> after limit))))
       (\<lambda>_ t. department_task_of t)"

end
