(* ===== verification/Dispatch.thy ===== *)
theory Dispatch
  imports Auth ServiceMessages ServiceGroups ServiceHuman TaskReads
begin

text \<open>
  The dispatch of \<^verbatim>\<open>synapse/service.py\<close>: a validated request is authenticated, checked
  against the caller's kind (organization, human, observer, local web identity), run by its
  handler in its transaction, and audited in a transaction of its own when its handler does
  not audit itself. Requests run one after the other, as the immediate transactions make
  them: a handler's reads see the database its request began on.
\<close>

section \<open>Requests\<close>

datatype org_command =
    CreateAgent create_agent_params
  | DeactivateAgent string
  | ReactivateAgent string
  | ChangeAgentPassword string string
  | SetAgentVisibility string bool
  | GetOrgAgents nat "string option"
  | SetOrganizationPolicy bool bool
  | GetOrganizationPolicy
  | ChangeOrganizationPassword string
  | ChangeAgentDescription string string
  | ApproveAgentCard string
  | SetEscalationPolicy escalation_params
  | GetEscalationPolicy
  | SetAgentBudget string "int option" "int option"
  | CreateDepartment string
  | SetAgentDepartment string string role
  | GetOrgStructure
  | GetOrgAudit get_audit_params "string option"
  | GetOrgMetrics
  | GetServerStatus
  | CreateObserverAccount observer_params
  | RevokeObserverAccount string
  | ListObservers
  | SetEventRetentionDays int

datatype human_command =
    CreateOrg string string
  | DisableOrg string
  | ListOrgConversations nat "string option"
  | GetOrgConversation string nat "string option"

datatype agent_command =
    GetMyOrganization
  | GetAgentDescription string
  | ListOrgAgents nat "string option"
  | Help "string option"
  | SendMessage send_params
  | GetMessages get_messages_params "string option"
  | GetConversation string nat "string option"
  | ReadMessage string
  | GetNotifications nat "string option"
  | MarkConversationNoReply string
  | SetAgentCard card_fields
  | GetAgentCard string
  | FindAgents find_params "string option"
  | CreateTask create_task_params
  | GetTask string
  | ListTasks list_tasks_params "string option"
  | UpdateTaskState string task_state "string option"
  | TransferTask string string "string option"
  | RequestApproval string string
  | ApproveTask string
  | RejectTask string "string option"
  | GetMyWork nat "string option"
  | GetEvents nat "event_type list option" "string option"
  | ListDepartmentTasks string nat "string option"
  | CreateGroup string
  | AddGroupMember string string
  | RemoveGroupMember string string
  | SendGroupMessage group_send_params
  | GetGroupMessages string nat "string option"
  | GetGroupMembers string
  | ListMyGroups nat "string option"
  | GetAgentReputation string
  | CreateDelegation string string string
  | RevokeDelegation string string
  | GetMyDelegations nat "string option"
  | GetOrgSnapshot

datatype user_command = ListOrgs bool | Humans human_command | Agents agent_command

datatype request = OrgRequest string string org_command | UserRequest string string user_command

text \<open>What the handlers answer.\<close>

datatype reply =
    RAgentCreated create_agent_params
  | RStatus "string \<times> account_status"
  | RVisibility "string \<times> bool"
  | RAgents "unit \<times> agent_view list \<times> string option"
  | RPolicy "string \<times> bool \<times> bool"
  | RName string
  | RTexts "string \<times> string"
  | REscalation escalation_params
  | REscalationRow "policy_row option"
  | RBudget "string \<times> int option \<times> int option"
  | RMembership "string \<times> string \<times> role"
  | RStructure "(string \<times> (string \<times> role) list) list \<times> string list"
  | RAudit "unit \<times> audit_row list \<times> string option"
  | RMetrics metrics
  | RServer "nat \<times> nat \<times> int"
  | RObservers "account_row list"
  | RDays int
  | ROrgs "string list \<times> string list option"
  | ROrgEnabled "string \<times> bool"
  | ROrgConversations "unit \<times> org_conversation list \<times> string option"
  | ROrgConversation "string \<times> message_row list \<times> string option"
  | RDescription "string \<times> string \<times> string"
  | RNames "unit \<times> string list \<times> string option"
  | RHelp "string option"
  | RMessage message_view
  | RMessages "unit \<times> message_view list \<times> string option"
  | RConversation "(string \<times> reply_state) \<times> message_view list \<times> string option"
  | RNotifications "(string \<times> nat) list \<times> notification list \<times> string option"
  | RCard card_row
  | RCardOf "card_row option \<times> (reputation + qualitative)"
  | RFound "unit \<times> (card_row \<times> account_row) list \<times> string option"
  | RTask task_view
  | RTasks "unit \<times> task_view list \<times> string option"
  | REvents "unit \<times> event_row list \<times> string option"
  | RDepartmentTasks "string \<times> department_task list \<times> string option"
  | RGroup group_row
  | RGroupMessage group_message_view
  | RGroupMessages "string \<times> group_message_view list \<times> string option"
  | RMembers "string \<times> string list"
  | RGroups "unit \<times> (group_row \<times> nat) list \<times> string option"
  | RReputation "reputation + qualitative"
  | RDelegation "string \<times> string \<times> string \<times> string"
  | RRevoked "string \<times> string \<times> bool"
  | RDelegations "unit \<times> delegation_row list \<times> string option"
  | RSnapshot snapshot

section \<open>The tables of the dispatcher\<close>

text \<open>
  \<open>_OBSERVER_READ_COMMANDS\<close>. Commands outside the agents' table are in none of the sets an
  observer may use.
\<close>

fun observer_agent_read :: "agent_command \<Rightarrow> bool" where
  "observer_agent_read GetMyOrganization = True"
| "observer_agent_read (GetAgentDescription u) = True"
| "observer_agent_read (ListOrgAgents l c) = True"
| "observer_agent_read (GetMessages p c) = True"
| "observer_agent_read (GetConversation u l c) = True"
| "observer_agent_read (GetNotifications l c) = True"
| "observer_agent_read (Help n) = True"
| "observer_agent_read (GetAgentCard u) = True"
| "observer_agent_read (FindAgents p c) = True"
| "observer_agent_read (GetTask i) = True"
| "observer_agent_read (ListTasks p c) = True"
| "observer_agent_read (GetMyWork l c) = True"
| "observer_agent_read (GetEvents l t c) = True"
| "observer_agent_read (GetGroupMessages g l c) = True"
| "observer_agent_read (GetGroupMembers g) = True"
| "observer_agent_read (ListMyGroups l c) = True"
| "observer_agent_read (GetAgentReputation u) = True"
| "observer_agent_read (GetMyDelegations l c) = True"
| "observer_agent_read GetOrgSnapshot = True"
| "observer_agent_read _ = False"

fun observer_read :: "user_command \<Rightarrow> bool" where
  "observer_read (Agents c) = observer_agent_read c"
| "observer_read _ = False"

text \<open>
  \<open>_AUDITED_COMMANDS\<close> with the target \<open>_TARGET_FIELD\<close> names: the command's name and its
  target, or nothing for a command that is not audited here.
\<close>

fun org_audit_line :: "org_command \<Rightarrow> (string \<times> string option) option" where
  "org_audit_line (CreateAgent p) = Some (''create_agent'', Some (ca_username p))"
| "org_audit_line (DeactivateAgent u) = Some (''deactivate_agent'', Some u)"
| "org_audit_line (ReactivateAgent u) = Some (''reactivate_agent'', Some u)"
| "org_audit_line (ChangeAgentPassword u pw) = Some (''change_agent_password'', Some u)"
| "org_audit_line (SetAgentVisibility u b) = Some (''set_agent_visibility'', Some u)"
| "org_audit_line (SetOrganizationPolicy i out) = Some (''set_organization_policy'', None)"
| "org_audit_line (ChangeOrganizationPassword pw) = Some (''change_organization_password'', None)"
| "org_audit_line (ChangeAgentDescription u x) = Some (''change_agent_description'', Some u)"
| "org_audit_line (ApproveAgentCard u) = Some (''approve_agent_card'', Some u)"
| "org_audit_line (CreateDepartment x) = Some (''create_department'', Some x)"
| "org_audit_line (SetAgentDepartment u x r) = Some (''set_agent_department'', Some u)"
| "org_audit_line _ = None"

fun human_audit_line :: "human_command \<Rightarrow> (string \<times> string option) option" where
  "human_audit_line (CreateOrg g pw) = Some (''create_org'', Some g)"
| "human_audit_line (DisableOrg g) = Some (''disable_org'', Some g)"
| "human_audit_line (GetOrgConversation i l c) = Some (''get_org_conversation'', Some i)"
| "human_audit_line _ = None"

fun agent_audit_line :: "agent_command \<Rightarrow> (string \<times> string option) option" where
  "agent_audit_line (SendMessage p) = Some (''send_message'', Some (sm_recipient p))"
| "agent_audit_line (ReadMessage i) = Some (''read_message'', Some i)"
| "agent_audit_line (MarkConversationNoReply i) = Some (''mark_conversation_no_reply'', Some i)"
| "agent_audit_line (SetAgentCard f) = Some (''set_agent_card'', None)"
| "agent_audit_line _ = None"

definition audit_action ::
    "config \<Rightarrow> env \<Rightarrow> (string \<times> string option) option \<Rightarrow> string \<Rightarrow> string option \<Rightarrow> service
     \<Rightarrow> (exc + unit) \<times> service" where
  "audit_action cfg e line actor home s =
     (case line of
        None \<Rightarrow> (Inr (), s)
      | Some (command, target) \<Rightarrow> (case home of
          None \<Rightarrow> (Inl AssertionError, s)
        | Some org \<Rightarrow> stamped_txn cfg e (\<lambda>hlc d. Inr ((), audit org (now e) actor command
            (Some ''target'') (map_option lower target) ''ok'' hlc d)) s))"

section \<open>Running a handler\<close>

definition writes ::
    "('a \<Rightarrow> reply) \<Rightarrow> (database \<Rightarrow> exc + ('a \<times> database)) \<Rightarrow> service \<Rightarrow> (exc + reply) \<times> service" where
  "writes f body = write_txn (\<lambda>d. andthen (body d) (\<lambda>(x, d'). Inr (f x, d')))"

definition stamps ::
    "config \<Rightarrow> env \<Rightarrow> ('a \<Rightarrow> reply) \<Rightarrow> (string \<Rightarrow> database \<Rightarrow> exc + ('a \<times> database)) \<Rightarrow> service
     \<Rightarrow> (exc + reply) \<times> service" where
  "stamps cfg e f body =
     stamped_txn cfg e (\<lambda>hlc d. andthen (body hlc d) (\<lambda>(x, d'). Inr (f x, d')))"

definition reads ::
    "('a \<Rightarrow> reply) \<Rightarrow> (database \<Rightarrow> exc + 'a) \<Rightarrow> service \<Rightarrow> (exc + reply) \<times> service" where
  "reads f body = read_txn (\<lambda>d. andthen (body d) (\<lambda>x. Inr (f x)))"

definition COMMANDS_COUNT :: nat where "COMMANDS_COUNT = 65"

fun org_handler ::
    "config \<Rightarrow> env \<Rightarrow> org_command \<Rightarrow> string \<Rightarrow> service \<Rightarrow> (exc + reply) \<times> service" where
  "org_handler cfg e (CreateAgent p) org = writes RAgentCreated (org_create_agent e p org)"
| "org_handler cfg e (DeactivateAgent u) org = writes RStatus (org_deactivate_agent u org)"
| "org_handler cfg e (ReactivateAgent u) org = writes RStatus (org_reactivate_agent u org)"
| "org_handler cfg e (ChangeAgentPassword u pw) org = writes RStatus (org_change_password e u pw org)"
| "org_handler cfg e (SetAgentVisibility u b) org = writes RVisibility (org_set_visibility u b org)"
| "org_handler cfg e (GetOrgAgents l c) org = reads RAgents (org_get_agents e l c org)"
| "org_handler cfg e (SetOrganizationPolicy i out) org = writes RPolicy (org_set_policy i out org)"
| "org_handler cfg e GetOrganizationPolicy org = reads RPolicy (org_get_policy org)"
| "org_handler cfg e (ChangeOrganizationPassword pw) org =
     writes RName (org_change_organization_password e pw org)"
| "org_handler cfg e (ChangeAgentDescription u x) org = writes RTexts (org_change_agent_description u x org)"
| "org_handler cfg e (ApproveAgentCard u) org = writes RName (org_approve_agent_card e u org)"
| "org_handler cfg e (SetEscalationPolicy p) org = stamps cfg e REscalation (org_set_escalation_policy e p org)"
| "org_handler cfg e GetEscalationPolicy org = reads REscalationRow (org_get_escalation_policy org)"
| "org_handler cfg e (SetAgentBudget u n m) org = stamps cfg e RBudget (org_set_agent_budget e u n m org)"
| "org_handler cfg e (CreateDepartment x) org = writes RTexts (org_create_department e x org)"
| "org_handler cfg e (SetAgentDepartment u x r) org =
     writes RMembership (org_set_agent_department e u x r org)"
| "org_handler cfg e GetOrgStructure org = reads RStructure (org_get_org_structure org)"
| "org_handler cfg e (GetOrgAudit p c) org = reads RAudit (org_get_audit e p c org)"
| "org_handler cfg e GetOrgMetrics org = reads RMetrics (org_get_metrics e org)"
| "org_handler cfg e GetServerStatus org =
     (\<lambda>s. (Inr (RServer (org_get_server_status COMMANDS_COUNT e s)), s))"
| "org_handler cfg e (CreateObserverAccount p) org =
     stamps cfg e RName (org_create_observer_account e p org)"
| "org_handler cfg e (RevokeObserverAccount u) org =
     stamps cfg e RName (org_revoke_observer_account e u org)"
| "org_handler cfg e ListObservers org = reads RObservers (org_list_observers org)"
| "org_handler cfg e (SetEventRetentionDays n) org =
     stamps cfg e RDays (org_set_event_retention_days e n org)"

fun human_handler :: "env \<Rightarrow> human_command \<Rightarrow> string \<Rightarrow> service \<Rightarrow> (exc + reply) \<times> service" where
  "human_handler e (CreateOrg g pw) me = writes RTexts (human_create_org e g pw)"
| "human_handler e (DisableOrg g) me = writes ROrgEnabled (human_disable_org g me)"
| "human_handler e (ListOrgConversations l c) me =
     reads ROrgConversations (human_list_org_conversations e l c me)"
| "human_handler e (GetOrgConversation i l c) me =
     reads ROrgConversation (human_get_org_conversation e i l c me)"

fun agent_handler ::
    "config \<Rightarrow> env \<Rightarrow> scan_order \<Rightarrow> agent_command \<Rightarrow> string \<Rightarrow> service \<Rightarrow> (exc + reply) \<times> service"
where
  "agent_handler cfg e sc GetMyOrganization me = reads RPolicy (get_my_organization me)"
| "agent_handler cfg e sc (GetAgentDescription u) me = reads RDescription (get_agent_description u)"
| "agent_handler cfg e sc (ListOrgAgents l c) me = reads RNames (list_org_agents e l c me)"
| "agent_handler cfg e sc (Help n) me = (\<lambda>s. (Inr (RHelp n), s))"
| "agent_handler cfg e sc (SendMessage p) me = writes RMessage (agent_send_message e p me)"
| "agent_handler cfg e sc (GetMessages p c) me = reads RMessages (agent_get_messages e p c me)"
| "agent_handler cfg e sc (GetConversation u l c) me =
     reads RConversation (agent_get_conversation e u l c me)"
| "agent_handler cfg e sc (ReadMessage i) me = writes RMessage (\<lambda>d. agent_read_message e i me d d)"
| "agent_handler cfg e sc (GetNotifications l c) me =
     reads RNotifications (agent_get_notifications e l c me)"
| "agent_handler cfg e sc (MarkConversationNoReply i) me =
     writes RTexts (agent_mark_conversation_no_reply e i me)"
| "agent_handler cfg e sc (SetAgentCard f) me = writes RCard (agent_set_agent_card e f me)"
| "agent_handler cfg e sc (GetAgentCard u) me = reads RCardOf (agent_get_agent_card u me)"
| "agent_handler cfg e sc (FindAgents p c) me = reads RFound (agent_find_agents e p c me)"
| "agent_handler cfg e sc (CreateTask p) me = stamps cfg e RTask (agent_create_task cfg e p me)"
| "agent_handler cfg e sc (GetTask i) me = reads RTask (agent_get_task e i me)"
| "agent_handler cfg e sc (ListTasks p c) me = reads RTasks (\<lambda>d. agent_list_tasks e p c me (\<lambda>_. d) d)"
| "agent_handler cfg e sc (UpdateTaskState i st r) me =
     stamps cfg e RTask (agent_update_task_state cfg e i st r me)"
| "agent_handler cfg e sc (TransferTask i u n) me = stamps cfg e RTask (agent_transfer_task cfg e i u n me)"
| "agent_handler cfg e sc (RequestApproval i u) me =
     stamps cfg e RTask (agent_request_approval cfg e i u me)"
| "agent_handler cfg e sc (ApproveTask i) me = stamps cfg e RTask (agent_approve_task cfg e i me)"
| "agent_handler cfg e sc (RejectTask i r) me = stamps cfg e RTask (agent_reject_task cfg e i r me)"
| "agent_handler cfg e sc (GetMyWork l c) me = reads RTasks (\<lambda>d. agent_get_my_work e l c me (\<lambda>_. d) d)"
| "agent_handler cfg e sc (GetEvents l t c) me = reads REvents (agent_get_events e l t c me)"
| "agent_handler cfg e sc (ListDepartmentTasks x l c) me =
     reads RDepartmentTasks (agent_list_department_tasks e x l c me)"
| "agent_handler cfg e sc (CreateGroup n) me = stamps cfg e RGroup (agent_create_group e n me)"
| "agent_handler cfg e sc (AddGroupMember g u) me = stamps cfg e RTexts (agent_add_group_member e g u me)"
| "agent_handler cfg e sc (RemoveGroupMember g u) me =
     stamps cfg e RTexts (agent_remove_group_member e g u me)"
| "agent_handler cfg e sc (SendGroupMessage p) me =
     stamps cfg e RGroupMessage (agent_send_group_message e p me)"
| "agent_handler cfg e sc (GetGroupMessages g l c) me =
     reads RGroupMessages (agent_get_group_messages e g l c me)"
| "agent_handler cfg e sc (GetGroupMembers g) me = reads RMembers (agent_get_group_members g me)"
| "agent_handler cfg e sc (ListMyGroups l c) me = reads RGroups (agent_list_my_groups e l c me)"
| "agent_handler cfg e sc (GetAgentReputation u) me = reads RReputation (agent_get_agent_reputation u me)"
| "agent_handler cfg e sc (CreateDelegation i u x) me =
     stamps cfg e RDelegation (agent_create_delegation e i u x me)"
| "agent_handler cfg e sc (RevokeDelegation i u) me =
     stamps cfg e RRevoked (agent_revoke_delegation e i u me)"
| "agent_handler cfg e sc (GetMyDelegations l c) me = reads RDelegations (agent_get_my_delegations e l c me)"
| "agent_handler cfg e sc GetOrgSnapshot me = reads RSnapshot (agent_get_org_snapshot e sc me)"

section \<open>Dispatch\<close>

text \<open>\<open>data = handler(...); self._audit_action(...); return data\<close>.\<close>

definition then_audit ::
    "config \<Rightarrow> env \<Rightarrow> (string \<times> string option) option \<Rightarrow> string \<Rightarrow> string option
     \<Rightarrow> (exc + reply) \<times> service \<Rightarrow> (exc + reply) \<times> service" where
  "then_audit cfg e line actor org r =
     (case r of
        (Inl err, s) \<Rightarrow> (Inl err, s)
      | (Inr data, s) \<Rightarrow> (case audit_action cfg e line actor org s of
           (Inl err, s') \<Rightarrow> (Inl err, s')
         | (Inr _, s') \<Rightarrow> (Inr data, s')))"

definition dispatch_user ::
    "config \<Rightarrow> env \<Rightarrow> scan_order \<Rightarrow> user_command \<Rightarrow> string \<Rightarrow> account_row option \<Rightarrow> service
     \<Rightarrow> (exc + reply) \<times> service" where
  "dispatch_user cfg e sc c user row s =
     (let human = (case row of None \<Rightarrow> False | Some a \<Rightarrow> acc_principal a = Human);
          org = map_option acc_org row
      in if (case row of None \<Rightarrow> False | Some a \<Rightarrow> acc_observer a) \<and> \<not> observer_read c
         then (Inl (ApiError ACCESS_DENIED ACCESS_DENIED_OBSERVER_READONLY), s)
         else case c of
           ListOrgs include_disabled \<Rightarrow>
             if user \<noteq> WEB_LOCAL \<and> \<not> human
             then (Inl (ApiError ACCESS_DENIED ACCESS_DENIED_WEB_AND_HUMAN), s)
             else reads ROrgs (human_list_orgs include_disabled (user = WEB_LOCAL)) s
         | Humans h \<Rightarrow>
             if user = WEB_LOCAL then
               (case h of
                  CreateOrg g pw \<Rightarrow> human_handler e (CreateOrg g pw) user s
                | _ \<Rightarrow> (Inl (ApiError ACCESS_DENIED ACCESS_DENIED_WEB_LOCAL_SCOPE), s))
             else if \<not> human then (Inl (ApiError ACCESS_DENIED ACCESS_DENIED_HUMAN_COMMANDS), s)
             else then_audit cfg e (human_audit_line h) user org (human_handler e h user s)
         | Agents h \<Rightarrow>
             if user = WEB_LOCAL then (Inl (ApiError ACCESS_DENIED ACCESS_DENIED_WEB_LOCAL_SCOPE), s)
             else then_audit cfg e (agent_audit_line h) user org (agent_handler cfg e sc h user s))"

definition dispatch ::
    "config \<Rightarrow> env \<Rightarrow> scan_order \<Rightarrow> request \<Rightarrow> service \<Rightarrow> (exc + reply) \<times> service" where
  "dispatch cfg e sc r s =
     (case r of
        OrgRequest name password c \<Rightarrow>
          (case authenticate_organization cfg e name password s of
             (Inl err, s1) \<Rightarrow> (Inl err, s1)
           | (Inr org, s1) \<Rightarrow>
               then_audit cfg e (org_audit_line c) org (Some org) (org_handler cfg e c org s1))
      | UserRequest name password c \<Rightarrow>
          (case authenticate cfg e name password s of
             (Inl err, s1) \<Rightarrow> (Inl err, s1)
           | (Inr (user, row), s1) \<Rightarrow> dispatch_user cfg e sc c user row s1))"

text \<open>The reply of the service: the data, or the code and the message of the error.\<close>

datatype response = Success reply | Failure err_code string

fun response_of :: "exc + reply \<Rightarrow> response" where
  "response_of (Inr data) = Success data"
| "response_of (Inl (ApiError c m)) = Failure c (message_text c m)"
| "response_of (Inl _) = Failure INTERNAL_ERROR ''Internal service error''"

text \<open>
  \<open>process\<close> on the outcome of decoding and validating the request: it is counted, dispatched,
  and no exception leaves it.
\<close>

definition process ::
    "config \<Rightarrow> env \<Rightarrow> scan_order \<Rightarrow> exc + request \<Rightarrow> service \<Rightarrow> response \<times> service" where
  "process cfg e sc r s =
     (let s0 = s\<lparr>requests_total := requests_total s + 1\<rparr>
      in case r of
           Inl err \<Rightarrow> (response_of (Inl err), s0)
         | Inr req \<Rightarrow> (case dispatch cfg e sc req s0 of (out, s1) \<Rightarrow> (response_of out, s1)))"

end
