(* ===== verification/MessageProperties.thy ===== *)
theory MessageProperties
  imports ServiceMessages
begin

text \<open>
  What the message commands guarantee: the invariants over any sequence of them, the answer of
  a send on every branch, retries, first reads, pages that miss and repeat nothing, snapshots
  that later commands do not disturb, and notifications that agree with the reply state.
\<close>

section \<open>Commands as steps\<close>

inductive message_step :: "database \<Rightarrow> database \<Rightarrow> bool" where
  send: "agent_send_message e p me d = Inr (v, d') \<Longrightarrow> message_step d d'"
| read: "agent_read_message e i me early d = Inr (v, d') \<Longrightarrow> message_step d d'"
| mark: "agent_mark_conversation_no_reply e c me d = Inr (v, d') \<Longrightarrow> message_step d d'"

text \<open>The commands write through four store operations.\<close>

locale message_invariant =
  fixes P :: "database \<Rightarrow> bool"
  assumes conversation: "P d \<Longrightarrow> fetch_or_create_conversation uuid key at d = Inr (c, d') \<Longrightarrow> P d'"
    and message: "P d \<Longrightarrow> sender \<noteq> recipient
      \<Longrightarrow> \<exists>c \<in> set (conversations d). conv_id c = conv \<and> conv_key c = conversation_key sender recipient
      \<Longrightarrow> insert_message uuid conv client sender recipient content at reference d = Inr d' \<Longrightarrow> P d'"
    and reading: "P d \<Longrightarrow> P (mark_read_conditional i at d)"
    and marking: "P d \<Longrightarrow> P (set_no_reply c u m at' d)"
begin

lemma delivered:
  assumes "P d" and "find_message_by_client_id d me (sm_client p) = None" and "sm_recipient p \<noteq> me"
    and "deliver e p me d = Inr (v, d')"
  shows "P d'"
  using assms(2,4)
proof (cases rule: deliver_Inr)
  case (1 conv d1)
  have wf: "messages d1 = messages d" "\<exists>c \<in> set (conversations d1). conv_id c = conv
      \<and> conv_key c = conversation_key me (sm_recipient p)"
    using 1(1) by (cases rule: fetch_or_create_cases;
      auto simp: insert_row_def dest: get_conversation_by_keyD)+
  have "\<forall>m \<in> set (messages d1). msg_id m \<noteq> fresh e 1 \<and> \<not> (msg_sender m = me \<and> msg_client_id m = sm_client p)"
    using 1(2) assms(2) by (simp add: wf(1) find_message_by_client_id_def fetch_None_iff)
  then have "insert_message (fresh e 1) conv (sm_client p) me (sm_recipient p) (sm_message p) (now e)
      (sm_reference p) d1 = Inr (d1\<lparr>messages := insert_row (sent_row e p me conv) (messages d1)\<rparr>)"
    unfolding insert_message_sent by blast
  with message [OF conversation [OF assms(1) 1(1)] assms(3) [symmetric] wf(2)] show ?thesis
    unfolding 1(3) sent_db_def by (intro marking)
qed

lemma step:
  assumes "message_step d d'" and "P d"
  shows "P d'"
  using assms(1)
proof cases
  case (send e p me v)
  then show ?thesis using assms(2) by (cases rule: send_message_cases) (auto intro: delivered)
next
  case (read e i me early v)
  with assms(2) show ?thesis
    by (auto simp: agent_read_message_def Let_def exc_simps split: option.splits if_splits intro: reading)
next
  case (mark e c me v)
  with assms(2) show ?thesis
    by (auto simp: agent_mark_conversation_no_reply_def split: option.splits intro: marking)
qed

lemma steps: "message_step\<^sup>*\<^sup>* d d' \<Longrightarrow> P d \<Longrightarrow> P d'"
  by (induction rule: rtranclp_induct) (auto intro: step)

end

section \<open>One conversation for each pair\<close>

lemma messages_wf_mark: "messages_wf d \<Longrightarrow> messages_wf (set_no_reply c u m at d)"
  by (simp add: messages_wf_cong [of "set_no_reply c u m at d" d])

interpretation mw: message_invariant messages_wf
  by unfold_locales (auto intro: fetch_or_create_wf insert_message_wf mark_read_wf messages_wf_mark)


text \<open>\<open>alice\<close> writes to \<open>bob\<close>, who answers, in the small world.\<close>

definition succeeded :: "exc + ('a \<times> database) \<Rightarrow> database" where
  "succeeded r = (case r of Inl _ \<Rightarrow> empty_db | Inr (v, d) \<Rightarrow> d)"

definition later_env :: env where
  "later_env = plain_env\<lparr>now := ''2026-01-01T13:00:00.000Z'',
     fresh := (\<lambda>n. ''jd-'' @ replicate (Suc n) (CHR ''x''))\<rparr>"

definition plain_send :: "string \<Rightarrow> send_params" where
  "plain_send to = \<lparr>sm_recipient = to, sm_message = ''hello'', sm_client = ''c1'', sm_reference = None\<rparr>"

definition sent_one :: database where
  "sent_one = succeeded (agent_send_message plain_env (plain_send ''bob'') ''alice'' plain_db)"

definition sent_two :: database where
  "sent_two = succeeded (agent_send_message later_env (plain_send ''alice'') ''bob'' sent_one)"

definition read_two :: database where
  "read_two = succeeded (agent_read_message later_env ''jd-xx'' ''alice'' sent_two sent_two)"

lemma succeeded_Inr: "succeeded r \<noteq> empty_db \<Longrightarrow> \<exists>v. r = Inr (v, succeeded r)"
  by (cases r) (auto simp: succeeded_def)

lemma plain_messages:
  "messages sent_one = [sent_row plain_env (plain_send ''bob'') ''alice'' ''id-x'']"
  "messages sent_two = [sent_row plain_env (plain_send ''bob'') ''alice'' ''id-x'',
     sent_row later_env (plain_send ''alice'') ''bob'' ''id-x'']"
  "messages read_two = [sent_row plain_env (plain_send ''bob'') ''alice'' ''id-x'',
     (sent_row later_env (plain_send ''alice'') ''bob'' ''id-x'')\<lparr>msg_read_at := Some (now later_env)\<rparr>]"
  by code_simp+

lemma plain_run_messages:
  "\<exists>v. agent_send_message plain_env (plain_send ''bob'') ''alice'' plain_db = Inr (v, sent_one)"
  "\<exists>v. agent_send_message later_env (plain_send ''alice'') ''bob'' sent_one = Inr (v, sent_two)"
  "\<exists>v. agent_read_message later_env ''jd-xx'' ''alice'' sent_two sent_two = Inr (v, read_two)"
proof -
  have "d \<noteq> empty_db" if "messages d = m # ms" for d m ms using that by (auto simp: empty_db_def)
  note full = this [OF plain_messages(1)] this [OF plain_messages(2)] this [OF plain_messages(3)]
  show "\<exists>v. agent_send_message plain_env (plain_send ''bob'') ''alice'' plain_db = Inr (v, sent_one)"
    using full(1) unfolding sent_one_def by (rule succeeded_Inr)
  show "\<exists>v. agent_send_message later_env (plain_send ''alice'') ''bob'' sent_one = Inr (v, sent_two)"
    using full(2) unfolding sent_two_def by (rule succeeded_Inr)
  show "\<exists>v. agent_read_message later_env ''jd-xx'' ''alice'' sent_two sent_two = Inr (v, read_two)"
    using full(3) unfolding read_two_def by (rule succeeded_Inr)
qed

lemma plain_steps_messages: "message_step\<^sup>*\<^sup>* plain_db sent_two" "message_step\<^sup>*\<^sup>* sent_two read_two"
proof -
  note ex = exE [OF plain_run_messages(1)] exE [OF plain_run_messages(2)] exE [OF plain_run_messages(3)]
  have one: "message_step plain_db sent_one" by (rule ex(1), rule message_step.send)
  have two: "message_step sent_one sent_two" by (rule ex(2), rule message_step.send)
  have three: "message_step sent_two read_two" by (rule ex(3), rule message_step.read)
  show "message_step\<^sup>*\<^sup>* plain_db sent_two"
    using one two by (rule converse_rtranclp_into_rtranclp [OF _ r_into_rtranclp])
  show "message_step\<^sup>*\<^sup>* sent_two read_two"
    using three by (rule r_into_rtranclp)
qed

lemma plain_messages_wf: "messages_wf plain_db"
  by (simp add: messages_wf_def plain_db_def empty_db_def)


section \<open>Messages are immutable, and read once\<close>

lemma get_message_insert:
  assumes "get_message_by_id d i = Some m"
    and "insert_message uuid conv client sender recipient content at reference d = Inr d'"
  shows "get_message_by_id d' i = Some m"
  using assms by (auto simp: get_message_by_id_def insert_message_Inr insert_row_def fetch_append)

lemma get_message_mark_read:
  "get_message_by_id (mark_read_conditional j at d) i =
    map_option (\<lambda>m. if i = j \<and> msg_read_at m = None then m\<lparr>msg_read_at := Some at\<rparr> else m) (get_message_by_id d i)"
proof -
  have "get_message_by_id (mark_read_conditional j at d) i =
      map_option (\<lambda>r. if msg_id r = j \<and> msg_read_at r = None then r\<lparr>msg_read_at := Some at\<rparr> else r)
        (get_message_by_id d i)"
    unfolding get_message_by_id_def mark_read_conditional_def by (simp, rule fetch_update_where_key) simp
  then show ?thesis
    by (cases "get_message_by_id d i") (auto simp: get_message_by_id_def dest: fetch_SomeD)
qed

lemma get_message_cong: "messages d' = messages d \<Longrightarrow> get_message_by_id d' i = get_message_by_id d i"
  by (simp add: get_message_by_id_def)

lemma fetch_or_create_messages:
  "fetch_or_create_conversation uuid key at d = Inr (c, d') \<Longrightarrow> messages d' = messages d"
  by (erule fetch_or_create_cases) simp_all

text \<open>The stored message, up to its read time while it is unread.\<close>

definition still_message :: "string \<Rightarrow> message_row \<Rightarrow> database \<Rightarrow> bool" where
  "still_message i m d = (\<exists>m'. get_message_by_id d i = Some m'
     \<and> m'\<lparr>msg_read_at := msg_read_at m\<rparr> = m
     \<and> (msg_read_at m \<noteq> None \<longrightarrow> msg_read_at m' = msg_read_at m))"

interpretation ms: message_invariant "still_message i m" for i m
proof unfold_locales
  fix d uuid key at c d'
  assume "still_message i m d" "fetch_or_create_conversation uuid key at d = Inr (c, d')"
  then show "still_message i m d'"
    using get_message_cong [OF fetch_or_create_messages] by (simp add: still_message_def)
next
  fix d j at
  assume "still_message i m d"
  then obtain m' where m': "get_message_by_id d i = Some m'" "m'\<lparr>msg_read_at := msg_read_at m\<rparr> = m"
      "msg_read_at m \<noteq> None \<longrightarrow> msg_read_at m' = msg_read_at m"
    by (auto simp: still_message_def)
  have "get_message_by_id (mark_read_conditional j at d) i =
      Some (if i = j \<and> msg_read_at m' = None then m'\<lparr>msg_read_at := Some at\<rparr> else m')"
    by (simp add: get_message_mark_read m'(1))
  with m'(2,3) show "still_message i m (mark_read_conditional j at d)"
    by (cases "i = j \<and> msg_read_at m' = None") (auto simp: still_message_def)
next
  fix d c u mid at
  assume "still_message i m d"
  then show "still_message i m (set_no_reply c u mid at d)"
    using get_message_cong [of "set_no_reply c u mid at d" d] by (simp add: still_message_def)
next
  fix d :: database and sender recipient conv :: string
    and uuid client content at :: string and reference :: "string option" and d' :: database
  assume "still_message i m d" "insert_message uuid conv client sender recipient content at reference d = Inr d'"
  then show "still_message i m d'"
    by (auto simp: still_message_def dest: get_message_insert)
qed

text \<open>
  Messages are immutable and their first read is final: after any sequence of message
  commands a stored message is still there with every column unchanged, except that an unread
  one may have got its read time; a read time, once set, is never changed or taken back.
\<close>

theorem message_immutable:
  assumes "message_step\<^sup>*\<^sup>* d d'" and "get_message_by_id d i = Some m"
  shows "\<exists>m'. get_message_by_id d' i = Some m' \<and> m'\<lparr>msg_read_at := msg_read_at m\<rparr> = m
    \<and> (msg_read_at m \<noteq> None \<longrightarrow> m' = m)"
proof -
  have "still_message i m d" using assms(2) by (simp add: still_message_def)
  from ms.steps [OF assms(1) this] obtain m' where m': "get_message_by_id d' i = Some m'"
      "m'\<lparr>msg_read_at := msg_read_at m\<rparr> = m" "msg_read_at m \<noteq> None \<longrightarrow> msg_read_at m' = msg_read_at m"
    by (auto simp: still_message_def)
  have "msg_read_at m \<noteq> None \<Longrightarrow> m' = m" using m'(2,3) by (metis message_row.surjective message_row.update_convs(9))
  with m' show ?thesis by blast
qed

theorem message_immutable_witness:
  "\<exists>m'. get_message_by_id read_two ''jd-xx'' = Some m' \<and> msg_content m' = ''hello'' \<and> msg_read_at m' \<noteq> None"
proof -
  let ?m = "sent_row later_env (plain_send ''alice'') ''bob'' ''id-x''"
  have "get_message_by_id sent_two ''jd-xx'' = Some ?m" by code_simp
  from message_immutable [OF plain_steps_messages(2) this] obtain m' where
    m': "get_message_by_id read_two ''jd-xx'' = Some m'" "m'\<lparr>msg_read_at := msg_read_at ?m\<rparr> = ?m" by blast
  have "msg_content (m'\<lparr>msg_read_at := msg_read_at ?m\<rparr>) = ''hello''"
    unfolding m'(2) by (simp add: sent_row_def plain_send_def)
  moreover have "map_option msg_read_at (get_message_by_id read_two ''jd-xx'') = Some (Some (now later_env))"
    by code_simp
  ultimately show ?thesis using m'(1) by auto
qed

section \<open>The answer of a send\<close>

definition available :: "database \<Rightarrow> string \<Rightarrow> bool" where
  "available d u = (case accounts_get d u of None \<Rightarrow> False
     | Some a \<Rightarrow> acc_status a = Active \<and> (case organizations_get d (acc_org a) of
         None \<Rightarrow> False | Some og \<Rightarrow> org_enabled og))"

lemma check_recipient_outcome:
  "check_recipient d sender home r =
    (if \<not> available d r then Inl (ApiError (if org_outgoing home then RECIPIENT_NOT_FOUND else POLICY_DENIED) Default)
     else case accounts_get d r of None \<Rightarrow> Inr ()
       | Some a \<Rightarrow> if acc_org a = acc_org sender then Inr ()
           else (case organizations_get d (acc_org a) of None \<Rightarrow> Inr ()
             | Some og \<Rightarrow> if org_outgoing home \<and> org_incoming og then Inr ()
                 else Inl (ApiError POLICY_DENIED Default)))"
  by (auto simp: check_recipient_def available_def Let_def require_def split: option.splits)

lemma check_message_budget_outcome:
  "check_message_budget e d me = Inr ()
    \<or> check_message_budget e d me = Inl (ApiError QUOTA_EXCEEDED QUOTA_EXCEEDED_MESSAGE_BUDGET)"
  by (auto simp: check_message_budget_def split: option.splits)

lemma deliver_succeeds:
  assumes "find_message_by_client_id d me (sm_client p) = None"
    and "\<forall>m \<in> set (messages d). msg_id m \<noteq> fresh e 1" and "\<forall>c \<in> set (conversations d). conv_id c \<noteq> fresh e 0"
  shows "\<exists>x. deliver e p me d = Inr x"
proof -
  obtain conv d1 where "fetch_or_create_conversation (fresh e 0) (conversation_key me (sm_recipient p)) (now e) d = Inr (conv, d1)"
  proof (cases "get_conversation_by_key d (conversation_key me (sm_recipient p))")
    case None
    then have "\<not> (\<exists>c \<in> set (conversations d). conv_id c = fresh e 0 \<or> conv_key c = conversation_key me (sm_recipient p))"
      using assms(3) by (auto simp: get_conversation_by_key_def fetch_None_iff)
    with None that show thesis by (simp add: fetch_or_create_conversation_def)
  qed (simp add: fetch_or_create_conversation_def that)
  from deliver_run [OF assms(1) this] assms(2) show ?thesis by simp
qed



text \<open>
  A closed organization discloses nothing: when the sender's organization lets nothing out,
  a send to any name that is not an active colleague gets one and the same answer, whether
  the account exists, is disabled, or belongs to another organization, open or not.
\<close>

theorem closed_organization_discloses_nothing:
  assumes "accounts_get d me = Some sender" and "organizations_get d (acc_org sender) = Some home"
    and "\<not> org_outgoing home" and "find_message_by_client_id d me (sm_client p) = None"
    and "sm_recipient p \<noteq> me"
    and "\<And>a. accounts_get d (sm_recipient p) = Some a \<Longrightarrow> acc_org a \<noteq> acc_org sender \<or> acc_status a \<noteq> Active"
  shows "agent_send_message e p me d =
    (case check_message_budget e d me of Inl err \<Rightarrow> Inl err | Inr _ \<Rightarrow> Inl (ApiError POLICY_DENIED Default))"
proof -
  have "check_recipient d sender home (sm_recipient p) = Inl (ApiError POLICY_DENIED Default)"
    using assms(3,6) by (auto simp: check_recipient_outcome available_def split: option.splits)
  with assms(1,2,4,5) show ?thesis
    by (simp add: agent_send_message_def split: sum.split)
qed

theorem closed_organization_discloses_nothing_witness:
  "agent_send_message plain_env (plain_send ''carol'') ''alice'' plain_db
   = agent_send_message plain_env (plain_send ''nobody'') ''alice'' plain_db"
proof -
  have same: "agent_send_message plain_env (plain_send r) ''alice'' plain_db = Inl (ApiError POLICY_DENIED Default)"
    if "sm_recipient (plain_send r) \<noteq> ''alice''" "\<And>a. accounts_get plain_db (sm_recipient (plain_send r)) = Some a \<Longrightarrow>
      acc_org a \<noteq> acc_org (plain_account ''alice'' ''acme'' Agent) \<or> acc_status a \<noteq> Active" for r
  proof -
    have a: "accounts_get plain_db ''alice'' = Some (plain_account ''alice'' ''acme'' Agent)"
      "organizations_get plain_db (acc_org (plain_account ''alice'' ''acme'' Agent)) = Some (plain_org ''acme'' False)"
      "\<not> org_outgoing (plain_org ''acme'' False)" by code_simp+
    have none: "find_message_by_client_id plain_db ''alice'' (sm_client (plain_send r)) = None"
      by (simp add: find_message_by_client_id_def plain_db_def empty_db_def)
    have "check_message_budget plain_env plain_db ''alice'' = Inr ()" by code_simp
    then show ?thesis
      using closed_organization_discloses_nothing [OF a none that] by simp
  qed
  have "accounts_get plain_db ''carol'' = Some (plain_account ''carol'' ''beta'' Agent)"
    "accounts_get plain_db ''nobody'' = None" by code_simp+
  then show ?thesis using same [of "''carol''"] same [of "''nobody''"]
    by (simp add: plain_send_def plain_account_def)
qed

section \<open>Retrying a send\<close>

definition still_sent :: "string \<Rightarrow> string \<Rightarrow> message_row \<Rightarrow> database \<Rightarrow> database \<Rightarrow> bool" where
  "still_sent me c m d0 d = (accounts d = accounts d0 \<and> organizations d = organizations d0
     \<and> (\<exists>m'. find_message_by_client_id d me c = Some m' \<and> m'\<lparr>msg_read_at := None\<rparr> = m\<lparr>msg_read_at := None\<rparr>))"

lemma fetch_or_create_frame:
  assumes "fetch_or_create_conversation uuid key at d = Inr (c, d')"
  shows "messages d' = messages d" "accounts d' = accounts d" "organizations d' = organizations d"
    "reply_states d' = reply_states d" "budgets d' = budgets d"
  using assms by (cases rule: fetch_or_create_cases; simp)+

lemma mark_read_frame [simp]:
  "accounts (mark_read_conditional i at d) = accounts d"
  "organizations (mark_read_conditional i at d) = organizations d"
  "conversations (mark_read_conditional i at d) = conversations d"
  "reply_states (mark_read_conditional i at d) = reply_states d"
  by (simp_all add: mark_read_conditional_def)

lemma still_sent_mark:
  assumes "still_sent me c m d0 d"
  shows "still_sent me c m d0 (mark_read_conditional i at d)"
proof -
  obtain m' where m': "find_message_by_client_id d me c = Some m'"
      "m'\<lparr>msg_read_at := None\<rparr> = m\<lparr>msg_read_at := None\<rparr>" using assms by (auto simp: still_sent_def)
  have "find_message_by_client_id (mark_read_conditional i at d) me c =
      map_option (\<lambda>r. if msg_id r = i \<and> msg_read_at r = None then r\<lparr>msg_read_at := Some at\<rparr> else r)
        (find_message_by_client_id d me c)"
    unfolding find_message_by_client_id_def mark_read_conditional_def
    by (simp, rule fetch_update_where_key) simp
  with m' assms show ?thesis by (auto simp: still_sent_def)
qed

interpretation mc: message_invariant "still_sent me c m d0" for me c m d0
proof unfold_locales
  fix d uuid key at cid d'
  assume "still_sent me c m d0 d" "fetch_or_create_conversation uuid key at d = Inr (cid, d')"
  then show "still_sent me c m d0 d'"
    using fetch_or_create_frame [of uuid key at d cid d'] by (auto simp: still_sent_def find_message_by_client_id_def)
next
  fix d i at
  assume "still_sent me c m d0 d"
  then show "still_sent me c m d0 (mark_read_conditional i at d)" by (rule still_sent_mark)
next
  fix d cid u mid at
  assume "still_sent me c m d0 d"
  then show "still_sent me c m d0 (set_no_reply cid u mid at d)"
    by (simp add: still_sent_def find_message_by_client_id_def)
next
  fix d :: database and sender recipient conv :: string
    and uuid client content at :: string and reference :: "string option" and d' :: database
  assume "still_sent me c m d0 d" "insert_message uuid conv client sender recipient content at reference d = Inr d'"
  then show "still_sent me c m d0 d'"
    by (auto simp: still_sent_def find_message_by_client_id_def insert_message_Inr insert_row_def fetch_append)
qed

lemma sent_still:
  assumes "agent_send_message e p me d = Inr (v, d1)"
  shows "\<exists>m. still_sent me (sm_client p) m d1 d1 \<and> same_request p m \<and> mv_id v = msg_id m"
  using assms
proof (cases rule: send_message_cases)
  case (1 m)
  then show ?thesis by (auto simp: still_sent_def row_to_message_def)
next
  case (2 sender home)
  from 2(1,7) show ?thesis
  proof (cases rule: deliver_Inr)
    case (1 conv dd)
    have "find_message_by_client_id d1 me (sm_client p) = Some (sent_row e p me conv)"
      using 2(1) fetch_or_create_frame(1) [OF 1(1)] unfolding 1(3)
      by (simp add: find_message_by_client_id_def insert_row_def fetch_append fetch_Cons sent_row_def)
    moreover have "same_request p (sent_row e p me conv)" by (simp add: same_request_def sent_row_def)
    ultimately show ?thesis using 1(4) by (auto simp: still_sent_def row_to_message_def)
  qed
qed

text \<open>
  C13. A send is idempotent: sent again with its client key, however much later and whatever message
  commands ran in between, it returns the same message and changes nothing, past budgets and
  policies: the number of messages does not depend on how often the client retries.
\<close>

theorem send_message_retry:
  assumes "agent_send_message e p me d = Inr (v, d1)" and "message_step\<^sup>*\<^sup>* d1 d2"
  shows "\<exists>v'. agent_send_message e' p me d2 = Inr (v', d2) \<and> mv_id v' = mv_id v"
proof -
  obtain m where m: "still_sent me (sm_client p) m d1 d1" "same_request p m" "mv_id v = msg_id m"
    using sent_still [OF assms(1)] by blast
  obtain sender home where s: "sm_recipient p \<noteq> me" "accounts_get d me = Some sender"
      "organizations_get d (acc_org sender) = Some home"
    using assms(1) unfolding agent_send_message_def by (auto simp only: andthen_Inr require_Inr some_or_Inr)
  have "accounts d1 = accounts d \<and> organizations d1 = organizations d"
    using assms(1)
  proof (cases rule: send_message_cases)
    case (2 sn hm)
    from 2(1,7) show ?thesis
      by (cases rule: deliver_Inr) (auto dest: fetch_or_create_frame)
  qed simp
  moreover have still: "still_sent me (sm_client p) m d1 d2" using mc.steps [OF assms(2) m(1)] .
  ultimately have same: "accounts d2 = accounts d" "organizations d2 = organizations d"
    by (auto simp: still_sent_def)
  obtain m' where m': "find_message_by_client_id d2 me (sm_client p) = Some m'"
      "m'\<lparr>msg_read_at := None\<rparr> = m\<lparr>msg_read_at := None\<rparr>" using still by (auto simp: still_sent_def)
  have "msg_id (m'\<lparr>msg_read_at := None\<rparr>) = msg_id m" "same_request p (m'\<lparr>msg_read_at := None\<rparr>)"
    using m(2) by (simp_all add: m'(2) same_request_def)
  then have "msg_id m' = msg_id m" "same_request p m'" by (simp_all add: same_request_def)
  moreover have "accounts_get d2 me = Some sender" "organizations_get d2 (acc_org sender) = Some home"
    using s same by (simp_all add: accounts_get_def organizations_get_def)
  ultimately show ?thesis using s(1) m'(1) m(3)
    by (simp add: agent_send_message_def row_to_message_def)
qed

theorem send_message_retry_witness:
  "\<exists>v'. agent_send_message later_env (plain_send ''bob'') ''alice'' read_two = Inr (v', read_two)"
proof -
  obtain v where first: "agent_send_message plain_env (plain_send ''bob'') ''alice'' plain_db = Inr (v, sent_one)"
    using plain_run_messages(1) by (rule exE)
  have "message_step sent_one sent_two" by (rule exE [OF plain_run_messages(2)], rule message_step.send)
  moreover have "message_step sent_two read_two" by (rule exE [OF plain_run_messages(3)], rule message_step.read)
  ultimately have "message_step\<^sup>*\<^sup>* sent_one read_two"
    by (rule converse_rtranclp_into_rtranclp [OF _ r_into_rtranclp])
  from send_message_retry [OF first this, of later_env] show ?thesis by (rule ex_forward) (rule conjunct1)
qed

section \<open>Pages\<close>

text \<open>Reading all received messages, from an instant on: the later pages at any instants.\<close>

text \<open>
  C14. Following the cursors of \<open>get_messages\<close> from the first page gives every message the request
  selects at the instant of that page exactly once, newest first, whatever the page size and
  the instants of the later pages.
\<close>

theorem get_messages_complete:
  assumes "messages_wf d" and "0 < gm_limit p" and "\<And>c. same_keys (ev None) (ev c)"
    and "length (filter (message_clauses (get_messages_filter p me (now (ev None)))) (messages d)) < n"
  shows "read_all (\<lambda>c. agent_get_messages (ev c) p c me d) n None =
    Inr (map (\<lambda>m. row_to_message_as_of d m (now (ev None)))
      (order_desc msg_pos (filter (message_clauses (get_messages_filter p me (now (ev None)))) (messages d))))"
proof -
  have "json_ok (bi_filters (get_messages_binding p me))"
    by (simp add: get_messages_binding_def read_status_json_def jopt_def split: option.split)
  from pmp.read_all_complete [where b = "get_messages_binding p me" and ev = ev and d = d
      and limit = "gm_limit p" and flt = "get_messages_filter p me" and x = "\<lambda>_. ()"
      and view = "\<lambda>boundary m. row_to_message_as_of d m boundary" and n = n, OF this assms(3,1,2)]
  show ?thesis using assms(4) by (simp add: agent_get_messages_def order_desc_def)
qed

definition one_per_page :: get_messages_params where
  "one_per_page = \<lparr>gm_limit = 1, gm_status = None, gm_sender = None, gm_conv = None\<rparr>"

theorem get_messages_complete_witness:
  "read_all (\<lambda>c. agent_get_messages (case c of None \<Rightarrow> later_env | Some _ \<Rightarrow> plain_env) one_per_page c ''alice'' sent_two)
     3 None = Inr [row_to_message_as_of sent_two (sent_row later_env (plain_send ''alice'') ''bob'' ''id-x'') (now later_env)]"
proof -
  have wf: "messages_wf sent_two" using mw.steps [OF plain_steps_messages(1) plain_messages_wf] .
  let ?ev = "\<lambda>c :: string option. case c of None \<Rightarrow> later_env | Some _ \<Rightarrow> plain_env"
  let ?f = "filter (message_clauses (get_messages_filter one_per_page ''alice'' (now later_env))) (messages sent_two)"
  have rows: "?f = [sent_row later_env (plain_send ''alice'') ''bob'' ''id-x'']" by code_simp
  have "same_keys (?ev None) (?ev c)" for c
    by (cases c) (simp_all add: same_keys_def later_env_def)
  then show ?thesis
    using get_messages_complete [OF wf, of one_per_page ?ev "''alice''" 3] rows
    by (simp add: one_per_page_def order_desc_def)
qed

section \<open>Snapshots\<close>

text \<open>Commands at instants after the boundary; a first read may have looked at any database.\<close>

inductive later_step :: "string \<Rightarrow> database \<Rightarrow> database \<Rightarrow> bool" for b where
  send: "b < now e \<Longrightarrow> agent_send_message e p me d = Inr (v, d') \<Longrightarrow> later_step b d d'"
| read: "b < now e \<Longrightarrow> agent_read_message e i me early d = Inr (v, d') \<Longrightarrow> later_step b d d'"
| mark: "b < now e \<Longrightarrow> agent_mark_conversation_no_reply e c me d = Inr (v, d') \<Longrightarrow> later_step b d d'"

definition read_later :: "string \<Rightarrow> message_row \<Rightarrow> message_row \<Rightarrow> bool" where
  "read_later b m m' = (m' = m \<or> (msg_read_at m = None \<and> (\<exists>at. b < at \<and> m' = m\<lparr>msg_read_at := Some at\<rparr>)))"

lemma read_later_refl: "read_later b m m"
  by (simp add: read_later_def)

lemma read_later_trans: "read_later b m m' \<Longrightarrow> read_later b m' m'' \<Longrightarrow> read_later b m m''"
  by (auto simp: read_later_def)

definition same_at :: "string \<Rightarrow> database \<Rightarrow> database \<Rightarrow> bool" where
  "same_at b d d' = (accounts d' = accounts d \<and> (\<exists>old new. messages d' = old @ new
     \<and> list_all2 (read_later b) (messages d) old \<and> (\<forall>m \<in> set new. b < msg_created_at m)))"

lemma same_at_keep: "accounts d' = accounts d \<Longrightarrow> messages d' = messages d \<Longrightarrow> same_at b d d'"
  using list_all2_refl [of "read_later b" "messages d"] read_later_refl by (force simp: same_at_def)

lemma same_at_trans:
  assumes "same_at b d d'" and "same_at b d' d''"
  shows "same_at b d d''"
proof -
  obtain old new where o: "messages d' = old @ new" "list_all2 (read_later b) (messages d) old"
      "\<forall>m \<in> set new. b < msg_created_at m" "accounts d' = accounts d" using assms(1) by (auto simp: same_at_def)
  obtain old' new' where o': "messages d'' = old' @ new'" "list_all2 (read_later b) (old @ new) old'"
      "\<forall>m \<in> set new'. b < msg_created_at m" "accounts d'' = accounts d'" using assms(2) by (auto simp: same_at_def o(1))
  from o'(2) obtain os ns where s: "old' = os @ ns" "list_all2 (read_later b) old os" "list_all2 (read_later b) new ns"
    by (auto simp: list_all2_append1)
  have "b < msg_created_at m" if m: "m \<in> set ns" for m
  proof -
    obtain k where "k < length ns" "m = ns ! k" using m by (auto simp: in_set_conv_nth)
    then have "read_later b (new ! k) m" "new ! k \<in> set new" using s(3) by (auto simp: list_all2_conv_all_nth)
    with o(3) show ?thesis by (auto simp: read_later_def)
  qed
  moreover have "list_all2 (read_later b) (messages d) os"
    using list_all2_trans [OF read_later_trans o(2) s(2)] .
  ultimately show ?thesis using o o' s(1) unfolding same_at_def by (intro conjI exI [of _ os] exI [of _ "ns @ new'"]) auto
qed

lemma later_step_same: "later_step b d d' \<Longrightarrow> same_at b d d'"
proof (induction rule: later_step.induct)
  case (send e p me d v d')
  from send(2) show ?case
  proof (cases rule: send_message_cases)
    case (2 sender home)
    from 2(1,7) show ?thesis
    proof (cases rule: deliver_Inr)
      case (1 conv d1)
      note fr = fetch_or_create_frame [OF 1(1)]
      have "messages d' = messages d @ [sent_row e p me conv]" "accounts d' = accounts d"
        using fr by (simp_all add: 1(3) insert_row_def)
      moreover have "b < msg_created_at (sent_row e p me conv)" using send(1) by (simp add: sent_row_def)
      ultimately show ?thesis using list_all2_refl [of "read_later b" "messages d"] read_later_refl
        unfolding same_at_def by (intro conjI exI [of _ "messages d"] exI [of _ "[sent_row e p me conv]"]) auto
    qed
  qed (simp add: same_at_keep)
next
  case (read e i me early d v d')
  then have "d' = d \<or> d' = mark_read_conditional i (now e) d"
    by (auto simp: agent_read_message_def Let_def exc_simps split: option.splits if_splits)
  moreover have "same_at b d (mark_read_conditional i (now e) d)"
  proof -
    have "list_all2 (read_later b) (messages d) (messages (mark_read_conditional i (now e) d))"
      using read(1) by (auto simp: mark_read_conditional_def update_where_def list_all2_conv_all_nth read_later_def)
    then show ?thesis unfolding same_at_def
      by (intro conjI exI [of _ "messages (mark_read_conditional i (now e) d)"] exI [of _ "[]"]) auto
  qed
  ultimately show ?case by (auto simp: same_at_keep)
next
  case (mark e c me d v d')
  then show ?case
    by (auto simp: agent_mark_conversation_no_reply_def split: option.splits intro!: same_at_keep)
qed

lemma later_steps_same: "(later_step b)\<^sup>*\<^sup>* d d' \<Longrightarrow> same_at b d d'"
  by (induction rule: rtranclp_induct) (auto intro: same_at_keep same_at_trans later_step_same)

lemma list_all2_insort:
  assumes "R x y" and "list_all2 R xs ys" and "\<And>a b. R a b \<Longrightarrow> k a = k b"
  shows "list_all2 R (insort_key k x xs) (insort_key k y ys)"
  using assms(2)
proof (induction rule: list_all2_induct)
  case Nil
  show ?case using assms(1) by simp
next
  case (Cons a as b bs)
  moreover have "k x = k y" "k a = k b" using assms(1) Cons(1) by (simp_all add: assms(3))
  ultimately show ?case using assms(1) by simp
qed

lemma list_all2_sort_key:
  assumes "list_all2 R xs ys" and "\<And>a b. R a b \<Longrightarrow> k a = k b"
  shows "list_all2 R (sort_key k xs) (sort_key k ys)"
  using assms(1) by (induction rule: list_all2_induct) (auto simp: list_all2_insort assms(2))

lemma list_all2_filter:
  assumes "list_all2 R xs ys" and "\<And>a b. R a b \<Longrightarrow> P a = P b"
  shows "list_all2 R (filter P xs) (filter P ys)"
  using assms(1) by (induction rule: list_all2_induct) (auto dest: assms(2))

lemma list_all2_map_eq: "list_all2 R xs ys \<Longrightarrow> (\<And>a b. R a b \<Longrightarrow> f a = g b) \<Longrightarrow> map f xs = map g ys"
  by (induction rule: list_all2_induct) auto



section \<open>Notifications\<close>

lemma conversation_key_splits: "\<exists>v. other_participant (conversation_key a b) u = Inr v"
proof -
  have "dropWhile (\<lambda>c. c \<noteq> CHR '':'') (x @ CHR '':'' # y) \<noteq> []" for x y by (induction x) auto
  then show ?thesis
    by (auto simp: other_participant_def conversation_key_def Let_def split: list.split)
qed

lemma notification_page_total:
  assumes "messages_wf d"
  shows "notification_page d f after limit = Inr (map (notification_item d f) (notification_query d f after limit))"
proof -
  have "notification_row d (fst f) (snd f) (l, c) = Inr (notification_item d f (l, c))"
    if "(l, c) \<in> set (notification_query d f after limit)" for l c
  proof -
    have mem: "(l, c) \<in> set (notification_rows d f)" using that np.page_subset by blast
    then have l: "l \<in> set (messages d)" "c \<in> set (conversations d)" "conv_id c = msg_conv l"
      by (cases f; auto simp: notification_row_mem received_def)+
    then obtain c' where "c' \<in> set (conversations d)" "conv_id c' = msg_conv l"
        "conv_key c' = conversation_key (msg_sender l) (msg_recipient l)"
      using assms by (auto simp: messages_wf_def filed_def)
    moreover from this have "c' = c" using l assms by (auto simp: messages_wf_def distinct_map inj_on_def)
    ultimately obtain v where "other_participant (conv_key c) (fst f) = Inr v"
      using conversation_key_splits [of "msg_sender l" "msg_recipient l" "fst f"] by auto
    then show ?thesis by (simp add: notification_row_def notification_item_def)
  qed
  then show ?thesis unfolding notification_page_def by (intro map_exc_total) (auto split: prod.splits)
qed

lemma get_notifications_eq:
  assumes "messages_wf d"
  shows "agent_get_notifications e limit cursor me d =
    paged_reply e (get_notifications_binding me) cursor pair_pos pair_list limit nt_pos
      (\<lambda>bd after. Inr (unread_by_sender d me bd,
         map (notification_item d (me, bd)) (notification_query d (me, bd) after limit))) (\<lambda>_ n. n)"
  by (simp add: agent_get_notifications_def notification_page_total [OF assms])

text \<open>
  C16. Notifications agree with the reply state: following the cursors of \<open>get_notifications\<close> gives,
  each once and the latest first, exactly the conversations whose computed reply state at the
  first page's instant is \<open>NeedsReply\<close>; computing them in one query neither loses nor invents one.
\<close>

theorem notifications_are_needs_reply:
  assumes "messages_wf d" and "0 < limit" and "\<And>c. same_keys (ev None) (ev c)"
    and "length (notification_rows d (me, now (ev None))) < n"
  shows "\<exists>items. read_all (\<lambda>c. agent_get_notifications (ev c) limit c me d) n None = Inr items
    \<and> distinct (map nt_conv items)
    \<and> set (map nt_conv items) = {conv. fst (reply_status d conv me (now (ev None))) = NeedsReply}"
proof -
  let ?b = "now (ev None)"
  let ?items = "map (notification_item d (me, ?b)) (notification_rows d (me, ?b))"
  have "json_ok (bi_filters (get_notifications_binding me))"
    by (simp add: get_notifications_binding_def)
  from pnp.read_all_complete [where b = "get_notifications_binding me" and ev = ev and d = d
      and limit = limit and flt = "\<lambda>bd. (me, bd)" and x = "unread_by_sender d me" and view = "\<lambda>_ n. n"
      and n = n, OF this assms(3,1,2)] assms(4)
  have read: "read_all (\<lambda>c. agent_get_notifications (ev c) limit c me d) n None = Inr ?items"
    by (simp add: get_notifications_eq [OF assms(1)])
  have conv: "nt_conv (notification_item d f lc) = msg_conv (fst lc)" for f lc
    by (cases lc) (simp add: notification_item_def)
  have set_eq: "conv \<in> set (map nt_conv ?items) \<longleftrightarrow> fst (reply_status d conv me ?b) = NeedsReply" for conv
    using notification_iff_needs_reply [OF assms(1), of conv me ?b]
    by (simp add: conv image_image split_def)
  have "distinct (map nt_conv ?items)"
  proof -
    have "inj_on (\<lambda>lc. msg_conv (fst lc)) (set (notification_rows d (me, ?b)))"
    proof (rule inj_onI)
      fix x y assume xy: "x \<in> set (notification_rows d (me, ?b))" "y \<in> set (notification_rows d (me, ?b))"
        "msg_conv (fst x) = msg_conv (fst y)"
      obtain l c l' c' where e: "x = (l, c)" "y = (l', c')" by (cases x; cases y)
      have r: "l \<in> set (received d me ?b)" "l' \<in> set (received d me ?b)" "row_number_one (received d me ?b) l"
        "row_number_one (received d me ?b) l'" "c \<in> set (conversations d)" "conv_id c = msg_conv l"
        "c' \<in> set (conversations d)" "conv_id c' = msg_conv l'"
        using xy(1,2) by (auto simp: e notification_row_mem notification_clauses_def)
      have "distinct (map msg_id (received d me ?b))"
        using messages_wf_ids [OF assms(1)] by (simp add: received_def distinct_map_filter)
      then have "l = l'" using row_number_one_unique [OF r(1,2) _ r(3,4)] xy(3) by (simp add: e)
      moreover have "c = c'" using r(5-8) xy(3) assms(1)
        by (auto simp: e messages_wf_def distinct_map inj_on_def)
      ultimately show "x = y" by (simp add: e)
    qed
    then show ?thesis using np.rows_distinct [OF assms(1), of "(me, ?b)"] by (simp add: distinct_map conv comp_def)
  qed
  with read set_eq show ?thesis by blast
qed

theorem notifications_are_needs_reply_witness:
  "\<exists>items. read_all (\<lambda>c. agent_get_notifications later_env 1 c ''alice'' read_two) 5 None = Inr items
     \<and> ''id-x'' \<in> set (map nt_conv items)"
proof -
  have "messages_wf read_two"
    using mw.steps [OF plain_steps_messages(2)] mw.steps [OF plain_steps_messages(1) plain_messages_wf] by blast
  moreover have "same_keys later_env later_env" by (simp add: same_keys_def)
  moreover have "length (notification_rows read_two (''alice'', now later_env)) < 5" by code_simp
  moreover have "fst (reply_status read_two ''id-x'' ''alice'' (now later_env)) = NeedsReply" by code_simp
  ultimately show ?thesis
    using notifications_are_needs_reply [of read_two 1 "\<lambda>_. later_env" "''alice''" 5] by auto
qed

end
