(* ===== verification/TaskMachine.thy ===== *)
theory TaskMachine
  imports ServiceTasks
begin

text \<open>
  The life of a task under the commands of \<open>ServiceTasks\<close>: a step relation with one rule per
  command, and what holds over any sequence of commands. The abstract machine is the relation
  \<open>allowed\<close> on states; the commands refine it.
\<close>

section \<open>Frames of the commands\<close>

lemma record_change_Inr:
  assumes "record_change cfg e i me org ln co hlc change d = Inr (view, d')"
  shows "tasks d' = tasks (change d)" "dependencies d' = dependencies (change d)"
    "\<exists>row. tasks_get (change d) i = Some row \<and> tv_row view = row"
    "accounts d' = accounts (change d)" "organizations d' = organizations (change d)"
    "budgets d' = budgets (change d)" "delegations d' = delegations (change d)"
  using assms
  by (auto simp: record_change_def Let_def exc_simps row_to_task_def tasks_get_def
      split: prod.splits)

lemma set_state_frame:
  "accounts (set_state i st r at d) = accounts d" "budgets (set_state i st r at d) = budgets d"
  "accounts (set_assignee i u at d) = accounts d" "budgets (set_assignee i u at d) = budgets d"
  "accounts (set_approver i u at d) = accounts d" "budgets (set_approver i u at d) = budgets d"
  "dependencies (set_state i st r at d) = dependencies d"
  "dependencies (set_assignee i u at d) = dependencies d"
  "dependencies (set_approver i u at d) = dependencies d"
  by (simp_all add: set_state_def set_assignee_def set_approver_def)

section \<open>The abstract machine and its refinement\<close>

text \<open>
  \<open>SPEC.txt\<close> F5 and F8: work, cancel or fail, and the approval round trip; the three other
  states are final.
\<close>

inductive allowed :: "task_state \<Rightarrow> task_state \<Rightarrow> bool" where
  start: "allowed Submitted InProgress"
| cancel_submitted: "allowed Submitted Canceled"
| complete: "allowed InProgress Completed"
| fail: "allowed InProgress Failed"
| cancel: "allowed InProgress Canceled"
| request: "s \<in> {Submitted, InProgress} \<Longrightarrow> allowed s PendingApproval"
| approve: "allowed PendingApproval Completed"
| reject: "allowed PendingApproval InProgress"

code_pred allowed .

inductive_cases allowed_from_terminal: "allowed Completed s" "allowed Failed s" "allowed Canceled s"

inductive_simps allowed_simps: "allowed s t"

inductive task_step :: "config \<Rightarrow> database \<Rightarrow> database \<Rightarrow> bool" for cfg where
  create: "agent_create_task cfg e p me hlc d = Inr (v, d') \<Longrightarrow> task_step cfg d d'"
| update: "agent_update_task_state cfg e i st res me hlc d = Inr (v, d') \<Longrightarrow> task_step cfg d d'"
| transfer: "agent_transfer_task cfg e i u nt me hlc d = Inr (v, d') \<Longrightarrow> task_step cfg d d'"
| request: "agent_request_approval cfg e i u me hlc d = Inr (v, d') \<Longrightarrow> task_step cfg d d'"
| approve: "agent_approve_task cfg e i me hlc d = Inr (v, d') \<Longrightarrow> task_step cfg d d'"
| reject: "agent_reject_task cfg e i reason me hlc d = Inr (v, d') \<Longrightarrow> task_step cfg d d'"

text \<open>The effect of each command on the states.\<close>

lemma update_task_state_effect:
  assumes "agent_update_task_state cfg e i st res me hlc d = Inr (v, d')"
  shows "\<exists>row. tasks_get d i = Some row
      \<and> (task_state row, st) \<in> {(Submitted, InProgress), (Submitted, Canceled), (InProgress, Completed),
               (InProgress, Failed), (InProgress, Canceled)}
      \<and> (st = InProgress \<longrightarrow> dependencies_met d i)"
    and "state_of d' j = (if j = i then Some st else state_of d j)"
proof -
  from assms obtain row dg org vw d1 where
    "tasks_get d i = Some row" "ensure_transition (task_state row) st = Inr ()"
    "\<not> (st = InProgress \<and> \<not> dependencies_met d i)"
    and rc: "record_change cfg e i me org
       (''state_changed:'' @ state_text (task_state row) @ ''->'' @ state_text st, None, TaskStateChanged)
       (''update_task_state'', if \<not> dg then state_text st else state_text st @ '':delegated'') hlc
       (set_state i st (if st \<in> {Completed, Failed} then res else None) (now e)) d = Inr (vw, d1)"
    and d': "d' = check_escalations cfg e org (now e) hlc d1"
    by (auto simp: agent_update_task_state_def Let_def exc_simps split: prod.splits)
  then show "\<exists>row. tasks_get d i = Some row
      \<and> (task_state row, st) \<in> {(Submitted, InProgress), (Submitted, Canceled), (InProgress, Completed),
               (InProgress, Failed), (InProgress, Canceled)}
      \<and> (st = InProgress \<longrightarrow> dependencies_met d i)"
    by (auto simp: exc_simps)
  show "state_of d' j = (if j = i then Some st else state_of d j)"
    using state_of_cong [OF record_change_Inr(1) [OF rc]] \<open>tasks_get d i = Some row\<close>
    by (simp add: d' state_of_set) (simp add: state_of_def)
qed

lemma transfer_task_effect:
  assumes "agent_transfer_task cfg e i u nt me hlc d = Inr (v, d')"
  shows "state_of d' = state_of d"
  using assms
  by (auto simp: agent_transfer_task_def exc_simps split: prod.splits
      dest!: record_change_Inr(1) state_of_cong simp: state_of_set)

lemma request_approval_effect:
  assumes "agent_request_approval cfg e i u me hlc d = Inr (v, d')"
  shows "\<exists>row. tasks_get d i = Some row \<and> task_state row \<in> {Submitted, InProgress} \<and> u \<noteq> me"
    and "state_of d' j = (if j = i then Some PendingApproval else state_of d j)"
proof -
  from assms obtain row org where row: "tasks_get d i = Some row" "u \<noteq> me"
    "task_state row \<notin> set TERMINAL_STATES" "task_state row \<noteq> PendingApproval"
    and rc: "record_change cfg e i me org
       (''approval_requested'', Some (''approbateur: '' @ u), TaskApprovalRequested)
       (''request_approval'', u) hlc
       (set_state i PendingApproval None (now e) \<circ> set_approver i u (now e)) d = Inr (v, d')"
    by (auto simp: agent_request_approval_def exc_simps split: prod.splits)
  then show "\<exists>row. tasks_get d i = Some row \<and> task_state row \<in> {Submitted, InProgress} \<and> u \<noteq> me"
    by (cases "task_state row") (auto simp: TERMINAL_STATES_def)
  show "state_of d' j = (if j = i then Some PendingApproval else state_of d j)"
    using state_of_cong [OF record_change_Inr(1) [OF rc]] row(1)
    by (simp add: state_of_set) (simp add: state_of_def)
qed

lemma pending_for_Inr:
  "pending_for d i me = Inr (row, org) \<longleftrightarrow>
     tasks_get d i = Some row \<and> task_approver row = Some me \<and> org_of d me = Inr org
     \<and> task_state row = PendingApproval"
  by (auto simp: pending_for_def exc_simps split: option.splits)

lemma approve_task_effect:
  assumes "agent_approve_task cfg e i me hlc d = Inr (v, d')"
  shows "\<exists>row. tasks_get d i = Some row \<and> task_state row = PendingApproval \<and> task_approver row = Some me"
    and "state_of d' j = (if j = i then Some Completed else state_of d j)"
proof -
  from assms obtain row org where row: "tasks_get d i = Some row" "task_state row = PendingApproval"
    "task_approver row = Some me"
    and rc: "record_change cfg e i me org (''approved'', None, TaskApproved) (''approve_task'', ''ok'') hlc
       (set_state i Completed (task_result row) (now e)) d = Inr (v, d')"
    by (auto simp: agent_approve_task_def exc_simps pending_for_Inr split: prod.splits)
  then show "\<exists>row. tasks_get d i = Some row \<and> task_state row = PendingApproval \<and> task_approver row = Some me"
    by simp
  show "state_of d' j = (if j = i then Some Completed else state_of d j)"
    using state_of_cong [OF record_change_Inr(1) [OF rc]] row(1)
    by (simp add: state_of_set) (simp add: state_of_def)
qed

lemma reject_task_effect:
  assumes "agent_reject_task cfg e i reason me hlc d = Inr (v, d')"
  shows "\<exists>row. tasks_get d i = Some row \<and> task_state row = PendingApproval \<and> task_approver row = Some me"
    and "state_of d' j = (if j = i then Some InProgress else state_of d j)"
proof -
  from assms obtain row org where row: "tasks_get d i = Some row" "task_state row = PendingApproval"
    "task_approver row = Some me"
    and rc: "record_change cfg e i me org (''rejected'', reason, TaskRejected) (''reject_task'', ''rejected'') hlc
       (set_state i InProgress None (now e)) d = Inr (v, d')"
    by (auto simp: agent_reject_task_def exc_simps pending_for_Inr split: prod.splits)
  then show "\<exists>row. tasks_get d i = Some row \<and> task_state row = PendingApproval \<and> task_approver row = Some me"
    by simp
  show "state_of d' j = (if j = i then Some InProgress else state_of d j)"
    using state_of_cong [OF record_change_Inr(1) [OF rc]] row(1)
    by (simp add: state_of_set) (simp add: state_of_def)
qed

text \<open>Creation: a fresh id, in the state \<open>Submitted\<close>, or the existing task again.\<close>

abbreviation created_line :: "env \<Rightarrow> string \<Rightarrow> string \<Rightarrow> task_event_entry" where
  "created_line e me hlc \<equiv> \<lparr>tx_task = fresh e 0, tx_event = ''created'', tx_by = me, tx_note = None,
     tx_at = now e, tx_hlc = hlc\<rparr>"

lemma insert_new_task_elim:
  assumes "insert_new_task cfg e p me org hlc d = Inr (v, d')"
  obtains d1 d2 row g where
    "tasks_insert (fresh e 0) (create_task_fields p me) (now e) d = Inr d1"
    "(if ct_depends_on p = [] then Inr d1
      else replace_dependencies (fresh e 0) (ct_depends_on p) d1) = Inr d2"
    "tasks_get (add_event (created_line e me hlc) d2) (fresh e 0) = Some row"
    "v = row_to_task (add_event (created_line e me hlc) d2) row"
    "d' = check_escalations cfg e g (now e) hlc (audit org (now e) me ''create_task'' (Some ''task'')
       (Some (fresh e 0)) ''ok'' hlc (task_event cfg e org row TaskCreated me (now e) hlc
         (add_event (created_line e me hlc) d2)))"
  using assms
  by (simp only: insert_new_task_def Let_def andthen_Inr some_or_Inr prod.inject sum.inject) blast

lemma insert_new_task_Inr:
  assumes "insert_new_task cfg e p me org hlc d = Inr (v, d')"
  shows "\<exists>d1 assignee_org dx. tasks_insert (fresh e 0) (create_task_fields p me) (now e) d = Inr d1
    \<and> tasks dx = tasks d1 \<and> d' = check_escalations cfg e assignee_org (now e) hlc dx
    \<and> tv_row v = new_task (fresh e 0) (create_task_fields p me) (now e)"
proof -
  let ?i = "fresh e 0"
  let ?t = "new_task ?i (create_task_fields p me) (now e)"
  let ?d3 = "\<lambda>d2. add_event (created_line e me hlc) d2"
  let ?d5 = "\<lambda>d2 row. audit org (now e) me ''create_task'' (Some ''task'') (Some ?i) ''ok'' hlc
      (task_event cfg e org row TaskCreated me (now e) hlc (?d3 d2))"
  from assms obtain d1 d2 row assignee_org where
    d1: "tasks_insert ?i (create_task_fields p me) (now e) d = Inr d1"
    and d2: "(if ct_depends_on p = [] then Inr d1 else replace_dependencies ?i (ct_depends_on p) d1) = Inr d2"
    and got: "tasks_get (?d3 d2) ?i = Some row" and v: "v = row_to_task (?d3 d2) row"
    and d': "d' = check_escalations cfg e assignee_org (now e) hlc (?d5 d2 row)"
    by (rule insert_new_task_elim)
  have row: "tasks_get d2 ?i = Some row" "tv_row v = row"
    using got v by (simp_all add: tasks_get_def row_to_task_def)
  have "tasks d2 = tasks d1"
    using d2 by (auto simp: replace_dependencies_Inr split: if_splits)
  moreover have "tasks_get d1 ?i = Some ?t" using tasks_insert_get(2) [OF d1] by simp
  ultimately have "row = ?t" using row(1) by (simp add: tasks_get_def)
  moreover have "tasks (?d5 d2 row) = tasks d1" using \<open>tasks d2 = tasks d1\<close> by simp
  ultimately show ?thesis using d1 row(2) d' by blast
qed

lemma create_task_effect:
  assumes "agent_create_task cfg e p me hlc d = Inr (v, d')"
  shows "state_of d' = state_of d
    \<or> (state_of d (fresh e 0) = None \<and> state_of d' = (state_of d)(fresh e 0 \<mapsto> Submitted))"
proof -
  have "\<exists>org. org_of d me = Inr org"
    using assms by (cases "org_of d me") (simp_all add: agent_create_task_def)
  then obtain org where org: "org_of d me = Inr org" ..
  show ?thesis
  proof (cases "case ct_client p of None \<Rightarrow> None | Some c \<Rightarrow> get_by_client_key d me c")
    case (Some existing)
    have "tasks d' = tasks d"
      using assms unfolding agent_create_task_def org andthen_simps Some option.case Let_def
      by (auto split: if_splits)
    from state_of_cong [OF this] show ?thesis by simp
  next
    case None
    with assms org have "insert_new_task cfg e p me org hlc d = Inr (v, d')"
      by (simp add: agent_create_task_def andthen_Inr)
    from insert_new_task_Inr [OF this] obtain d1 g dx where
      d1: "tasks_insert (fresh e 0) (create_task_fields p me) (now e) d = Inr d1"
      and dx: "tasks dx = tasks d1" "d' = check_escalations cfg e g (now e) hlc dx" by blast
    have same: "state_of d' = state_of d1" using state_of_cong [OF dx(1)] dx(2) by simp
    note ins = tasks_insert_get [OF d1]
    have "state_of d1 j = (if j = fresh e 0 then Some Submitted else state_of d j)" for j
      by (simp add: state_of_def ins(2)) (simp add: new_task_def)
    with same ins(1) show ?thesis by (auto simp: fun_eq_iff state_of_def [of d "fresh e 0"])
  qed
qed

section \<open>Steps refine the machine\<close>

lemma refines_at:
  assumes "state_of d j = Some s" and "allowed s t"
    and "state_of d' i = (if i = j then Some t else state_of d i)"
  shows "(case state_of d i of
      None \<Rightarrow> state_of d' i \<in> {None, Some Submitted}
    | Some s \<Rightarrow> state_of d' i = Some s \<or> (\<exists>t. state_of d' i = Some t \<and> allowed s t))"
  using assms by (cases "i = j") (simp_all split: option.split)

lemma task_step_refines:
  assumes "task_step cfg d d'"
  shows "(case state_of d i of
      None \<Rightarrow> state_of d' i \<in> {None, Some Submitted}
    | Some s \<Rightarrow> state_of d' i = Some s \<or> (\<exists>t. state_of d' i = Some t \<and> allowed s t))"
  using assms
proof cases
  case (create e p me hlc v)
  from create_task_effect [OF this] show ?thesis
    by (elim disjE conjE) (simp_all split: option.split)
next
  case (update e j st res me hlc v)
  from update_task_state_effect(1) [OF this] obtain s where
    "state_of d j = Some s" "allowed s st" by (fastforce simp: state_of_def allowed_simps)
  from this update_task_state_effect(2) [OF update] show ?thesis by (rule refines_at)
next
  case (transfer e j u nt me hlc v)
  from transfer_task_effect [OF this] show ?thesis by (simp split: option.split)
next
  case (request e j u me hlc v)
  from request_approval_effect(1) [OF this] obtain s where
    "state_of d j = Some s" "allowed s PendingApproval" by (fastforce simp: state_of_def allowed_simps)
  from this request_approval_effect(2) [OF request] show ?thesis by (rule refines_at)
next
  case (approve e j me hlc v)
  from approve_task_effect(1) [OF this] obtain s where
    "state_of d j = Some s" "allowed s Completed" by (fastforce simp: state_of_def allowed_simps)
  from this approve_task_effect(2) [OF approve] show ?thesis by (rule refines_at)
next
  case (reject e j reason me hlc v)
  from reject_task_effect(1) [OF this] obtain s where
    "state_of d j = Some s" "allowed s InProgress" by (fastforce simp: state_of_def allowed_simps)
  from this reject_task_effect(2) [OF reject] show ?thesis by (rule refines_at)
qed

section \<open>Invariants of the task commands\<close>

text \<open>
  The commands write through a handful of store operations, all their journal lines with the
  stamp \<open>H\<close> of their transaction. A predicate kept by these, under the conditions the commands
  establish before they write, is kept by every command that has the stamp.
\<close>

locale task_writes =
  fixes P :: "database \<Rightarrow> bool" and H :: string
  assumes set_state: "P d \<Longrightarrow> P (set_state i st res at d)"
    and set_assignee: "P d \<Longrightarrow> accounts_get d u \<noteq> None \<Longrightarrow> P (set_assignee i u at d)"
    and set_approver: "P d \<Longrightarrow> accounts_get d u \<noteq> None \<Longrightarrow> P (set_approver i u at d)"
    and history: "P d \<Longrightarrow> tasks_get d (tx_task x) \<noteq> None \<Longrightarrow> tx_hlc x = H \<Longrightarrow> P (add_event x d)"
    and journal: "P d \<Longrightarrow> P (task_event cfg e org t et by at H d)"
    and audited: "P d \<Longrightarrow> P (audit org at actor c tt target out H d)"
    and inserted: "P d \<Longrightarrow> accounts_get d (tf_creator f) \<noteq> None \<Longrightarrow> accounts_get d (tf_assignee f) \<noteq> None
      \<Longrightarrow> tasks_insert i f at d = Inr d' \<Longrightarrow> P d'"
    and dependent: "P d \<Longrightarrow> tasks_get d i \<noteq> None \<Longrightarrow> (\<And>j. j \<in> set deps \<Longrightarrow> tasks_get d j \<noteq> None)
      \<Longrightarrow> replace_dependencies i deps d = Inr d' \<Longrightarrow> P d'"
begin

lemma escalated:
  assumes "P d" and "accounts_get d to \<noteq> None" and "tasks_get d (task_id row) \<noteq> None"
  shows "P (escalate_task cfg e org to at H row d)"
  using assms
  by (auto simp: escalate_task_def Let_def tasks_get_set
      intro!: audited journal history set_assignee)

lemma checked:
  assumes "P d"
  shows "P (check_escalations cfg e org at H d)"
proof -
  let ?Q = "\<lambda>d'. P d' \<and> accounts d' = accounts d
    \<and> (\<forall>j. (tasks_get d' j = None) = (tasks_get d j = None))"
  have "?Q (check_escalations cfg e org at H d)"
  proof (rule check_escalations_induct)
    fix to row d'
    assume row: "row \<in> set (tasks d)" "accounts_get d to \<noteq> None" and Q: "?Q d'"
    have "tasks_get d (task_id row) \<noteq> None" using row(1) by (auto simp: tasks_get_def fetch_None_iff)
    moreover have "accounts_get d' to \<noteq> None" using Q row(2) by (simp add: accounts_get_def)
    ultimately have P: "P (escalate_task cfg e org to at H row d')"
      using Q by (intro escalated) simp_all
    have "(tasks_get (escalate_task cfg e org to at H row d') j = None) = (tasks_get d' j = None)" for j
      using escalate_task_tasks [of cfg e org to at H row d']
    proof
      assume "tasks (escalate_task cfg e org to at H row d') = tasks (set_assignee (task_id row) to at d')"
      then have "tasks_get (escalate_task cfg e org to at H row d') j =
          tasks_get (set_assignee (task_id row) to at d') j" by (simp only: tasks_get_def)
      then show ?thesis by (simp add: tasks_get_set(2))
    qed (simp add: tasks_get_def)
    moreover have "accounts (escalate_task cfg e org to at H row d') = accounts d'"
      by (simp add: escalate_task_def Let_def set_state_frame)
    ultimately show "?Q (escalate_task cfg e org to at H row d')" using P Q by simp
  qed (use assms in simp)
  then show ?thesis by simp
qed

lemma changed:
  assumes "record_change cfg e i me org ln co H change d = Inr (view, d')" and "P (change d)"
  shows "P d'"
proof -
  obtain row where "tasks_get (change d) i = Some row" using record_change_Inr(3) [OF assms(1)] by blast
  then have "P (add_event \<lparr>tx_task = i, tx_event = l, tx_by = me, tx_note = n, tx_at = now e,
      tx_hlc = H\<rparr> (change d))" for l n
    using assms(2) by (intro history) simp_all
  with assms(1) show ?thesis
    by (auto simp: record_change_def Let_def exc_simps split: prod.splits intro!: audited journal)
qed

lemma created:
  assumes "P d" and "agent_create_task cfg e p me H d = Inr (v, d')"
  shows "P d'"
proof -
  have "\<exists>org. org_of d me = Inr org"
    using assms(2) by (cases "org_of d me") (simp_all add: agent_create_task_def)
  then obtain org where org: "org_of d me = Inr org" ..
  then have me: "accounts_get d me \<noteq> None" by (auto simp: org_of_Inr)
  show ?thesis
  proof (cases "case ct_client p of None \<Rightarrow> None | Some c \<Rightarrow> get_by_client_key d me c")
    case (Some existing)
    show ?thesis
      using assms unfolding agent_create_task_def org andthen_simps Some option.case Let_def
      by (auto split: if_splits intro: audited)
  next
    case None
    let ?i = "fresh e 0"
    let ?x = "\<lparr>tx_task = ?i, tx_event = ''created'', tx_by = me, tx_note = None, tx_at = now e, tx_hlc = H\<rparr>"
    from assms(2) have ins: "insert_new_task cfg e p me org H d = Inr (v, d')"
      and act: "accounts_get d (ct_assignee p) \<noteq> None"
      and deps: "require_tasks d (ct_depends_on p) = Inr ()"
      unfolding agent_create_task_def org andthen_simps None option.case
      by (auto simp: andthen_Inr require_active_account_Inr)
    have found: "tasks_get d j \<noteq> None" if "j \<in> set (ct_depends_on p)" for j
      using deps that by (simp add: require_tasks_Inr)
    from ins obtain d1 d2 row g where
      d1: "tasks_insert ?i (create_task_fields p me) (now e) d = Inr d1"
      and d2: "(if ct_depends_on p = [] then Inr d1 else replace_dependencies ?i (ct_depends_on p) d1) = Inr d2"
      and got: "tasks_get (add_event ?x d2) ?i = Some row"
      and d': "d' = check_escalations cfg e g (now e) H (audit org (now e) me ''create_task'' (Some ''task'')
          (Some ?i) ''ok'' H (task_event cfg e org row TaskCreated me (now e) H (add_event ?x d2)))"
      by (rule insert_new_task_elim)
    have P1: "P d1"
      by (rule inserted [OF assms(1) _ _ d1]) (use me act in \<open>simp_all add: create_task_fields_def\<close>)
    note new = tasks_insert_get [OF d1]
    have "P d2"
    proof (cases "ct_depends_on p = []")
      case True
      with d2 P1 show ?thesis by simp
    next
      case False
      with d2 have "replace_dependencies ?i (ct_depends_on p) d1 = Inr d2" by simp
      moreover have "tasks_get d1 ?i \<noteq> None" by (simp add: new(2))
      moreover have "tasks_get d1 j \<noteq> None" if "j \<in> set (ct_depends_on p)" for j
        using found [OF that] by (simp add: new(2))
      ultimately show ?thesis using P1 dependent by blast
    qed
    moreover have "tasks_get d2 ?i \<noteq> None" using got by (simp add: tasks_get_def)
    ultimately have "P (add_event ?x d2)" by (intro history) simp_all
    then show ?thesis by (simp only: d') (intro checked audited journal)
  qed
qed

lemma updated:
  assumes "P d" and "agent_update_task_state cfg e i st res me H d = Inr (v, d')"
  shows "P d'"
  using assms
  by (auto simp: agent_update_task_state_def Let_def andthen_Inr split: prod.splits
      intro!: checked elim!: changed intro: set_state)

lemma transferred:
  assumes "P d" and "agent_transfer_task cfg e i u nt me H d = Inr (v, d')"
  shows "P d'"
  using assms
  by (auto simp: agent_transfer_task_def andthen_Inr require_active_account_Inr split: prod.splits
      intro!: checked elim!: changed intro: set_assignee)

lemma requested:
  assumes "P d" and "agent_request_approval cfg e i u me H d = Inr (v, d')"
  shows "P d'"
  using assms
  by (auto simp: agent_request_approval_def andthen_Inr require_active_account_Inr split: prod.splits
      elim!: changed intro!: set_state set_approver)

lemma approved:
  assumes "P d" and "agent_approve_task cfg e i me H d = Inr (v, d')"
  shows "P d'"
  using assms
  by (auto simp: agent_approve_task_def andthen_Inr split: prod.splits elim!: changed intro: set_state)

lemma rejected:
  assumes "P d" and "agent_reject_task cfg e i reason me H d = Inr (v, d')"
  shows "P d'"
  using assms
  by (auto simp: agent_reject_task_def andthen_Inr split: prod.splits elim!: changed intro: set_state)

end

text \<open>A predicate that does not look at the stamps is kept by every step.\<close>

locale task_invariant =
  fixes P :: "database \<Rightarrow> bool"
  assumes set_state: "P d \<Longrightarrow> P (set_state i st res at d)"
    and set_assignee: "P d \<Longrightarrow> accounts_get d u \<noteq> None \<Longrightarrow> P (set_assignee i u at d)"
    and set_approver: "P d \<Longrightarrow> accounts_get d u \<noteq> None \<Longrightarrow> P (set_approver i u at d)"
    and history: "P d \<Longrightarrow> tasks_get d (tx_task x) \<noteq> None \<Longrightarrow> P (add_event x d)"
    and journal: "P d \<Longrightarrow> P (task_event cfg e org t et by at h d)"
    and audited: "P d \<Longrightarrow> P (audit org at actor c tt target out h d)"
    and inserted: "P d \<Longrightarrow> accounts_get d (tf_creator f) \<noteq> None \<Longrightarrow> accounts_get d (tf_assignee f) \<noteq> None
      \<Longrightarrow> tasks_insert i f at d = Inr d' \<Longrightarrow> P d'"
    and dependent: "P d \<Longrightarrow> tasks_get d i \<noteq> None \<Longrightarrow> (\<And>j. j \<in> set deps \<Longrightarrow> tasks_get d j \<noteq> None)
      \<Longrightarrow> replace_dependencies i deps d = Inr d' \<Longrightarrow> P d'"

sublocale task_invariant \<subseteq> writes: task_writes P H for H
  by unfold_locales (rule set_state set_assignee set_approver history journal audited inserted dependent; assumption)+

context task_invariant
begin

lemma step:
  assumes "task_step cfg d d'" and "P d"
  shows "P d'"
  using assms(1)
  by cases (rule writes.created [OF assms(2)] writes.updated [OF assms(2)] writes.transferred [OF assms(2)]
    writes.requested [OF assms(2)] writes.approved [OF assms(2)] writes.rejected [OF assms(2)]; assumption)+

lemma steps: "(task_step cfg)\<^sup>*\<^sup>* d d' \<Longrightarrow> P d \<Longrightarrow> P d'"
  by (induction rule: rtranclp_induct) (auto intro: step)

end

section \<open>The instances\<close>

definition task_refs :: "database \<Rightarrow> bool" where
  "task_refs d = (\<forall>t \<in> set (tasks d). accounts_get d (task_creator t) \<noteq> None
     \<and> accounts_get d (task_assignee t) \<noteq> None
     \<and> (\<forall>u. task_approver t = Some u \<longrightarrow> accounts_get d u \<noteq> None))"

lemma task_refs_cong: "tasks d' = tasks d \<Longrightarrow> accounts d' = accounts d \<Longrightarrow> task_refs d' = task_refs d"
  by (simp add: task_refs_def accounts_get_def)

lemma in_task_ids: "tasks_get d i \<noteq> None \<longleftrightarrow> i \<in> task_id ` set (tasks d)"
  by (auto simp: tasks_get_def fetch_None_iff)

lemma task_refs_update:
  assumes "task_refs d" and "\<And>t. t \<in> set (tasks d) \<Longrightarrow> task_creator (f t) = task_creator t
      \<and> (task_assignee (f t) = task_assignee t \<or> accounts_get d (task_assignee (f t)) \<noteq> None)
      \<and> (task_approver (f t) = task_approver t \<or> (\<exists>u. task_approver (f t) = Some u \<and> accounts_get d u \<noteq> None))"
  shows "task_refs (update_task i f d)"
proof -
  have same: "accounts_get (update_task i f d) = accounts_get d" by (rule get_cong) simp
  have row: "accounts_get d (task_creator (f t)) \<noteq> None \<and> accounts_get d (task_assignee (f t)) \<noteq> None
      \<and> (\<forall>u. task_approver (f t) = Some u \<longrightarrow> accounts_get d u \<noteq> None)" if "t \<in> set (tasks d)" for t
  proof -
    have "accounts_get d (task_creator t) \<noteq> None" "accounts_get d (task_assignee t) \<noteq> None"
      "\<And>u. task_approver t = Some u \<Longrightarrow> accounts_get d u \<noteq> None"
      using assms(1) that by (auto simp: task_refs_def)
    with assms(2) [OF that] show ?thesis by auto
  qed
  have "r \<in> set (tasks d) \<or> (\<exists>t \<in> set (tasks d). r = f t)" if "r \<in> set (tasks (update_task i f d))" for r
    using that by (auto simp: update_task_def set_update_where)
  with row assms(1) show ?thesis
    unfolding task_refs_def same by blast
qed

interpretation ti: task_invariant "\<lambda>d. tasks_wf d \<and> task_refs d"
proof unfold_locales
  fix d and x :: task_event_entry
  assume "tasks_wf d \<and> task_refs d" "tasks_get d (tx_task x) \<noteq> None"
  then show "tasks_wf (add_event x d) \<and> task_refs (add_event x d)"
    using task_refs_cong [of "add_event x d" d] tasks_wf_add_event [of d x] by (simp only: in_task_ids) simp
next
  fix d i st res at u
  assume wf: "tasks_wf d \<and> task_refs d"
  then show "tasks_wf (set_state i st res at d) \<and> task_refs (set_state i st res at d)"
    by (auto simp: tasks_wf_set) (auto simp: set_state_def intro!: task_refs_update)
  assume "accounts_get d u \<noteq> None"
  with wf show "tasks_wf (set_assignee i u at d) \<and> task_refs (set_assignee i u at d)"
    by (auto simp: tasks_wf_set) (auto simp: set_assignee_def intro!: task_refs_update)
next
  fix d i at u
  assume "tasks_wf d \<and> task_refs d" "accounts_get d u \<noteq> None"
  then show "tasks_wf (set_approver i u at d) \<and> task_refs (set_approver i u at d)"
    by (auto simp: tasks_wf_set) (auto simp: set_approver_def intro!: task_refs_update)
next
  fix d cfg e org t et b at h
  assume "tasks_wf d \<and> task_refs d"
  then show "tasks_wf (task_event cfg e org t et b at h d) \<and> task_refs (task_event cfg e org t et b at h d)"
    using task_refs_cong [of "task_event cfg e org t et b at h d" d]
      tasks_wf_cong [of "task_event cfg e org t et b at h d" d] by simp
next
  fix d org at actor c tt target ou h
  assume "tasks_wf d \<and> task_refs d"
  then show "tasks_wf (audit org at actor c tt target ou h d) \<and> task_refs (audit org at actor c tt target ou h d)"
    using task_refs_cong [of "audit org at actor c tt target ou h d" d]
      tasks_wf_cong [of "audit org at actor c tt target ou h d" d] by simp
next
  fix d d' f i at
  assume wf: "tasks_wf d \<and> task_refs d" and acc: "accounts_get d (tf_creator f) \<noteq> None"
    "accounts_get d (tf_assignee f) \<noteq> None" and ins: "tasks_insert i f at d = Inr d'"
  have d': "d' = d\<lparr>tasks := insert_row (new_task i f at) (tasks d)\<rparr>" by (rule tasks_insert_get [OF ins])
  have "accounts_get d' = accounts_get d" by (rule get_cong) (simp add: d')
  with wf acc have "task_refs d'" by (auto simp: task_refs_def d' set_insert_row new_task_def)
  with wf ins show "tasks_wf d' \<and> task_refs d'" by (auto intro: tasks_wf_insert)
next
  fix d d' i deps
  assume wf: "tasks_wf d \<and> task_refs d" and ids: "tasks_get d i \<noteq> None"
    "\<And>j. j \<in> set deps \<Longrightarrow> tasks_get d j \<noteq> None" and rep: "replace_dependencies i deps d = Inr d'"
  have "tasks_wf d'"
    by (rule tasks_wf_replace [OF _ rep]) (use wf ids in \<open>simp, simp only: in_task_ids, auto simp only: in_task_ids\<close>)
  moreover have "task_refs d' = task_refs d"
    using rep by (intro task_refs_cong) (auto simp: replace_dependencies_Inr)
  ultimately show "tasks_wf d' \<and> task_refs d'" using wf by simp
qed

lemma events_wf_task_event:
  "events_wf d \<Longrightarrow> events_wf (task_event cfg e org t et by at h d)"
  by (simp add: task_event_def events_wf_task)

interpretation te: task_invariant events_wf
  by unfold_locales
    (auto simp: events_wf_task_event set_state_def set_assignee_def set_approver_def
      tasks_insert_def replace_dependencies_Inr split: if_splits elim!: iffD1 [OF events_wf_cong, rotated 2])

lemma aj_wf_audit: "aj.wf d \<Longrightarrow> aj.wf (audit org at actor c tt target out h d)"
  by (simp add: audit_def aj.wf_add)

interpretation ta: task_invariant aj.wf
  by unfold_locales
    (auto simp: aj_wf_audit set_state_def set_assignee_def set_approver_def
      tasks_insert_def replace_dependencies_Inr split: if_splits elim!: iffD1 [OF aj.wf_cong, rotated 2])

section \<open>Task budgets\<close>

text \<open>No agent with a task budget has more active tasks than it.\<close>

definition budgets_ok :: "database \<Rightarrow> bool" where
  "budgets_ok d = (\<forall>b \<in> set (budgets d). \<forall>n. budget_get d (bud_username b) = Some b
     \<longrightarrow> bud_tasks b = Some n \<longrightarrow> int (active_count d (bud_username b)) \<le> n)"

lemma budgets_okD:
  "budgets_ok d \<Longrightarrow> budget_get d u = Some b \<Longrightarrow> bud_tasks b = Some n \<Longrightarrow> int (active_count d u) \<le> n"
proof -
  assume "budgets_ok d" and b: "budget_get d u = Some b" and "bud_tasks b = Some n"
  moreover have "b \<in> set (budgets d)" "bud_username b = u"
    using b by (auto simp: budget_get_def dest: fetch_SomeD)
  ultimately show "int (active_count d u) \<le> n" by (auto simp: budgets_ok_def)
qed

lemma budgets_okI:
  "(\<And>u b n. budget_get d u = Some b \<Longrightarrow> bud_tasks b = Some n \<Longrightarrow> int (active_count d u) \<le> n) \<Longrightarrow> budgets_ok d"
  by (simp add: budgets_ok_def)

lemma budgets_ok_le:
  assumes "budgets_ok d" and "budgets d' = budgets d"
    and "\<And>u. active_count d' u \<le> active_count d u
      \<or> (\<forall>b n. budget_get d u = Some b \<longrightarrow> bud_tasks b = Some n \<longrightarrow> int (active_count d' u) \<le> n)"
  shows "budgets_ok d'"
proof (rule budgets_okI)
  fix u b n
  assume "budget_get d' u = Some b" and n: "bud_tasks b = Some n"
  then have b: "budget_get d u = Some b" using assms(2) by (simp add: budget_get_def)
  from assms(3) [of u] show "int (active_count d' u) \<le> n"
    using budgets_okD [OF assms(1) b n] b n by force
qed

abbreviation ids_distinct :: "database \<Rightarrow> bool" where
  "ids_distinct d \<equiv> distinct (map task_id (tasks d))"

lemma active_count_set_assignee:
  assumes "ids_distinct d"
  shows "active_count (set_assignee i u at d) v \<le> active_count d v + (if v = u then 1 else 0)"
proof (cases "v = u")
  case True
  have "active_count (set_assignee i u at d) v \<le> active_count d v + count_where (\<lambda>t. task_id t = i) (tasks d)"
    by (simp add: active_count_def set_assignee_def update_task_def count_where_update_le_add)
  with True count_where_key_le_1 [OF assms, of i] show ?thesis by simp
next
  case False
  then show ?thesis
    by (auto simp: active_count_def set_assignee_def update_task_def intro!: count_where_update_le)
qed

lemma active_count_set_state:
  assumes "ids_distinct d" and "state_of d i = Some s" and "s \<in> set ACTIVE_STATES"
  shows "active_count (set_state i st res at d) v \<le> active_count d v"
proof -
  have "task_state t = s" if "t \<in> set (tasks d)" "task_id t = i" for t
  proof -
    obtain r where "tasks_get d i = Some r" "task_state r = s" using assms(2) by (auto simp: state_of_def)
    moreover from this(1) have "r \<in> set (tasks d)" "task_id r = i" by (auto dest: tasks_getD)
    ultimately show ?thesis using that assms(1) by (auto simp: distinct_map inj_on_def)
  qed
  with assms(3) show ?thesis
    by (auto simp: active_count_def set_state_def update_task_def intro!: count_where_update_le)
qed

lemma ids_distinct_set:
  "ids_distinct d \<Longrightarrow> ids_distinct (set_state i st res at d)"
  "ids_distinct d \<Longrightarrow> ids_distinct (set_assignee i u at d)"
  "ids_distinct d \<Longrightarrow> ids_distinct (set_approver i u at d)"
  by (simp_all add: set_state_def set_assignee_def set_approver_def update_task_def map_update_where)

definition budgeted :: "database \<Rightarrow> bool" where
  "budgeted d = (budgets_ok d \<and> ids_distinct d)"

lemma budgeted_same:
  "budgeted d \<Longrightarrow> tasks d' = tasks d \<Longrightarrow> budgets d' = budgets d \<Longrightarrow> budgeted d'"
  using budgets_ok_le [of d d'] get_cong(5) [of d' d] by (simp add: budgeted_def)

lemma budgeted_assign:
  assumes "budgeted d" and "check_task_budget d u = Inr x"
  shows "budgeted (set_assignee i u at d)"
proof -
  have "budgets (set_assignee i u at d) = budgets d" by (rule set_state_frame)
  moreover have "active_count (set_assignee i u at d) v \<le> active_count d v
      \<or> (\<forall>b n. budget_get d v = Some b \<longrightarrow> bud_tasks b = Some n \<longrightarrow>
           int (active_count (set_assignee i u at d) v) \<le> n)" for v
    using active_count_set_assignee [of d i u at v] assms
    by (cases "v = u") (force simp: budgeted_def check_task_budget_Inr)+
  ultimately show ?thesis
    using assms(1) budgets_ok_le [of d "set_assignee i u at d"] by (simp add: budgeted_def ids_distinct_set)
qed

lemma budgeted_escalate:
  assumes "budgeted d"
  shows "budgeted (escalate_task cfg e org to at hlc row d)"
proof -
  let ?full = "case budget_get d to of None \<Rightarrow> False
    | Some b \<Rightarrow> (case bud_tasks b of None \<Rightarrow> False | Some n \<Rightarrow> n \<le> int (active_count d to))"
  have free: "check_task_budget d to = Inr ()" if "\<not> ?full"
    using that by (auto simp: check_task_budget_def split: option.splits)
  show ?thesis
  proof (cases ?full)
    case True
    then have "escalate_task cfg e org to at hlc row d = d" by (simp only: escalate_task_def if_True)
    with assms show ?thesis by simp
  next
    case False
    have "tasks (escalate_task cfg e org to at hlc row d) = tasks (set_assignee (task_id row) to at d)"
      "budgets (escalate_task cfg e org to at hlc row d) = budgets (set_assignee (task_id row) to at d)"
      unfolding escalate_task_def if_not_P [OF False] Let_def by simp_all
    with budgeted_assign [OF assms free [OF False]] show ?thesis by (rule budgeted_same)
  qed
qed

lemma budgeted_check: "budgeted d \<Longrightarrow> budgeted (check_escalations cfg e org at hlc d)"
  by (rule check_escalations_induct) (simp_all add: budgeted_escalate)

lemma budgeted_change:
  assumes "budgeted (change d)" and "record_change cfg e i me org ln co hlc change d = Inr (v, d')"
  shows "budgeted d'"
  using budgeted_same [OF assms(1)] record_change_Inr [OF assms(2)] by simp

lemma budgeted_set_state:
  assumes "budgeted d" and "state_of d i = Some s" and "s \<in> set ACTIVE_STATES"
  shows "budgeted (set_state i st res at d)"
proof -
  have "budgets (set_state i st res at d) = budgets d" by (rule set_state_frame)
  moreover have "active_count (set_state i st res at d) v \<le> active_count d v" for v
    using assms by (intro active_count_set_state) (simp_all add: budgeted_def)
  ultimately show ?thesis
    using assms(1) budgets_ok_le [of d "set_state i st res at d"] by (simp add: budgeted_def ids_distinct_set)
qed

lemma budgeted_create:
  assumes "budgeted d" and "agent_create_task cfg e p me hlc d = Inr (v, d')"
  shows "budgeted d'"
proof -
  have "\<exists>org. org_of d me = Inr org"
    using assms(2) by (cases "org_of d me") (simp_all add: agent_create_task_def)
  then obtain org where org: "org_of d me = Inr org" ..
  show ?thesis
  proof (cases "case ct_client p of None \<Rightarrow> None | Some c \<Rightarrow> get_by_client_key d me c")
    case (Some existing)
    have "tasks d' = tasks d" "budgets d' = budgets d"
      using assms(2) unfolding agent_create_task_def org andthen_simps Some option.case Let_def
      by (auto split: if_splits)
    with assms(1) show ?thesis by (rule budgeted_same)
  next
    case None
    let ?f = "create_task_fields p me"
    from assms(2) have ins: "insert_new_task cfg e p me org hlc d = Inr (v, d')"
      and free: "check_task_budget d (ct_assignee p) = Inr ()"
      unfolding agent_create_task_def org andthen_simps None option.case by (auto simp: andthen_Inr)
    from ins obtain d1 d2 row g where
      d1: "tasks_insert (fresh e 0) ?f (now e) d = Inr d1"
      and d2: "(if ct_depends_on p = [] then Inr d1
        else replace_dependencies (fresh e 0) (ct_depends_on p) d1) = Inr d2"
      and d': "d' = check_escalations cfg e g (now e) hlc (audit org (now e) me ''create_task'' (Some ''task'')
          (Some (fresh e 0)) ''ok'' hlc (task_event cfg e org row TaskCreated me (now e) hlc
             (add_event (created_line e me hlc) d2)))"
      by (rule insert_new_task_elim)
    have eq: "d1 = d\<lparr>tasks := insert_row (new_task (fresh e 0) ?f (now e)) (tasks d)\<rparr>"
      by (rule tasks_insert_get [OF d1])
    have "active_count d1 u = active_count d u + (if u = ct_assignee p then 1 else 0)" for u
      by (simp add: active_count_def eq count_where_insert_row new_task_def create_task_fields_def
          ACTIVE_STATES_def)
    then have "budgets_ok d1"
      using assms(1) free budgets_ok_le [of d d1] by (force simp: budgeted_def eq check_task_budget_Inr)
    moreover have "ids_distinct d1"
      using assms(1) tasks_insert_get(1) [OF d1] in_task_ids [of d "fresh e 0"]
      by (auto simp: eq budgeted_def insert_row_def new_task_def)
    ultimately have "budgeted d1" by (simp add: budgeted_def)
    moreover have "tasks d2 = tasks d1" "budgets d2 = budgets d1"
      using d2 by (auto simp: replace_dependencies_Inr split: if_splits)
    ultimately have "budgeted d2" by (rule budgeted_same)
    then have "budgeted (audit org (now e) me ''create_task'' (Some ''task'')
          (Some (fresh e 0)) ''ok'' hlc (task_event cfg e org row TaskCreated me (now e) hlc
             (add_event (created_line e me hlc) d2)))" by (rule budgeted_same) simp_all
    then show ?thesis unfolding d' by (rule budgeted_check)
  qed
qed

lemma budgeted_set_approver: "budgeted d \<Longrightarrow> budgeted (set_approver i u at d)"
proof -
  assume d: "budgeted d"
  have "active_count (set_approver i u at d) v \<le> active_count d v" for v
    by (auto simp: active_count_def set_approver_def update_task_def intro!: count_where_update_le)
  then show ?thesis
    using d budgets_ok_le [of d "set_approver i u at d"] by (simp add: budgeted_def ids_distinct_set set_state_frame)
qed

lemma budgeted_step:
  assumes "task_step cfg d d'" and "budgeted d"
  shows "budgeted d'"
  using assms(1)
proof cases
  case create
  with assms(2) show ?thesis by (rule budgeted_create)
next
  case (update e i st res me hlc v)
  then obtain s where s: "state_of d i = Some s" "s \<in> set ACTIVE_STATES"
    using update_task_state_effect(1) [OF update] by (auto simp: state_of_def ACTIVE_STATES_def)
  show ?thesis
    using update budgeted_set_state [OF assms(2) s]
    by (auto simp: agent_update_task_state_def Let_def andthen_Inr split: prod.splits
        intro!: budgeted_check elim!: budgeted_change [rotated])
next
  case (transfer e i u nt me hlc v)
  then show ?thesis
    using budgeted_assign [OF assms(2), of u]
    by (auto simp: agent_transfer_task_def andthen_Inr split: prod.splits
        intro!: budgeted_check elim!: budgeted_change [rotated])
next
  case (request e i u me hlc v)
  then obtain s where s: "state_of d i = Some s" "s \<in> set ACTIVE_STATES"
    using request_approval_effect(1) [OF request] by (auto simp: state_of_def ACTIVE_STATES_def)
  have "budgeted (set_state i PendingApproval None at (set_approver i u at d))" for at
    using budgeted_set_approver [OF assms(2)] s by (intro budgeted_set_state) (simp_all add: state_of_set)
  with request show ?thesis
    by (auto simp: agent_request_approval_def andthen_Inr split: prod.splits elim!: budgeted_change [rotated])
next
  case (approve e i me hlc v)
  then obtain s where s: "state_of d i = Some s" "s \<in> set ACTIVE_STATES"
    using approve_task_effect(1) [OF approve] by (auto simp: state_of_def ACTIVE_STATES_def)
  with approve show ?thesis
    using budgeted_set_state [OF assms(2) s]
    by (auto simp: agent_approve_task_def andthen_Inr split: prod.splits elim!: budgeted_change [rotated])
next
  case (reject e i reason me hlc v)
  then obtain s where s: "state_of d i = Some s" "s \<in> set ACTIVE_STATES"
    using reject_task_effect(1) [OF reject] by (auto simp: state_of_def ACTIVE_STATES_def)
  with reject show ?thesis
    using budgeted_set_state [OF assms(2) s]
    by (auto simp: agent_reject_task_def andthen_Inr split: prod.splits elim!: budgeted_change [rotated])
qed

end
