(* ===== verification/TaskProperties.thy ===== *)
theory TaskProperties
  imports TaskMachine
begin

text \<open>
  The promises of the task commands to their callers, each with an instance in a small world
  where \<open>alice\<close> asks \<open>bob\<close> to write a report.
\<close>

section \<open>A small world\<close>

definition plain_task :: "string list \<Rightarrow> create_task_params" where
  "plain_task deps = \<lparr>ct_client = None, ct_title = ''report'', ct_description = None,
     ct_assignee = ''bob'', ct_priority = Normal, ct_due_at = None, ct_reference = None,
     ct_depends_on = deps\<rparr>"

definition after :: "exc + ('a \<times> database) \<Rightarrow> database" where
  "after r = (case r of Inl _ \<Rightarrow> empty_db | Inr (v, d) \<Rightarrow> d)"

definition succeeds :: "exc + 'a \<Rightarrow> bool" where
  "succeeds r = (case r of Inl _ \<Rightarrow> False | Inr _ \<Rightarrow> True)"

definition created_db :: database where
  "created_db = after (agent_create_task plain_config plain_env (plain_task []) ''alice'' ''h1'' plain_db)"

definition started_db :: database where
  "started_db = after (agent_update_task_state plain_config plain_env ''id-x'' InProgress None ''bob'' ''h2''
     created_db)"

definition finished_db :: database where
  "finished_db = after (agent_update_task_state plain_config plain_env ''id-x'' Completed (Some ''done'')
     ''bob'' ''h3'' started_db)"

lemma after_Inr: "succeeds r \<Longrightarrow> \<exists>v. r = Inr (v, after r)"
  by (cases r) (auto simp: after_def succeeds_def)

lemma plain_step_created: "task_step plain_config plain_db created_db"
proof -
  have "succeeds (agent_create_task plain_config plain_env (plain_task []) ''alice'' ''h1'' plain_db)"
    by code_simp
  from after_Inr [OF this] show ?thesis unfolding created_db_def by (auto intro: task_step.create)
qed

lemma plain_step_started: "task_step plain_config created_db started_db"
proof -
  have "succeeds (agent_update_task_state plain_config plain_env ''id-x'' InProgress None ''bob'' ''h2'' created_db)"
    by code_simp
  from after_Inr [OF this] show ?thesis unfolding started_db_def by (auto intro: task_step.update)
qed

lemma plain_step_finished: "task_step plain_config started_db finished_db"
proof -
  have "succeeds (agent_update_task_state plain_config plain_env ''id-x'' Completed (Some ''done'')
      ''bob'' ''h3'' started_db)"
    by code_simp
  from after_Inr [OF this] show ?thesis unfolding finished_db_def by (auto intro: task_step.update)
qed

lemma plain_run: "(task_step plain_config)\<^sup>*\<^sup>* plain_db finished_db"
  using plain_step_created plain_step_started plain_step_finished
  by (rule converse_rtranclp_into_rtranclp [OF _ converse_rtranclp_into_rtranclp [OF _ r_into_rtranclp]])

lemma plain_states:
  "state_of created_db ''id-x'' = Some Submitted" "state_of started_db ''id-x'' = Some InProgress"
  "state_of finished_db ''id-x'' = Some Completed" "state_of plain_db ''id-x'' = None"
  by code_simp+

section \<open>The life cycle\<close>

lemma lifecycle_step:
  assumes "task_step cfg d d'" and "state_of d i = Some s"
  shows "\<exists>t. state_of d' i = Some t \<and> allowed\<^sup>*\<^sup>* s t"
  using task_step_refines [OF assms(1), of i] assms(2) by auto

lemma lifecycle_birth:
  assumes "task_step cfg d d'" and "state_of d i = None"
  shows "state_of d' i = None \<or> state_of d' i = Some Submitted"
  using task_step_refines [OF assms(1), of i] assms(2) by simp



section \<open>A finished task\<close>

lemma tasks_get_cong: "tasks d' = tasks d \<Longrightarrow> tasks_get d' = tasks_get d"
  by (simp add: fun_eq_iff tasks_get_def)

lemma tasks_get_in: "distinct (map task_id (tasks d)) \<Longrightarrow> row \<in> set (tasks d) \<Longrightarrow> tasks_get d (task_id row) = Some row"
  using fetch_ex [of "tasks d" "\<lambda>t. task_id t = task_id row"]
  by (auto simp: tasks_get_def distinct_map inj_on_def dest: fetch_SomeD)

lemma check_escalations_other:
  assumes "ids_distinct d" and "tasks_get d i = Some r" and "task_state r \<notin> {Submitted, InProgress}"
  shows "tasks_get (check_escalations cfg e org at hlc d) i = Some r"
proof (rule check_escalations_induct)
  fix to row d'
  assume row: "row \<in> set (tasks d)" "task_state row \<in> {Submitted, InProgress}"
    and IH: "tasks_get d' i = Some r"
  have "task_id row \<noteq> i" using tasks_get_in [OF assms(1) row(1)] assms(2,3) row(2) by auto
  then have "tasks_get (set_assignee (task_id row) to at d') i = tasks_get d' i"
    by (auto simp: tasks_get_set(2) option.map_ident)
  with escalate_task_tasks [of cfg e org to at hlc row d'] IH
  show "tasks_get (escalate_task cfg e org to at hlc row d') i = Some r"
    by (metis tasks_get_cong)
qed (rule assms(2))

lemma ids_distinct_cong: "tasks d' = tasks d \<Longrightarrow> ids_distinct d' = ids_distinct d"
  by simp

lemma changed_other:
  assumes "record_change cfg e j me org ln co hlc change d = Inr (view, d')"
    and "tasks_get (change d) i = tasks_get d i" and "ids_distinct (change d)"
  shows "tasks_get d' i = tasks_get d i \<and> ids_distinct d'"
  using assms(2,3) tasks_get_cong [OF record_change_Inr(1) [OF assms(1)]] record_change_Inr(1) [OF assms(1)]
  by simp

text \<open>Every command but a creation changes one task that is not finished, then may escalate others.\<close>

definition changes_one :: "config \<Rightarrow> database \<Rightarrow> database \<Rightarrow> string \<Rightarrow> bool" where
  "changes_one cfg d d' j = ((\<exists>s. state_of d j = Some s \<and> s \<in> set ACTIVE_STATES)
     \<and> (\<exists>e me org ln co hlc change view d1. record_change cfg e j me org ln co hlc change d = Inr (view, d1)
        \<and> (d' = d1 \<or> (\<exists>g. d' = check_escalations cfg e g (now e) hlc d1))
        \<and> (\<forall>k. k \<noteq> j \<longrightarrow> tasks_get (change d) k = tasks_get d k)
        \<and> (ids_distinct d \<longrightarrow> ids_distinct (change d))))"

lemma changes_oneI:
  assumes "record_change cfg e j me org ln co hlc change d = Inr (view, d1)"
    and "d' = d1 \<or> (\<exists>g. d' = check_escalations cfg e g (now e) hlc d1)"
    and "\<And>k. k \<noteq> j \<Longrightarrow> tasks_get (change d) k = tasks_get d k"
    and "ids_distinct d \<Longrightarrow> ids_distinct (change d)"
    and "state_of d j = Some s" and "s \<in> set ACTIVE_STATES"
  shows "changes_one cfg d d' j"
  using assms unfolding changes_one_def by blast

lemma set_other:
  "k \<noteq> j \<Longrightarrow> tasks_get (set_state j st r at d) k = tasks_get d k"
  "k \<noteq> j \<Longrightarrow> tasks_get (set_assignee j u at d) k = tasks_get d k"
  "k \<noteq> j \<Longrightarrow> tasks_get (set_approver j u at d) k = tasks_get d k"
  by (simp_all add: tasks_get_set option.map_ident)

lemma step_shape:
  assumes "task_step cfg d d'"
  obtains e p me hlc v where "agent_create_task cfg e p me hlc d = Inr (v, d')"
  | j where "changes_one cfg d d' j"
  using assms
proof cases
  case create
  then show ?thesis by (rule that(1))
next
  case (update e j st res me hlc v)
  obtain s where s: "state_of d j = Some s" "s \<in> set ACTIVE_STATES"
    using update_task_state_effect(1) [OF update] by (auto simp: state_of_def ACTIVE_STATES_def)
  show ?thesis
    using update by (intro that(2) [of j])
      (auto simp: agent_update_task_state_def Let_def andthen_Inr split: prod.splits
        elim!: changes_oneI [OF _ _ _ _ s] intro!: set_other ids_distinct_set)
next
  case (transfer e j u nt me hlc v)
  then obtain row where "tasks_get d j = Some row" "task_state row \<notin> set TERMINAL_STATES"
    by (auto simp: agent_transfer_task_def exc_simps split: prod.splits)
  then have s: "state_of d j = Some (task_state row)" "task_state row \<in> set ACTIVE_STATES"
    by (cases "task_state row"; simp add: state_of_def ACTIVE_STATES_def TERMINAL_STATES_def)+
  show ?thesis
    using transfer by (intro that(2) [of j])
      (auto simp: agent_transfer_task_def andthen_Inr split: prod.splits
        elim!: changes_oneI [OF _ _ _ _ s] intro!: set_other ids_distinct_set)
next
  case (request e j u me hlc v)
  obtain s where s: "state_of d j = Some s" "s \<in> set ACTIVE_STATES"
    using request_approval_effect(1) [OF request] by (auto simp: state_of_def ACTIVE_STATES_def)
  show ?thesis
    using request by (intro that(2) [of j])
      (auto simp: agent_request_approval_def andthen_Inr set_other split: prod.splits
        elim!: changes_oneI [OF _ _ _ _ s] intro!: ids_distinct_set)
next
  case (approve e j me hlc v)
  obtain s where s: "state_of d j = Some s" "s \<in> set ACTIVE_STATES"
    using approve_task_effect(1) [OF approve] by (auto simp: state_of_def ACTIVE_STATES_def)
  show ?thesis
    using approve by (intro that(2) [of j])
      (auto simp: agent_approve_task_def andthen_Inr split: prod.splits
        elim!: changes_oneI [OF _ _ _ _ s] intro!: set_other ids_distinct_set)
next
  case (reject e j reason me hlc v)
  obtain s where s: "state_of d j = Some s" "s \<in> set ACTIVE_STATES"
    using reject_task_effect(1) [OF reject] by (auto simp: state_of_def ACTIVE_STATES_def)
  show ?thesis
    using reject by (intro that(2) [of j])
      (auto simp: agent_reject_task_def andthen_Inr split: prod.splits
        elim!: changes_oneI [OF _ _ _ _ s] intro!: set_other ids_distinct_set)
qed

definition finished :: "task_state \<Rightarrow> bool" where
  "finished s = (s \<in> {Completed, Failed, Canceled})"

lemma create_cases:
  assumes "agent_create_task cfg e p me hlc d = Inr (v, d')"
  obtains existing c where "ct_client p = Some c" "get_by_client_key d me c = Some existing"
      "task_assignee existing = ct_assignee p" "task_title existing = ct_title p"
      "tasks d' = tasks d" "v = row_to_task d existing"
  | org where "case ct_client p of None \<Rightarrow> True | Some c \<Rightarrow> get_by_client_key d me c = None"
      "insert_new_task cfg e p me org hlc d = Inr (v, d')"
proof -
  obtain org where org: "org_of d me = Inr org"
    using assms by (cases "org_of d me") (simp_all add: agent_create_task_def)
  show thesis
  proof (cases "case ct_client p of None \<Rightarrow> None | Some c \<Rightarrow> get_by_client_key d me c")
    case (Some existing)
    then obtain c where c: "ct_client p = Some c" "get_by_client_key d me c = Some existing"
      by (cases "ct_client p") simp_all
    from assms have hit: "task_assignee existing = ct_assignee p \<and> task_title existing = ct_title p
        \<and> v = row_to_task (audit org (now e) me ''create_task'' (Some ''task'') (Some (task_id existing))
            ''idempotent'' hlc d) existing
        \<and> d' = audit org (now e) me ''create_task'' (Some ''task'') (Some (task_id existing))
            ''idempotent'' hlc d"
      unfolding agent_create_task_def org andthen_simps Some option.case Let_def
      by (auto split: if_splits)
    then have "tasks d' = tasks d" "v = row_to_task d existing"
      by (simp_all add: row_to_task_def get_dependencies_def get_history_def)
    with c hit show thesis by (intro that(1) [of c existing]) blast+
  next
    case None
    with assms org have "insert_new_task cfg e p me org hlc d = Inr (v, d')"
      by (simp add: agent_create_task_def andthen_Inr)
    with None show thesis by (intro that(2)) (simp_all split: option.splits)
  qed
qed

lemma finished_step:
  assumes "task_step cfg d d'" and "ids_distinct d" and "tasks_get d i = Some row"
    and "finished (task_state row)"
  shows "tasks_get d' i = Some row"
  using assms(1)
proof (cases rule: step_shape)
  case (1 e p me hlc v)
  have dead: "task_state row \<notin> {Submitted, InProgress}" using assms(4) by (auto simp: finished_def)
  from 1 show ?thesis
  proof (cases rule: create_cases)
    case 1
    with assms(3) show ?thesis by (simp only: tasks_get_def)
  next
    case (2 org)
    from insert_new_task_Inr [OF 2(2)] obtain d1 g dx where
      d1: "tasks_insert (fresh e 0) (create_task_fields p me) (now e) d = Inr d1"
      and dx: "tasks dx = tasks d1" "d' = check_escalations cfg e g (now e) hlc dx" by blast
    note ins = tasks_insert_get [OF d1]
    have at_i: "tasks_get dx i = Some row"
      using ins(1,2) assms(3) by (auto simp: tasks_get_cong [OF dx(1)])
    moreover have "ids_distinct dx"
      using assms(2) ins(1) in_task_ids [of d "fresh e 0"]
      by (auto simp: dx(1) ins(3) insert_row_def new_task_def)
    ultimately show ?thesis using dead by (simp add: dx(2) check_escalations_other)
  qed
next
  case (2 j)
  then obtain s e me org ln co hlc change view d1 where
    s: "state_of d j = Some s" "s \<in> set ACTIVE_STATES"
    and rc: "record_change cfg e j me org ln co hlc change d = Inr (view, d1)"
    and d': "d' = d1 \<or> (\<exists>g. d' = check_escalations cfg e g (now e) hlc d1)"
    and ch: "\<And>k. k \<noteq> j \<Longrightarrow> tasks_get (change d) k = tasks_get d k" "ids_distinct (change d)"
    using assms(2) unfolding changes_one_def by blast
  have "j \<noteq> i" using s assms(3,4) by (auto simp: state_of_def ACTIVE_STATES_def finished_def)
  then have at_i: "tasks_get d1 i = Some row" "ids_distinct d1"
    using changed_other [OF rc _ ch(2), of i] ch(1) [of i] assms(3) by auto
  moreover have "task_state row \<notin> {Submitted, InProgress}" using assms(4) by (auto simp: finished_def)
  ultimately show ?thesis using d' by (auto simp: check_escalations_other)
qed

text \<open>
  C7. A finished task is frozen: once a task is \<open>Completed\<close>, \<open>Failed\<close> or \<open>Canceled\<close>, no sequence of
  commands (escalations included) changes any column of its row.
\<close>

theorem finished_task_frozen:
  assumes "(task_step cfg)\<^sup>*\<^sup>* d d'" and "budgeted d"
    and "tasks_get d i = Some row" and "finished (task_state row)"
  shows "tasks_get d' i = Some row"
proof -
  have "tasks_get d' i = Some row \<and> budgeted d'"
    using assms(1)
  proof (induction rule: rtranclp_induct)
    case (step d1 d2)
    then show ?case
      using finished_step [OF step.hyps(2)] budgeted_step [OF step.hyps(2)] assms(4)
      by (simp add: budgeted_def)
  qed (use assms in simp)
  then show ?thesis ..
qed

lemma plain_budgeted: "budgeted plain_db"
  by (simp add: budgeted_def budgets_ok_def plain_db_def empty_db_def)

lemma created_budgeted: "budgeted created_db"
  using budgeted_step [OF plain_step_created plain_budgeted] .

theorem finished_task_frozen_witness:
  "map_option task_result (tasks_get
     (after (agent_create_task plain_config (plain_env\<lparr>fresh := (\<lambda>_. ''id-y'')\<rparr>) (plain_task []) ''alice'' ''h4''
        finished_db)) ''id-x'') = Some (Some ''done'')"
proof -
  let ?r = "agent_create_task plain_config (plain_env\<lparr>fresh := (\<lambda>_. ''id-y'')\<rparr>) (plain_task []) ''alice'' ''h4'' finished_db"
  have "succeeds ?r" by code_simp
  from after_Inr [OF this] have "task_step plain_config finished_db (after ?r)"
    by (auto intro: task_step.create)
  then have "(task_step plain_config)\<^sup>*\<^sup>* finished_db (after ?r)" ..
  moreover have "budgeted finished_db"
    using budgeted_step [OF plain_step_finished] budgeted_step [OF plain_step_started] created_budgeted by blast
  moreover obtain row where row: "tasks_get finished_db ''id-x'' = Some row"
      "task_state row = Completed" "task_result row = Some ''done''"
  proof -
    have "map_option (\<lambda>r. (task_state r, task_result r)) (tasks_get finished_db ''id-x'')
        = Some (Completed, Some ''done'')" by code_simp
    with that show thesis by (cases "tasks_get finished_db ''id-x''") auto
  qed
  ultimately show ?thesis
    using finished_task_frozen [of plain_config finished_db "after ?r" "''id-x''" row]
    by (simp add: finished_def)
qed

section \<open>The dependency gate\<close>

definition visible :: "env \<Rightarrow> database \<Rightarrow> string \<Rightarrow> string \<Rightarrow> bool" where
  "visible e d i me = (\<exists>x. task_visible_or_404 e d i me True = Inr x)"

lemma task_visible_Inl:
  "task_visible_or_404 e d i me allow = Inl err \<Longrightarrow> err = ApiError TASK_NOT_FOUND Default"
  by (auto simp: task_visible_or_404_def split: option.splits if_splits)

lemma visible_cases:
  obtains "task_visible_or_404 e d i me allow = Inl (ApiError TASK_NOT_FOUND Default)"
  | row dg where "task_visible_or_404 e d i me allow = Inr (row, dg)" "tasks_get d i = Some row"
proof (cases "task_visible_or_404 e d i me allow")
  case (Inl err)
  with task_visible_Inl [OF Inl] show ?thesis using that(1) by simp
next
  case (Inr x)
  then obtain row dg where "task_visible_or_404 e d i me allow = Inr (row, dg)" by (cases x) simp
  then show ?thesis using that(2) [of row dg] task_visible_Inr [of e d i me allow row dg] by simp
qed

lemma record_change_total:
  assumes "tasks_get (change d) i = Some row"
  shows "\<exists>view d'. record_change cfg e i me org ln co hlc change d = Inr (view, d')"
proof -
  have "tasks_get (add_event x (change d)) i = Some row" for x :: task_event_entry
    using assms by (simp add: tasks_get_def)
  then show ?thesis by (simp add: record_change_def Let_def split_beta)
qed

text \<open>
  C4. \<open>update_task_state\<close> decides its answer in this order: an invisible task is \<open>TASK_NOT_FOUND\<close>, a
  transition the table does not list is \<open>TASK_STATE_INVALID\<close>, starting with a dependency that
  exists and is not completed is \<open>TASK_DEPENDENCY_NOT_MET\<close>, and every other call succeeds.
\<close>

theorem update_task_state_outcome:
  assumes "accounts_get d me \<noteq> None"
  shows "error_code (agent_update_task_state cfg e i st res me hlc d) =
    (case tasks_get d i of
       None \<Rightarrow> Some TASK_NOT_FOUND
     | Some row \<Rightarrow>
         if \<not> visible e d i me then Some TASK_NOT_FOUND
         else if (task_state row, st) \<notin> {(Submitted, InProgress), (Submitted, Canceled),
             (InProgress, Completed), (InProgress, Failed), (InProgress, Canceled)}
         then Some TASK_STATE_INVALID
         else if st = InProgress \<and> (\<exists>r \<in> set (dependencies d). \<exists>t \<in> set (tasks d).
             dep_task r = i \<and> task_id t = dep_on r \<and> task_state t \<noteq> Completed)
         then Some TASK_DEPENDENCY_NOT_MET else None)"
proof (cases rule: visible_cases [of e d i me True])
  case 1
  then show ?thesis by (simp add: agent_update_task_state_def visible_def split: option.split)
next
  case (2 row dg)
  obtain org where org: "org_of d me = Inr org" using assms by (auto simp: org_of_def split: option.splits)
  have met: "dependencies_met d i = (\<not> (\<exists>r \<in> set (dependencies d). \<exists>t \<in> set (tasks d).
      dep_task r = i \<and> task_id t = dep_on r \<and> task_state t \<noteq> Completed))"
    by (auto simp: dependencies_met_iff)
  have vis: "visible e d i me" using 2 by (simp add: visible_def)
  show ?thesis
  proof (cases "ensure_transition (task_state row) st")
    case (Inl err)
    have no: "(task_state row, st) \<notin> {(Submitted, InProgress), (Submitted, Canceled),
             (InProgress, Completed), (InProgress, Failed), (InProgress, Canceled)}"
      using Inl ensure_transition_Inr [of "task_state row" st "()"] by force
    show ?thesis
      using Inl 2 org vis ensure_transition_Inl [OF Inl]
      by (simp only: option.case if_P [OF no] if_False not_not)
        (simp add: agent_update_task_state_def)
  next
    case (Inr u)
    note tr = Inr [unfolded ensure_transition_Inr]
    show ?thesis
    proof (cases "st = InProgress \<and> \<not> dependencies_met d i")
      case True
      with 2 org vis Inr tr met show ?thesis by (simp add: agent_update_task_state_def)
    next
      case False
      have "tasks_get (set_state i st r (now e) d) i \<noteq> None" for r
        using 2(2) by (simp add: tasks_get_set)
      then obtain view d1 where rc: "record_change cfg e i me org (''state_changed:'' @ state_text (task_state row) @ ''->'' @ state_text st,
           None, TaskStateChanged)
          (''update_task_state'',
           if \<not> dg then state_text st else state_text st @ '':delegated'')
          hlc (set_state i st (if st \<in> {Completed, Failed} then res else None) (now e)) d = Inr (view, d1)"
        using record_change_total by blast
      with 2 org Inr False have "\<exists>x. agent_update_task_state cfg e i st res me hlc d = Inr x"
        by (simp add: agent_update_task_state_def Let_def)
      then have "error_code (agent_update_task_state cfg e i st res me hlc d) = None"
        by (simp only: error_code_None)
      with 2(2) vis tr met False show ?thesis by simp
    qed
  qed
qed

text \<open>A second task that waits for the first, in the same small world.\<close>

definition waiting_db :: database where
  "waiting_db = after (agent_create_task plain_config (plain_env\<lparr>fresh := (\<lambda>_. ''id-y'')\<rparr>)
     (plain_task [''id-x'']) ''alice'' ''h2'' created_db)"

theorem update_task_state_outcome_witness:
  "error_code (agent_update_task_state plain_config plain_env ''id-y'' InProgress None ''bob'' ''h3'' waiting_db) =
     Some TASK_DEPENDENCY_NOT_MET"
proof -
  have "accounts_get waiting_db ''bob'' \<noteq> None" by code_simp
  note run = update_task_state_outcome [OF this, of plain_config plain_env "''id-y''" InProgress None "''h3''"]
  obtain row where row: "tasks_get waiting_db ''id-y'' = Some row" "task_state row = Submitted"
  proof -
    have "state_of waiting_db ''id-y'' = Some Submitted" by code_simp
    with that show thesis by (auto simp: state_of_def)
  qed
  have "case task_visible_or_404 plain_env waiting_db ''id-y'' ''bob'' True of Inl _ \<Rightarrow> False | Inr _ \<Rightarrow> True"
    by code_simp
  then have "visible plain_env waiting_db ''id-y'' ''bob''" by (simp add: visible_def split: sum.splits)
  moreover have "\<exists>r \<in> set (dependencies waiting_db). \<exists>t \<in> set (tasks waiting_db).
      dep_task r = ''id-y'' \<and> task_id t = dep_on r \<and> task_state t \<noteq> Completed" by code_simp
  ultimately show ?thesis using run row by simp
qed

lemma dependencies_met_state_of:
  assumes "ids_distinct d"
  shows "dependencies_met d i \<longleftrightarrow> (\<forall>r \<in> set (dependencies d). dep_task r = i \<longrightarrow>
    state_of d (dep_on r) \<in> {None, Some Completed})"
proof -
  have "(\<forall>t \<in> set (tasks d). task_id t = j \<longrightarrow> task_state t = Completed) \<longleftrightarrow>
      state_of d j \<in> {None, Some Completed}" for j
  proof (cases "tasks_get d j")
    case None
    then show ?thesis by (auto simp: state_of_def tasks_get_def fetch_None_iff)
  next
    case (Some t)
    have "t' = t" if "t' \<in> set (tasks d)" "task_id t' = j" for t'
      using tasks_get_in [OF assms that(1)] that(2) Some by simp
    with Some show ?thesis by (auto simp: state_of_def dest: tasks_getD)
  qed
  then show ?thesis by (simp only: dependencies_met_iff)
qed

text \<open>
  C9. The approval round trip goes around the dependency gate: when a task whose dependencies are
  not met is sent for approval and the approver refuses, it is \<open>InProgress\<close> with its
  dependencies still not met, a state \<open>update_task_state\<close> refuses to enter.
\<close>

theorem approval_bypasses_dependencies:
  assumes "ids_distinct d" and "\<not> dependencies_met d i"
    and "agent_request_approval cfg e i approver me hlc d = Inr (v1, d1)"
    and "agent_reject_task cfg e' i reason approver hlc' d1 = Inr (v2, d2)"
  shows "state_of d2 i = Some InProgress \<and> \<not> dependencies_met d2 i"
proof -
  have frame: "dependencies d1 = dependencies d" "dependencies d2 = dependencies d1"
    using assms(3,4) by (auto simp: agent_request_approval_def agent_reject_task_def andthen_Inr set_state_frame
        dest!: record_change_Inr(2) split: prod.splits)
  have "ids_distinct d1"
    using assms(3,1) by (auto simp: agent_request_approval_def andthen_Inr
        dest!: record_change_Inr(1) split: prod.splits intro!: ids_distinct_set)
  then have ids: "ids_distinct d2"
    using assms(4) by (auto simp: agent_reject_task_def andthen_Inr
        dest!: record_change_Inr(1) split: prod.splits intro!: ids_distinct_set)
  have st: "state_of d2 j = (if j = i then Some InProgress else state_of d j)" for j
    using request_approval_effect(2) [OF assms(3)] reject_task_effect(2) [OF assms(4)] by simp
  obtain r where r: "r \<in> set (dependencies d)" "dep_task r = i" "state_of d (dep_on r) \<notin> {None, Some Completed}"
    using assms(2) by (auto simp: dependencies_met_state_of [OF assms(1)])
  then have "state_of d2 (dep_on r) \<notin> {None, Some Completed}" by (simp add: st)
  with r(1,2) have "\<not> dependencies_met d2 i"
    by (auto simp: dependencies_met_state_of [OF ids] frame)
  then show ?thesis by (simp add: st)
qed

theorem approval_bypasses_dependencies_witness:
  "state_of (after (agent_reject_task plain_config plain_env ''id-y'' None ''carol'' ''h4''
     (after (agent_request_approval plain_config plain_env ''id-y'' ''carol'' ''bob'' ''h3'' waiting_db))))
     ''id-y'' = Some InProgress"
proof -
  let ?r = "agent_request_approval plain_config plain_env ''id-y'' ''carol'' ''bob'' ''h3'' waiting_db"
  let ?q = "agent_reject_task plain_config plain_env ''id-y'' None ''carol'' ''h4'' (after ?r)"
  have "ids_distinct waiting_db" "\<not> dependencies_met waiting_db ''id-y''" by code_simp+
  moreover have "succeeds ?r" "succeeds ?q" by code_simp+
  then obtain v1 v2 where "?r = Inr (v1, after ?r)" "?q = Inr (v2, after ?q)"
    using after_Inr [of ?r] after_Inr [of ?q] by blast
  ultimately show ?thesis
    using approval_bypasses_dependencies by blast
qed

section \<open>Budgets\<close>

text \<open>
  C6. Task budgets hold forever: when no agent has more active tasks than its budget, none has
  after any sequence of task commands, with escalation assigning tasks on its own.
\<close>

theorem task_budget_respected:
  assumes "(task_step cfg)\<^sup>*\<^sup>* d d'" and "budgeted d"
    and "budget_get d' u = Some b" and "bud_tasks b = Some n"
  shows "int (active_count d' u) \<le> n"
proof -
  have "budgeted d'" using assms(1,2) by (induction rule: rtranclp_induct) (auto intro: budgeted_step)
  then show ?thesis using assms(3,4) by (auto simp: budgeted_def intro: budgets_okD)
qed

definition tight_db :: database where
  "tight_db = plain_db\<lparr>budgets := [\<lparr>bud_username = ''bob'', bud_tasks = Some 1, bud_messages = None\<rparr>]\<rparr>"

theorem task_budget_respected_witness:
  "int (active_count (after (agent_create_task plain_config plain_env (plain_task []) ''alice'' ''h1'' tight_db)) ''bob'') \<le> 1
   \<and> 0 < active_count (after (agent_create_task plain_config plain_env (plain_task []) ''alice'' ''h1'' tight_db)) ''bob''"
proof -
  let ?r = "agent_create_task plain_config plain_env (plain_task []) ''alice'' ''h1'' tight_db"
  have "succeeds ?r" by code_simp
  from after_Inr [OF this] have "task_step plain_config tight_db (after ?r)" by (auto intro: task_step.create)
  then have "(task_step plain_config)\<^sup>*\<^sup>* tight_db (after ?r)" ..
  moreover have "budgeted tight_db"
    by (simp add: budgeted_def budgets_ok_def tight_db_def plain_db_def empty_db_def active_count_def count_where_def)
  moreover have "budget_get (after ?r) ''bob'' = Some \<lparr>bud_username = ''bob'', bud_tasks = Some 1, bud_messages = None\<rparr>"
    by code_simp
  ultimately have "int (active_count (after ?r) ''bob'') \<le> 1" by (rule task_budget_respected) simp
  moreover have "0 < active_count (after ?r) ''bob''" by code_simp
  ultimately show ?thesis by simp
qed

section \<open>Who may act on a task\<close>

lemma hidden_visible:
  assumes "tasks_get d i = Some row" and "task_creator row \<noteq> me" and "task_assignee row \<noteq> me"
    and "\<forall>x \<in> set (delegations d). del_delegatee x = me \<and> del_task x = i \<longrightarrow> del_expires_at x \<le> now e"
  shows "task_visible_or_404 e d i me allow = Inl (ApiError TASK_NOT_FOUND Default)"
  using assms by (auto simp: task_visible_or_404_def)



text \<open>
  C8. Four eyes: once \<open>me\<close> asked \<open>u\<close> to approve, \<open>me\<close> is not \<open>u\<close>, an answer of anyone but \<open>u\<close> (the
  requester too) is refused as for an unknown task, and \<open>u\<close>'s approval succeeds and completes the
  task.
\<close>

theorem four_eyes:
  assumes "agent_request_approval cfg e i u me hlc d = Inr (v, d1)"
  shows "u \<noteq> me
    \<and> (w \<noteq> u \<longrightarrow> agent_approve_task cfg e' i w hlc' d1 = Inl (ApiError TASK_NOT_FOUND Default)
         \<and> agent_reject_task cfg e' i reason w hlc' d1 = Inl (ApiError TASK_NOT_FOUND Default))
    \<and> (\<exists>v' d2. agent_approve_task cfg e' i u hlc' d1 = Inr (v', d2) \<and> state_of d2 i = Some Completed)"
proof -
  from assms obtain org line change where acc: "accounts_get d u \<noteq> None" and ne: "u \<noteq> me"
    and row: "tasks_get d i \<noteq> None"
    and rc: "record_change cfg e i me org line (''request_approval'', u) hlc
       (set_state i PendingApproval None (now e) \<circ> set_approver i u (now e)) d = Inr (v, d1)"
    by (auto simp: agent_request_approval_def exc_simps split: prod.splits)
  note fr = record_change_Inr [OF rc]
  have "tasks_get d1 i = tasks_get ((set_state i PendingApproval None (now e) \<circ> set_approver i u (now e)) d) i"
    by (rule fun_cong [OF tasks_get_cong [OF fr(1)]])
  with row obtain r where r: "tasks_get d1 i = Some r" "task_approver r = Some u" "task_state r = PendingApproval"
    by (auto simp: tasks_get_set)
  have "accounts_get d1 u \<noteq> None" using acc fr(4) by (simp add: accounts_get_def set_state_frame)
  then obtain g where g: "org_of d1 u = Inr g" by (auto simp: org_of_def split: option.splits)
  have other: "pending_for d1 i w = Inl (ApiError TASK_NOT_FOUND Default)" if "w \<noteq> u"
    using r that by (simp add: pending_for_def)
  have mine: "pending_for d1 i u = Inr (r, g)" using r g by (simp add: pending_for_def)
  obtain y where "tasks_get (set_state i Completed (task_result r) (now e') d1) i = Some y"
    using r by (simp add: tasks_get_set)
  from record_change_total [of "set_state i Completed (task_result r) (now e')" d1 i y, OF this]
  have "\<exists>v' d2. agent_approve_task cfg e' i u hlc' d1 = Inr (v', d2)"
    by (simp add: agent_approve_task_def mine)
  then obtain v' d2 where "agent_approve_task cfg e' i u hlc' d1 = Inr (v', d2)" by blast
  with approve_task_effect(2) [OF this, of i] ne other show ?thesis
    by (auto simp: agent_approve_task_def agent_reject_task_def)
qed

theorem four_eyes_witness:
  "error_code (agent_approve_task plain_config plain_env ''id-x'' ''bob'' ''h4''
     (after (agent_request_approval plain_config plain_env ''id-x'' ''carol'' ''bob'' ''h3'' created_db)))
   = Some TASK_NOT_FOUND"
proof -
  have "succeeds (agent_request_approval plain_config plain_env ''id-x'' ''carol'' ''bob'' ''h3'' created_db)"
    by code_simp
  from after_Inr [OF this] show ?thesis using four_eyes by fastforce
qed

section \<open>Retrying a creation\<close>

text \<open>The creator's client key goes on naming the same task.\<close>

definition holds_key :: "string \<Rightarrow> string \<Rightarrow> string \<Rightarrow> string \<Rightarrow> database \<Rightarrow> bool" where
  "holds_key me c i title d = (\<exists>row. get_by_client_key d me c = Some row \<and> task_id row = i \<and> task_title row = title)"

lemma holds_key_cong: "tasks d' = tasks d \<Longrightarrow> holds_key me c i title d' = holds_key me c i title d"
  by (simp add: holds_key_def get_by_client_key_def)

lemma holds_key_update:
  assumes "holds_key me c i title d"
    and "\<And>t. task_id (f t) = task_id t \<and> task_creator (f t) = task_creator t
      \<and> task_client_id (f t) = task_client_id t \<and> task_title (f t) = task_title t"
  shows "holds_key me c i title (update_task j f d)"
proof -
  have "get_by_client_key (update_task j f d) me c =
      map_option (\<lambda>r. if task_id r = j then f r else r) (get_by_client_key d me c)"
    unfolding get_by_client_key_def update_task_def by (simp, rule fetch_update_where_key) (simp add: assms(2))
  with assms show ?thesis by (auto simp: holds_key_def)
qed

lemma holds_key_set:
  assumes "holds_key me c i title d"
  shows "holds_key me c i title (set_state j st res at d)" "holds_key me c i title (set_assignee j u at d)"
    "holds_key me c i title (set_approver j u at d)"
  unfolding set_state_def set_assignee_def set_approver_def
  by (rule holds_key_update [OF assms], simp)+

lemma holds_key_insert:
  assumes "holds_key me c i title d" and "tasks_insert j f at d = Inr d'"
  shows "holds_key me c i title d'"
  using assms by (auto simp: holds_key_def get_by_client_key_def tasks_insert_get(3) [OF assms(2)]
      insert_row_def fetch_append)

lemma holds_key_frame [simp]:
  "holds_key me c i title (add_event x d) = holds_key me c i title d"
  "holds_key me c i title (task_event cfg e org t et by at h d) = holds_key me c i title d"
  "holds_key me c i title (audit org at actor cm tt target out h d) = holds_key me c i title d"
  "holds_key me c i title (d\<lparr>dependencies := ds\<rparr>) = holds_key me c i title d"
  by (rule holds_key_cong, simp)+

interpretation tk: task_invariant "holds_key me c i title" for me c i title
  by unfold_locales (auto simp: replace_dependencies_Inr intro: holds_key_set holds_key_insert)

lemma created_holds_key:
  assumes "agent_create_task cfg e p me hlc d = Inr (v, d1)" and "ct_client p = Some c"
  shows "holds_key me c (task_id (tv_row v)) (ct_title p) d1"
  using assms(1)
proof (cases rule: create_cases)
  case (1 existing c')
  with assms(2) show ?thesis by (simp add: holds_key_def get_by_client_key_def row_to_task_def)
next
  case (2 org)
  let ?i = "fresh e 0" and ?f = "create_task_fields p me"
  from insert_new_task_Inr [OF 2(2)] obtain d0 g dx where
    d0: "tasks_insert ?i ?f (now e) d = Inr d0" and dx: "tasks dx = tasks d0"
    and d1: "d1 = check_escalations cfg e g (now e) hlc dx" and v: "tv_row v = new_task ?i ?f (now e)" by blast
  have "get_by_client_key d me c = None" using 2(1) assms(2) by simp
  then have "holds_key me c (task_id (tv_row v)) (ct_title p) d0"
    by (simp add: holds_key_def get_by_client_key_def tasks_insert_get(3) [OF d0] insert_row_def fetch_append
        fetch_Cons new_task_def create_task_fields_def assms(2) v)
  then have "holds_key me c (task_id (tv_row v)) (ct_title p) dx" by (simp only: holds_key_cong [OF dx])
  then show ?thesis unfolding d1 by (rule tk.writes.checked)
qed

text \<open>
  A creation with a client key happens once: when \<open>me\<close> sends it again, however much later and
  whatever commands ran in between, no task is created; the answer is the task of the first
  call, or \<open>INVALID_ARGUMENT\<close> when it has another assignee by now.
\<close>

theorem create_task_retry:
  assumes "agent_create_task cfg e p me hlc d = Inr (v, d1)" and "ct_client p = Some c"
    and "(task_step cfg)\<^sup>*\<^sup>* d1 d2" and "accounts_get d2 me \<noteq> None"
  shows "case agent_create_task cfg e' p me hlc' d2 of
      Inr (v', d3) \<Rightarrow> task_id (tv_row v') = task_id (tv_row v) \<and> tasks d3 = tasks d2
    | Inl err \<Rightarrow> err = ApiError INVALID_ARGUMENT INVALID_ARGUMENT_CLIENT_TASK_ID_USED"
proof -
  have "holds_key me c (task_id (tv_row v)) (ct_title p) d2"
    using tk.steps [OF assms(3)] created_holds_key [OF assms(1,2)] by blast
  then obtain row where row: "get_by_client_key d2 me c = Some row" "task_id row = task_id (tv_row v)"
      "task_title row = ct_title p" by (auto simp: holds_key_def)
  obtain org where "org_of d2 me = Inr org" using assms(4) by (auto simp: org_of_def split: option.splits)
  then show ?thesis
    by (simp add: agent_create_task_def assms(2) row Let_def row_to_task_def)
qed

definition keyed_task :: create_task_params where
  "keyed_task = (plain_task [])\<lparr>ct_client := Some ''key-1''\<rparr>"

definition keyed_db :: database where
  "keyed_db = after (agent_create_task plain_config plain_env keyed_task ''alice'' ''h1'' plain_db)"

theorem create_task_retry_witness:
  "length (tasks (after (agent_create_task plain_config plain_env keyed_task ''alice'' ''h2'' keyed_db))) = 1"
proof -
  let ?r = "agent_create_task plain_config plain_env keyed_task ''alice'' ''h1'' plain_db"
  let ?q = "agent_create_task plain_config plain_env keyed_task ''alice'' ''h2'' keyed_db"
  have ok: "succeeds ?r" "succeeds ?q" "accounts_get keyed_db ''alice'' \<noteq> None" "length (tasks keyed_db) = 1"
    by code_simp+
  obtain v where r: "?r = Inr (v, keyed_db)" using after_Inr [OF ok(1)] by (auto simp: keyed_db_def)
  obtain v' d3 where q: "?q = Inr (v', d3)" using after_Inr [OF ok(2)] by blast
  have "ct_client keyed_task = Some ''key-1''" by (simp add: keyed_task_def)
  from create_task_retry [OF r this _ ok(3), of plain_env "''h2''"] ok(4) show ?thesis by (simp add: q after_def)
qed

section \<open>Journals only grow\<close>

lemma grows_append: "\<exists>zs. xs @ ys = xs @ zs"
  by blast

interpretation tp: task_invariant "\<lambda>d. \<exists>ys zs. audit_log d = xs @ ys \<and> task_events d = es @ zs" for xs es
  by unfold_locales
    (auto simp: audit_def audit_append_def add_event_def insert_row_def set_state_def set_assignee_def
      set_approver_def tasks_insert_def replace_dependencies_Inr split: if_splits)

text \<open>
  The audit log and the task history are append-only under the task commands, with row ids
  that stay distinct: no command rewrites or drops what an earlier one recorded.
\<close>

theorem task_journals_append_only:
  assumes "(task_step cfg)\<^sup>*\<^sup>* d d'" and "tasks_wf d" and "task_refs d" and "aj.wf d"
  shows "(\<exists>ys. audit_log d' = audit_log d @ ys) \<and> (\<exists>zs. task_events d' = task_events d @ zs)
    \<and> distinct (map au_id (audit_log d')) \<and> distinct (map te_id (task_events d'))"
proof -
  have "tasks_wf d'" using ti.steps [OF assms(1)] assms(2,3) by blast
  then have "distinct (map te_id (task_events d'))" by (simp add: tasks_wf_def tj.wf_distinct)
  moreover have "distinct (map au_id (audit_log d'))"
    using ta.steps [OF assms(1,4)] by (rule aj.wf_distinct)
  ultimately show ?thesis using tp.steps [OF assms(1), of "audit_log d" "task_events d"] by auto
qed

theorem task_journals_append_only_witness:
  "\<exists>ys. audit_log finished_db = audit_log plain_db @ ys"
proof -
  have run: "(task_step plain_config)\<^sup>*\<^sup>* plain_db finished_db"
    by (rule plain_run)
  have "tasks_wf plain_db" "task_refs plain_db" "aj.wf plain_db"
    by (simp_all add: plain_db_def tasks_wf_def client_keys_def tj.wf_def aj.wf_def List.map_filter_def
        empty_db_def task_refs_def)
  from task_journals_append_only [OF run this] show ?thesis by blast
qed

text \<open>
  Event chains survive: with the links right before, after any sequence of task commands every
  event names, as its predecessor, the latest event of its principal before it that is still
  retained (or one that retention has purged), and sequence numbers are distinct.
\<close>

theorem task_event_chain:
  assumes "(task_step cfg)\<^sup>*\<^sup>* d d'" and "events_wf d" and "x \<in> set (events d')"
  shows "linked (events d') x"
  using te.steps [OF assms(1,2)] assms(3) by (simp add: events_wf_def chained_def)

theorem task_event_chain_witness:
  "\<exists>x \<in> set (events finished_db). ev_prev x \<noteq> None \<and> linked (events finished_db) x"
proof -
  have run: "(task_step plain_config)\<^sup>*\<^sup>* plain_db finished_db"
    by (rule plain_run)
  have "events_wf plain_db"
    by (simp add: plain_db_def events_wf_def chained_def ej.wf_def empty_db_def)
  then have "linked (events finished_db) x" if "x \<in> set (events finished_db)" for x
    using task_event_chain [OF run] that by blast
  moreover have "\<exists>x \<in> set (events finished_db). ev_prev x \<noteq> None" by code_simp
  ultimately show ?thesis by blast
qed

end
