(* ===== verification/Preservation.thy ===== *)
theory Preservation
  imports Dispatch MessageProperties TaskProperties
begin

text \<open>
  What every command keeps. The handlers write through the operations of the store; a predicate
  that these operations keep, under the conditions the handlers establish, is kept by every
  handler (the locales \<open>plain_writes\<close> and \<open>stamped_writes\<close>) and by every request, refused ones
  included (\<open>service_invariant\<close>).
\<close>

section \<open>Handlers without a stamp\<close>

locale plain_writes = message_invariant P for P :: "database \<Rightarrow> bool" +
  assumes new_account: "P d \<Longrightarrow> accounts_get d u = None
      \<Longrightarrow> P (accounts_insert u h st desc org see pt at' d)"
    and changed_account: "P d \<Longrightarrow> (\<And>a. acc_username (f a) = acc_username a \<and> acc_org (f a) = acc_org a
        \<and> acc_principal (f a) = acc_principal a \<and> acc_created_at (f a) = acc_created_at a)
      \<Longrightarrow> P (update_account u f d)"
    and new_org: "P d \<Longrightarrow> organizations_get d n = None \<Longrightarrow> P (organizations_insert n h i out at' d)"
    and changed_org: "P d \<Longrightarrow> (\<And>g. org_name (k g) = org_name g \<and> org_created_at (k g) = org_created_at g
        \<and> (org_enabled (k g) \<longrightarrow> org_enabled g))
      \<Longrightarrow> P (d\<lparr>organizations := update_where (\<lambda>g. org_name g = n) k (organizations d)\<rparr>)"
    and card_table: "P d \<Longrightarrow> P (d\<lparr>agent_cards := cs\<rparr>)"
    and department_table: "P d \<Longrightarrow> P (d\<lparr>departments := ds\<rparr>)"
    and membership_table: "P d \<Longrightarrow> P (d\<lparr>memberships := ms\<rparr>)"
    and failure_table: "P d \<Longrightarrow> P (d\<lparr>auth_failures := fs\<rparr>)"
begin

lemmas plain_rules = new_account changed_account new_org changed_org card_table department_table
  membership_table failure_table

lemma account_ops:
  "P d \<Longrightarrow> P (set_status u st d)" "P d \<Longrightarrow> P (set_password_hash u h d)"
  "P d \<Longrightarrow> P (set_visibility u see d)" "P d \<Longrightarrow> P (update_policies n i out d)"
  "P d \<Longrightarrow> P (update_password n h d)"
  by (auto simp: set_status_def set_password_hash_def set_visibility_def update_policies_def
      update_password_def intro!: changed_account changed_org)

lemma card_ops: "P d \<Longrightarrow> P (cards_upsert u f at' d)" "P d \<Longrightarrow> P (cards_approve u by' at' d)"
  by (simp_all add: cards_upsert_def cards_approve_def card_table)

lemma failures_kept: "P d \<Longrightarrow> P (authfail_prune c d)" "P d \<Longrightarrow> P (authfail_record u t d)"
  "P d \<Longrightarrow> P (authfail_clear u d)"
  by (simp_all add: authfail_prune_def authfail_record_def authfail_clear_def failure_table)

lemma org_create_agent_keeps: "P d \<Longrightarrow> org_create_agent e p org d = Inr (x, d') \<Longrightarrow> P d'"
  by (auto simp: org_create_agent_def Let_def exc_simps intro: new_account)

lemma org_status_keeps:
  "P d \<Longrightarrow> org_deactivate_agent u org d = Inr (x, d') \<Longrightarrow> P d'"
  "P d \<Longrightarrow> org_reactivate_agent u org d = Inr (x, d') \<Longrightarrow> P d'"
  "P d \<Longrightarrow> org_change_password e u pw org d = Inr (y, d') \<Longrightarrow> P d'"
  "P d \<Longrightarrow> org_set_visibility u see org d = Inr (z, d') \<Longrightarrow> P d'"
  "P d \<Longrightarrow> org_change_agent_description u desc org d = Inr (w, d') \<Longrightarrow> P d'"
  by (auto simp: org_deactivate_agent_def org_reactivate_agent_def org_change_password_def
      org_set_visibility_def org_change_agent_description_def Let_def exc_simps
      intro: account_ops intro!: changed_account split: if_splits)

lemma org_settings_keeps:
  "P d \<Longrightarrow> org_set_policy i out org d = Inr (x, d') \<Longrightarrow> P d'"
  "P d \<Longrightarrow> org_change_organization_password e pw org d = Inr (y, d') \<Longrightarrow> P d'"
  "P d \<Longrightarrow> org_approve_agent_card e u org d = Inr (y, d') \<Longrightarrow> P d'"
  "P d \<Longrightarrow> org_create_department e dept org d = Inr (z, d') \<Longrightarrow> P d'"
  "P d \<Longrightarrow> org_set_agent_department e u dept r org d = Inr (w, d') \<Longrightarrow> P d'"
  by (auto simp: org_set_policy_def org_change_organization_password_def org_approve_agent_card_def
      org_create_department_def org_set_agent_department_def Let_def exc_simps
      intro: account_ops card_ops department_table membership_table)

lemma human_create_org_keeps:
  assumes "P d" and "human_create_org e org pw d = Inr (x, d')"
  shows "P d'"
proof -
  let ?u = "human_username_for (\<lambda>n. take 8 (sha256 e n)) org"
  let ?d1 = "organizations_insert org (hash_pw e pw) False False (now e) d"
  from assms(2) have free: "organizations_get d org = None" "accounts_get d ?u = None"
    and d': "d' = accounts_insert ?u (sentinel e) Active
      (''Human account of the organization '' @ org @ '' (web access)'') org True Human (now e) ?d1"
    by (auto simp: human_create_org_def Let_def exc_simps)
  have "accounts_get ?d1 ?u = None" using free(2) by (simp add: accounts_get_def organizations_insert_def)
  then show ?thesis unfolding d' by (intro new_account new_org assms(1) free)
qed

lemma human_disable_org_keeps: "P d \<Longrightarrow> human_disable_org g me d = Inr (x, d') \<Longrightarrow> P d'"
  by (auto simp: human_disable_org_def exc_simps intro!: changed_org)

lemma agent_message_keeps:
  "P d \<Longrightarrow> agent_send_message e p me d = Inr (x, d') \<Longrightarrow> P d'"
  "P d \<Longrightarrow> agent_read_message e i me d d = Inr (x, d') \<Longrightarrow> P d'"
  "P d \<Longrightarrow> agent_mark_conversation_no_reply e i me d = Inr (y, d') \<Longrightarrow> P d'"
  by (blast intro: step message_step.intros)+

lemma agent_set_agent_card_keeps: "P d \<Longrightarrow> agent_set_agent_card e f me d = Inr (x, d') \<Longrightarrow> P d'"
  by (auto simp: agent_set_agent_card_def Let_def exc_simps intro: card_ops)

end

section \<open>Handlers with a stamp\<close>

locale stamped_writes = plain_writes P + task_writes P H for P :: "database \<Rightarrow> bool" and H :: string +
  assumes setting_table: "P d \<Longrightarrow> P (d\<lparr>org_settings := ss\<rparr>)"
    and policy_table: "P d \<Longrightarrow> P (d\<lparr>policies := ps\<rparr>)"
    and budget_table: "P d \<Longrightarrow> P (d\<lparr>budgets := bs\<rparr>)"
    and new_group: "P d \<Longrightarrow> fetch (\<lambda>x. grp_id x = grp_id g) (groups d) = None
      \<Longrightarrow> P (d\<lparr>groups := insert_row g (groups d)\<rparr>)"
    and group_member_table: "P d \<Longrightarrow> P (d\<lparr>group_members := gs\<rparr>)"
    and group_message: "P d \<Longrightarrow> insert_group_message m d = Inr d' \<Longrightarrow> P d'"
    and delegation_table: "P d \<Longrightarrow> P (d\<lparr>delegations := xs\<rparr>)"
    and delegation_sequence: "P d \<Longrightarrow> P (d\<lparr>delegations_seq := n\<rparr>)"
begin

lemma org_stamped_keeps:
  "P d \<Longrightarrow> org_set_event_retention_days e days org H d = Inr (x, d') \<Longrightarrow> P d'"
  "P d \<Longrightarrow> org_set_escalation_policy e p org H d = Inr (y, d') \<Longrightarrow> P d'"
  "P d \<Longrightarrow> org_set_agent_budget e u mt mm org H d = Inr (z, d') \<Longrightarrow> P d'"
  by (auto simp: org_set_event_retention_days_def org_set_escalation_policy_def org_set_agent_budget_def
      Let_def exc_simps intro!: audited setting_table policy_table budget_table)

lemma observer_keeps:
  "P d \<Longrightarrow> org_create_observer_account e p org H d = Inr (x, d') \<Longrightarrow> P d'"
  "P d \<Longrightarrow> org_revoke_observer_account e u org H d = Inr (x, d') \<Longrightarrow> P d'"
  by (auto simp: org_create_observer_account_def org_revoke_observer_account_def Let_def exc_simps
      intro!: audited changed_account new_account account_ops)

lemma group_keeps:
  "P d \<Longrightarrow> agent_create_group e nm me H d = Inr (x, d') \<Longrightarrow> P d'"
  "P d \<Longrightarrow> agent_add_group_member e g u me H d = Inr (y, d') \<Longrightarrow> P d'"
  "P d \<Longrightarrow> agent_remove_group_member e g u me H d = Inr (y, d') \<Longrightarrow> P d'"
  by (auto simp: agent_create_group_def agent_add_group_member_def agent_remove_group_member_def Let_def
      exc_simps intro!: audited group_member_table new_group split: if_splits)

lemma group_message_keeps:
  "P d \<Longrightarrow> agent_send_group_message e p me H d = Inr (x, d') \<Longrightarrow> P d'"
  by (auto simp: agent_send_group_message_def Let_def exc_simps split: option.splits
      intro!: audited elim: group_message)

lemma delegation_keeps:
  "P d \<Longrightarrow> agent_create_delegation e i u until me H d = Inr (x, d') \<Longrightarrow> P d'"
  "P d \<Longrightarrow> agent_revoke_delegation e i u me H d = Inr (y, d') \<Longrightarrow> P d'"
  by (auto simp: agent_create_delegation_def agent_revoke_delegation_def Let_def exc_simps
      intro!: audited delegation_table delegation_sequence)

end

section \<open>Requests\<close>

text \<open>
  The server: it serves requests, at any instant, and it may stop and start again (a new
  process: no clock yet, no cache, another token), keeping its database.
\<close>

inductive server_step :: "config \<Rightarrow> service \<Rightarrow> service \<Rightarrow> bool" for cfg where
  request: "process cfg e sc r s = (resp, s') \<Longrightarrow> server_step cfg s s'"
| restart: "s' = s\<lparr>clock := None, cache := [], web_token := t, requests_total := 0, started_at := began\<rparr>
    \<Longrightarrow> server_step cfg s s'"

text \<open>
  At the level of the service: \<open>P h\<close> is what the transactions with the stamp \<open>h\<close> keep, \<open>Inv\<close> what
  every request keeps. Each transaction enters from \<open>Inv\<close> and its result is back in it.
\<close>

locale service_invariant =
  fixes Inv :: "service \<Rightarrow> bool" and P :: "string \<Rightarrow> database \<Rightarrow> bool"
  assumes family: "stamped_writes (P h) h"
    and plain_txn: "Inv s \<Longrightarrow> \<exists>h. P h (db s) \<and> (\<forall>d. P h d \<longrightarrow> Inv (s\<lparr>db := d\<rparr>))"
    and stamping: "Inv s \<Longrightarrow> service_stamp cfg e s = (Inr h, s')
      \<Longrightarrow> P h (db s') \<and> (\<forall>d. P h d \<longrightarrow> Inv (s'\<lparr>db := d\<rparr>))"
    and refused: "Inv s \<Longrightarrow> service_stamp cfg e s = (Inl err, s') \<Longrightarrow> Inv s'"
    and cached: "Inv s \<Longrightarrow> Inv (s\<lparr>cache := c\<rparr>)"
    and counted: "Inv s \<Longrightarrow> Inv (s\<lparr>requests_total := n\<rparr>)"
    and restarted: "Inv s
      \<Longrightarrow> Inv (s\<lparr>clock := None, cache := [], web_token := t, requests_total := 0, started_at := began\<rparr>)"

sublocale service_invariant \<subseteq> w: stamped_writes "P h" h for h
  by (rule family)

context service_invariant
begin

lemma with_db_keeps:
  assumes "Inv s" and "\<And>h d. P h d \<Longrightarrow> P h (f d)"
  shows "Inv (with_db f s)"
  using plain_txn [OF assms(1)] assms(2) by (auto simp: with_db_def)

lemma write_txn_keeps:
  assumes "Inv s" and "\<And>h d x d'. P h d \<Longrightarrow> body d = Inr (x, d') \<Longrightarrow> P h d'"
  shows "Inv (snd (write_txn body s))"
  using plain_txn [OF assms(1)] assms by (cases rule: write_txn_cases [of body s]) auto

lemma stamped_txn_keeps:
  assumes "Inv s" and "\<And>h d x d'. P h d \<Longrightarrow> body h d = Inr (x, d') \<Longrightarrow> P h d'"
  shows "Inv (snd (stamped_txn cfg e body s))"
proof (cases "service_stamp cfg e s")
  case (Pair r s')
  show ?thesis
  proof (cases r)
    case (Inl err)
    with Pair refused [OF assms(1)] show ?thesis by (simp add: stamped_txn_def)
  next
    case (Inr h)
    with Pair have st: "service_stamp cfg e s = (Inr h, s')" by simp
    note entry = stamping [OF assms(1) st]
    have "Inv s'" using entry by (metis service.surjective service.update_convs(1))
    then show ?thesis
      using entry assms(2) by (cases rule: write_txn_cases [of "body h" s']) (auto simp: stamped_txn_def st)
  qed
qed

lemma writes_keeps:
  assumes "Inv s" and "\<And>h d x d'. P h d \<Longrightarrow> body d = Inr (x, d') \<Longrightarrow> P h d'"
  shows "Inv (snd (writes f body s))"
  unfolding writes_def by (rule write_txn_keeps [OF assms(1)]) (auto simp: exc_simps intro: assms(2))

lemma stamps_keeps:
  assumes "Inv s" and "\<And>h d x d'. P h d \<Longrightarrow> body h d = Inr (x, d') \<Longrightarrow> P h d'"
  shows "Inv (snd (stamps cfg e f body s))"
  unfolding stamps_def by (rule stamped_txn_keeps [OF assms(1)]) (auto simp: exc_simps intro: assms(2))

lemma reads_keeps: "Inv s \<Longrightarrow> Inv (snd (reads f body s))"
  by (simp add: reads_def read_txn_def)

lemma cached_keeps: "Inv s \<Longrightarrow> Inv (snd (cached_password_ok cfg e k h p s))"
  by (simp add: cached_password_ok_def Let_def cached)

lemma refusal_keeps: "Inv s \<Longrightarrow> Inv (snd (auth_refused e u s))"
  by (simp add: auth_refused_def with_db_keeps w.failures_kept)

lemma check_account_keeps: "Inv s \<Longrightarrow> Inv (snd (check_account cfg e u row og pw s))"
  using cached_keeps [of s cfg e u _ pw]
  by (auto simp: check_account_def split: prod.splits sum.splits if_splits
      intro!: with_db_keeps w.failures_kept refusal_keeps) (metis snd_conv)+

lemma authenticate_keeps: "Inv s \<Longrightarrow> Inv (snd (authenticate cfg e nm pw s))"
  by (auto simp: authenticate_def Let_def split: sum.split option.split
      intro!: with_db_keeps w.failures_kept refusal_keeps check_account_keeps)

lemma authenticate_organization_keeps: "Inv s \<Longrightarrow> Inv (snd (authenticate_organization cfg e nm pw s))"
proof -
  assume "Inv s"
  then have s1: "Inv (with_db (authfail_prune (ago e (auth_window_seconds cfg))) s)"
    by (intro with_db_keeps w.failures_kept)
  then have s2: "Inv s2" if "cached_password_ok cfg e k h pw (with_db (authfail_prune (ago e (auth_window_seconds cfg))) s) = (b, s2)"
    for k h b s2 using cached_keeps [OF s1, of cfg e k h pw] that by simp
  show ?thesis
    by (auto simp: authenticate_organization_def Let_def split: sum.split option.split prod.split bool.split
        intro!: with_db_keeps w.failures_kept refusal_keeps s1 dest: s2)
qed

lemma org_handler_keeps: "Inv s \<Longrightarrow> Inv (snd (org_handler cfg e c org s))"
  by (cases c) (auto intro!: writes_keeps stamps_keeps reads_keeps
      dest: w.org_create_agent_keeps w.org_status_keeps w.org_settings_keeps w.org_stamped_keeps w.observer_keeps)

lemma human_handler_keeps: "Inv s \<Longrightarrow> Inv (snd (human_handler e c me s))"
  by (cases c) (auto intro!: writes_keeps reads_keeps dest: w.human_create_org_keeps w.human_disable_org_keeps)

lemma agent_handler_keeps: "Inv s \<Longrightarrow> Inv (snd (agent_handler cfg e sc c me s))"
  by (cases c) (auto intro!: writes_keeps stamps_keeps reads_keeps
      dest: w.agent_message_keeps w.agent_set_agent_card_keeps w.created w.updated w.transferred w.requested
        w.approved w.rejected w.group_keeps w.group_message_keeps w.delegation_keeps)

lemma audit_action_keeps: "Inv s \<Longrightarrow> Inv (snd (audit_action cfg e line actor home s))"
  by (auto simp: audit_action_def split: option.split intro!: stamped_txn_keeps w.audited)

lemma then_audit_keeps: "Inv (snd r) \<Longrightarrow> Inv (snd (then_audit cfg e line actor home r))"
  using audit_action_keeps [of "snd r" cfg e line actor home]
  by (cases r) (auto simp: then_audit_def split: sum.split prod.split)

lemma dispatch_user_keeps: "Inv s \<Longrightarrow> Inv (snd (dispatch_user cfg e sc c user row s))"
  by (auto simp: dispatch_user_def Let_def split: user_command.split human_command.split
      intro!: reads_keeps then_audit_keeps human_handler_keeps agent_handler_keeps
      simp del: human_handler.simps)

lemma dispatch_keeps:
  assumes "Inv s"
  shows "Inv (snd (dispatch cfg e sc r s))"
proof (cases r)
  case (OrgRequest nm pw c)
  with authenticate_organization_keeps [OF assms, of cfg e nm pw] show ?thesis
    by (auto simp: dispatch_def split: prod.split sum.split intro!: then_audit_keeps org_handler_keeps)
next
  case (UserRequest nm pw c)
  with authenticate_keeps [OF assms, of cfg e nm pw] show ?thesis
    by (auto simp: dispatch_def split: prod.split sum.split intro!: dispatch_user_keeps)
qed

theorem process_keeps: "Inv s \<Longrightarrow> Inv (snd (process cfg e sc r s))"
  using dispatch_keeps [OF counted] by (auto simp: process_def Let_def counted split: sum.split prod.split)
    (metis snd_conv)

lemma server_step_keeps: "server_step cfg s s' \<Longrightarrow> Inv s \<Longrightarrow> Inv s'"
  by (induction rule: server_step.induct) (metis process_keeps snd_conv, simp add: restarted)

lemma server_run_keeps: "(server_step cfg)\<^sup>*\<^sup>* s s' \<Longrightarrow> Inv s \<Longrightarrow> Inv s'"
  by (induction rule: rtranclp_induct) (auto intro: server_step_keeps)

end

text \<open>A predicate of the database alone.\<close>

locale database_invariant =
  fixes P :: "database \<Rightarrow> bool"
  assumes family: "stamped_writes P h"

sublocale database_invariant \<subseteq> sv: service_invariant "\<lambda>s. P (db s)" "\<lambda>_. P"
proof (intro service_invariant.intro family)
  fix cfg e s r s'
  assume "P (db s)" "service_stamp cfg e s = (r, s')"
  then have "db s' = db s" using service_stamp_db [of cfg e s] by simp
  with \<open>P (db s)\<close> show "P (db s') \<and> (\<forall>d. P d \<longrightarrow> P (db (s'\<lparr>db := d\<rparr>)))" "P (db s')" by simp_all
qed auto

end
