(* ===== verification/System.thy ===== *)
theory System
  imports Preservation
begin

text \<open>
  The server as a whole: what holds after any sequence of requests and restarts. The journals
  are in causal order, nothing that was recorded is lost, the tables stay well-formed.
\<close>

section \<open>Causal order of the journals\<close>

text \<open>
  A journal whose rows carry increasing ids and non-decreasing stamps, none above \<open>h\<close>.
\<close>

definition ordered_journal ::
    "string \<Rightarrow> ('r \<Rightarrow> nat) \<Rightarrow> ('r \<Rightarrow> string option) \<Rightarrow> nat \<Rightarrow> 'r list \<Rightarrow> bool" where
  "ordered_journal h ident col n rows =
     (sorted_wrt (\<lambda>x y. ident x < ident y \<and> the (col x) \<le> the (col y)) rows
      \<and> (\<forall>r \<in> set rows. ident r \<le> n
           \<and> (\<exists>g l c. col r = Some g \<and> g \<le> h \<and> encode l c = Inr g)))"

lemma ordered_journal_add:
  assumes "ordered_journal h ident col n rows" and "ident r = Suc n" and "col r = Some h"
    and "encode l c = Inr h"
  shows "ordered_journal h ident col (Suc n) (rows @ [r])"
  using assms by (fastforce simp: ordered_journal_def sorted_wrt_append)

lemma ordered_journal_filter:
  "ordered_journal h ident col n rows \<Longrightarrow> ordered_journal h ident col n (filter Q rows)"
  by (auto simp: ordered_journal_def sorted_wrt_filter)

lemma ordered_journal_mono:
  "ordered_journal h ident col n rows \<Longrightarrow> h \<le> h' \<Longrightarrow> ordered_journal h' ident col n rows"
  by (fastforce simp: ordered_journal_def)

definition causal :: "string \<Rightarrow> database \<Rightarrow> bool" where
  "causal h d = ((\<exists>l c. encode l c = Inr h)
     \<and> ordered_journal h ev_seq ev_hlc (events_seq d) (events d)
     \<and> ordered_journal h te_id te_hlc (task_events_seq d) (task_events d)
     \<and> ordered_journal h au_id au_hlc (audit_seq d) (audit_log d))"

definition same_journals :: "database \<Rightarrow> database \<Rightarrow> bool" where
  "same_journals d d' = (events d' = events d \<and> events_seq d' = events_seq d
     \<and> task_events d' = task_events d \<and> task_events_seq d' = task_events_seq d
     \<and> audit_log d' = audit_log d \<and> audit_seq d' = audit_seq d)"

lemma causal_cong: "causal h d \<Longrightarrow> same_journals d d' \<Longrightarrow> causal h d'"
  by (simp add: causal_def same_journals_def)

lemma same_journals_ops:
  "same_journals d (set_state i st res at d)" "same_journals d (set_assignee i u at d)"
  "same_journals d (set_approver i u at d)"
  "same_journals d (mark_read_conditional i at d)" "same_journals d (set_no_reply c u m at' d)"
  "same_journals d (accounts_insert u h st' desc org see pt at d)" "same_journals d (update_account u f d)"
  "same_journals d (organizations_insert n h k out at d)"
  "same_journals d (d\<lparr>organizations := x1\<rparr>)" "same_journals d (d\<lparr>agent_cards := x2\<rparr>)"
  "same_journals d (d\<lparr>departments := x3\<rparr>)" "same_journals d (d\<lparr>memberships := x4\<rparr>)"
  "same_journals d (d\<lparr>auth_failures := x5\<rparr>)" "same_journals d (d\<lparr>org_settings := x6\<rparr>)"
  "same_journals d (d\<lparr>policies := x7\<rparr>)" "same_journals d (d\<lparr>budgets := x8\<rparr>)"
  "same_journals d (d\<lparr>groups := x9\<rparr>)" "same_journals d (d\<lparr>group_members := y1\<rparr>)"
  "same_journals d (d\<lparr>delegations := y2\<rparr>)" "same_journals d (d\<lparr>delegations_seq := y3\<rparr>)"
  by (simp_all add: same_journals_def acct_defs set_state_def set_assignee_def set_approver_def
      update_task_def mark_read_conditional_def set_no_reply_def)

lemma same_journals_results:
  "tasks_insert i f at d = Inr d' \<Longrightarrow> same_journals d d'"
  "replace_dependencies i deps d = Inr d' \<Longrightarrow> same_journals d d'"
  "insert_message uuid conv cl sender recipient content at ref d = Inr d' \<Longrightarrow> same_journals d d'"
  "insert_group_message m d = Inr d' \<Longrightarrow> same_journals d d'"
  "fetch_or_create_conversation uuid key at d = Inr (c, d') \<Longrightarrow> same_journals d d'"
  by (auto simp: same_journals_def tasks_insert_def replace_dependencies_Inr insert_message_Inr
      insert_group_message_def split: if_splits elim: fetch_or_create_cases)

lemma causal_mono: "causal h d \<Longrightarrow> h \<le> h' \<Longrightarrow> encode l c = Inr h' \<Longrightarrow> causal h' d"
  by (auto simp: causal_def intro: ordered_journal_mono)

lemma causal_audit: "causal h d \<Longrightarrow> causal h (audit org at actor c tt target out h d)"
  by (auto simp: causal_def audit_def audit_append_def insert_row_def audit_row_of_def
      intro!: ordered_journal_add)

lemma causal_add_event: "causal h d \<Longrightarrow> tx_hlc x = h \<Longrightarrow> causal h (add_event x d)"
  by (auto simp: causal_def add_event_def insert_row_def task_event_of_def intro!: ordered_journal_add)

lemma causal_events_append:
  "causal h d \<Longrightarrow> ee_hlc x = h \<Longrightarrow> causal h (events_append old r x d)"
  by (auto simp: causal_def events_append_def insert_event_def insert_row_def event_row_of_def
      purge_old_def Let_def delete_where_def split: option.split
      intro!: ordered_journal_add ordered_journal_filter)

lemma causal_task_event: "causal h d \<Longrightarrow> causal h (task_event cfg e org t et by' at h d)"
proof -
  have "causal h (fold (\<lambda>p. events_append old r (f p)) ps d)"
    if "causal h d" "\<And>p. ee_hlc (f p) = h" for ps d old r and f :: "string \<Rightarrow> event_entry"
    using that by (induction ps arbitrary: d) (auto intro: causal_events_append)
  then show "causal h d \<Longrightarrow> ?thesis" by (simp add: task_event_def append_for_task_def)
qed

interpretation cw: stamped_writes "causal h" h for h
  by unfold_locales
    (blast intro: causal_audit causal_task_event causal_add_event causal_cong same_journals_ops
      same_journals_results)+

text \<open>
  The clock of a running process is not behind any stamp of the database; a process that has not
  written yet has none.
\<close>

definition causal_service :: "service \<Rightarrow> bool" where
  "causal_service s = (\<exists>l c h. encode l c = Inr h \<and> causal h (db s)
     \<and> (\<forall>k. clock s = Some k \<longrightarrow> HLC l c \<le> k))"

lemma causal_column:
  "causal h d \<Longrightarrow> g \<in> set (hlc_column d) \<Longrightarrow> g \<le> h \<and> (\<exists>l c. encode l c = Inr g)"
  by (auto simp: causal_def ordered_journal_def hlc_column_def List.map_filter_def) fastforce+

lemma ordered_journal_lower:
  assumes "ordered_journal h ident col n rows"
    and "\<And>r g. r \<in> set rows \<Longrightarrow> col r = Some g \<Longrightarrow> g \<le> h'"
  shows "ordered_journal h' ident col n rows"
  using assms by (fastforce simp: ordered_journal_def)

text \<open>The bound may be taken to be any stamp that no stamp of the database exceeds.\<close>

lemma causal_lower:
  assumes "causal h d" and "\<And>g. g \<in> set (hlc_column d) \<Longrightarrow> g \<le> h'" and "encode l c = Inr h'"
  shows "causal h' d"
proof -
  have "ev_hlc r = Some g \<Longrightarrow> g \<le> h'" if "r \<in> set (events d)" for r g
    using that assms(2) [of g] by (force simp: hlc_column_def List.map_filter_def)
  moreover have "te_hlc r = Some g \<Longrightarrow> g \<le> h'" if "r \<in> set (task_events d)" for r g
    using that assms(2) [of g] by (force simp: hlc_column_def List.map_filter_def)
  moreover have "au_hlc r = Some g \<Longrightarrow> g \<le> h'" if "r \<in> set (audit_log d)" for r g
    using that assms(2) [of g] by (force simp: hlc_column_def List.map_filter_def)
  ultimately show ?thesis
    using assms(1,3) by (auto simp: causal_def intro: ordered_journal_lower)
qed

text \<open>The clock a process builds is at the largest stamp of the database.\<close>

lemma build_clock_causal:
  assumes "causal h (db s)"
  shows "\<exists>k g l c. build_clock s = Inr k \<and> encode l c = Inr g \<and> causal g (db s) \<and> HLC l c \<le> k"
proof (cases "max_hlc (db s)")
  case None
  then have "hlc_column (db s) = []" by (simp add: max_hlc_def)
  moreover have "encode 0 0 = Inr (dec_w 13 0 @ ''.'' @ dec_w 6 0)"
    by (simp add: encode_def MAX_L_def MAX_C_def)
  ultimately have "causal (dec_w 13 0 @ ''.'' @ dec_w 6 0) (db s)"
    using causal_lower [OF assms] by (simp del: dec_w.simps)
  moreover have "build_clock s = Inr (HLC 0 0)" by (simp add: build_clock_def None hlc_init_def)
  ultimately show ?thesis using \<open>encode 0 0 = _\<close> by blast
next
  case (Some g)
  then have g: "g \<in> set (hlc_column (db s))" by (auto simp: max_hlc_def dest: max_col_in)
  then obtain l c where enc: "encode l c = Inr g" using causal_column [OF assms] by blast
  have "causal g (db s)"
    by (rule causal_lower [OF assms _ enc]) (use Some in \<open>auto simp: max_hlc_def dest: max_col_upper\<close>)
  moreover have "build_clock s = Inr (HLC l c)"
    using decode_encode [OF enc] encode_is_valid [OF enc] by (simp add: build_clock_def Some hlc_init_def)
  ultimately show ?thesis using enc by blast
qed

text \<open>A stamp is above every stamp of the database, and the clock is at it.\<close>

lemma service_stamp_causal:
  assumes "causal_service s" and "service_stamp cfg e s = (r, s')"
  shows "\<exists>k' l c h. clock s' = Some k' \<and> encode l c = Inr h \<and> causal h (db s) \<and> HLC l c < k'
    \<and> r = encode (hl k') (hc k')"
proof -
  obtain l c h where h: "encode l c = Inr h" "causal h (db s)" "\<And>k. clock s = Some k \<Longrightarrow> HLC l c \<le> k"
    using assms(1) by (auto simp: causal_service_def)
  obtain k l' c' h' where k: "(case clock s of Some k \<Rightarrow> Inr k | None \<Rightarrow> build_clock s) = Inr k"
    "encode l' c' = Inr h'" "causal h' (db s)" "HLC l' c' \<le> k"
  proof (cases "clock s")
    case None
    with build_clock_causal [OF h(2)] that show ?thesis by auto
  next
    case (Some k)
    with h that [of k l c h] show ?thesis by simp
  qed
  obtain r' k' where st: "stamp (physical e + clock_skew_ms cfg) k = (r', k')" by fastforce
  from assms(2) have "r = r'" "clock s' = Some k'" by (auto simp: service_stamp_def k(1) st)
  moreover have "r' = encode (hl k') (hc k')" "k < k'" using stamp_result [OF st] by auto
  ultimately show ?thesis using k by (metis order.strict_trans1)
qed

interpretation cs: service_invariant causal_service causal
proof unfold_locales
  fix s
  assume "causal_service s"
  then show "\<exists>h. causal h (db s) \<and> (\<forall>d. causal h d \<longrightarrow> causal_service (s\<lparr>db := d\<rparr>))"
    by (auto simp: causal_service_def)
next
  fix cfg e s h s'
  assume s: "causal_service s" and st: "service_stamp cfg e s = (Inr h, s')"
  have same: "db s' = db s" using service_stamp_db [of cfg e s] st by simp
  from service_stamp_causal [OF s st] obtain k' l c g where k': "clock s' = Some k'"
    "encode l c = Inr g" "causal g (db s)" "HLC l c < k'" "encode (hl k') (hc k') = Inr h" by metis
  have "g < h" using encode_less_iff [OF k'(2,5)] k'(4) by simp
  then have "causal h (db s')" using causal_mono [OF k'(3) _ k'(5)] same by simp
  moreover have "causal_service (s'\<lparr>db := d\<rparr>)" if "causal h d" for d
    unfolding causal_service_def
    by (rule exI [of _ "hl k'"], rule exI [of _ "hc k'"], rule exI [of _ h]) (use that k'(1,5) in simp)
  ultimately show "causal h (db s') \<and> (\<forall>d. causal h d \<longrightarrow> causal_service (s'\<lparr>db := d\<rparr>))" by blast
next
  fix cfg e s err s'
  assume s: "causal_service s" and st: "service_stamp cfg e s = (Inl err, s')"
  have same: "db s' = db s" using service_stamp_db [of cfg e s] st by simp
  from service_stamp_causal [OF s st] obtain k' l c h where "clock s' = Some k'" "encode l c = Inr h"
    "causal h (db s')" "HLC l c \<le> k'" using same by (metis less_imp_le)
  then show "causal_service s'" unfolding causal_service_def by (metis option.inject)
qed (auto simp: causal_service_def)

text \<open>Two rows of one journal, the first with the smaller id, have stamps in that order.\<close>

definition causally_ordered :: "('r \<Rightarrow> nat) \<Rightarrow> ('r \<Rightarrow> string option) \<Rightarrow> 'r list \<Rightarrow> bool" where
  "causally_ordered ident col rows =
     (\<forall>x \<in> set rows. \<forall>y \<in> set rows. ident x < ident y
        \<longrightarrow> (\<exists>g g'. col x = Some g \<and> col y = Some g' \<and> g \<le> g'))"

lemma ordered_journal_causal:
  assumes "ordered_journal h ident col n rows"
  shows "causally_ordered ident col rows"
proof -
  have "\<exists>g g'. col x = Some g \<and> col y = Some g' \<and> g \<le> g'"
    if xy: "x \<in> set rows" "y \<in> set rows" "ident x < ident y" for x y
  proof -
    from xy(1,2) obtain i j where ij: "i < length rows" "x = rows ! i" "j < length rows" "y = rows ! j"
      by (metis in_set_conv_nth)
    have sorted: "ident (rows ! a) < ident (rows ! b) \<and> the (col (rows ! a)) \<le> the (col (rows ! b))"
      if "a < b" "b < length rows" for a b
      using assms that by (simp add: ordered_journal_def sorted_wrt_iff_nth_less)
    have "\<not> j < i" "i \<noteq> j" using sorted [of j i] ij xy(3) by auto
    then have "the (col x) \<le> the (col y)" using sorted [of i j] ij by simp
    moreover obtain g g' where "col x = Some g" "col y = Some g'"
      using assms xy(1,2) by (fastforce simp: ordered_journal_def)
    ultimately show ?thesis by simp
  qed
  then show ?thesis by (auto simp: causally_ordered_def)
qed

text \<open>
  C17. Causal order (invariant I4): from a new installation, after any sequence of requests, at
  whatever instants and however the physical clock moves, with restarts of the process in
  between, the order of the ids in the audit journal, the task history and the event journal is
  the order of their causal stamps.
\<close>

theorem journals_in_causal_order:
  assumes "(server_step cfg)\<^sup>*\<^sup>* s s'" and "clock s = None"
    and "events (db s) = []" and "task_events (db s) = []" and "audit_log (db s) = []"
  shows "causally_ordered au_id au_hlc (audit_log (db s'))
    \<and> causally_ordered te_id te_hlc (task_events (db s'))
    \<and> causally_ordered ev_seq ev_hlc (events (db s'))"
proof -
  obtain z where enc: "encode 0 0 = Inr z" by (simp add: encode_def MAX_L_def MAX_C_def)
  then have "causal z (db s)"
    unfolding causal_def by (auto simp: ordered_journal_def assms(3-5))
  with enc have "causal_service s" using assms(2) unfolding causal_service_def by (metis option.distinct(1))
  from cs.server_run_keeps [OF assms(1) this] obtain h where "causal h (db s')"
    by (auto simp: causal_service_def)
  then show ?thesis by (auto simp: causal_def intro: ordered_journal_causal)
qed

text \<open>Two requests in the small world: a task is created, then the policy is set.\<close>

definition plain_scan :: scan_order where
  "plain_scan = \<lparr>scan_flows = (\<lambda>x. x), scan_tasks = (\<lambda>x. x)\<rparr>"

definition serve :: "request \<Rightarrow> service \<Rightarrow> service" where
  "serve r s = snd (process plain_config plain_env plain_scan (Inr r) s)"

definition by_alice :: "agent_command \<Rightarrow> request" where
  "by_alice c = UserRequest ''alice'' ''alice-password'' (Agents c)"

definition by_acme :: "org_command \<Rightarrow> request" where
  "by_acme c = OrgRequest ''acme'' ''acme-password'' c"

definition two_requests :: service where
  "two_requests = serve (by_acme (SetOrganizationPolicy True True))
     (serve (by_alice (CreateTask (plain_task []))) plain_service)"

lemma serve_step: "server_step plain_config s (serve r s)"
  by (rule server_step.request [of _ plain_env plain_scan "Inr r" s
      "fst (process plain_config plain_env plain_scan (Inr r) s)"]) (simp add: serve_def)

lemma serve_run: "(server_step plain_config)\<^sup>*\<^sup>* s (serve r s)"
  "(server_step plain_config)\<^sup>*\<^sup>* s (serve r' (serve r s))"
  by (blast intro: serve_step rtranclp.intros)+

theorem journals_in_causal_order_witness:
  "causally_ordered au_id au_hlc (audit_log (db two_requests))
     \<and> causally_ordered te_id te_hlc (task_events (db two_requests))
     \<and> causally_ordered ev_seq ev_hlc (events (db two_requests))
   \<and> map au_command (audit_log (db two_requests)) = [''create_task'', ''set_organization_policy'']"
proof -
  have "clock plain_service = None" "events (db plain_service) = []" "task_events (db plain_service) = []"
    "audit_log (db plain_service) = []" by (simp_all add: plain_service_def plain_db_def)
  from journals_in_causal_order [OF serve_run(2) this]
  have "causally_ordered au_id au_hlc (audit_log (db two_requests))
     \<and> causally_ordered te_id te_hlc (task_events (db two_requests))
     \<and> causally_ordered ev_seq ev_hlc (events (db two_requests))" unfolding two_requests_def .
  moreover have "map au_command (audit_log (db two_requests)) = [''create_task'', ''set_organization_policy'']"
    by code_simp
  ultimately show ?thesis by blast
qed

section \<open>Nothing recorded is lost\<close>

text \<open>
  \<open>extends R xs ys\<close>: the rows of \<open>xs\<close> are still there, in their places, changed at most as \<open>R\<close>
  allows; what is new comes after them.
\<close>

definition extends :: "('r \<Rightarrow> 'r \<Rightarrow> bool) \<Rightarrow> 'r list \<Rightarrow> 'r list \<Rightarrow> bool" where
  "extends R xs ys = list_all2 R xs (take (length xs) ys)"

lemma extends_length: "extends R xs ys \<Longrightarrow> length xs \<le> length ys"
  by (auto simp: extends_def dest: list_all2_lengthD)

lemma extends_refl: "(\<And>x. R x x) \<Longrightarrow> extends R xs xs"
  by (simp add: extends_def list_all2_refl)

lemma extends_insert: "extends R xs ys \<Longrightarrow> extends R xs (insert_row r ys)"
  using extends_length [of R xs ys] by (simp add: extends_def insert_row_def)

lemma extends_update:
  assumes "extends R xs ys" and "\<And>x y. R x y \<Longrightarrow> R x (f y)"
  shows "extends R xs (update_where Q f ys)"
  using assms by (auto simp: extends_def update_where_def take_map list_all2_map2 elim!: list_all2_mono)

lemma extends_member: "extends R xs ys \<Longrightarrow> x \<in> set xs \<Longrightarrow> \<exists>y \<in> set ys. R x y"
  by (auto simp: extends_def list_all2_conv_all_nth in_set_conv_nth) (metis nth_take nth_mem min_less_iff_conj order_less_le_trans)

text \<open>What stays of a row: of an organization and an account the identity, of a message all but its
  first reading, of a task what its creator wrote; the other rows stay as they are.\<close>

definition same_org :: "organization_row \<Rightarrow> organization_row \<Rightarrow> bool" where
  "same_org x y = (org_name y = org_name x \<and> org_created_at y = org_created_at x)"

definition same_account :: "account_row \<Rightarrow> account_row \<Rightarrow> bool" where
  "same_account x y = (acc_username y = acc_username x \<and> acc_org y = acc_org x
     \<and> acc_principal y = acc_principal x \<and> acc_created_at y = acc_created_at x)"

definition same_message :: "message_row \<Rightarrow> message_row \<Rightarrow> bool" where
  "same_message x y = (y = x \<or> (msg_read_at x = None \<and> (\<exists>t. y = x\<lparr>msg_read_at := Some t\<rparr>)))"

definition same_task :: "task_row \<Rightarrow> task_row \<Rightarrow> bool" where
  "same_task x y = (task_id y = task_id x \<and> task_client_id y = task_client_id x
     \<and> task_title y = task_title x \<and> task_description y = task_description x
     \<and> task_creator y = task_creator x \<and> task_priority y = task_priority x
     \<and> task_due_at y = task_due_at x \<and> task_reference y = task_reference x
     \<and> task_created_at y = task_created_at x)"

definition permanent :: "database \<Rightarrow> database \<Rightarrow> bool" where
  "permanent d0 d =
     (extends same_org (organizations d0) (organizations d)
      \<and> extends same_account (accounts d0) (accounts d)
      \<and> extends (=) (conversations d0) (conversations d)
      \<and> extends same_message (messages d0) (messages d)
      \<and> extends same_task (tasks d0) (tasks d)
      \<and> extends (=) (task_events d0) (task_events d)
      \<and> extends (=) (audit_log d0) (audit_log d)
      \<and> extends (=) (groups d0) (groups d)
      \<and> extends (=) (group_messages d0) (group_messages d))"

lemma permanent_refl: "permanent d d"
  by (simp add: permanent_def extends_refl same_org_def same_account_def same_message_def same_task_def)

named_theorems permanent_ops

lemma permanent_store [permanent_ops]:
  assumes "permanent d0 d"
  shows "permanent d0 (accounts_insert u h st desc org see pt at d)"
    "permanent d0 (organizations_insert n h i out at d)"
    "permanent d0 (add_event x d)" "permanent d0 (audit org at ac c tt tg ou hx d)"
    "permanent d0 (task_event cfg e og t et b at hx d)"
    "permanent d0 (set_no_reply cv u mm mt d)"
    "permanent d0 (d\<lparr>groups := insert_row g (groups d)\<rparr>)"
    "permanent d0 (d\<lparr>agent_cards := x2\<rparr>)"
    "permanent d0 (d\<lparr>departments := x3\<rparr>)" "permanent d0 (d\<lparr>memberships := x4\<rparr>)"
    "permanent d0 (d\<lparr>auth_failures := x5\<rparr>)" "permanent d0 (d\<lparr>org_settings := x6\<rparr>)"
    "permanent d0 (d\<lparr>policies := x7\<rparr>)" "permanent d0 (d\<lparr>budgets := x8\<rparr>)"
    "permanent d0 (d\<lparr>group_members := y1\<rparr>)"
    "permanent d0 (d\<lparr>delegations := y2\<rparr>)" "permanent d0 (d\<lparr>delegations_seq := y3\<rparr>)"
  using assms
  by (simp_all add: permanent_def accounts_insert_def organizations_insert_def add_event_def audit_def
      audit_append_def set_no_reply_def extends_insert)

lemma permanent_updates [permanent_ops]:
  assumes "permanent d0 d"
  shows "permanent d0 (set_state i st res at d)" "permanent d0 (set_assignee i u at d)"
    "permanent d0 (set_approver i u at d)" "permanent d0 (mark_read_conditional i at d)"
proof -
  have task: "extends same_task xs (update_where Q f ts)"
    if "extends same_task xs ts" "\<And>y. same_task y (f y)" for xs ts Q f
    using that by (intro extends_update) (auto simp: same_task_def)
  have "extends same_message xs (update_where (\<lambda>m. msg_id m = i \<and> msg_read_at m = None)
      (\<lambda>m. m\<lparr>msg_read_at := Some at\<rparr>) ms)" if "extends same_message xs ms" for xs ms
    using that by (auto simp: extends_def update_where_def take_map list_all2_map2 same_message_def
        elim!: list_all2_mono)
  then show "permanent d0 (mark_read_conditional i at d)"
    using assms by (simp add: permanent_def mark_read_conditional_def)
  show "permanent d0 (set_state i st res at d)" "permanent d0 (set_assignee i u at d)"
    "permanent d0 (set_approver i u at d)"
    using assms by (auto simp: permanent_def set_state_def set_assignee_def set_approver_def update_task_def
        same_task_def intro!: task)
qed

lemma permanent_accounts [permanent_ops]:
  "permanent d0 d \<Longrightarrow> (\<And>a. acc_username (f a) = acc_username a \<and> acc_org (f a) = acc_org a
        \<and> acc_principal (f a) = acc_principal a \<and> acc_created_at (f a) = acc_created_at a)
     \<Longrightarrow> permanent d0 (update_account u f d)"
  by (auto simp: permanent_def update_account_def same_account_def intro!: extends_update)

lemma permanent_orgs [permanent_ops]:
  "permanent d0 d \<Longrightarrow> (\<And>g. org_name (k g) = org_name g \<and> org_created_at (k g) = org_created_at g)
     \<Longrightarrow> permanent d0 (d\<lparr>organizations := update_where Q k (organizations d)\<rparr>)"
  by (auto simp: permanent_def same_org_def intro!: extends_update)

lemma permanent_results [permanent_ops]:
  "permanent d0 d \<Longrightarrow> tasks_insert i f at d = Inr d' \<Longrightarrow> permanent d0 d'"
  "permanent d0 d \<Longrightarrow> replace_dependencies i deps d = Inr d' \<Longrightarrow> permanent d0 d'"
  "permanent d0 d \<Longrightarrow> insert_message uuid conv cl sender recipient content at ref d = Inr d' \<Longrightarrow> permanent d0 d'"
  "permanent d0 d \<Longrightarrow> insert_group_message m d = Inr d' \<Longrightarrow> permanent d0 d'"
  "permanent d0 d \<Longrightarrow> fetch_or_create_conversation uuid key at d = Inr (c, d') \<Longrightarrow> permanent d0 d'"
  by (auto simp: permanent_def tasks_insert_def replace_dependencies_Inr insert_message_Inr
      insert_group_message_def extends_insert split: if_splits elim: fetch_or_create_cases)

interpretation pd: database_invariant "permanent d0" for d0
proof (rule database_invariant.intro)
  show "stamped_writes (permanent d0) h" for h
    by unfold_locales (blast intro: permanent_ops)+
qed



end
