(* ===== verification/RequestProperties.thy ===== *)
theory RequestProperties
  imports System
begin

text \<open>
  What single requests guarantee: authentication changes nothing but the failure journal, an
  observer only reads, an error leaves the data as it was, a disabled organization stays out,
  an organization's command stays within the organization.
\<close>

section \<open>Authentication and the data\<close>

text \<open>The database without the journal of authentication failures.\<close>

definition data_of :: "database \<Rightarrow> database" where
  "data_of d = d\<lparr>auth_failures := []\<rparr>"

lemma data_of_authfail [simp]:
  "data_of (authfail_prune c d) = data_of d" "data_of (authfail_record n t d) = data_of d"
  "data_of (authfail_clear n d) = data_of d"
  by (simp_all add: data_of_def authfail_prune_def authfail_record_def authfail_clear_def)

lemma data_of_tables [simp]:
  "accounts (data_of d) = accounts d" "organizations (data_of d) = organizations d"
  "audit_log (data_of d) = audit_log d"
  by (simp_all add: data_of_def)

lemma data_of_cong:
  assumes "data_of d' = data_of d"
  shows "accounts d' = accounts d" "organizations d' = organizations d" "audit_log d' = audit_log d"
  by (metis assms data_of_tables)+

lemma auth_refused_data [simp]:
  "data_of (db (snd (auth_refused e n s))) = data_of (db s)" "clock (snd (auth_refused e n s)) = clock s"
  by (simp_all add: auth_refused_def)

lemma check_account_data:
  "data_of (db (snd (check_account cfg e u row og p s))) = data_of (db s)
   \<and> clock (snd (check_account cfg e u row og p s)) = clock s"
proof -
  have c: "db s2 = db s \<and> clock s2 = clock s" if "cached_password_ok cfg e u h p s = (b, s2)" for h b s2
    using cached_password_frame [of cfg e u h p s] that by simp
  show ?thesis
    by (cases "acc_principal row = Human")
      (auto simp: check_account_def auth_refused_def split: prod.split sum.split dest!: c)
qed

lemma authenticate_data:
  "data_of (db (snd (authenticate cfg e nm p s))) = data_of (db s)
   \<and> clock (snd (authenticate cfg e nm p s)) = clock s"
  by (auto simp: authenticate_def Let_def check_account_data split: sum.split option.split)

lemma authenticate_organization_data:
  "data_of (db (snd (authenticate_organization cfg e nm p s))) = data_of (db s)
   \<and> clock (snd (authenticate_organization cfg e nm p s)) = clock s"
proof -
  have c: "db s2 = db s1 \<and> clock s2 = clock s1" if "cached_password_ok cfg e u h p s1 = (b, s2)"
    for u h b s1 s2 using cached_password_frame [of cfg e u h p s1] that by simp
  show ?thesis
    by (auto simp: authenticate_organization_def Let_def split: sum.split option.split prod.split bool.split
        dest!: c)
qed

lemma check_account_row:
  "check_account cfg e n row og p s = (Inr (u, r), s') \<Longrightarrow> u = n \<and> r = Some row"
  by (auto simp: check_account_def auth_refused_def split: if_splits prod.splits sum.splits)

lemma authenticate_row:
  assumes "authenticate cfg e nm p s = (Inr (u, r), s')"
  shows "u = lower nm \<and> (if u = WEB_LOCAL then r = None
    else \<exists>row og. r = Some row \<and> accounts_get (db s) u = Some row \<and> acc_status row = Active
      \<and> organizations_get (db s) (acc_org row) = Some og \<and> org_enabled og)"
proof (cases "lower nm = WEB_LOCAL")
  case True
  with assms show ?thesis
    by (auto simp: authenticate_def Let_def auth_refused_def split: sum.splits if_splits)
next
  case False
  then show ?thesis
  proof (cases rule: authenticate_cases [where cfg = cfg and e = e and s = s and p = p])
    case (3 row og)
    with assms have "check_account cfg e (lower nm) row og p (pruned cfg e s) = (Inr (u, r), s')" by simp
    from check_account_row [OF this] 3 False show ?thesis by simp
  qed (use assms in \<open>simp_all add: auth_refused_def\<close>)
qed

section \<open>The branches of a request\<close>

lemma process_simps:
  "snd (process cfg e sc (Inr r) s) = snd (dispatch cfg e sc r (s\<lparr>requests_total := requests_total s + 1\<rparr>))"
  "fst (process cfg e sc (Inr r) s)
     = response_of (fst (dispatch cfg e sc r (s\<lparr>requests_total := requests_total s + 1\<rparr>)))"
  by (simp_all add: process_def Let_def split: prod.split)

lemma dispatch_user_request:
  "authenticate cfg e nm pw s = (Inl err, s1) \<Longrightarrow> dispatch cfg e sc (UserRequest nm pw c) s = (Inl err, s1)"
  "authenticate cfg e nm pw s = (Inr (u, row), s1) \<Longrightarrow>
     dispatch cfg e sc (UserRequest nm pw c) s = dispatch_user cfg e sc c u row s1"
  by (simp_all add: dispatch_def)

lemma dispatch_org_request:
  "authenticate_organization cfg e nm pw s = (Inl err, s1) \<Longrightarrow>
     dispatch cfg e sc (OrgRequest nm pw c) s = (Inl err, s1)"
  "authenticate_organization cfg e nm pw s = (Inr org, s1) \<Longrightarrow>
     dispatch cfg e sc (OrgRequest nm pw c) s
       = then_audit cfg e (org_audit_line c) org (Some org) (org_handler cfg e c org s1)"
  by (simp_all add: dispatch_def)

section \<open>Observers\<close>

lemma reads_same: "snd (reads f body s) = s"
  by (simp add: reads_def read_txn_def)

lemma observer_handler_same:
  "observer_agent_read c \<Longrightarrow> snd (agent_handler cfg e sc c me s) = s \<and> agent_audit_line c = None"
  by (cases c) (simp_all add: reads_same)

lemma then_audit_None: "snd (then_audit cfg e None actor home r) = snd r"
  by (cases r) (simp add: then_audit_def audit_action_def split: sum.split)

lemma observer_dispatch_same:
  assumes "acc_observer a" and "user \<noteq> WEB_LOCAL"
  shows "snd (dispatch_user cfg e sc c user (Some a) s) = s"
  using assms observer_handler_same [of _ cfg e sc user s]
  by (cases c) (auto simp: dispatch_user_def Let_def then_audit_None)

text \<open>
  C19. Observers only read: whatever an observer account asks, and whatever the answer, the data
  stay as they were, and no stamp is drawn.
\<close>

theorem observers_only_read:
  assumes "accounts_get (db s) (lower nm) = Some a" and "acc_observer a" and "lower nm \<noteq> WEB_LOCAL"
  shows "data_of (db (snd (process cfg e sc (Inr (UserRequest nm pw c)) s))) = data_of (db s)
    \<and> clock (snd (process cfg e sc (Inr (UserRequest nm pw c)) s)) = clock s"
proof -
  let ?s0 = "s\<lparr>requests_total := requests_total s + 1\<rparr>"
  obtain r s1 where auth: "authenticate cfg e nm pw ?s0 = (r, s1)" by force
  then have s1: "data_of (db s1) = data_of (db s)" "clock s1 = clock s"
    using authenticate_data [of cfg e nm pw ?s0] by simp_all
  show ?thesis
  proof (cases r)
    case (Inl err)
    show ?thesis by (simp only: process_simps dispatch_user_request(1) [OF auth [unfolded Inl]] s1 snd_conv)
  next
    case (Inr x)
    obtain u row where x: "x = (u, row)" by force
    from authenticate_row [OF auth [unfolded Inr x]] assms have "u = lower nm" "row = Some a" by auto
    with dispatch_user_request(2) [OF auth [unfolded Inr x]]
      observer_dispatch_same [OF assms(2,3), of cfg e sc c s1] s1
    show ?thesis by (simp only: process_simps)
  qed
qed

text \<open>An observer of \<open>acme\<close>, and its attempt to create a task.\<close>

definition observed_service :: service where
  "observed_service = serve (by_acme (CreateObserverAccount
     \<lparr>ob_name = ''olive'', ob_password = ''olive-password'', ob_description = ''watch''\<rparr>)) plain_service"

definition by_olive :: "user_command \<Rightarrow> request" where
  "by_olive c = UserRequest ''olive'' ''olive-password'' c"

theorem observers_only_read_witness:
  "data_of (db (serve (by_olive (Agents (CreateTask (plain_task [])))) observed_service)) = data_of (db observed_service)
   \<and> fst (process plain_config plain_env plain_scan (Inr (by_olive (Agents (CreateTask (plain_task []))))) observed_service)
     = Failure ACCESS_DENIED ''Observer account is read-only''"
proof -
  have "case accounts_get (db observed_service) (lower ''olive'') of None \<Rightarrow> False | Some a \<Rightarrow> acc_observer a"
    by code_simp
  then obtain a where a: "accounts_get (db observed_service) (lower ''olive'') = Some a" "acc_observer a"
    by (auto split: option.splits)
  have "lower ''olive'' \<noteq> WEB_LOCAL" by code_simp
  from observers_only_read [OF a this]
  have "data_of (db (serve (by_olive (Agents (CreateTask (plain_task [])))) observed_service)) = data_of (db observed_service)"
    unfolding serve_def by_olive_def by blast
  moreover have "fst (process plain_config plain_env plain_scan (Inr (by_olive (Agents (CreateTask (plain_task []))))) observed_service)
     = Failure ACCESS_DENIED ''Observer account is read-only''" by code_simp
  ultimately show ?thesis by blast
qed

section \<open>Errors\<close>

lemma writes_error: "fst (writes f body s) = Inl err \<Longrightarrow> snd (writes f body s) = s"
  by (cases rule: write_txn_cases [of "\<lambda>d. andthen (body d) (\<lambda>(x, d'). Inr (f x, d'))" s])
    (simp_all add: writes_def)

lemma stamped_txn_error: "fst (stamped_txn cfg e body s) = Inl err \<Longrightarrow> db (snd (stamped_txn cfg e body s)) = db s"
proof (cases "service_stamp cfg e s")
  case (Pair r s')
  moreover have "db s' = db s" using service_stamp_db [of cfg e s] Pair by simp
  ultimately show "fst (stamped_txn cfg e body s) = Inl err \<Longrightarrow> ?thesis"
    by (auto simp: stamped_txn_def write_txn_def split: sum.splits prod.splits)
qed

lemma stamps_error: "fst (stamps cfg e f body s) = Inl err \<Longrightarrow> db (snd (stamps cfg e f body s)) = db s"
  unfolding stamps_def by (rule stamped_txn_error)

lemma handler_error:
  "fst (org_handler cfg e c1 org s) = Inl err \<Longrightarrow> db (snd (org_handler cfg e c1 org s)) = db s"
  "fst (human_handler e c2 me s) = Inl err \<Longrightarrow> db (snd (human_handler e c2 me s)) = db s"
  "fst (agent_handler cfg e sc c3 me s) = Inl err \<Longrightarrow> db (snd (agent_handler cfg e sc c3 me s)) = db s"
  subgoal by (cases c1) (simp_all add: reads_same writes_error stamps_error)
  subgoal by (cases c2) (simp_all add: reads_same writes_error)
  subgoal by (cases c3) (simp_all add: reads_same writes_error stamps_error)
  done

text \<open>The commands the dispatcher audits draw no stamp of their own.\<close>

lemma writes_clock: "clock (snd (writes f body s)) = clock s"
  by (cases rule: write_txn_cases [of "\<lambda>d. andthen (body d) (\<lambda>(x, d'). Inr (f x, d'))" s])
    (simp_all add: writes_def)

lemma audited_clock:
  "org_audit_line c1 \<noteq> None \<Longrightarrow> clock (snd (org_handler cfg e c1 org s)) = clock s"
  "human_audit_line c2 \<noteq> None \<Longrightarrow> clock (snd (human_handler e c2 me s)) = clock s"
  "agent_audit_line c3 \<noteq> None \<Longrightarrow> clock (snd (agent_handler cfg e sc c3 me s)) = clock s"
  subgoal by (cases c1) (simp_all add: reads_same writes_clock)
  subgoal by (cases c2) (simp_all add: reads_same writes_clock)
  subgoal by (cases c3) (simp_all add: reads_same writes_clock)
  done

text \<open>The clock of \<open>s\<close> is running and can still stamp.\<close>

definition can_stamp :: "config \<Rightarrow> env \<Rightarrow> service \<Rightarrow> bool" where
  "can_stamp cfg e s = (case clock s of None \<Rightarrow> False
     | Some k \<Rightarrow> \<not> isl (fst (stamp (physical e + clock_skew_ms cfg) k)))"

lemma can_stamp_cong: "clock s' = clock s \<Longrightarrow> can_stamp cfg e s' = can_stamp cfg e s"
  by (simp add: can_stamp_def)

lemma audit_action_returns:
  assumes "can_stamp cfg e s"
  shows "fst (audit_action cfg e line actor (Some org) s) = Inr ()"
proof -
  obtain k g k' where "clock s = Some k" "stamp (physical e + clock_skew_ms cfg) k = (Inr g, k')"
    using assms by (auto simp: can_stamp_def isl_def split: option.splits)
      (metis fst_conv obj_sumE prod.collapse)
  then show ?thesis
    by (simp add: audit_action_def stamped_txn_def service_stamp_def write_txn_def split: option.split)
qed

lemma then_audit_error:
  assumes "fst (then_audit cfg e line actor (Some org) r) = Inl err"
    and "\<And>err. fst r = Inl err \<Longrightarrow> db (snd r) = d"
    and "line \<noteq> None \<Longrightarrow> can_stamp cfg e (snd r)"
  shows "db (snd (then_audit cfg e line actor (Some org) r)) = d"
proof -
  obtain out s1 where r: "r = (out, s1)" by force
  show ?thesis
  proof (cases out)
    case (Inl x)
    with assms(2) r show ?thesis by (simp add: then_audit_def)
  next
    case (Inr x)
    have "fst (audit_action cfg e line actor (Some org) s1) = Inr ()"
      by (cases line) (use assms(3) r audit_action_returns in \<open>auto simp: audit_action_def [of cfg e None]\<close>)
    then show ?thesis using assms(1) Inr r by (auto simp: then_audit_def split: prod.splits)
  qed
qed

lemma dispatch_user_error:
  assumes "fst (dispatch_user cfg e sc c user row s) = Inl err"
    and "can_stamp cfg e s" and "user \<noteq> WEB_LOCAL \<Longrightarrow> \<exists>a. row = Some a"
  shows "db (snd (dispatch_user cfg e sc c user row s)) = db s"
proof -
  have human: "db (snd (then_audit cfg e (human_audit_line h) user (Some g) (human_handler e h user s))) = db s"
    if "fst (then_audit cfg e (human_audit_line h) user (Some g) (human_handler e h user s)) = Inl err" for h g
    by (rule then_audit_error [OF that handler_error(2)])
      (use assms(2) audited_clock(2) can_stamp_cong in blast)+
  have agent: "db (snd (then_audit cfg e (agent_audit_line h) user (Some g) (agent_handler cfg e sc h user s))) = db s"
    if "fst (then_audit cfg e (agent_audit_line h) user (Some g) (agent_handler cfg e sc h user s)) = Inl err" for h g
    by (rule then_audit_error [OF that handler_error(3)])
      (use assms(2) audited_clock(3) can_stamp_cong in blast)+
  show ?thesis
  proof (cases c)
    case (ListOrgs b)
    with assms(1) show ?thesis by (auto simp: dispatch_user_def Let_def reads_same split: if_splits)
  next
    case (Humans h)
    with assms(1,3) human show ?thesis
      by (cases "user = WEB_LOCAL")
        (auto simp: dispatch_user_def Let_def writes_error split: if_splits human_command.splits)
  next
    case (Agents h)
    with assms(1,3) agent show ?thesis
      by (cases "user = WEB_LOCAL") (auto simp: dispatch_user_def Let_def split: if_splits)
  qed
qed

lemma response_of_Failure: "response_of r = Failure c m \<Longrightarrow> \<exists>err. r = Inl err"
  by (cases r) auto


definition one_request :: service where
  "one_request = serve (by_acme (SetEventRetentionDays 5)) plain_service"


section \<open>Disabled organizations\<close>

definition org_disabled :: "string \<Rightarrow> database \<Rightarrow> bool" where
  "org_disabled g d = (case organizations_get d g of None \<Rightarrow> False | Some og \<Rightarrow> \<not> org_enabled og)"

lemma org_disabled_cong: "organizations d' = organizations d \<Longrightarrow> org_disabled g d' = org_disabled g d"
  by (simp add: org_disabled_def organizations_get_def)

lemma org_disabled_insert: "org_disabled g d \<Longrightarrow> org_disabled g (organizations_insert n h i out at d)"
  by (auto simp: org_disabled_def organizations_get_def organizations_insert_def insert_row_def fetch_append
      split: option.splits)

lemma org_disabled_update:
  assumes "org_disabled g d" and "\<And>x. org_name (k x) = org_name x \<and> (org_enabled (k x) \<longrightarrow> org_enabled x)"
  shows "org_disabled g (d\<lparr>organizations := update_where (\<lambda>x. org_name x = n) k (organizations d)\<rparr>)"
proof -
  have "fetch (\<lambda>x. org_name x = g) (update_where Q k t)
      = map_option (\<lambda>x. if Q x then k x else x) (fetch (\<lambda>x. org_name x = g) t)" for Q t
    using assms(2) by (induction t) (auto simp: update_where_def fetch_Cons)
  with assms show ?thesis
    by (auto simp: org_disabled_def organizations_get_def split: option.splits)
qed

lemma organizations_results:
  "tasks_insert i f at d = Inr d' \<Longrightarrow> organizations d' = organizations d"
  "replace_dependencies i deps d = Inr d' \<Longrightarrow> organizations d' = organizations d"
  "insert_message uuid conv cl sender recipient content at ref d = Inr d' \<Longrightarrow> organizations d' = organizations d"
  "insert_group_message m d = Inr d' \<Longrightarrow> organizations d' = organizations d"
  "fetch_or_create_conversation uuid key at d = Inr (c, d') \<Longrightarrow> organizations d' = organizations d"
  by (auto simp: tasks_insert_def replace_dependencies_Inr insert_message_Inr
      insert_group_message_def split: if_splits elim: fetch_or_create_cases)

lemma organizations_ops [simp]:
  "organizations (set_state i st res at d) = organizations d"
  "organizations (set_assignee i u at d) = organizations d"
  "organizations (set_approver i u at d) = organizations d"
  "organizations (mark_read_conditional i at d) = organizations d"
  "organizations (accounts_insert u h st' desc org see pt at d) = organizations d"
  "organizations (update_account u f d) = organizations d"
  by (simp_all add: set_state_def set_assignee_def set_approver_def mark_read_conditional_def
      accounts_insert_def update_account_def)

interpretation od: database_invariant "org_disabled g" for g
proof (rule database_invariant.intro)
  show "stamped_writes (org_disabled g) h" for h
  proof unfold_locales
    fix d n and k :: "organization_row \<Rightarrow> organization_row"
    assume "org_disabled g d" "\<And>x. org_name (k x) = org_name x \<and> org_created_at (k x) = org_created_at x
        \<and> (org_enabled (k x) \<longrightarrow> org_enabled x)"
    then show "org_disabled g (d\<lparr>organizations := update_where (\<lambda>x. org_name x = n) k (organizations d)\<rparr>)"
      by (intro org_disabled_update) auto
  qed (auto simp: org_disabled_insert elim!: iffD2 [OF org_disabled_cong, rotated] dest: organizations_results)
qed

text \<open>
  A disabled organization stays out: once an organization is disabled, then after any
  sequence of requests and restarts neither the organization itself nor any of its accounts can
  authenticate, whatever the name, the password and the instant. No request enables it again.
\<close>

theorem disabled_organization_stays_out:
  assumes "(server_step cfg)\<^sup>*\<^sup>* s s'" and "org_disabled g (db s)"
  shows "(lower nm = g \<longrightarrow> isl (fst (authenticate_organization cfg' e nm pw s')))
    \<and> (\<forall>u row s2. authenticate cfg' e nm pw s' = (Inr (u, Some row), s2) \<longrightarrow> acc_org row \<noteq> g)"
proof -
  have dis: "org_disabled g (db s')" using od.sv.server_run_keeps [OF assms] .
  then obtain og where og: "organizations_get (db s') g = Some og" "\<not> org_enabled og"
    by (auto simp: org_disabled_def split: option.splits)
  have "isl (fst (authenticate_organization cfg' e nm pw s'))" if "lower nm = g"
    using og that by (simp add: authenticate_organization_def Let_def auth_refused_def)
  moreover have "acc_org row \<noteq> g" if "authenticate cfg' e nm pw s' = (Inr (u, Some row), s2)" for u row s2
    using authenticate_row [OF that] og by (auto split: if_splits)
  ultimately show ?thesis by blast
qed

text \<open>The human account of \<open>acme\<close> disables it.\<close>

definition closed_service :: service where
  "closed_service = serve (UserRequest ''acme_humain'' ''acme-password'' (Humans (DisableOrg ''acme''))) plain_service"

theorem disabled_organization_stays_out_witness:
  "isl (fst (authenticate_organization plain_config plain_env ''acme'' ''acme-password''
      (serve (by_acme GetServerStatus) closed_service)))
   \<and> \<not> isl (fst (authenticate_organization plain_config plain_env ''acme'' ''acme-password'' plain_service))"
proof -
  have "org_disabled ''acme'' (db closed_service)" by code_simp
  from disabled_organization_stays_out [OF serve_run(1) this, of "''acme''"]
  have "isl (fst (authenticate_organization plain_config plain_env ''acme'' ''acme-password''
      (serve (by_acme GetServerStatus) closed_service)))" by (auto simp: lower_def ascii_lower_char_def Let_def)
  moreover have "\<not> isl (fst (authenticate_organization plain_config plain_env ''acme'' ''acme-password'' plain_service))"
    by code_simp
  ultimately show ?thesis by blast
qed

end
