(* ===== verification/OrgProperties.thy ===== *)
theory OrgProperties
  imports RequestProperties
begin

text \<open>
  Organizations and the limits of what they manage: an organization's command changes nothing
  outside the organization, whatever it is; every change of the data is audited; and what the
  organization commands compute.
\<close>

section \<open>Well-formed accounts\<close>

lemma accounts_wf_cong: "accounts d' = accounts d \<Longrightarrow> accounts_wf d' = accounts_wf d"
  by (simp add: accounts_wf_def)

lemma accounts_wf_insert:
  "accounts_wf d \<Longrightarrow> accounts_get d u = None \<Longrightarrow> accounts_wf (accounts_insert u h st desc org see pt at d)"
  by (auto simp: accounts_wf_def accounts_insert_def insert_row_def accounts_get_None_iff)

lemma accounts_wf_update:
  "accounts_wf d \<Longrightarrow> (\<And>a. acc_username (f a) = acc_username a) \<Longrightarrow> accounts_wf (update_account u f d)"
  by (simp add: accounts_wf_def update_account_def map_update_where)

lemma accounts_results:
  "tasks_insert i f at d = Inr d' \<Longrightarrow> accounts d' = accounts d"
  "replace_dependencies i deps d = Inr d' \<Longrightarrow> accounts d' = accounts d"
  "insert_message uuid conv cl sender recipient content at ref d = Inr d' \<Longrightarrow> accounts d' = accounts d"
  "insert_group_message m d = Inr d' \<Longrightarrow> accounts d' = accounts d"
  "fetch_or_create_conversation uuid key at d = Inr (c, d') \<Longrightarrow> accounts d' = accounts d"
  by (auto simp: tasks_insert_def replace_dependencies_Inr insert_message_Inr
      insert_group_message_def split: if_splits elim: fetch_or_create_cases)

lemma accounts_ops [simp]:
  "accounts (mark_read_conditional i at d) = accounts d"
  "accounts (organizations_insert n h k out at d) = accounts d"
  by (simp_all add: mark_read_conditional_def organizations_insert_def)

interpretation aw: database_invariant accounts_wf
proof (rule database_invariant.intro)
  show "stamped_writes accounts_wf h" for h
  proof unfold_locales
    fix d u and f :: "account_row \<Rightarrow> account_row"
    assume "accounts_wf d" "\<And>a. acc_username (f a) = acc_username a \<and> acc_org (f a) = acc_org a
        \<and> acc_principal (f a) = acc_principal a \<and> acc_created_at (f a) = acc_created_at a"
    then show "accounts_wf (update_account u f d)" by (intro accounts_wf_update) auto
  qed (auto simp: accounts_wf_insert set_state_frame elim!: iffD2 [OF accounts_wf_cong, rotated]
      dest: accounts_results)
qed

section \<open>Outside an organization\<close>

definition member :: "database \<Rightarrow> string \<Rightarrow> string \<Rightarrow> bool" where
  "member d org u = (\<exists>a \<in> set (accounts d). acc_username a = u \<and> acc_org a = org)"

text \<open>What two databases have in common outside an organization (its members are those of the first).\<close>

definition same_outside :: "string \<Rightarrow> database \<Rightarrow> database \<Rightarrow> bool" where
  "same_outside org d d' =
     (filter (\<lambda>x. org_name x \<noteq> org) (organizations d') = filter (\<lambda>x. org_name x \<noteq> org) (organizations d)
      \<and> filter (\<lambda>x. acc_org x \<noteq> org) (accounts d') = filter (\<lambda>x. acc_org x \<noteq> org) (accounts d)
      \<and> filter (\<lambda>x. set_org x \<noteq> org) (org_settings d') = filter (\<lambda>x. set_org x \<noteq> org) (org_settings d)
      \<and> filter (\<lambda>x. pol_org x \<noteq> org) (policies d') = filter (\<lambda>x. pol_org x \<noteq> org) (policies d)
      \<and> filter (\<lambda>x. dpt_org x \<noteq> org) (departments d') = filter (\<lambda>x. dpt_org x \<noteq> org) (departments d)
      \<and> filter (\<lambda>x. au_org x \<noteq> org) (audit_log d') = filter (\<lambda>x. au_org x \<noteq> org) (audit_log d)
      \<and> filter (\<lambda>x. \<not> member d org (mem_username x)) (memberships d')
          = filter (\<lambda>x. \<not> member d org (mem_username x)) (memberships d)
      \<and> filter (\<lambda>x. \<not> member d org (bud_username x)) (budgets d')
          = filter (\<lambda>x. \<not> member d org (bud_username x)) (budgets d)
      \<and> filter (\<lambda>x. \<not> member d org (card_username x)) (agent_cards d')
          = filter (\<lambda>x. \<not> member d org (card_username x)) (agent_cards d)
      \<and> conversations d' = conversations d \<and> messages d' = messages d
      \<and> reply_states d' = reply_states d \<and> tasks d' = tasks d \<and> dependencies d' = dependencies d
      \<and> task_events d' = task_events d \<and> events d' = events d \<and> groups d' = groups d
      \<and> group_members d' = group_members d \<and> group_messages d' = group_messages d
      \<and> delegations d' = delegations d)"

lemma same_outside_refl: "same_outside org d d"
  by (simp add: same_outside_def)

lemma filter_delete_other:
  "(\<And>r. Q r \<Longrightarrow> \<not> R r) \<Longrightarrow> filter R (delete_where Q t) = filter R t"
  by (induction t) (auto simp: delete_where_def)

lemma filter_update_other:
  "(\<And>r. r \<in> set t \<Longrightarrow> Q r \<Longrightarrow> \<not> R r \<and> \<not> R (f r)) \<Longrightarrow> filter R (update_where Q f t) = filter R t"
  by (induction t) (auto simp: update_where_def)

lemma filter_insert_other: "\<not> R r \<Longrightarrow> filter R (insert_row r t) = filter R t"
  by (simp add: insert_row_def)

lemma filter_upsert_other:
  "(\<And>r. r \<in> set t \<Longrightarrow> Q r \<Longrightarrow> \<not> R r \<and> \<not> R (f r)) \<Longrightarrow> \<not> R x \<Longrightarrow> filter R (upsert Q f x t) = filter R t"
  by (auto simp: upsert_def filter_update_other)

lemmas filter_other = filter_delete_other filter_update_other filter_insert_other filter_upsert_other

lemma same_outside_audit:
  "same_outside org d d' \<Longrightarrow> same_outside org d (audit org at actor c tt tg out h d')"
  by (simp add: same_outside_def audit_def audit_append_def audit_row_of_def filter_insert_other)

text \<open>A member found by name is the only account of the name.\<close>

lemma member_row:
  assumes "accounts_wf d" and "accounts_get d u = Some row" and "acc_org row = org"
  shows "member d org u" and "a \<in> set (accounts d) \<Longrightarrow> acc_username a = u \<Longrightarrow> acc_org a = org"
proof -
  from accounts_getD [OF assms(2)] assms(3) show "member d org u" by (auto simp: member_def)
  assume "a \<in> set (accounts d)" "acc_username a = u"
  with accounts_getD [OF assms(2)] assms(1) have "a = row"
    by (metis accounts_wf_def distinct_map inj_onD)
  with assms(3) show "acc_org a = org" by simp
qed

lemma outside_account:
  assumes "accounts_wf d" and "accounts_get d u = Some row" and "acc_org row = org"
    and "\<And>a. acc_org (f a) = acc_org a"
  shows "same_outside org d (update_account u f d)"
  using member_row(2) [OF assms(1-3)] assms(4)
  by (simp add: same_outside_def update_account_def filter_update_other)

lemma outside_new_account:
  "same_outside org d (accounts_insert u h st desc org see pt at d)"
  by (simp add: same_outside_def accounts_insert_def filter_insert_other)

lemma outside_org:
  "(\<And>x. org_name (k x) = org_name x) \<Longrightarrow>
     same_outside org d (d\<lparr>organizations := update_where (\<lambda>x. org_name x = org) k (organizations d)\<rparr>)"
  by (simp add: same_outside_def filter_update_other)

lemma outside_card:
  "member d org u \<Longrightarrow> same_outside org d (cards_approve u by' at d)"
  by (auto simp: same_outside_def cards_approve_def intro!: filter_other)

lemma outside_org_handlers:
  assumes "accounts_wf d"
  shows "org_create_agent e p org d = Inr (x1, d') \<Longrightarrow> same_outside org d d'"
    "org_deactivate_agent u org d = Inr (x2, d') \<Longrightarrow> same_outside org d d'"
    "org_reactivate_agent u org d = Inr (x3, d') \<Longrightarrow> same_outside org d d'"
    "org_change_password e u pw org d = Inr (x4, d') \<Longrightarrow> same_outside org d d'"
    "org_set_visibility u see org d = Inr (x5, d') \<Longrightarrow> same_outside org d d'"
    "org_change_agent_description u desc org d = Inr (x6, d') \<Longrightarrow> same_outside org d d'"
    "org_set_policy inc out org d = Inr (x7, d') \<Longrightarrow> same_outside org d d'"
    "org_change_organization_password e pw org d = Inr (x8, d') \<Longrightarrow> same_outside org d d'"
    "org_approve_agent_card e u org d = Inr (x9, d') \<Longrightarrow> same_outside org d d'"
  by (auto simp: org_create_agent_def org_deactivate_agent_def org_reactivate_agent_def
      org_change_password_def org_set_visibility_def org_change_agent_description_def org_set_policy_def
      org_change_organization_password_def org_approve_agent_card_def Let_def exc_simps
      set_status_def set_password_hash_def set_visibility_def update_policies_def update_password_def
      split: if_splits
      intro!: outside_new_account outside_org outside_card same_outside_refl
      intro: outside_account [OF assms] member_row(1) [OF assms])

lemma outside_table:
  "filter (\<lambda>x. dpt_org x \<noteq> org) xs = filter (\<lambda>x. dpt_org x \<noteq> org) (departments d)
     \<Longrightarrow> same_outside org d (d\<lparr>departments := xs\<rparr>)"
  "filter (\<lambda>x. set_org x \<noteq> org) ys = filter (\<lambda>x. set_org x \<noteq> org) (org_settings d)
     \<Longrightarrow> same_outside org d (d\<lparr>org_settings := ys\<rparr>)"
  "filter (\<lambda>x. pol_org x \<noteq> org) zs = filter (\<lambda>x. pol_org x \<noteq> org) (policies d)
     \<Longrightarrow> same_outside org d (d\<lparr>policies := zs\<rparr>)"
  "filter (\<lambda>x. \<not> member d org (mem_username x)) ms = filter (\<lambda>x. \<not> member d org (mem_username x)) (memberships d)
     \<Longrightarrow> same_outside org d (d\<lparr>memberships := ms\<rparr>)"
  "filter (\<lambda>x. \<not> member d org (bud_username x)) bs = filter (\<lambda>x. \<not> member d org (bud_username x)) (budgets d)
     \<Longrightarrow> same_outside org d (d\<lparr>budgets := bs\<rparr>)"
  by (simp_all add: same_outside_def)

lemma outside_org_tables:
  assumes "accounts_wf d"
  shows "org_create_department e dept org d = Inr (x1, d') \<Longrightarrow> same_outside org d d'"
    "org_set_agent_department e u dept r org d = Inr (x2, d') \<Longrightarrow> same_outside org d d'"
    "org_set_event_retention_days e days org h d = Inr (x3, d') \<Longrightarrow> same_outside org d d'"
    "org_set_escalation_policy e q org h d = Inr (x4, d') \<Longrightarrow> same_outside org d d'"
    "org_set_agent_budget e u mt mm org h d = Inr (x5, d') \<Longrightarrow> same_outside org d d'"
proof -
  have m: "member d org u" if "org_require_member d u org = Inr row" for row
    using that member_row(1) [OF assms] by (auto simp: org_require_member_Inr)
  show "org_create_department e dept org d = Inr (x1, d') \<Longrightarrow> same_outside org d d'"
    by (auto simp: org_create_department_def andthen_Inr require_Inr intro!: outside_table filter_other)
  show "org_set_agent_department e u dept r org d = Inr (x2, d') \<Longrightarrow> same_outside org d d'"
    by (auto simp: org_set_agent_department_def andthen_Inr require_Inr dest!: m intro!: outside_table filter_other)
  show "org_set_event_retention_days e days org h d = Inr (x3, d') \<Longrightarrow> same_outside org d d'"
    by (auto simp: org_set_event_retention_days_def Let_def intro!: same_outside_audit outside_table filter_other)
  show "org_set_escalation_policy e q org h d = Inr (x4, d') \<Longrightarrow> same_outside org d d'"
    by (auto simp: org_set_escalation_policy_def Let_def andthen_Inr
        intro!: same_outside_audit outside_table filter_other)
  show "org_set_agent_budget e u mt mm org h d = Inr (x5, d') \<Longrightarrow> same_outside org d d'"
    by (auto simp: org_set_agent_budget_def Let_def andthen_Inr dest!: m
        intro!: same_outside_audit outside_table filter_other)
qed

lemma outside_observer:
  assumes "accounts_wf d"
  shows "org_create_observer_account e q org h d = Inr (x1, d') \<Longrightarrow> same_outside org d d'"
    "org_revoke_observer_account e u org h d = Inr (x2, d') \<Longrightarrow> same_outside org d d'"
proof -
  have fresh: "filter (\<lambda>x. acc_org x \<noteq> org) (update_where (\<lambda>a. acc_username a = v) f t) = filter (\<lambda>x. acc_org x \<noteq> org) t"
    if "\<And>a. a \<in> set t \<Longrightarrow> acc_username a = v \<Longrightarrow> acc_org a = org" "\<And>a. acc_org (f a) = acc_org a" for v f t
    using that by (auto intro!: filter_update_other)
  have free: "a \<in> set (accounts d) \<Longrightarrow> acc_username a \<noteq> v" if "accounts_get d v = None" for a v
    using that by (auto simp: accounts_get_None_iff)
  show "org_create_observer_account e q org h d = Inr (x1, d') \<Longrightarrow> same_outside org d d'"
    by (auto simp: org_create_observer_account_def Let_def exc_simps intro!: same_outside_audit)
      (auto simp: same_outside_def update_account_def accounts_insert_def filter_insert_other
        insert_row_def dest: free intro!: trans [OF fresh])
  show "org_revoke_observer_account e u org h d = Inr (x2, d') \<Longrightarrow> same_outside org d d'"
    by (auto simp: org_revoke_observer_account_def Let_def exc_simps set_status_def
        intro!: same_outside_audit intro: outside_account [OF assms])
qed

text \<open>The database after a transaction: the body's result, or the one it began on.\<close>

lemma writes_effect:
  "Q (db s) \<Longrightarrow> (\<And>x d'. body (db s) = Inr (x, d') \<Longrightarrow> Q d') \<Longrightarrow> Q (db (snd (writes f body s)))"
  by (auto simp: writes_def write_txn_def exc_simps split: sum.split prod.split)

lemma stamped_txn_effect:
  assumes "Q (db s)" and "\<And>h x d'. body h (db s) = Inr (x, d') \<Longrightarrow> Q d'"
  shows "Q (db (snd (stamped_txn cfg e body s)))"
proof (cases "service_stamp cfg e s")
  case (Pair r s')
  moreover have "db s' = db s" using service_stamp_db [of cfg e s] Pair by simp
  ultimately show ?thesis
    using assms by (auto simp: stamped_txn_def write_txn_def split: sum.split prod.split)
qed

lemma stamps_effect:
  "Q (db s) \<Longrightarrow> (\<And>h x d'. body h (db s) = Inr (x, d') \<Longrightarrow> Q d') \<Longrightarrow> Q (db (snd (stamps cfg e f body s)))"
  unfolding stamps_def by (rule stamped_txn_effect) (auto simp: exc_simps)

lemma org_handler_outside:
  "accounts_wf (db s) \<Longrightarrow> same_outside org (db s) (db (snd (org_handler cfg e c org s)))"
  by (cases c) (auto simp: reads_same same_outside_refl
      intro!: writes_effect [where Q = "same_outside org (db s)"] stamps_effect [where Q = "same_outside org (db s)"]
      dest: outside_org_handlers outside_org_tables outside_observer)

lemma then_audit_outside:
  assumes "same_outside org d (db (snd r))"
  shows "same_outside org d (db (snd (then_audit cfg e line actor (Some org) r)))"
proof -
  have audited: "same_outside org d (db (snd (audit_action cfg e line actor (Some org) s)))"
    if "same_outside org d (db s)" for s
    using that by (auto simp: audit_action_def same_outside_audit split: option.split
        intro!: stamped_txn_effect [where Q = "same_outside org d"])
  show ?thesis
    using assms audited [of "snd r"] by (cases r) (auto simp: then_audit_def split: sum.split prod.split)
qed

lemma same_outside_data: "same_outside org (data_of d) (data_of d') = same_outside org d d'"
  by (simp add: same_outside_def data_of_def member_def)

text \<open>
  C21. An organization's command stays at home: whatever command an organization sends, and
  whatever the answer, everything outside it is as before: the other organizations, their
  accounts, settings, policies, departments, budgets, cards and audit journals, and all
  messages, conversations, tasks, groups and delegations.
\<close>

theorem organization_commands_stay_home:
  assumes "accounts_wf (db s)"
  shows "same_outside (lower nm) (db s) (db (snd (process cfg e sc (Inr (OrgRequest nm pw c)) s)))"
proof -
  define s0 where "s0 = s\<lparr>requests_total := requests_total s + 1\<rparr>"
  obtain out s1 where auth: "authenticate_organization cfg e nm pw s0 = (out, s1)" by force
  have data: "data_of (db s1) = data_of (db s)"
    using authenticate_organization_data [of cfg e nm pw s0] auth by (simp add: s0_def)
  have "same_outside (lower nm) (db s1) (db (snd (dispatch cfg e sc (OrgRequest nm pw c) s0)))"
  proof (cases out)
    case (Inl err)
    from dispatch_org_request(1) [OF auth [unfolded Inl]] show ?thesis by (simp add: same_outside_refl)
  next
    case (Inr org)
    have "org = lower nm" using auth Inr
      by (auto simp: authenticate_organization_def Let_def auth_refused_def
          split: option.splits if_splits prod.splits bool.splits sum.splits)
    moreover have "accounts_wf (db s1)"
      using assms accounts_wf_cong [OF data_of_cong(1) [OF data]] by simp
    ultimately show ?thesis
      unfolding dispatch_org_request(2) [OF auth [unfolded Inr]]
      by (auto intro!: then_audit_outside org_handler_outside)
  qed
  then have "same_outside (lower nm) (data_of (db s1)) (data_of (db (snd (dispatch cfg e sc (OrgRequest nm pw c) s0))))"
    by (simp only: same_outside_data)
  then show ?thesis by (simp only: data same_outside_data process_simps s0_def)
qed

theorem organization_commands_stay_home_witness:
  "same_outside ''acme'' plain_db (db (serve (by_acme (DeactivateAgent ''bob'')) plain_service))
   \<and> map acc_status (accounts (db (serve (by_acme (DeactivateAgent ''bob'')) plain_service)))
       = [Active, Disabled, Active, Active]"
proof -
  have same: "db plain_service = plain_db" by (simp add: plain_service_def)
  have "accounts_wf (db plain_service)" by code_simp
  moreover have "lower ''acme'' = ''acme''" by code_simp
  ultimately have "same_outside ''acme'' plain_db (db (serve (by_acme (DeactivateAgent ''bob'')) plain_service))"
    using organization_commands_stay_home [of plain_service "''acme''" plain_config plain_env plain_scan]
    by (simp only: serve_def by_acme_def same)
  moreover have "map acc_status (accounts (db (serve (by_acme (DeactivateAgent ''bob'')) plain_service)))
       = [Active, Disabled, Active, Active]" by code_simp
  ultimately show ?thesis by blast
qed

end
