(* ===== verification/AuditProperties.thy ===== *)
theory AuditProperties
  imports OrgProperties
begin

text \<open>
  Every change is audited: the handlers that stamp write their audit line in their transaction,
  the others are audited by the dispatcher. The local web identity is the exception.
\<close>

section \<open>What a handler adds to the audit journal\<close>

definition audited_by :: "string \<Rightarrow> database \<Rightarrow> database \<Rightarrow> bool" where
  "audited_by u d d' =
     (let n = length (audit_log d)
      in take n (audit_log d') = audit_log d \<and> list_ex (\<lambda>r. au_actor r = u) (drop n (audit_log d')))"

lemma audited_byI:
  "audit_log d' = audit_log d @ new \<Longrightarrow> r \<in> set new \<Longrightarrow> au_actor r = u \<Longrightarrow> audited_by u d d'"
  by (auto simp: audited_by_def list_ex_iff)

lemma audited_by_audit:
  "audit_log dx = audit_log d \<Longrightarrow> audited_by u d (audit org at u c tt tg out h dx)"
  by (rule audited_byI [where new = "[audit_row_of \<lparr>ae_org = org, ae_at = at, ae_actor = u, ae_command = c,
      ae_target_type = tt, ae_target = tg, ae_outcome = out, ae_hlc = h\<rparr> dx]"])
    (auto simp: audit_def audit_append_def insert_row_def audit_row_of_def)

lemma audit_permanent: "permanent d d' \<Longrightarrow> \<exists>zs. audit_log d' = audit_log d @ zs"
  by (metis append_take_drop_id extends_def list.rel_eq permanent_def)

lemma audited_by_later:
  assumes "audited_by u d d1" and "permanent d1 d2"
  shows "audited_by u d d2"
proof -
  from audit_permanent [OF assms(2)] obtain zs where zs: "audit_log d2 = audit_log d1 @ zs" ..
  have "length (audit_log d) \<le> length (audit_log d1)"
    using assms(1) by (auto simp: audited_by_def Let_def) (metis length_take min.absorb_iff2 min.commute)
  with assms(1) zs show ?thesis by (auto simp: audited_by_def Let_def list_ex_iff)
qed

lemma escalations_permanent: "permanent d (check_escalations cfg e org at h d)"
  by (rule pd.sv.w.checked [OF permanent_refl])

lemma record_change_audited:
  assumes "record_change cfg e i me org ln co h change d = Inr (view, d')"
    and "audit_log (change d) = audit_log d"
  shows "audited_by me d d'"
  using assms by (auto simp: record_change_def Let_def exc_simps split: prod.splits intro!: audited_by_audit)

lemma set_ops_audit [simp]:
  "audit_log (set_state i st res at d) = audit_log d" "audit_log (set_assignee i u at d) = audit_log d"
  "audit_log (set_approver i u at d) = audit_log d"
  by (simp_all add: set_state_def set_assignee_def set_approver_def)

lemma task_audited:
  "agent_update_task_state cfg e i st res me h d = Inr (v, d') \<Longrightarrow> audited_by me d d'"
  "agent_transfer_task cfg e i u nt me h d = Inr (v, d') \<Longrightarrow> audited_by me d d'"
  "agent_request_approval cfg e i u me h d = Inr (v, d') \<Longrightarrow> audited_by me d d'"
  "agent_approve_task cfg e i me h d = Inr (v, d') \<Longrightarrow> audited_by me d d'"
  "agent_reject_task cfg e i rs me h d = Inr (v, d') \<Longrightarrow> audited_by me d d'"
  by (auto simp: agent_update_task_state_def agent_transfer_task_def agent_request_approval_def
      agent_approve_task_def agent_reject_task_def Let_def andthen_Inr split: prod.splits
      elim!: record_change_audited intro!: audited_by_later [OF _ escalations_permanent])

lemma create_task_audited:
  assumes "agent_create_task cfg e p me h d = Inr (v, d')"
  shows "audited_by me d d'"
proof -
  have "\<exists>org. org_of d me = Inr org"
    using assms by (cases "org_of d me") (simp_all add: agent_create_task_def)
  then obtain org where org: "org_of d me = Inr org" ..
  show ?thesis
  proof (cases "case ct_client p of None \<Rightarrow> None | Some c \<Rightarrow> get_by_client_key d me c")
    case (Some existing)
    with assms show ?thesis
      unfolding agent_create_task_def org andthen_simps Some option.case Let_def
      by (auto split: if_splits intro: audited_by_audit)
  next
    case None
    from assms have "insert_new_task cfg e p me org h d = Inr (v, d')"
      unfolding agent_create_task_def org andthen_simps None option.case by (auto simp: andthen_Inr)
    then obtain d1 d2 row g where
      d1: "tasks_insert (fresh e 0) (create_task_fields p me) (now e) d = Inr d1"
      and d2: "(if ct_depends_on p = [] then Inr d1
        else replace_dependencies (fresh e 0) (ct_depends_on p) d1) = Inr d2"
      and d': "d' = check_escalations cfg e g (now e) h (audit org (now e) me ''create_task'' (Some ''task'')
        (Some (fresh e 0)) ''ok'' h (task_event cfg e org row TaskCreated me (now e) h
          (add_event (created_line e me h) d2)))"
      by (rule insert_new_task_elim)
    have "audit_log d1 = audit_log d" using d1 by (auto simp: tasks_insert_def split: if_splits)
    moreover have "audit_log d2 = audit_log d1"
      using d2 by (auto simp: replace_dependencies_Inr split: if_splits)
    ultimately show ?thesis unfolding d'
      by (intro audited_by_later [OF _ escalations_permanent] audited_by_audit) simp
  qed
qed

lemma org_stamped_audited:
  "org_set_event_retention_days e days org h d = Inr (x1, d') \<Longrightarrow> audited_by org d d'"
  "org_set_escalation_policy e q org h d = Inr (x2, d') \<Longrightarrow> audited_by org d d'"
  "org_set_agent_budget e u mt mm org h d = Inr (x3, d') \<Longrightarrow> audited_by org d d'"
  "org_create_observer_account e oq org h d = Inr (x4, d') \<Longrightarrow> audited_by org d d'"
  "org_revoke_observer_account e u org h d = Inr (x4, d') \<Longrightarrow> audited_by org d d'"
  by (auto simp: org_set_event_retention_days_def org_set_escalation_policy_def org_set_agent_budget_def
      org_create_observer_account_def org_revoke_observer_account_def Let_def exc_simps acct_defs
      intro!: audited_by_audit)

lemma group_audited:
  "agent_create_group e nm me h d = Inr (x1, d') \<Longrightarrow> audited_by me d d'"
  "agent_add_group_member e g u me h d = Inr (x2, d') \<Longrightarrow> audited_by me d d'"
  "agent_remove_group_member e g u me h d = Inr (x2, d') \<Longrightarrow> audited_by me d d'"
  "agent_create_delegation e i u until me h d = Inr (x3, d') \<Longrightarrow> audited_by me d d'"
  "agent_revoke_delegation e i u me h d = Inr (x4, d') \<Longrightarrow> audited_by me d d'"
  by (auto simp: agent_create_group_def agent_add_group_member_def agent_remove_group_member_def
      agent_create_delegation_def agent_revoke_delegation_def Let_def exc_simps split: if_splits
      intro!: audited_by_audit)

text \<open>A group message sent again under its key is the one command with nothing to audit.\<close>

lemma group_message_audited:
  "agent_send_group_message e p me h d = Inr (x, d') \<Longrightarrow> d' = d \<or> audited_by me d d'"
  by (auto simp: agent_send_group_message_def insert_group_message_def Let_def exc_simps
      split: option.splits if_splits intro!: audited_by_audit)

section \<open>What a request adds\<close>

text \<open>The handlers without a stamp leave the audit journal to the dispatcher.\<close>

lemma audit_same: "audit_log d = xs \<Longrightarrow> same_journals d d' \<Longrightarrow> audit_log d' = xs"
  by (simp add: same_journals_def)

interpretation sj: plain_writes "\<lambda>d. audit_log d = xs" for xs
  by unfold_locales (erule audit_same, blast intro: same_journals_ops same_journals_results)+

lemma plain_handler_audit:
  "org_audit_line c1 \<noteq> None \<Longrightarrow> audit_log (db (snd (org_handler cfg e c1 org s))) = audit_log (db s)"
  "human_audit_line c2 \<noteq> None \<Longrightarrow> audit_log (db (snd (human_handler e c2 me s))) = audit_log (db s)"
  "agent_audit_line c3 \<noteq> None \<Longrightarrow> audit_log (db (snd (agent_handler cfg e sc c3 me s))) = audit_log (db s)"
  subgoal by (cases c1) (auto simp: reads_same intro!: writes_effect [where Q = "\<lambda>d. audit_log d = audit_log (db s)"]
      dest: sj.org_create_agent_keeps [OF refl] sj.org_status_keeps [OF refl] sj.org_settings_keeps [OF refl])
  subgoal by (cases c2) (auto simp: reads_same intro!: writes_effect [where Q = "\<lambda>d. audit_log d = audit_log (db s)"]
      dest: sj.human_create_org_keeps [OF refl] sj.human_disable_org_keeps [OF refl])
  subgoal by (cases c3) (auto simp: reads_same intro!: writes_effect [where Q = "\<lambda>d. audit_log d = audit_log (db s)"]
      dest: sj.agent_message_keeps [OF refl] sj.agent_set_agent_card_keeps [OF refl])
  done

definition quiet_or_audited :: "string \<Rightarrow> database \<Rightarrow> database \<Rightarrow> bool" where
  "quiet_or_audited u d d' = (d' = d \<or> audited_by u d d')"

lemma quiet_refl [simp]: "quiet_or_audited u d d"
  by (simp add: quiet_or_audited_def)

lemma stamps_quiet:
  "(\<And>h x d'. body h (db s) = Inr (x, d') \<Longrightarrow> d' = db s \<or> audited_by u (db s) d')
     \<Longrightarrow> quiet_or_audited u (db s) (db (snd (stamps cfg e f body s)))"
  by (rule stamps_effect) (auto simp: quiet_or_audited_def)

lemma stamping_handler_audited:
  "org_audit_line c1 = None \<Longrightarrow> quiet_or_audited org (db s) (db (snd (org_handler cfg e c1 org s)))"
  "human_audit_line c2 = None \<Longrightarrow> quiet_or_audited me (db s) (db (snd (human_handler e c2 me s)))"
  "agent_audit_line c3 = None \<Longrightarrow> quiet_or_audited me (db s) (db (snd (agent_handler cfg e sc c3 me s)))"
  subgoal by (cases c1) (auto simp: reads_same intro!: stamps_quiet dest: org_stamped_audited)
  subgoal by (cases c2) (auto simp: reads_same)
  subgoal by (cases c3) (auto simp: reads_same intro!: stamps_quiet
      dest: task_audited create_task_audited group_audited group_message_audited)
  done

lemma then_audit_audited:
  assumes "line = None \<Longrightarrow> quiet_or_audited u d (db (snd r))"
    and "line \<noteq> None \<Longrightarrow> audit_log (db (snd r)) = audit_log d \<and> can_stamp cfg e (snd r)"
    and "\<And>err. fst r = Inl err \<Longrightarrow> db (snd r) = d"
  shows "quiet_or_audited u d (db (snd (then_audit cfg e line u (Some org) r)))"
proof -
  obtain out s1 where r: "r = (out, s1)" by force
  show ?thesis
  proof (cases "line = None \<or> isl out")
    case True
    then show ?thesis
      using assms r by (cases out) (auto simp: then_audit_def audit_action_def quiet_or_audited_def)
  next
    case False
    then obtain x c t where ok: "out = Inr x" "line = Some (c, t)" by (cases out) auto
    with assms(2) r obtain k g k' where "clock s1 = Some k"
      "stamp (physical e + clock_skew_ms cfg) k = (Inr g, k')" and same: "audit_log (db s1) = audit_log d"
      by (auto simp: can_stamp_def isl_def split: option.splits) (metis fst_conv obj_sumE prod.collapse)
    then have "db (snd (then_audit cfg e line u (Some org) r)) =
        audit org (now e) u c (Some ''target'') (map_option lower t) ''ok'' g (db s1)"
      by (simp add: r ok then_audit_def audit_action_def stamped_txn_def service_stamp_def write_txn_def)
    with audited_by_audit [OF same] show ?thesis by (simp add: quiet_or_audited_def)
  qed
qed

lemma dispatch_user_audited:
  assumes "can_stamp cfg e s" and "user \<noteq> WEB_LOCAL" and "row = Some a"
  shows "quiet_or_audited user (db s) (db (snd (dispatch_user cfg e sc c user row s)))"
proof -
  have human: "quiet_or_audited user (db s)
      (db (snd (then_audit cfg e (human_audit_line h) user (Some g) (human_handler e h user s))))" for h g
    using assms(1) plain_handler_audit(2) audited_clock(2) can_stamp_cong
    by (intro then_audit_audited) (blast intro: stamping_handler_audited handler_error)+
  have agent: "quiet_or_audited user (db s)
      (db (snd (then_audit cfg e (agent_audit_line h) user (Some g) (agent_handler cfg e sc h user s))))" for h g
    using assms(1) plain_handler_audit(3) audited_clock(3) can_stamp_cong
    by (intro then_audit_audited) (blast intro: stamping_handler_audited handler_error)+
  show ?thesis
    using human agent assms(2,3)
    by (cases c) (auto simp: dispatch_user_def Let_def reads_same)
qed

definition caller :: "request \<Rightarrow> string" where
  "caller r = (case r of OrgRequest nm pw c \<Rightarrow> lower nm | UserRequest nm pw c \<Rightarrow> lower nm)"

lemma audited_by_data: "audited_by u (data_of d) d' = audited_by u d d'"
  by (simp add: audited_by_def)

lemma quiet_or_audited_data:
  assumes "quiet_or_audited u d1 d'" and "data_of d1 = data_of d"
  shows "data_of d' = data_of d \<or> audited_by u d d'"
  using assms by (metis audited_by_data quiet_or_audited_def)



end
