(* ===== verification/Unicode.thy ===== *)
theory Unicode
  imports Errors Json
begin

text \<open>
  Text seen the way \<^verbatim>\<open>synapse/validation.py\<close> sees it, code point by code point. The
  model keeps text as bytes; \<open>code_points\<close> decodes them. A lone surrogate, which a JSON escape
  can write, is kept as its three bytes (what UTF-8 would give it); a byte that is no UTF-8
  becomes a surrogate of its own, so that strict decoding is the absence of surrogates.

  The Unicode database (general categories, NFC, case folding, lower case) belongs to the
  interpreter: it is the record \<open>unicode\<close>, and the facts a theorem needs of it are the
  hypotheses \<open>nfc_law\<close> and \<open>points_law\<close>.
\<close>

record unicode =
  category :: "nat \<Rightarrow> string"
  nfc :: "ustr \<Rightarrow> ustr"
  casefold :: "ustr \<Rightarrow> ustr"
  lowercase :: "ustr \<Rightarrow> ustr"

section \<open>UTF-8\<close>

definition surrogate :: "nat \<Rightarrow> bool" where
  "surrogate c = (55296 \<le> c \<and> c \<le> 57343)"

definition continuation :: "char \<Rightarrow> bool" where
  "continuation c = (128 \<le> (of_char c :: nat) \<and> (of_char c :: nat) < 192)"

definition continued :: "nat \<Rightarrow> string \<Rightarrow> bool" where
  "continued k s = (length (take k s) = k \<and> list_all continuation (take k s))"

definition tail_bits :: "nat \<Rightarrow> nat \<Rightarrow> string \<Rightarrow> nat" where
  "tail_bits lead k s = foldl (\<lambda>n c. n * 64 + (of_char c - 128)) lead (take k s)"

text \<open>The code point that starts with the byte \<open>b\<close>, and how many bytes of \<open>s\<close> it takes.\<close>

definition point :: "char \<Rightarrow> string \<Rightarrow> nat \<times> nat" where
  "point b s =
     (let n = (of_char b :: nat);
          v2 = tail_bits (n - 192) 1 s; v3 = tail_bits (n - 224) 2 s; v4 = tail_bits (n - 240) 3 s
      in if n < 128 then (n, 0)
         else if 194 \<le> n \<and> n < 224 \<and> continued 1 s then (v2, 1)
         else if 224 \<le> n \<and> n < 240 \<and> continued 2 s \<and> 2048 \<le> v3 then (v3, 2)
         else if 240 \<le> n \<and> n < 245 \<and> continued 3 s \<and> 65536 \<le> v4 \<and> v4 < 1114112 then (v4, 3)
         else (56320 + n, 0))"

function code_points :: "string \<Rightarrow> ustr" where
  "code_points [] = []"
| "code_points (b # s) = fst (point b s) # code_points (drop (snd (point b s)) s)"
  by pat_completeness auto
termination by (relation "measure length") auto

definition utf8_text :: "ustr \<Rightarrow> string" where
  "utf8_text us = concat (map utf8 us)"

text \<open>\<open>bytes.decode("utf-8")\<close> succeeds.\<close>

definition is_utf8 :: "string \<Rightarrow> bool" where
  "is_utf8 s = list_all (\<lambda>c. \<not> surrogate c) (code_points s)"

lemma of_char_of: "n < 256 \<Longrightarrow> (of_char (char_of n :: char) :: nat) = n"
  by simp

lemma point_ascii: "(of_char b :: nat) < 128 \<Longrightarrow> point b s = (of_char b, 0)"
  by (simp add: point_def Let_def)

lemma code_points_ascii: "list_all (\<lambda>c. (of_char c :: nat) < 128) s \<Longrightarrow> code_points s = cps s"
  by (induction s) (simp_all add: point_ascii)

lemma continued_take:
  "continued 1 (a # s) = continuation a"
  "continued 2 (a # b # s) = (continuation a \<and> continuation b)"
  "continued 3 (a # b # c # s) = (continuation a \<and> continuation b \<and> continuation c)"
  by (simp_all add: continued_def numeral_2_eq_2 numeral_3_eq_3)

lemma tail_bits_take:
  "tail_bits n 1 (a # s) = n * 64 + (of_char a - 128)"
  "tail_bits n 2 (a # b # s) = (n * 64 + (of_char a - 128)) * 64 + (of_char b - 128)"
  "tail_bits n 3 (a # b # c # s) =
     ((n * 64 + (of_char a - 128)) * 64 + (of_char b - 128)) * 64 + (of_char c - 128)"
  by (simp_all add: tail_bits_def numeral_2_eq_2 numeral_3_eq_3)

lemma continuation_char: "(n :: nat) < 64 \<Longrightarrow> continuation (char_of (128 + n))"
  by (simp add: continuation_def)

lemma sextets: "c div (k * 64) * 64 + c div k mod 64 = (c div k :: nat)"
  by (simp add: div_mult2_eq)

lemma code_points_utf8:
  assumes "c < 1114112"
  shows "code_points (utf8 c @ s) = c # code_points s"
proof -
  consider "c < 128" | "128 \<le> c" "c < 2048" | "2048 \<le> c" "c < 65536" | "65536 \<le> c" by linarith
  then show ?thesis
  proof cases
    case 1
    then show ?thesis by (simp add: utf8_def point_def)
  next
    case 2
    let ?a = "192 + c div 64" and ?b = "128 + c mod 64"
    have b: "194 \<le> ?a" "?a < 224" "?b < 256" using 2 by auto
    then have "point (char_of ?a) (char_of ?b # s) = (c, 1)"
      using continuation_char [of "c mod 64"]
      by (simp add: point_def Let_def continued_take [unfolded One_nat_def] tail_bits_take [unfolded One_nat_def])
    with 2 show ?thesis by (simp add: utf8_def)
  next
    case 3
    let ?a = "224 + c div 4096" and ?b = "128 + c div 64 mod 64" and ?c = "128 + c mod 64"
    have b: "224 \<le> ?a" "?a < 240" "?b < 256" "?c < 256" using 3 by auto
    have v: "(c div 4096 * 64 + c div 64 mod 64) * 64 + c mod 64 = c"
      using sextets [of c 64] by simp
    from b v 3 have "point (char_of ?a) (char_of ?b # char_of ?c # s) = (c, 2)"
      using continuation_char [of "c mod 64"] continuation_char [of "c div 64 mod 64"]
      by (simp add: point_def Let_def continued_take tail_bits_take)
    with 3 show ?thesis by (simp add: utf8_def numeral_2_eq_2)
  next
    case 4
    let ?a = "240 + c div 262144" and ?b = "128 + c div 4096 mod 64"
      and ?c = "128 + c div 64 mod 64" and ?d = "128 + c mod 64"
    have b: "240 \<le> ?a" "?a < 245" "?b < 256" "?c < 256" "?d < 256" using 4 assms by auto
    have v: "((c div 262144 * 64 + c div 4096 mod 64) * 64 + c div 64 mod 64) * 64 + c mod 64 = c"
      using sextets [of c 64] sextets [of c 4096] by simp
    from b v 4 assms have "point (char_of ?a) (char_of ?b # char_of ?c # char_of ?d # s) = (c, 3)"
      using continuation_char [of "c mod 64"] continuation_char [of "c div 64 mod 64"]
        continuation_char [of "c div 4096 mod 64"]
      by (simp add: point_def Let_def continued_take tail_bits_take)
    with 4 show ?thesis by (simp add: utf8_def numeral_3_eq_3)
  qed
qed

lemma code_points_text:
  "list_all (\<lambda>c. c < 1114112) us \<Longrightarrow> code_points (utf8_text us) = us"
  by (induction us) (simp_all add: utf8_text_def code_points_utf8)

section \<open>White space\<close>

text \<open>\<open>str.isspace\<close> on one character, which is what \<open>str.strip\<close> removes.\<close>

definition is_space :: "nat \<Rightarrow> bool" where
  "is_space c = (9 \<le> c \<and> c \<le> 13 \<or> 28 \<le> c \<and> c \<le> 32 \<or> c = 133 \<or> c = 160 \<or> c = 5760
     \<or> 8192 \<le> c \<and> c \<le> 8202 \<or> c = 8232 \<or> c = 8233 \<or> c = 8239 \<or> c = 8287 \<or> c = 12288)"

definition strip :: "ustr \<Rightarrow> ustr" where
  "strip us = rev (dropWhile is_space (rev (dropWhile is_space us)))"

text \<open>The \<open>White_Space\<close> property of the Unicode standard.\<close>

definition white_space :: "nat \<Rightarrow> bool" where
  "white_space c = (is_space c \<and> \<not> (28 \<le> c \<and> c \<le> 31))"

definition stripped :: "ustr \<Rightarrow> bool" where
  "stripped us = (us \<noteq> [] \<longrightarrow> \<not> is_space (hd us) \<and> \<not> is_space (last us))"

lemma strip_idle: "stripped us \<Longrightarrow> strip us = us"
proof (cases us)
  case (Cons c cs)
  assume "stripped us"
  then have l: "\<not> is_space (hd us)" "\<not> is_space (hd (rev us))"
    by (simp_all only: stripped_def hd_rev) (simp_all add: Cons)
  have idle: "dropWhile is_space xs = xs" if "\<not> is_space (hd xs)" for xs
    using that by (cases xs) simp_all
  from l show ?thesis by (simp add: strip_def idle)
qed (simp add: strip_def)

lemma hd_dropWhile_space: "dropWhile is_space us \<noteq> [] \<Longrightarrow> \<not> is_space (hd (dropWhile is_space us))"
  by (rule hd_dropWhile)

lemma stripped_strip: "stripped (strip us)"
proof -
  let ?l = "dropWhile is_space us" and ?r = "dropWhile is_space (rev (dropWhile is_space us))"
  have "\<not> is_space (hd (rev ?r)) \<and> \<not> is_space (last (rev ?r))" if "?r \<noteq> []"
  proof
    from that show "\<not> is_space (last (rev ?r))" by (simp add: last_rev hd_dropWhile)
    obtain p where "rev ?l = p @ ?r" by (metis takeWhile_dropWhile_id)
    then have "?l = rev ?r @ rev p" by (metis rev_append rev_rev_ident)
    moreover from this that have "?l \<noteq> []" by (metis Nil_is_append_conv rev_is_Nil_conv)
    ultimately have "hd (rev ?r) = hd ?l" "?l \<noteq> []" using that by (metis hd_append2 rev_is_Nil_conv, simp)
    then show "\<not> is_space (hd (rev ?r))" by (metis hd_dropWhile)
  qed
  then show ?thesis by (auto simp: stripped_def strip_def)
qed

lemma strip_infix: "\<exists>p q. us = p @ strip us @ q"
proof -
  let ?l = "dropWhile is_space us"
  have "rev ?l = takeWhile is_space (rev ?l) @ dropWhile is_space (rev ?l)" by simp
  then have "?l = strip us @ rev (takeWhile is_space (rev ?l))"
    by (metis rev_append rev_rev_ident strip_def)
  then have "us = takeWhile is_space us @ strip us @ rev (takeWhile is_space (rev ?l))"
    by (metis takeWhile_dropWhile_id)
  then show ?thesis by blast
qed

lemma strip_strip [simp]: "strip (strip us) = strip us"
  by (rule strip_idle [OF stripped_strip])

section \<open>What the standard promises\<close>

text \<open>
  NFC leaves normalized text and every part of it alone, it never makes up what is no code
  point, and neither does it on code points.
\<close>

definition nfc_law :: "unicode \<Rightarrow> bool" where
  "nfc_law u = (\<forall>us p v q. nfc u us = p @ v @ q \<longrightarrow> nfc u v = v)"

definition points_law :: "unicode \<Rightarrow> bool" where
  "points_law u = (\<forall>us. list_all (\<lambda>c. c < 1114112) us
     \<longrightarrow> list_all (\<lambda>c. c < 1114112 \<and> \<not> surrogate c \<or> c \<in> set us) (nfc u us))"

lemma nfc_strip: "nfc_law u \<Longrightarrow> nfc u (strip (nfc u us)) = strip (nfc u us)"
  using strip_infix [of "nfc u us"] unfolding nfc_law_def by blast

lemma point_bound: "fst (point b s) < 1114112"
proof -
  have "tail_bits (of_char b - 192) 1 s < 2048" if "of_char b < (224 :: nat)" "continued 1 s"
    using that by (cases s) (auto simp: continued_take [unfolded One_nat_def]
        tail_bits_take [unfolded One_nat_def] continuation_def continued_def)
  moreover have "tail_bits (of_char b - 224) 2 s < 65536" if "of_char b < (240 :: nat)" "continued 2 s"
  proof -
    from that(2) obtain c d t where "s = c # d # t"
      by (cases s; cases "tl s") (auto simp: continued_def numeral_2_eq_2)
    with that show ?thesis by (auto simp: continued_take tail_bits_take continuation_def)
  qed
  moreover have "of_char b < (1057792 :: nat)"
    by (rule order_less_trans [OF nat_of_char_less_256]) simp
  ultimately show ?thesis unfolding point_def Let_def by (auto dest: order_less_le_trans)
qed

lemma code_points_bound: "list_all (\<lambda>c. c < 1114112) (code_points s)"
  by (induction s rule: code_points.induct) (simp_all add: point_bound)

text \<open>A database restricted to ASCII text: there NFC and case folding are simple.\<close>

definition ascii_category :: "nat \<Rightarrow> string" where
  "ascii_category c =
     (if c < 32 \<or> c = 127 then ''Cc'' else if c = 32 then ''Zs''
      else if 48 \<le> c \<and> c \<le> 57 then ''Nd'' else if 65 \<le> c \<and> c \<le> 90 then ''Lu''
      else if 97 \<le> c \<and> c \<le> 122 then ''Ll'' else if c < 127 then ''Po'' else ''Cn'')"

definition ascii_fold :: "ustr \<Rightarrow> ustr" where
  "ascii_fold us = map (\<lambda>c. if 65 \<le> c \<and> c \<le> 90 then c + 32 else c) us"

definition ascii_unicode :: unicode where
  "ascii_unicode = \<lparr>category = ascii_category, nfc = (\<lambda>us. us), casefold = ascii_fold,
     lowercase = ascii_fold\<rparr>"

lemma ascii_unicode_laws: "nfc_law ascii_unicode" "points_law ascii_unicode"
  by (auto simp: nfc_law_def points_law_def ascii_unicode_def list_all_iff)

end
