(* ===== verification/Validation.thy ===== *)
theory Validation
  imports Unicode Accounts Paging
begin

text \<open>
  The validators of \<^verbatim>\<open>synapse/validation.py\<close>: names, passwords, texts, identifiers,
  dates, lists and numbers, each on the JSON value it receives (any value: the validators check
  the type themselves), each answering the normalized value or the error with its message.
\<close>

definition invalid :: "string \<Rightarrow> exc + 'a" where
  "invalid message = Inl (ApiError INVALID_ARGUMENT (Custom message))"

lemma invalid_neq [simp]: "invalid m \<noteq> Inr x" "Inr x \<noteq> invalid m"
  by (simp_all add: invalid_def)

definition quoted :: "string \<Rightarrow> string" where
  "quoted s = CHR 0x27 # s @ [CHR 0x27]"

section \<open>Constants\<close>

definition API_VERSION :: string where "API_VERSION = ''v2''"
definition MIN_USERNAME_LEN :: nat where "MIN_USERNAME_LEN = 3"
definition MIN_PASSWORD_LEN :: nat where "MIN_PASSWORD_LEN = 12"
definition MIN_CONTENT_LEN :: nat where "MIN_CONTENT_LEN = 1"
definition MAX_CONTENT_LEN :: nat where "MAX_CONTENT_LEN = 10000"
definition MIN_DESCRIPTION_LEN :: nat where "MIN_DESCRIPTION_LEN = 1"
definition MAX_DESCRIPTION_LEN :: nat where "MAX_DESCRIPTION_LEN = 500"
definition MIN_CLIENT_MESSAGE_ID_LEN :: nat where "MIN_CLIENT_MESSAGE_ID_LEN = 1"
definition MAX_CLIENT_MESSAGE_ID_LEN :: nat where "MAX_CLIENT_MESSAGE_ID_LEN = 128"
definition MIN_BUSINESS_REFERENCE_LEN :: nat where "MIN_BUSINESS_REFERENCE_LEN = 1"
definition MAX_BUSINESS_REFERENCE_LEN :: nat where "MAX_BUSINESS_REFERENCE_LEN = 128"
definition MIN_LIMIT :: int where "MIN_LIMIT = 1"
definition MAX_LIMIT :: int where "MAX_LIMIT = 100"
definition DEFAULT_LIMIT :: int where "DEFAULT_LIMIT = 50"

definition between :: "nat \<Rightarrow> nat \<Rightarrow> string" where
  "between lo hi = ''between '' @ nat_text lo @ '' and '' @ nat_text hi"

section \<open>Names\<close>

text \<open>\<open>[A-Za-z0-9_-]\<close>.\<close>

definition name_point :: "nat \<Rightarrow> bool" where
  "name_point c = (65 \<le> c \<and> c \<le> 90 \<or> 97 \<le> c \<and> c \<le> 122 \<or> 48 \<le> c \<and> c \<le> 57 \<or> c = 95 \<or> c = 45)"

definition USERNAME_RE :: "ustr \<Rightarrow> bool" where
  "USERNAME_RE us = (us \<noteq> [] \<and> list_all name_point us)"

fun normalize_username :: "json \<Rightarrow> exc + string" where
  "normalize_username (JStr s) =
     (let us = code_points s in
      if \<not> (MIN_USERNAME_LEN \<le> length us \<and> length us \<le> MAX_USERNAME_LEN)
      then invalid (''The username must contain '' @ between MIN_USERNAME_LEN MAX_USERNAME_LEN
        @ '' characters'')
      else if \<not> USERNAME_RE us
      then invalid (''The username may only contain ASCII letters, digits, ''
        @ quoted ''_'' @ '' and '' @ quoted ''-'' @ '' (spaces are refused)'')
      else Inr (lower s))"
| "normalize_username _ = invalid ''The username must be a string''"

definition is_valid_username :: "string \<Rightarrow> bool" where
  "is_valid_username s = (case normalize_username (JStr s) of Inr _ \<Rightarrow> True | Inl _ \<Rightarrow> False)"

fun normalize_organization_name :: "json \<Rightarrow> exc + string" where
  "normalize_organization_name (JStr s) =
     (let us = code_points s in
      if \<not> (MIN_USERNAME_LEN \<le> length us \<and> length us \<le> MAX_USERNAME_LEN)
      then invalid (''The organization name must contain '' @ between MIN_USERNAME_LEN MAX_USERNAME_LEN
        @ '' characters'')
      else if \<not> USERNAME_RE us
      then invalid (''The organization name may only contain ASCII letters, digits, ''
        @ quoted ''_'' @ '' and '' @ quoted ''-'' @ '' (spaces are refused)'')
      else Inr (lower s))"
| "normalize_organization_name _ = invalid ''The organization name must be a string''"

definition normalize_department_name :: "json \<Rightarrow> exc + string" where
  "normalize_department_name raw = normalize_organization_name raw"

section \<open>Flags and passwords\<close>

fun validate_bool :: "json \<Rightarrow> exc + bool" where
  "validate_bool JNull = Inr False"
| "validate_bool (JBool b) = Inr b"
| "validate_bool _ = invalid ''The parameter must be a JSON boolean (true or false)''"

definition PASSWORD_ALLOWED_MAJOR :: string where "PASSWORD_ALLOWED_MAJOR = ''LMNPS''"

fun validate_password :: "unicode \<Rightarrow> json \<Rightarrow> exc + string" where
  "validate_password u (JStr s) =
     (let us = code_points s in
      if length us < MIN_PASSWORD_LEN
      then invalid (''The password must contain at least '' @ nat_text MIN_PASSWORD_LEN @ '' characters'')
      else if list_ex (\<lambda>c. \<not> (hd (category u c) \<in> set PASSWORD_ALLOWED_MAJOR
        \<or> category u c = ''Zs'')) us
      then invalid (''The password may only contain printable Unicode characters (control ''
        @ ''characters, line breaks and null characters are forbidden)'')
      else Inr s)"
| "validate_password u _ = invalid ''The password must be a string''"

section \<open>Texts\<close>

text \<open>
  The five functions that normalize a text share their steps: no lone surrogate, NFC, trimmed,
  a length within bounds, no control character.
\<close>

definition reject_surrogates :: "ustr \<Rightarrow> exc + unit" where
  "reject_surrogates us =
     (if list_ex surrogate us then invalid ''The text contains invalid UTF-8 sequences'' else Inr ())"

definition clean_text :: "unicode \<Rightarrow> nat \<Rightarrow> nat \<Rightarrow> string \<Rightarrow> string \<Rightarrow> string \<Rightarrow> exc + string" where
  "clean_text u lo hi length_message control_message s =
     andthen (reject_surrogates (code_points s)) (\<lambda>_.
       let t = strip (nfc u (code_points s)) in
       if \<not> (lo \<le> length t \<and> length t \<le> hi) then invalid length_message
       else if list_ex (\<lambda>c. category u c = ''Cc'') t then invalid control_message
       else Inr (utf8_text t))"

definition points_after :: "string \<Rightarrow> nat \<Rightarrow> nat \<Rightarrow> string" where
  "points_after what lo hi =
     what @ '' must contain '' @ between lo hi @ '' Unicode code points after normalization''"

fun normalize_content :: "unicode \<Rightarrow> json \<Rightarrow> exc + string" where
  "normalize_content u (JStr s) =
     clean_text u MIN_CONTENT_LEN MAX_CONTENT_LEN
       (points_after ''The content'' MIN_CONTENT_LEN MAX_CONTENT_LEN)
       ''The content cannot contain control characters'' s"
| "normalize_content u _ = invalid ''The message must be a string''"

fun normalize_description :: "unicode \<Rightarrow> json \<Rightarrow> exc + string" where
  "normalize_description u (JStr s) =
     clean_text u MIN_DESCRIPTION_LEN MAX_DESCRIPTION_LEN
       (points_after ''The description'' MIN_DESCRIPTION_LEN MAX_DESCRIPTION_LEN)
       ''The description cannot contain control characters'' s"
| "normalize_description u _ = invalid ''The description must be a string''"

fun normalize_business_reference :: "unicode \<Rightarrow> json \<Rightarrow> exc + string option" where
  "normalize_business_reference u JNull = Inr None"
| "normalize_business_reference u (JStr s) =
     map_sum id Some (clean_text u MIN_BUSINESS_REFERENCE_LEN MAX_BUSINESS_REFERENCE_LEN
       (points_after ''business_reference'' MIN_BUSINESS_REFERENCE_LEN MAX_BUSINESS_REFERENCE_LEN)
       ''business_reference cannot contain control characters'' s)"
| "normalize_business_reference u _ = invalid ''business_reference must be a string''"

definition MIN_TASK_TITLE_LEN :: nat where "MIN_TASK_TITLE_LEN = 1"
definition MAX_TASK_TITLE_LEN :: nat where "MAX_TASK_TITLE_LEN = 200"
definition MAX_TASK_DESCRIPTION_LEN :: nat where "MAX_TASK_DESCRIPTION_LEN = 5000"
definition MAX_TASK_RESULT_LEN :: nat where "MAX_TASK_RESULT_LEN = 10000"
definition MAX_REASON_LEN :: nat where "MAX_REASON_LEN = 500"

fun normalize_task_text :: "unicode \<Rightarrow> json \<Rightarrow> string \<Rightarrow> nat \<Rightarrow> nat \<Rightarrow> exc + string" where
  "normalize_task_text u (JStr s) field lo hi =
     clean_text u lo hi (points_after field lo hi) (field @ '' cannot contain control characters'') s"
| "normalize_task_text u _ field lo hi = invalid (field @ '' must be a string'')"

definition normalize_task_title :: "unicode \<Rightarrow> json \<Rightarrow> exc + string" where
  "normalize_task_title u raw = normalize_task_text u raw ''title'' MIN_TASK_TITLE_LEN MAX_TASK_TITLE_LEN"

definition normalize_task_description :: "unicode \<Rightarrow> json \<Rightarrow> exc + string option" where
  "normalize_task_description u raw =
     (if raw = JNull then Inr None
      else map_sum id Some (normalize_task_text u raw ''description'' 1 MAX_TASK_DESCRIPTION_LEN))"

definition normalize_task_result :: "unicode \<Rightarrow> json \<Rightarrow> exc + string option" where
  "normalize_task_result u raw =
     (if raw = JNull then Inr None
      else map_sum id Some (normalize_task_text u raw ''result'' 1 MAX_TASK_RESULT_LEN))"

definition normalize_reason :: "unicode \<Rightarrow> json \<Rightarrow> exc + string option" where
  "normalize_reason u raw =
     (if raw = JNull then Inr None
      else map_sum id Some (normalize_task_text u raw ''reason'' 1 MAX_REASON_LEN))"

definition MAX_CARD_TEXT_LEN :: nat where "MAX_CARD_TEXT_LEN = 128"
definition MAX_CARD_LIMITS_LEN :: nat where "MAX_CARD_LIMITS_LEN = 256"
definition MAX_CAPABILITY_LEN :: nat where "MAX_CAPABILITY_LEN = 64"

fun normalize_card_text :: "unicode \<Rightarrow> json \<Rightarrow> string \<Rightarrow> nat \<Rightarrow> exc + string option" where
  "normalize_card_text u JNull field hi = Inr None"
| "normalize_card_text u (JStr s) field hi =
     map_sum id Some (clean_text u 1 hi (points_after field 1 hi)
       (field @ '' cannot contain control characters'') s)"
| "normalize_card_text u _ field hi = invalid (field @ '' must be a string'')"

definition normalize_group_name :: "unicode \<Rightarrow> json \<Rightarrow> exc + string" where
  "normalize_group_name u raw =
     andthen (normalize_card_text u raw ''name'' 64) (\<lambda>value. some_or AssertionError value)"

definition validate_capability_filter :: "unicode \<Rightarrow> json \<Rightarrow> exc + string option" where
  "validate_capability_filter u raw =
     (if raw = JNull then Inr None else normalize_card_text u raw ''capability'' MAX_CAPABILITY_LEN)"

definition validate_card_text_filter :: "unicode \<Rightarrow> json \<Rightarrow> string \<Rightarrow> exc + string option" where
  "validate_card_text_filter u raw field =
     (if raw = JNull then Inr None else normalize_card_text u raw field MAX_CARD_TEXT_LEN)"

section \<open>Identifiers\<close>

definition CLIENT_MESSAGE_ID_RE :: "ustr \<Rightarrow> bool" where
  "CLIENT_MESSAGE_ID_RE us = (us \<noteq> [] \<and> list_all (\<lambda>c. name_point c \<or> c = 46 \<or> c = 58) us)"

fun validate_client_message_id :: "json \<Rightarrow> exc + string" where
  "validate_client_message_id (JStr s) =
     (let us = code_points s in
      if \<not> (MIN_CLIENT_MESSAGE_ID_LEN \<le> length us \<and> length us \<le> MAX_CLIENT_MESSAGE_ID_LEN)
      then invalid (''client_message_id must contain ''
        @ between MIN_CLIENT_MESSAGE_ID_LEN MAX_CLIENT_MESSAGE_ID_LEN @ '' characters'')
      else if \<not> CLIENT_MESSAGE_ID_RE us
      then invalid (''client_message_id may only contain ASCII characters from a-z, A-Z, 0-9, ''
        @ quoted ''.'' @ '', '' @ quoted ''_'' @ '', '' @ quoted '':'' @ '' and '' @ quoted ''-'')
      else Inr s)"
| "validate_client_message_id _ = invalid ''client_message_id must be a string''"

definition validate_optional_client_id :: "json \<Rightarrow> exc + string option" where
  "validate_optional_client_id raw =
     (if raw = JNull then Inr None else map_sum id Some (validate_client_message_id raw))"

text \<open>A pattern of one class per character, for \<open>fullmatch\<close>.\<close>

definition matches :: "(nat \<Rightarrow> bool) list \<Rightarrow> ustr \<Rightarrow> bool" where
  "matches ps us = list_all2 (\<lambda>p c. p c) ps us"

definition hex_point :: "nat \<Rightarrow> bool" where
  "hex_point c = (48 \<le> c \<and> c \<le> 57 \<or> 97 \<le> c \<and> c \<le> 102 \<or> 65 \<le> c \<and> c \<le> 70)"

definition UUID4_RE :: "ustr \<Rightarrow> bool" where
  "UUID4_RE us = matches (replicate 8 hex_point @ [\<lambda>c. c = 45] @ replicate 4 hex_point
     @ [\<lambda>c. c = 45] @ replicate 4 hex_point @ [\<lambda>c. c = 45] @ replicate 4 hex_point
     @ [\<lambda>c. c = 45] @ replicate 12 hex_point) us"

text \<open>\<open>uuid.UUID\<close>: the 128-bit integer of the digits, its version and its variant, its text.\<close>

definition hex_point_value :: "nat \<Rightarrow> int" where
  "hex_point_value c =
     (if c \<le> 57 then int c - 48 else if 97 \<le> c then int c - 87 else int c - 55)"

definition uuid_int :: "ustr \<Rightarrow> int" where
  "uuid_int us = foldl (\<lambda>n c. n * 16 + hex_point_value c) 0 (filter (\<lambda>c. c \<noteq> 45) us)"

definition uuid_is_v4 :: "int \<Rightarrow> bool" where
  "uuid_is_v4 n =
     (n div 2 ^ 63 mod 2 = 1 \<and> n div 2 ^ 62 mod 2 = 0 \<and> n div 2 ^ 76 mod 16 = 4)"

fun hex_text :: "nat \<Rightarrow> int \<Rightarrow> string" where
  "hex_text 0 n = []"
| "hex_text (Suc w) n = hex_text w (n div 16) @ [hex_digit (nat (n mod 16))]"

definition dashed :: "string \<Rightarrow> string" where
  "dashed h = take 8 h @ ''-'' @ take 4 (drop 8 h) @ ''-'' @ take 4 (drop 12 h) @ ''-''
     @ take 4 (drop 16 h) @ ''-'' @ drop 20 h"

fun normalize_uuid :: "json \<Rightarrow> string \<Rightarrow> exc + string" where
  "normalize_uuid (JStr s) field =
     (let us = code_points s in
      if \<not> UUID4_RE us then invalid (field @ '' must be a valid UUIDv4'')
      else if \<not> uuid_is_v4 (uuid_int us) then invalid (field @ '' must be a valid UUIDv4'')
      else Inr (dashed (hex_text 32 (uuid_int us))))"
| "normalize_uuid _ field = invalid (field @ '' must be a string'')"

definition validate_uuid_filter :: "json \<Rightarrow> exc + string option" where
  "validate_uuid_filter raw =
     (if raw = JNull then Inr None else map_sum id Some (normalize_uuid raw ''conversation_id''))"

definition validate_sender_filter :: "json \<Rightarrow> exc + string option" where
  "validate_sender_filter raw =
     (if raw = JNull then Inr None else map_sum id Some (normalize_username raw))"

section \<open>Dates and clock readings\<close>

text \<open>\<open>\d\<close> in a \<open>str\<close> pattern is any decimal digit of Unicode.\<close>

definition DATE_RE :: "ustr \<Rightarrow> bool" where
  "DATE_RE us = matches (replicate 4 is_digit @ [\<lambda>c. c = 45] @ replicate 2 is_digit
     @ [\<lambda>c. c = 45] @ replicate 2 is_digit @ [\<lambda>c. c = 84] @ replicate 2 is_digit
     @ [\<lambda>c. c = 58] @ replicate 2 is_digit @ [\<lambda>c. c = 58] @ replicate 2 is_digit
     @ [\<lambda>c. c = 46] @ replicate 3 is_digit @ [\<lambda>c. c = 90]) us"

fun validate_due_at :: "json \<Rightarrow> exc + string option" where
  "validate_due_at JNull = Inr None"
| "validate_due_at (JStr s) =
     (if \<not> DATE_RE (code_points s)
      then invalid ''due_at must be a UTC date in the format YYYY-MM-DDTHH:mm:ss.sssZ''
      else Inr (Some s))"
| "validate_due_at _ = invalid ''due_at must be a string''"

fun validate_hlc :: "json \<Rightarrow> exc + string" where
  "validate_hlc (JStr s) =
     (if \<not> is_valid (code_points s)
      then invalid (''hlc must be a canonical hybrid logical clock in the format DDDDDDDDDDDDD.DDDDDD ''
        @ ''(13 digits of physical ms, 6 digits of logical counter)'')
      else Inr s)"
| "validate_hlc _ = invalid ''hlc must be a string''"

section \<open>Words from a fixed list\<close>

text \<open>
  \<open>raw not in frozenset(...)\<close>: a list or a dict cannot be hashed, anything else that is not
  one of the strings is not in the set.
\<close>

definition member_of :: "string list \<Rightarrow> json \<Rightarrow> exc + bool" where
  "member_of words raw =
     (case raw of JStr s \<Rightarrow> Inr (s \<in> set words)
      | JList _ \<Rightarrow> Inl TypeError | JObj _ \<Rightarrow> Inl TypeError | _ \<Rightarrow> Inr False)"

definition one_of :: "string list \<Rightarrow> string \<Rightarrow> json \<Rightarrow> exc + json" where
  "one_of words message raw =
     andthen (member_of words raw) (\<lambda>b. if b then Inr raw else invalid message)"

definition TASK_STATES :: "string list" where
  "TASK_STATES = [''submitted'', ''in_progress'', ''completed'', ''failed'', ''canceled'',
     ''pending_approval'']"

definition TASK_PRIORITIES :: "string list" where
  "TASK_PRIORITIES = [''low'', ''normal'', ''high'']"

definition validate_task_state :: "json \<Rightarrow> exc + json" where
  "validate_task_state raw =
     (if raw = JNull then Inr JNull
      else one_of TASK_STATES
        ''state must be one of: submitted, in_progress, completed, failed, canceled'' raw)"

definition validate_task_priority :: "json \<Rightarrow> exc + json" where
  "validate_task_priority raw =
     (if raw = JNull then Inr (JStr ''normal'')
      else one_of TASK_PRIORITIES ''priority must be one of: low, normal, high'' raw)"

definition validate_priority_filter :: "json \<Rightarrow> exc + json" where
  "validate_priority_filter raw = (if raw = JNull then Inr JNull else validate_task_priority raw)"

text \<open>\<open>value not in (...)\<close> on a tuple compares by equality: no value is refused for its type.\<close>

definition validate_status :: "json \<Rightarrow> exc + json" where
  "validate_status raw =
     (if raw = JNull then Inr JNull
      else if raw \<noteq> JStr ''read'' \<and> raw \<noteq> JStr ''unread''
      then invalid (''status must be '' @ quoted ''read'' @ '' or '' @ quoted ''unread'')
      else Inr raw)"

definition ORG_ROLES :: "string list" where
  "ORG_ROLES = [''manager'', ''employee'', ''rh'']"

definition PRINCIPAL_TYPES :: "string list" where
  "PRINCIPAL_TYPES = [''agent'', ''human'']"

fun validate_org_role :: "json \<Rightarrow> exc + string" where
  "validate_org_role (JStr s) =
     (if s \<notin> set ORG_ROLES then invalid ''role must be one of: manager, employee, rh'' else Inr s)"
| "validate_org_role _ = invalid ''role must be one of: manager, employee, rh''"

fun validate_principal_type :: "json \<Rightarrow> exc + string" where
  "validate_principal_type JNull = Inr ''agent''"
| "validate_principal_type (JStr s) =
     (if s \<notin> set PRINCIPAL_TYPES
      then invalid (''principal_type must be '' @ quoted ''agent'' @ '' or '' @ quoted ''human'') else Inr s)"
| "validate_principal_type _ =
     invalid (''principal_type must be '' @ quoted ''agent'' @ '' or '' @ quoted ''human'')"

section \<open>Numbers\<close>

text \<open>\<open>isinstance(raw, bool) or not isinstance(raw, int)\<close>: booleans are integers in Python.\<close>

fun validate_budget :: "json \<Rightarrow> exc + int option" where
  "validate_budget JNull = Inr None"
| "validate_budget (JInt i) =
     (if i < 1 then invalid ''the budget must be a positive integer'' else Inr (Some i))"
| "validate_budget _ = invalid ''the budget must be an integer''"

definition validate_retention_days :: "json \<Rightarrow> exc + int" where
  "validate_retention_days raw =
     andthen (validate_budget raw) (\<lambda>value.
       case value of
         None \<Rightarrow> invalid ''retention must be a positive integer''
       | Some days \<Rightarrow> if 3650 < days then invalid ''retention cannot exceed 3650 days'' else Inr days)"

fun validate_positive_seconds :: "json \<Rightarrow> exc + int" where
  "validate_positive_seconds (JInt i) =
     (if i < 1 then invalid ''the threshold must be a positive integer'' else Inr i)"
| "validate_positive_seconds _ = invalid ''the threshold must be a positive integer''"

fun validate_limit :: "json \<Rightarrow> exc + int" where
  "validate_limit JNull = Inr DEFAULT_LIMIT"
| "validate_limit (JInt i) =
     (if \<not> (MIN_LIMIT \<le> i \<and> i \<le> MAX_LIMIT)
      then invalid (''limit must be an integer between '' @ int_text MIN_LIMIT @ '' and '' @ int_text MAX_LIMIT)
      else Inr i)"
| "validate_limit _ = invalid ''limit must be an integer''"

section \<open>Lists\<close>

text \<open>The loop that keeps the first element of each key: each element is normalized in turn.\<close>

fun keep_first :: "(json \<Rightarrow> exc + 'v) \<Rightarrow> ('v \<Rightarrow> 'k) \<Rightarrow> 'k list \<Rightarrow> json list \<Rightarrow> exc + 'v list" where
  "keep_first f key seen [] = Inr []"
| "keep_first f key seen (x # xs) =
     andthen (f x) (\<lambda>v.
       if key v \<in> set seen then keep_first f key seen xs
       else andthen (keep_first f key (key v # seen) xs) (\<lambda>vs. Inr (v # vs)))"

definition MAX_DEPENDENCIES :: nat where "MAX_DEPENDENCIES = 20"

fun validate_depends_on :: "json \<Rightarrow> exc + string list" where
  "validate_depends_on JNull = Inr []"
| "validate_depends_on (JList xs) =
     (if MAX_DEPENDENCIES < length xs
      then invalid (''depends_on must contain at most '' @ nat_text MAX_DEPENDENCIES @ '' elements'')
      else keep_first (\<lambda>x. normalize_uuid x ''depends_on'') id [] xs)"
| "validate_depends_on _ = invalid ''depends_on must be a list of task identifiers''"

definition MIN_CAPABILITIES :: nat where "MIN_CAPABILITIES = 1"
definition MAX_CAPABILITIES :: nat where "MAX_CAPABILITIES = 50"

fun is_bool :: "json \<Rightarrow> bool" where
  "is_bool (JBool b) = True"
| "is_bool _ = False"

fun is_text :: "json \<Rightarrow> bool" where
  "is_text (JStr s) = True"
| "is_text _ = False"

text \<open>\<open>value = _normalize_card_text(item, ...); assert value is not None\<close>.\<close>

definition card_element :: "unicode \<Rightarrow> string \<Rightarrow> json \<Rightarrow> exc + string" where
  "card_element u field item =
     andthen (normalize_card_text u item field MAX_CAPABILITY_LEN) (some_or AssertionError)"

definition folded :: "unicode \<Rightarrow> string \<Rightarrow> ustr" where
  "folded u value = casefold u (code_points value)"

fun normalize_capabilities :: "unicode \<Rightarrow> json \<Rightarrow> exc + string list" where
  "normalize_capabilities u JNull = invalid ''capabilities is required''"
| "normalize_capabilities u (JList xs) =
     (if list_ex is_bool xs then invalid ''capabilities must be a list of strings''
      else if \<not> (MIN_CAPABILITIES \<le> length xs \<and> length xs \<le> MAX_CAPABILITIES)
      then invalid (''capabilities must contain '' @ between MIN_CAPABILITIES MAX_CAPABILITIES @ '' elements'')
      else keep_first (card_element u ''capability'') (folded u) [] xs)"
| "normalize_capabilities u _ = invalid ''capabilities must be a list of strings''"

fun normalize_tools :: "unicode \<Rightarrow> json \<Rightarrow> exc + string list" where
  "normalize_tools u JNull = Inr []"
| "normalize_tools u (JList xs) =
     (if list_ex is_bool xs then invalid ''tools must be a list of strings''
      else if MAX_CAPABILITIES < length xs
      then invalid (''tools must contain at most '' @ nat_text MAX_CAPABILITIES @ '' elements'')
      else keep_first (card_element u ''tool'') (folded u) [] xs)"
| "normalize_tools u _ = invalid ''tools must be a list of strings''"

definition EVENT_TYPES :: "string list" where
  "EVENT_TYPES = [''task.created'', ''task.state_changed'', ''task.transferred'',
     ''task.approval_requested'', ''task.approved'', ''task.rejected'', ''task.escalated'']"

fun validate_event_types :: "json \<Rightarrow> exc + json" where
  "validate_event_types JNull = Inr JNull"
| "validate_event_types (JList xs) =
     (if list_ex (\<lambda>x. \<not> is_text x) xs then invalid ''types must be a list of strings''
      else if \<not> (1 \<le> length xs \<and> length xs \<le> 20)
      then invalid ''types must contain between 1 and 20 elements''
      else case filter (\<lambda>x. \<not> (case x of JStr t \<Rightarrow> t \<in> set EVENT_TYPES | _ \<Rightarrow> False)) xs of
          JStr t # _ \<Rightarrow> invalid (''Unknown event type: '' @ t)
        | _ \<Rightarrow> Inr (JList xs))"
| "validate_event_types _ = invalid ''types must be a list of strings''"

section \<open>Exact keys and deadlines\<close>

definition ensure_exact_keys :: "(string \<times> json) list \<Rightarrow> string list \<Rightarrow> string \<Rightarrow> exc + unit" where
  "ensure_exact_keys mapping allowed label =
     (let actual = map fst mapping;
          unknown = filter (\<lambda>k. k \<notin> set allowed) actual;
          missing = filter (\<lambda>k. k \<notin> set actual) allowed
      in if unknown \<noteq> [] then invalid (''Unknown field in '' @ label @ '' : '' @ hd (sort unknown))
         else if missing \<noteq> [] then invalid (''Missing field in '' @ label @ '' : '' @ hd (sort missing))
         else Inr ())"

fun validate_deadline :: "json \<Rightarrow> exc + json" where
  "validate_deadline JNull = Inr JNull"
| "validate_deadline (JObj kvs) =
     andthen (ensure_exact_keys kvs [''agent'', ''hlc''] ''deadline'') (\<lambda>_.
       case (map_of kvs ''agent'', map_of kvs ''hlc'') of
         (Some (JStr agent), Some reading) \<Rightarrow>
           (let name = strip (code_points agent) in
            if name = [] then invalid ''deadline.agent must be a non-empty string''
            else andthen (validate_hlc reading) (\<lambda>_.
              Inr (JObj [(''agent'', JStr (utf8_text name)), (''hlc'', reading)])))
       | _ \<Rightarrow> invalid ''deadline.agent must be a non-empty string'')"
| "validate_deadline _ =
     invalid (''deadline must be an object {'' @ [QUOTE] @ ''agent'' @ [QUOTE] @ '', ''
       @ [QUOTE] @ ''hlc'' @ [QUOTE] @ ''}'')"

end
