(* ===== verification/CommandSpecs.thy ===== *)
theory CommandSpecs
  imports Validation
begin

text \<open>
  The table \<open>COMMAND_SPECS\<close> of \<^verbatim>\<open>synapse/validation.py\<close>, the parameters of every command
  with their JSON type, whether they are required and their validator, as data: a validator is
  a constructor of \<open>check\<close>, named after the function, and \<open>run_check\<close> runs it. Then the envelope
  of a request and the strict reading of its bytes.
\<close>

section \<open>The table of the commands\<close>

datatype check =
    No_check
  | Normalize_username
  | Normalize_organization_name
  | Normalize_department_name
  | Normalize_description
  | Normalize_content
  | Normalize_business_reference
  | Normalize_task_title
  | Normalize_task_description
  | Normalize_task_result
  | Normalize_reason
  | Normalize_capabilities
  | Normalize_tools
  | Normalize_card_text string nat
  | Normalize_group_name
  | Normalize_uuid string
  | Validate_bool
  | Validate_password
  | Validate_principal_type
  | Validate_org_role
  | Validate_limit
  | Validate_budget
  | Validate_retention_days
  | Validate_positive_seconds
  | Validate_client_message_id
  | Validate_optional_client_id
  | Validate_status
  | Validate_sender_filter
  | Validate_uuid_filter
  | Validate_command_name
  | Validate_capability_filter
  | Validate_card_text_filter string
  | Validate_task_state
  | Validate_task_priority
  | Validate_priority_filter
  | Validate_due_at
  | Validate_deadline
  | Validate_depends_on
  | Validate_event_types

text \<open>The JSON type of a parameter: \<open>str\<close>, \<open>int\<close>, \<open>bool\<close>, \<open>list\<close> or \<open>dict\<close>.\<close>

datatype json_type = PStr | PInt | PBool | PList | PDict

type_synonym param_spec = "string \<times> json_type \<times> bool \<times> check"

type_synonym command_spec = "string \<times> param_spec list \<times> bool"

definition ORGANIZATION_SPECS :: "command_spec list" where
  "ORGANIZATION_SPECS = [
     (''create_agent'', [
       (''username'', PStr, True, Normalize_username),
       (''password'', PStr, True, Validate_password),
       (''description'', PStr, True, Normalize_description),
       (''can_see_org_agents'', PBool, False, Validate_bool),
       (''principal_type'', PStr, False, Validate_principal_type),
       (''organization_name_auth'', PStr, True, Normalize_organization_name),
       (''organization_password_auth'', PStr, True, No_check)], True),
     (''deactivate_agent'', [
       (''username'', PStr, True, Normalize_username),
       (''organization_name_auth'', PStr, True, Normalize_organization_name),
       (''organization_password_auth'', PStr, True, No_check)], True),
     (''reactivate_agent'', [
       (''username'', PStr, True, Normalize_username),
       (''organization_name_auth'', PStr, True, Normalize_organization_name),
       (''organization_password_auth'', PStr, True, No_check)], True),
     (''change_agent_password'', [
       (''username'', PStr, True, Normalize_username),
       (''new_password'', PStr, True, Validate_password),
       (''organization_name_auth'', PStr, True, Normalize_organization_name),
       (''organization_password_auth'', PStr, True, No_check)], True),
     (''set_agent_visibility'', [
       (''username'', PStr, True, Normalize_username),
       (''can_see_org_agents'', PBool, True, Validate_bool),
       (''organization_name_auth'', PStr, True, Normalize_organization_name),
       (''organization_password_auth'', PStr, True, No_check)], True),
     (''get_org_agents'', [
       (''organization_name_auth'', PStr, True, Normalize_organization_name),
       (''organization_password_auth'', PStr, True, No_check),
       (''limit'', PInt, False, Validate_limit),
       (''cursor'', PStr, False, No_check)], True),
     (''set_organization_policy'', [
       (''allow_incoming_external'', PBool, True, Validate_bool),
       (''allow_outgoing_external'', PBool, True, Validate_bool),
       (''organization_name_auth'', PStr, True, Normalize_organization_name),
       (''organization_password_auth'', PStr, True, No_check)], True),
     (''get_organization_policy'', [
       (''organization_name_auth'', PStr, True, Normalize_organization_name),
       (''organization_password_auth'', PStr, True, No_check)], True),
     (''change_organization_password'', [
       (''new_password'', PStr, True, Validate_password),
       (''organization_name_auth'', PStr, True, Normalize_organization_name),
       (''organization_password_auth'', PStr, True, No_check)], True)]"

definition AGENT_SPECS :: "command_spec list" where
  "AGENT_SPECS = [
     (''get_my_organization'', [
       (''my_name_auth'', PStr, True, No_check),
       (''my_password_auth'', PStr, True, No_check)], False),
     (''get_agent_description'', [
       (''username'', PStr, True, Normalize_username),
       (''my_name_auth'', PStr, True, No_check),
       (''my_password_auth'', PStr, True, No_check)], False),
     (''list_org_agents'', [
       (''my_name_auth'', PStr, True, No_check),
       (''my_password_auth'', PStr, True, No_check),
       (''limit'', PInt, False, Validate_limit),
       (''cursor'', PStr, False, No_check)], False),
     (''send_message'', [
       (''recipient_username'', PStr, True, Normalize_username),
       (''message'', PStr, True, Normalize_content),
       (''client_message_id'', PStr, True, Validate_client_message_id),
       (''business_reference'', PStr, False, Normalize_business_reference),
       (''my_name_auth'', PStr, True, No_check),
       (''my_password_auth'', PStr, True, No_check)], False),
     (''get_messages'', [
       (''my_name_auth'', PStr, True, No_check),
       (''my_password_auth'', PStr, True, No_check),
       (''status'', PStr, False, Validate_status),
       (''sender_username'', PStr, False, Validate_sender_filter),
       (''conversation_id'', PStr, False, Validate_uuid_filter),
       (''limit'', PInt, False, Validate_limit),
       (''cursor'', PStr, False, No_check)], False),
     (''get_conversation'', [
       (''other_username'', PStr, True, Normalize_username),
       (''my_name_auth'', PStr, True, No_check),
       (''my_password_auth'', PStr, True, No_check),
       (''limit'', PInt, False, Validate_limit),
       (''cursor'', PStr, False, No_check)], False),
     (''read_message'', [
       (''message_id'', PStr, True, Normalize_uuid ''message_id''),
       (''my_name_auth'', PStr, True, No_check),
       (''my_password_auth'', PStr, True, No_check)], False),
     (''get_notifications'', [
       (''my_name_auth'', PStr, True, No_check),
       (''my_password_auth'', PStr, True, No_check),
       (''limit'', PInt, False, Validate_limit),
       (''cursor'', PStr, False, No_check)], False),
     (''mark_conversation_no_reply'', [
       (''conversation_id'', PStr, True, Normalize_uuid ''conversation_id''),
       (''my_name_auth'', PStr, True, No_check),
       (''my_password_auth'', PStr, True, No_check)], False),
     (''help'', [
       (''my_name_auth'', PStr, True, No_check),
       (''my_password_auth'', PStr, True, No_check),
       (''command_name'', PStr, False, Validate_command_name)], False)]"

definition CARD_SPECS :: "command_spec list" where
  "CARD_SPECS = [
     (''set_agent_card'', [
       (''capabilities'', PList, True, Normalize_capabilities),
       (''domain'', PStr, False, Normalize_card_text ''domain'' MAX_CARD_TEXT_LEN),
       (''model'', PStr, False, Normalize_card_text ''model'' MAX_CARD_TEXT_LEN),
       (''tools'', PList, False, Normalize_tools),
       (''sla'', PStr, False, Normalize_card_text ''sla'' MAX_CARD_TEXT_LEN),
       (''limits'', PStr, False, Normalize_card_text ''limits'' MAX_CARD_LIMITS_LEN),
       (''estimated_cost'', PStr, False, Normalize_card_text ''estimated_cost'' MAX_CARD_TEXT_LEN),
       (''my_name_auth'', PStr, True, No_check),
       (''my_password_auth'', PStr, True, No_check)], False),
     (''get_agent_card'', [
       (''username'', PStr, True, Normalize_username),
       (''my_name_auth'', PStr, True, No_check),
       (''my_password_auth'', PStr, True, No_check)], False),
     (''approve_agent_card'', [
       (''username'', PStr, True, Normalize_username),
       (''organization_name_auth'', PStr, True, Normalize_organization_name),
       (''organization_password_auth'', PStr, True, No_check)], True),
     (''find_agents'', [
       (''capability'', PStr, False, Validate_capability_filter),
       (''domain'', PStr, False, Validate_card_text_filter ''domain''),
       (''name_contains'', PStr, False, Validate_card_text_filter ''name_contains''),
       (''limit'', PInt, False, Validate_limit),
       (''cursor'', PStr, False, No_check),
       (''my_name_auth'', PStr, True, No_check),
       (''my_password_auth'', PStr, True, No_check)], False)]"

definition TASK_SPECS :: "command_spec list" where
  "TASK_SPECS = [
     (''create_task'', [
       (''title'', PStr, True, Normalize_task_title),
       (''description'', PStr, False, Normalize_task_description),
       (''assignee_username'', PStr, True, Normalize_username),
       (''priority'', PStr, False, Validate_task_priority),
       (''due_at'', PStr, False, Validate_due_at),
       (''deadline'', PDict, False, Validate_deadline),
       (''depends_on'', PList, False, Validate_depends_on),
       (''business_reference'', PStr, False, Normalize_business_reference),
       (''client_task_id'', PStr, False, Validate_optional_client_id),
       (''my_name_auth'', PStr, True, No_check),
       (''my_password_auth'', PStr, True, No_check)], False),
     (''get_task'', [
       (''task_id'', PStr, True, Normalize_uuid ''task_id''),
       (''my_name_auth'', PStr, True, No_check),
       (''my_password_auth'', PStr, True, No_check)], False),
     (''list_tasks'', [
       (''assignee_username'', PStr, False, Validate_sender_filter),
       (''state'', PStr, False, Validate_task_state),
       (''priority'', PStr, False, Validate_priority_filter),
       (''due_before'', PStr, False, Validate_due_at),
       (''limit'', PInt, False, Validate_limit),
       (''cursor'', PStr, False, No_check),
       (''my_name_auth'', PStr, True, No_check),
       (''my_password_auth'', PStr, True, No_check)], False),
     (''update_task_state'', [
       (''task_id'', PStr, True, Normalize_uuid ''task_id''),
       (''new_state'', PStr, True, Validate_task_state),
       (''result'', PStr, False, Normalize_task_result),
       (''my_name_auth'', PStr, True, No_check),
       (''my_password_auth'', PStr, True, No_check)], False),
     (''transfer_task'', [
       (''task_id'', PStr, True, Normalize_uuid ''task_id''),
       (''assignee_username'', PStr, True, Normalize_username),
       (''note'', PStr, False, Normalize_reason),
       (''my_name_auth'', PStr, True, No_check),
       (''my_password_auth'', PStr, True, No_check)], False),
     (''request_approval'', [
       (''task_id'', PStr, True, Normalize_uuid ''task_id''),
       (''approver_username'', PStr, True, Normalize_username),
       (''my_name_auth'', PStr, True, No_check),
       (''my_password_auth'', PStr, True, No_check)], False),
     (''approve_task'', [
       (''task_id'', PStr, True, Normalize_uuid ''task_id''),
       (''my_name_auth'', PStr, True, No_check),
       (''my_password_auth'', PStr, True, No_check)], False),
     (''reject_task'', [
       (''task_id'', PStr, True, Normalize_uuid ''task_id''),
       (''reason'', PStr, False, Normalize_reason),
       (''my_name_auth'', PStr, True, No_check),
       (''my_password_auth'', PStr, True, No_check)], False),
     (''get_my_work'', [
       (''limit'', PInt, False, Validate_limit),
       (''cursor'', PStr, False, No_check),
       (''my_name_auth'', PStr, True, No_check),
       (''my_password_auth'', PStr, True, No_check)], False),
     (''get_events'', [
       (''types'', PList, False, Validate_event_types),
       (''limit'', PInt, False, Validate_limit),
       (''cursor'', PStr, False, No_check),
       (''my_name_auth'', PStr, True, No_check),
       (''my_password_auth'', PStr, True, No_check)], False)]"

definition SETTING_SPECS :: "command_spec list" where
  "SETTING_SPECS = [
     (''set_escalation_policy'', [
       (''enabled'', PBool, True, Validate_bool),
       (''due_after_seconds'', PInt, True, Validate_positive_seconds),
       (''failed_after_seconds'', PInt, True, Validate_positive_seconds),
       (''escalate_to_username'', PStr, True, Normalize_username),
       (''organization_name_auth'', PStr, True, Normalize_organization_name),
       (''organization_password_auth'', PStr, True, No_check)], True),
     (''get_escalation_policy'', [
       (''organization_name_auth'', PStr, True, Normalize_organization_name),
       (''organization_password_auth'', PStr, True, No_check)], True),
     (''set_agent_budget'', [
       (''username'', PStr, True, Normalize_username),
       (''max_active_tasks'', PInt, False, Validate_budget),
       (''max_messages_per_hour'', PInt, False, Validate_budget),
       (''organization_name_auth'', PStr, True, Normalize_organization_name),
       (''organization_password_auth'', PStr, True, No_check)], True),
     (''set_event_retention_days'', [
       (''days'', PInt, True, Validate_retention_days),
       (''organization_name_auth'', PStr, True, Normalize_organization_name),
       (''organization_password_auth'', PStr, True, No_check)], True)]"

definition STRUCTURE_SPECS :: "command_spec list" where
  "STRUCTURE_SPECS = [
     (''create_department'', [
       (''department_name'', PStr, True, Normalize_department_name),
       (''organization_name_auth'', PStr, True, Normalize_organization_name),
       (''organization_password_auth'', PStr, True, No_check)], True),
     (''set_agent_department'', [
       (''username'', PStr, True, Normalize_username),
       (''department_name'', PStr, True, Normalize_department_name),
       (''role'', PStr, True, Validate_org_role),
       (''organization_name_auth'', PStr, True, Normalize_organization_name),
       (''organization_password_auth'', PStr, True, No_check)], True),
     (''get_org_structure'', [
       (''organization_name_auth'', PStr, True, Normalize_organization_name),
       (''organization_password_auth'', PStr, True, No_check)], True),
     (''list_department_tasks'', [
       (''department_name'', PStr, True, Normalize_department_name),
       (''limit'', PInt, False, Validate_limit),
       (''cursor'', PStr, False, No_check),
       (''my_name_auth'', PStr, True, No_check),
       (''my_password_auth'', PStr, True, No_check)], False),
     (''get_org_audit'', [
       (''since'', PStr, False, Validate_due_at),
       (''actor_username'', PStr, False, Validate_sender_filter),
       (''command'', PStr, False, No_check),
       (''limit'', PInt, False, Validate_limit),
       (''cursor'', PStr, False, No_check),
       (''organization_name_auth'', PStr, True, Normalize_organization_name),
       (''organization_password_auth'', PStr, True, No_check)], True),
     (''get_org_metrics'', [
       (''organization_name_auth'', PStr, True, Normalize_organization_name),
       (''organization_password_auth'', PStr, True, No_check)], True),
     (''get_server_status'', [
       (''organization_name_auth'', PStr, True, Normalize_organization_name),
       (''organization_password_auth'', PStr, True, No_check)], True)]"

definition GROUP_SPECS :: "command_spec list" where
  "GROUP_SPECS = [
     (''create_group'', [
       (''name'', PStr, True, Normalize_group_name),
       (''my_name_auth'', PStr, True, No_check),
       (''my_password_auth'', PStr, True, No_check)], False),
     (''add_group_member'', [
       (''group_id'', PStr, True, Normalize_uuid ''group_id''),
       (''username'', PStr, True, Normalize_username),
       (''my_name_auth'', PStr, True, No_check),
       (''my_password_auth'', PStr, True, No_check)], False),
     (''remove_group_member'', [
       (''group_id'', PStr, True, Normalize_uuid ''group_id''),
       (''username'', PStr, True, Normalize_username),
       (''my_name_auth'', PStr, True, No_check),
       (''my_password_auth'', PStr, True, No_check)], False),
     (''send_group_message'', [
       (''group_id'', PStr, True, Normalize_uuid ''group_id''),
       (''message'', PStr, True, Normalize_content),
       (''client_message_id'', PStr, False, Validate_optional_client_id),
       (''my_name_auth'', PStr, True, No_check),
       (''my_password_auth'', PStr, True, No_check)], False),
     (''get_group_messages'', [
       (''group_id'', PStr, True, Normalize_uuid ''group_id''),
       (''limit'', PInt, False, Validate_limit),
       (''cursor'', PStr, False, No_check),
       (''my_name_auth'', PStr, True, No_check),
       (''my_password_auth'', PStr, True, No_check)], False),
     (''get_group_members'', [
       (''group_id'', PStr, True, Normalize_uuid ''group_id''),
       (''limit'', PInt, False, Validate_limit),
       (''cursor'', PStr, False, No_check),
       (''my_name_auth'', PStr, True, No_check),
       (''my_password_auth'', PStr, True, No_check)], False),
     (''list_my_groups'', [
       (''limit'', PInt, False, Validate_limit),
       (''cursor'', PStr, False, No_check),
       (''my_name_auth'', PStr, True, No_check),
       (''my_password_auth'', PStr, True, No_check)], False),
     (''get_agent_reputation'', [
       (''username'', PStr, True, Normalize_username),
       (''my_name_auth'', PStr, True, No_check),
       (''my_password_auth'', PStr, True, No_check)], False),
     (''create_delegation'', [
       (''task_id'', PStr, True, Normalize_uuid ''task_id''),
       (''delegatee_username'', PStr, True, Normalize_username),
       (''expires_at'', PStr, True, Validate_due_at),
       (''my_name_auth'', PStr, True, No_check),
       (''my_password_auth'', PStr, True, No_check)], False),
     (''revoke_delegation'', [
       (''task_id'', PStr, True, Normalize_uuid ''task_id''),
       (''delegatee_username'', PStr, True, Normalize_username),
       (''my_name_auth'', PStr, True, No_check),
       (''my_password_auth'', PStr, True, No_check)], False),
     (''get_my_delegations'', [
       (''limit'', PInt, False, Validate_limit),
       (''cursor'', PStr, False, No_check),
       (''my_name_auth'', PStr, True, No_check),
       (''my_password_auth'', PStr, True, No_check)], False)]"

definition OBSERVER_SPECS :: "command_spec list" where
  "OBSERVER_SPECS = [
     (''create_observer_account'', [
       (''observer_name'', PStr, True, Normalize_username),
       (''password'', PStr, True, Validate_password),
       (''description'', PStr, True, Normalize_description),
       (''organization_name_auth'', PStr, True, Normalize_organization_name),
       (''organization_password_auth'', PStr, True, No_check)], True),
     (''revoke_observer_account'', [
       (''observer_name'', PStr, True, Normalize_username),
       (''organization_name_auth'', PStr, True, Normalize_organization_name),
       (''organization_password_auth'', PStr, True, No_check)], True),
     (''list_observers'', [
       (''organization_name_auth'', PStr, True, Normalize_organization_name),
       (''organization_password_auth'', PStr, True, No_check)], True),
     (''get_org_snapshot'', [
       (''my_name_auth'', PStr, True, No_check),
       (''my_password_auth'', PStr, True, No_check)], False)]"

definition HUMAN_SPECS :: "command_spec list" where
  "HUMAN_SPECS = [
     (''create_org'', [
       (''organization_name'', PStr, True, Normalize_organization_name),
       (''organization_password'', PStr, True, Validate_password),
       (''my_name_auth'', PStr, True, No_check),
       (''my_password_auth'', PStr, True, No_check)], False),
     (''disable_org'', [
       (''organization_name'', PStr, True, Normalize_organization_name),
       (''my_name_auth'', PStr, True, No_check),
       (''my_password_auth'', PStr, True, No_check)], False),
     (''list_org_conversations'', [
       (''my_name_auth'', PStr, True, No_check),
       (''my_password_auth'', PStr, True, No_check),
       (''limit'', PInt, False, Validate_limit),
       (''cursor'', PStr, False, No_check)], False),
     (''get_org_conversation'', [
       (''conversation_id'', PStr, True, Validate_uuid_filter),
       (''my_name_auth'', PStr, True, No_check),
       (''my_password_auth'', PStr, True, No_check),
       (''limit'', PInt, False, Validate_limit),
       (''cursor'', PStr, False, No_check)], False),
     (''change_agent_description'', [
       (''username'', PStr, True, Normalize_username),
       (''description'', PStr, True, Normalize_description),
       (''organization_name_auth'', PStr, True, Normalize_organization_name),
       (''organization_password_auth'', PStr, True, No_check)], True),
     (''list_orgs'', [
       (''my_name_auth'', PStr, True, No_check),
       (''my_password_auth'', PStr, True, No_check),
       (''include_disabled'', PBool, False, Validate_bool)], False)]"

definition COMMAND_SPECS :: "command_spec list" where
  "COMMAND_SPECS = ORGANIZATION_SPECS @ AGENT_SPECS @ CARD_SPECS @ TASK_SPECS @ SETTING_SPECS
     @ STRUCTURE_SPECS @ GROUP_SPECS @ OBSERVER_SPECS @ HUMAN_SPECS"

section \<open>Running a validator\<close>

definition validate_command_name :: "json \<Rightarrow> exc + string option" where
  "validate_command_name raw =
     (if raw = JNull then Inr None
      else andthen (member_of (map fst COMMAND_SPECS) raw) (\<lambda>known.
        case raw of
          JStr s \<Rightarrow> if known then Inr (Some s)
            else Inl (ApiError UNKNOWN_COMMAND (Custom (''Unknown command: '' @ s)))
        | _ \<Rightarrow> Inl (ApiError UNKNOWN_COMMAND (Custom ''Unknown command: ''))))"

abbreviation as_text :: "exc + string \<Rightarrow> exc + json" where
  "as_text \<equiv> map_sum id JStr"

abbreviation as_optional :: "exc + string option \<Rightarrow> exc + json" where
  "as_optional \<equiv> map_sum id jopt"

abbreviation as_texts :: "exc + string list \<Rightarrow> exc + json" where
  "as_texts \<equiv> map_sum id (\<lambda>xs. JList (map JStr xs))"

abbreviation as_number :: "exc + int \<Rightarrow> exc + json" where
  "as_number \<equiv> map_sum id JInt"

definition jopt_int :: "int option \<Rightarrow> json" where
  "jopt_int x = (case x of None \<Rightarrow> JNull | Some i \<Rightarrow> JInt i)"

fun run_check :: "unicode \<Rightarrow> check \<Rightarrow> json \<Rightarrow> exc + json" where
  "run_check u No_check j = Inr j"
| "run_check u Normalize_username j = as_text (normalize_username j)"
| "run_check u Normalize_organization_name j = as_text (normalize_organization_name j)"
| "run_check u Normalize_department_name j = as_text (normalize_department_name j)"
| "run_check u Normalize_description j = as_text (normalize_description u j)"
| "run_check u Normalize_content j = as_text (normalize_content u j)"
| "run_check u Normalize_business_reference j = as_optional (normalize_business_reference u j)"
| "run_check u Normalize_task_title j = as_text (normalize_task_title u j)"
| "run_check u Normalize_task_description j = as_optional (normalize_task_description u j)"
| "run_check u Normalize_task_result j = as_optional (normalize_task_result u j)"
| "run_check u Normalize_reason j = as_optional (normalize_reason u j)"
| "run_check u Normalize_capabilities j = as_texts (normalize_capabilities u j)"
| "run_check u Normalize_tools j = as_texts (normalize_tools u j)"
| "run_check u (Normalize_card_text field hi) j = as_optional (normalize_card_text u j field hi)"
| "run_check u Normalize_group_name j = as_text (normalize_group_name u j)"
| "run_check u (Normalize_uuid field) j = as_text (normalize_uuid j field)"
| "run_check u Validate_bool j = map_sum id JBool (validate_bool j)"
| "run_check u Validate_password j = as_text (validate_password u j)"
| "run_check u Validate_principal_type j = as_text (validate_principal_type j)"
| "run_check u Validate_org_role j = as_text (validate_org_role j)"
| "run_check u Validate_limit j = as_number (validate_limit j)"
| "run_check u Validate_budget j = map_sum id jopt_int (validate_budget j)"
| "run_check u Validate_retention_days j = as_number (validate_retention_days j)"
| "run_check u Validate_positive_seconds j = as_number (validate_positive_seconds j)"
| "run_check u Validate_client_message_id j = as_text (validate_client_message_id j)"
| "run_check u Validate_optional_client_id j = as_optional (validate_optional_client_id j)"
| "run_check u Validate_status j = validate_status j"
| "run_check u Validate_sender_filter j = as_optional (validate_sender_filter j)"
| "run_check u Validate_uuid_filter j = as_optional (validate_uuid_filter j)"
| "run_check u Validate_command_name j = as_optional (validate_command_name j)"
| "run_check u Validate_capability_filter j = as_optional (validate_capability_filter u j)"
| "run_check u (Validate_card_text_filter field) j = as_optional (validate_card_text_filter u j field)"
| "run_check u Validate_task_state j = validate_task_state j"
| "run_check u Validate_task_priority j = validate_task_priority j"
| "run_check u Validate_priority_filter j = validate_priority_filter j"
| "run_check u Validate_due_at j = as_optional (validate_due_at j)"
| "run_check u Validate_deadline j = validate_deadline j"
| "run_check u Validate_depends_on j = as_texts (validate_depends_on j)"
| "run_check u Validate_event_types j = validate_event_types j"

section \<open>The envelope\<close>

text \<open>\<open>type(raw) is not type_\<close>: a boolean is not an integer here.\<close>

fun has_type :: "json_type \<Rightarrow> json \<Rightarrow> bool" where
  "has_type PStr (JStr s) = True"
| "has_type PInt (JInt i) = True"
| "has_type PBool (JBool b) = True"
| "has_type PList (JList xs) = True"
| "has_type PDict (JObj kvs) = True"
| "has_type _ _ = False"

primrec type_name :: "json_type \<Rightarrow> string" where
  "type_name PStr = ''str''"
| "type_name PInt = ''int''"
| "type_name PBool = ''bool''"
| "type_name PList = ''list''"
| "type_name PDict = ''dict''"

text \<open>One turn of the loop over the declared parameters.\<close>

definition validate_param :: "unicode \<Rightarrow> (string \<times> json) list \<Rightarrow> param_spec \<Rightarrow> exc + (string \<times> json)" where
  "validate_param u parameters p =
     (case p of (name, type_, required, validator) \<Rightarrow>
        andthen (some_or KeyError (map_of parameters name)) (\<lambda>raw.
          if raw = JNull \<and> required then invalid (''The parameter '' @ quoted name @ '' is required'')
          else if raw \<noteq> JNull \<and> \<not> has_type type_ raw
          then invalid (''The parameter '' @ quoted name @ '' must be of type '' @ type_name type_)
          else andthen (run_check u validator raw) (\<lambda>value. Inr (name, value))))"

definition validate_envelope :: "unicode \<Rightarrow> json \<Rightarrow> exc + (string \<times> (string \<times> json) list)" where
  "validate_envelope u request =
     (case request of
        JObj envelope \<Rightarrow>
          andthen (ensure_exact_keys envelope [''api_version'', ''command'', ''parameters''] ''envelope'') (\<lambda>_.
            if map_of envelope ''api_version'' \<noteq> Some (JStr API_VERSION)
            then invalid (''api_version must be '' @ quoted API_VERSION)
            else (case map_of envelope ''command'' of
              Some (JStr command) \<Rightarrow>
                (case map_of COMMAND_SPECS command of
                   None \<Rightarrow> Inl (ApiError UNKNOWN_COMMAND (Custom (''Unknown command: '' @ command)))
                 | Some (params, org) \<Rightarrow>
                     (case map_of envelope ''parameters'' of
                        Some (JObj parameters) \<Rightarrow>
                          andthen (ensure_exact_keys parameters (sort (map fst params)) ''parameters'') (\<lambda>_.
                            andthen (map_exc (validate_param u parameters) params) (\<lambda>validated.
                              Inr (command, validated)))
                      | _ \<Rightarrow> invalid ''parameters must be a JSON object''))
            | _ \<Rightarrow> invalid ''command must be a string''))
      | _ \<Rightarrow> invalid ''The request must be a JSON object'')"

section \<open>The bytes of a request\<close>

text \<open>
  \<open>_reject_duplicate_keys\<close> on every object, and the limit of Python on the digits of an integer:
  both are a \<open>ValueError\<close>. The depth at which the interpreter's parser gives up on nested
  values is its own: \<open>too_nested\<close> is a parameter.
\<close>

fun strict :: "json \<Rightarrow> bool" where
  "strict (JInt i) = (int (length (nat_text (nat \<bar>i\<bar>))) \<le> 4300)"
| "strict (JList xs) = list_all strict xs"
| "strict (JObj kvs) = (distinct (map fst kvs) \<and> list_all (\<lambda>(k, v). strict v) kvs)"
| "strict _ = True"

definition parse_json_request :: "(string \<Rightarrow> bool) \<Rightarrow> string \<Rightarrow> exc + json" where
  "parse_json_request too_nested data =
     (if \<not> is_utf8 data then invalid ''Invalid JSON request (UTF-8)''
      else if too_nested data then invalid ''Invalid JSON request (excessive nesting)''
      else case scan_text data of
          None \<Rightarrow> invalid ''Invalid JSON request''
        | Some j \<Rightarrow> if strict j then Inr j else invalid ''Invalid JSON request'')"

end
