(* ===== verification/Envelope.thy ===== *)
theory Envelope
  imports CommandSpecs Dispatch
begin

text \<open>
  From the validated parameters to the handlers: what \<open>_dispatch\<close> and each handler of
  \<^verbatim>\<open>synapse/service.py\<close> read of the dictionary \<open>params\<close>, and \<open>Service.process\<close> on the
  bytes of a request. The main fact is that a request that passed validation is read without a
  \<open>KeyError\<close> or a \<open>TypeError\<close>: the table of the commands and the handlers agree.
\<close>

section \<open>Reading the parameters\<close>

type_synonym params = "(string \<times> json) list"

definition param :: "params \<Rightarrow> string \<Rightarrow> exc + json" where
  "param p k = some_or KeyError (map_of p k)"

fun text_value :: "json \<Rightarrow> exc + string" where
  "text_value (JStr s) = Inr s"
| "text_value _ = Inl TypeError"

fun opt_text_value :: "json \<Rightarrow> exc + string option" where
  "opt_text_value JNull = Inr None"
| "opt_text_value v = map_sum id Some (text_value v)"

fun flag_value :: "json \<Rightarrow> exc + bool" where
  "flag_value (JBool b) = Inr b"
| "flag_value _ = Inl TypeError"

fun int_value :: "json \<Rightarrow> exc + int" where
  "int_value (JInt i) = Inr i"
| "int_value _ = Inl TypeError"

fun opt_int_value :: "json \<Rightarrow> exc + int option" where
  "opt_int_value JNull = Inr None"
| "opt_int_value v = map_sum id Some (int_value v)"

fun texts_value :: "json \<Rightarrow> exc + string list" where
  "texts_value (JList xs) = map_exc text_value xs"
| "texts_value _ = Inl TypeError"

definition text_param :: "params \<Rightarrow> string \<Rightarrow> exc + string" where
  "text_param p k = andthen (param p k) text_value"

definition opt_text_param :: "params \<Rightarrow> string \<Rightarrow> exc + string option" where
  "opt_text_param p k = andthen (param p k) opt_text_value"

definition flag_param :: "params \<Rightarrow> string \<Rightarrow> exc + bool" where
  "flag_param p k = andthen (param p k) flag_value"

definition int_param :: "params \<Rightarrow> string \<Rightarrow> exc + int" where
  "int_param p k = andthen (param p k) int_value"

definition opt_int_param :: "params \<Rightarrow> string \<Rightarrow> exc + int option" where
  "opt_int_param p k = andthen (param p k) opt_int_value"

definition texts_param :: "params \<Rightarrow> string \<Rightarrow> exc + string list" where
  "texts_param p k = andthen (param p k) texts_value"

definition limit_param :: "params \<Rightarrow> exc + nat" where
  "limit_param p = map_sum id nat (int_param p ''limit'')"

text \<open>Words the model keeps as constructors.\<close>

definition STATE_WORDS :: "(string \<times> task_state) list" where
  "STATE_WORDS = map (\<lambda>x. (state_text x, x))
     [Submitted, InProgress, Completed, Failed, Canceled, PendingApproval]"

definition PRIORITY_WORDS :: "(string \<times> priority) list" where
  "PRIORITY_WORDS = map (\<lambda>x. (priority_text x, x)) [Low, Normal, High]"

definition EVENT_WORDS :: "(string \<times> event_type) list" where
  "EVENT_WORDS = map (\<lambda>x. (event_text x, x)) [TaskCreated, TaskStateChanged, TaskTransferred,
     TaskApprovalRequested, TaskApproved, TaskRejected, TaskEscalated]"

definition ROLE_WORDS :: "(string \<times> role) list" where
  "ROLE_WORDS = [(''manager'', Manager), (''employee'', Employee), (''rh'', Rh)]"

definition PRINCIPAL_WORDS :: "(string \<times> principal_type) list" where
  "PRINCIPAL_WORDS = [(''agent'', Agent), (''human'', Human)]"

definition STATUS_WORDS :: "(string \<times> read_status) list" where
  "STATUS_WORDS = [(''read'', Read), (''unread'', Unread)]"

definition word :: "(string \<times> 'a) list \<Rightarrow> string \<Rightarrow> exc + 'a" where
  "word words s = some_or KeyError (map_of words s)"

definition word_param :: "(string \<times> 'a) list \<Rightarrow> params \<Rightarrow> string \<Rightarrow> exc + 'a" where
  "word_param words p k = andthen (text_param p k) (word words)"

definition opt_word :: "(string \<times> 'a) list \<Rightarrow> string option \<Rightarrow> exc + 'a option" where
  "opt_word words v = (case v of None \<Rightarrow> Inr None | Some s \<Rightarrow> map_sum id Some (word words s))"

definition opt_word_param :: "(string \<times> 'a) list \<Rightarrow> params \<Rightarrow> string \<Rightarrow> exc + 'a option" where
  "opt_word_param words p k = andthen (opt_text_param p k) (opt_word words)"

fun opt_event_types_value :: "json \<Rightarrow> exc + event_type list option" where
  "opt_event_types_value JNull = Inr None"
| "opt_event_types_value v =
     andthen (texts_value v) (\<lambda>ts. map_sum id Some (map_exc (word EVENT_WORDS) ts))"

text \<open>A function that takes one more parameter.\<close>

definition arg :: "exc + ('a \<Rightarrow> 'b) \<Rightarrow> exc + 'a \<Rightarrow> exc + 'b" where
  "arg f x = andthen f (\<lambda>g. andthen x (\<lambda>v. Inr (g v)))"

section \<open>The handlers' parameters\<close>

text \<open>
  The keys of \<open>_ORG_HANDLERS\<close>, \<open>_HUMAN_HANDLERS\<close> and \<open>_AGENT_HANDLERS\<close>, each with what its
  handler reads of the parameters.
\<close>

definition ORG_HANDLERS :: "(string \<times> (params \<Rightarrow> exc + org_command)) list" where
  "ORG_HANDLERS = [
     (''create_agent'', \<lambda>p. arg (arg (arg (arg (arg (Inr ((\<lambda>a b c s k. CreateAgent
       \<lparr>ca_username = a, ca_password = b, ca_description = c, ca_can_see = s, ca_principal =
       k\<rparr>))) (text_param p ''username'')) (text_param p ''password'')) (text_param p
       ''description'')) (flag_param p ''can_see_org_agents'')) (word_param PRINCIPAL_WORDS p
       ''principal_type'')),
     (''deactivate_agent'', \<lambda>p. arg (Inr DeactivateAgent) (text_param p ''username'')),
     (''reactivate_agent'', \<lambda>p. arg (Inr ReactivateAgent) (text_param p ''username'')),
     (''change_agent_password'', \<lambda>p. arg (arg (Inr ChangeAgentPassword) (text_param p
       ''username'')) (text_param p ''new_password'')),
     (''set_agent_visibility'', \<lambda>p. arg (arg (Inr SetAgentVisibility) (text_param p
       ''username'')) (flag_param p ''can_see_org_agents'')),
     (''get_org_agents'', \<lambda>p. arg (arg (Inr GetOrgAgents) (limit_param p)) (opt_text_param p
       ''cursor'')),
     (''set_organization_policy'', \<lambda>p. arg (arg (Inr SetOrganizationPolicy) (flag_param p
       ''allow_incoming_external'')) (flag_param p ''allow_outgoing_external'')),
     (''get_organization_policy'', \<lambda>p. Inr GetOrganizationPolicy),
     (''change_organization_password'', \<lambda>p. arg (Inr ChangeOrganizationPassword) (text_param
       p ''new_password'')),
     (''change_agent_description'', \<lambda>p. arg (arg (Inr ChangeAgentDescription) (text_param p
       ''username'')) (text_param p ''description'')),
     (''approve_agent_card'', \<lambda>p. arg (Inr ApproveAgentCard) (text_param p ''username'')),
     (''set_escalation_policy'', \<lambda>p. arg (arg (arg (arg (Inr ((\<lambda>a b c s.
       SetEscalationPolicy \<lparr>es_enabled = a, es_due_after = b, es_failed_after = c, es_to =
       s\<rparr>))) (flag_param p ''enabled'')) (int_param p ''due_after_seconds'')) (int_param p
       ''failed_after_seconds'')) (text_param p ''escalate_to_username'')),
     (''get_escalation_policy'', \<lambda>p. Inr GetEscalationPolicy),
     (''set_agent_budget'', \<lambda>p. arg (arg (arg (Inr SetAgentBudget) (text_param p
       ''username'')) (opt_int_param p ''max_active_tasks'')) (opt_int_param p
       ''max_messages_per_hour'')),
     (''create_department'', \<lambda>p. arg (Inr CreateDepartment) (text_param p
       ''department_name'')),
     (''set_agent_department'', \<lambda>p. arg (arg (arg (Inr SetAgentDepartment) (text_param p
       ''username'')) (text_param p ''department_name'')) (word_param ROLE_WORDS p ''role'')),
     (''get_org_structure'', \<lambda>p. Inr GetOrgStructure),
     (''get_org_audit'', \<lambda>p. arg (arg (arg (arg (arg (Inr ((\<lambda>l a b c. GetOrgAudit
       \<lparr>ga_limit = l, ga_since = a, ga_actor = b, ga_command = c\<rparr>))) (limit_param p))
       (opt_text_param p ''since'')) (opt_text_param p ''actor_username'')) (opt_text_param p
       ''command'')) (opt_text_param p ''cursor'')),
     (''get_org_metrics'', \<lambda>p. Inr GetOrgMetrics),
     (''get_server_status'', \<lambda>p. Inr GetServerStatus),
     (''create_observer_account'', \<lambda>p. arg (arg (arg (Inr ((\<lambda>a b c.
       CreateObserverAccount \<lparr>ob_name = a, ob_password = b, ob_description = c\<rparr>)))
       (text_param p ''observer_name'')) (text_param p ''password'')) (text_param p
       ''description'')),
     (''revoke_observer_account'', \<lambda>p. arg (Inr RevokeObserverAccount) (text_param p
       ''observer_name'')),
     (''list_observers'', \<lambda>p. Inr ListObservers),
     (''set_event_retention_days'', \<lambda>p. arg (Inr SetEventRetentionDays) (int_param p
       ''days''))]"

definition HUMAN_HANDLERS :: "(string \<times> (params \<Rightarrow> exc + human_command)) list" where
  "HUMAN_HANDLERS = [
     (''create_org'', \<lambda>p. arg (arg (Inr CreateOrg) (text_param p ''organization_name''))
       (text_param p ''organization_password'')),
     (''disable_org'', \<lambda>p. arg (Inr DisableOrg) (text_param p ''organization_name'')),
     (''list_org_conversations'', \<lambda>p. arg (arg (Inr ListOrgConversations) (limit_param p))
       (opt_text_param p ''cursor'')),
     (''get_org_conversation'', \<lambda>p. arg (arg (arg (Inr GetOrgConversation) (text_param p
       ''conversation_id'')) (limit_param p)) (opt_text_param p ''cursor''))]"

definition AGENT_HANDLERS :: "(string \<times> (params \<Rightarrow> exc + agent_command)) list" where
  "AGENT_HANDLERS = [
     (''get_my_organization'', \<lambda>p. Inr GetMyOrganization),
     (''get_agent_description'', \<lambda>p. arg (Inr GetAgentDescription) (text_param p
       ''username'')),
     (''list_org_agents'', \<lambda>p. arg (arg (Inr ListOrgAgents) (limit_param p)) (opt_text_param
       p ''cursor'')),
     (''help'', \<lambda>p. arg (Inr Help) (opt_text_param p ''command_name'')),
     (''send_message'', \<lambda>p. arg (arg (arg (arg (Inr ((\<lambda>a b c s. SendMessage
       \<lparr>sm_recipient = a, sm_message = b, sm_client = c, sm_reference = s\<rparr>)))
       (text_param p ''recipient_username'')) (text_param p ''message'')) (text_param p
       ''client_message_id'')) (opt_text_param p ''business_reference'')),
     (''get_messages'', \<lambda>p. arg (arg (arg (arg (arg (Inr ((\<lambda>l a b c. GetMessages
       \<lparr>gm_limit = l, gm_status = a, gm_sender = b, gm_conv = c\<rparr>))) (limit_param p))
       (opt_word_param STATUS_WORDS p ''status'')) (opt_text_param p ''sender_username''))
       (opt_text_param p ''conversation_id'')) (opt_text_param p ''cursor'')),
     (''get_conversation'', \<lambda>p. arg (arg (arg (Inr GetConversation) (text_param p
       ''other_username'')) (limit_param p)) (opt_text_param p ''cursor'')),
     (''read_message'', \<lambda>p. arg (Inr ReadMessage) (text_param p ''message_id'')),
     (''get_notifications'', \<lambda>p. arg (arg (Inr GetNotifications) (limit_param p))
       (opt_text_param p ''cursor'')),
     (''mark_conversation_no_reply'', \<lambda>p. arg (Inr MarkConversationNoReply) (text_param p
       ''conversation_id'')),
     (''set_agent_card'', \<lambda>p. arg (arg (arg (arg (arg (arg (arg (Inr ((\<lambda>a b c x y z
       w. SetAgentCard \<lparr>cf_capabilities = a, cf_domain = b, cf_model = c, cf_tools = x,
       cf_sla = y, cf_limits = z, cf_cost = w\<rparr>))) (texts_param p ''capabilities''))
       (opt_text_param p ''domain'')) (opt_text_param p ''model'')) (texts_param p ''tools''))
       (opt_text_param p ''sla'')) (opt_text_param p ''limits'')) (opt_text_param p
       ''estimated_cost'')),
     (''get_agent_card'', \<lambda>p. arg (Inr GetAgentCard) (text_param p ''username'')),
     (''find_agents'', \<lambda>p. arg (arg (arg (arg (arg (Inr ((\<lambda>l a b c. FindAgents
       \<lparr>fa_limit = l, fa_capability = a, fa_domain = b, fa_name = c\<rparr>))) (limit_param
       p)) (opt_text_param p ''capability'')) (opt_text_param p ''domain'')) (opt_text_param p
       ''name_contains'')) (opt_text_param p ''cursor'')),
     (''create_task'', \<lambda>p. arg (arg (arg (arg (arg (arg (arg (arg (Inr ((\<lambda>a b c x y
       z w v. CreateTask \<lparr>ct_client = a, ct_title = b, ct_description = c, ct_assignee = x,
       ct_priority = y, ct_due_at = z, ct_reference = w, ct_depends_on = v\<rparr>)))
       (opt_text_param p ''client_task_id'')) (text_param p ''title'')) (opt_text_param p
       ''description'')) (text_param p ''assignee_username'')) (word_param PRIORITY_WORDS p
       ''priority'')) (opt_text_param p ''due_at'')) (opt_text_param p ''business_reference''))
       (texts_param p ''depends_on'')),
     (''get_task'', \<lambda>p. arg (Inr GetTask) (text_param p ''task_id'')),
     (''list_tasks'', \<lambda>p. arg (arg (arg (arg (arg (arg (Inr ((\<lambda>l a b c x. ListTasks
       \<lparr>lt_limit = l, lt_assignee = a, lt_state = b, lt_priority = c, lt_due_before =
       x\<rparr>))) (limit_param p)) (opt_text_param p ''assignee_username'')) (opt_word_param
       STATE_WORDS p ''state'')) (opt_word_param PRIORITY_WORDS p ''priority'')) (opt_text_param p
       ''due_before'')) (opt_text_param p ''cursor'')),
     (''update_task_state'', \<lambda>p. arg (arg (arg (Inr UpdateTaskState) (text_param p
       ''task_id'')) (word_param STATE_WORDS p ''new_state'')) (opt_text_param p ''result'')),
     (''transfer_task'', \<lambda>p. arg (arg (arg (Inr TransferTask) (text_param p ''task_id''))
       (text_param p ''assignee_username'')) (opt_text_param p ''note'')),
     (''request_approval'', \<lambda>p. arg (arg (Inr RequestApproval) (text_param p ''task_id''))
       (text_param p ''approver_username'')),
     (''approve_task'', \<lambda>p. arg (Inr ApproveTask) (text_param p ''task_id'')),
     (''reject_task'', \<lambda>p. arg (arg (Inr RejectTask) (text_param p ''task_id''))
       (opt_text_param p ''reason'')),
     (''get_my_work'', \<lambda>p. arg (arg (Inr GetMyWork) (limit_param p)) (opt_text_param p
       ''cursor'')),
     (''get_events'', \<lambda>p. arg (arg (arg (Inr GetEvents) (limit_param p)) (andthen (param p
       ''types'') opt_event_types_value)) (opt_text_param p ''cursor'')),
     (''list_department_tasks'', \<lambda>p. arg (arg (arg (Inr ListDepartmentTasks) (text_param p
       ''department_name'')) (limit_param p)) (opt_text_param p ''cursor'')),
     (''create_group'', \<lambda>p. arg (Inr CreateGroup) (text_param p ''name'')),
     (''add_group_member'', \<lambda>p. arg (arg (Inr AddGroupMember) (text_param p ''group_id''))
       (text_param p ''username'')),
     (''remove_group_member'', \<lambda>p. arg (arg (Inr RemoveGroupMember) (text_param p
       ''group_id'')) (text_param p ''username'')),
     (''send_group_message'', \<lambda>p. arg (arg (arg (Inr ((\<lambda>a b c. SendGroupMessage
       \<lparr>gs_group = a, gs_message = b, gs_client = c\<rparr>))) (text_param p ''group_id''))
       (text_param p ''message'')) (opt_text_param p ''client_message_id'')),
     (''get_group_messages'', \<lambda>p. arg (arg (arg (Inr GetGroupMessages) (text_param p
       ''group_id'')) (limit_param p)) (opt_text_param p ''cursor'')),
     (''get_group_members'', \<lambda>p. arg (Inr GetGroupMembers) (text_param p ''group_id'')),
     (''list_my_groups'', \<lambda>p. arg (arg (Inr ListMyGroups) (limit_param p)) (opt_text_param p
       ''cursor'')),
     (''get_agent_reputation'', \<lambda>p. arg (Inr GetAgentReputation) (text_param p
       ''username'')),
     (''create_delegation'', \<lambda>p. arg (arg (arg (Inr CreateDelegation) (text_param p
       ''task_id'')) (text_param p ''delegatee_username'')) (text_param p ''expires_at'')),
     (''revoke_delegation'', \<lambda>p. arg (arg (Inr RevokeDelegation) (text_param p ''task_id''))
       (text_param p ''delegatee_username'')),
     (''get_my_delegations'', \<lambda>p. arg (arg (Inr GetMyDelegations) (limit_param p))
       (opt_text_param p ''cursor'')),
     (''get_org_snapshot'', \<lambda>p. Inr GetOrgSnapshot)]"

text \<open>The handler of a user's command: \<open>list_orgs\<close>, the human commands, then the agents'.\<close>

definition user_command_of :: "string \<Rightarrow> params \<Rightarrow> exc + user_command" where
  "user_command_of command p =
     (if command = ''list_orgs'' then arg (Inr ListOrgs) (flag_param p ''include_disabled'')
      else case map_of HUMAN_HANDLERS command of
          Some build \<Rightarrow> arg (Inr Humans) (build p)
        | None \<Rightarrow> andthen (some_or KeyError (map_of AGENT_HANDLERS command)) (\<lambda>build.
            arg (Inr Agents) (build p)))"

text \<open>\<open>str.lower\<close>: the names of callers are not validated, only compared in lower case.\<close>

definition py_lower :: "unicode \<Rightarrow> string \<Rightarrow> string" where
  "py_lower u s = utf8_text (lowercase u (code_points s))"

definition build_request :: "unicode \<Rightarrow> string \<Rightarrow> bool \<Rightarrow> params \<Rightarrow> exc + request" where
  "build_request u command org p =
     (if org then
        arg (arg (arg (Inr OrgRequest) (text_param p ''organization_name_auth''))
            (text_param p ''organization_password_auth''))
          (andthen (some_or KeyError (map_of ORG_HANDLERS command)) (\<lambda>build. build p))
      else
        arg (arg (arg (Inr (\<lambda>name. UserRequest (py_lower u name))) (text_param p ''my_name_auth''))
            (text_param p ''my_password_auth''))
          (user_command_of command p))"

definition request_of :: "unicode \<Rightarrow> string \<Rightarrow> params \<Rightarrow> exc + request" where
  "request_of u command p =
     andthen (some_or KeyError (map_of COMMAND_SPECS command))
       (\<lambda>(params, org). build_request u command org p)"

section \<open>Bytes in, response out\<close>

definition decode_request :: "unicode \<Rightarrow> (string \<Rightarrow> bool) \<Rightarrow> string \<Rightarrow> exc + request" where
  "decode_request u too_nested raw =
     andthen (parse_json_request too_nested raw) (\<lambda>j.
     andthen (validate_envelope u j) (\<lambda>(command, p). request_of u command p))"

definition process_bytes ::
    "config \<Rightarrow> env \<Rightarrow> scan_order \<Rightarrow> unicode \<Rightarrow> (string \<Rightarrow> bool) \<Rightarrow> string \<Rightarrow> service
     \<Rightarrow> response \<times> service" where
  "process_bytes cfg e sc u too_nested raw s = process cfg e sc (decode_request u too_nested raw) s"

end
