(* ===== verification/ValidationFacts.thy ===== *)
theory ValidationFacts
  imports Validation
begin

text \<open>
  What the validators guarantee of the values they answer: names are 3 to 64 lower-case ASCII
  characters, a UUID is its own lower-case text, a text is clean and within its bounds, and a
  value that was normalized once is left alone.
\<close>

section \<open>ASCII text\<close>

lemma point_small: "fst (point b s) < 128 \<Longrightarrow> (of_char b :: nat) < 128 \<and> snd (point b s) = 0"
proof -
  have "128 \<le> tail_bits (of_char b - 192) 1 s" if "194 \<le> (of_char b :: nat)" "continued 1 s"
  proof -
    from that(2) obtain c t where "s = c # t" by (cases s) (auto simp: continued_def)
    with that(1) show ?thesis by (simp add: tail_bits_take [unfolded One_nat_def])
  qed
  then show "fst (point b s) < 128 \<Longrightarrow> ?thesis"
    by (auto simp: point_def Let_def split: if_splits)
qed

lemma code_points_small:
  "list_all (\<lambda>c. c < 128) (code_points s) \<Longrightarrow> code_points s = cps s \<and> list_all (\<lambda>c. (of_char c :: nat) < 128) s"
proof (induction s rule: code_points.induct)
  case (2 b s)
  then have "(of_char b :: nat) < 128" "snd (point b s) = 0" using point_small [of b s] by auto
  with 2 show ?case by (simp add: point_ascii)
qed simp

lemma name_point_small: "list_all name_point us \<Longrightarrow> list_all (\<lambda>c. c < 128) us"
  by (auto simp: list_all_iff name_point_def)

section \<open>Names\<close>

definition name_char :: "char \<Rightarrow> bool" where
  "name_char c = (let n = (of_char c :: nat) in
     97 \<le> n \<and> n \<le> 122 \<or> 48 \<le> n \<and> n \<le> 57 \<or> n = 95 \<or> n = 45)"

definition wf_name :: "string \<Rightarrow> bool" where
  "wf_name s = (MIN_USERNAME_LEN \<le> length s \<and> length s \<le> MAX_USERNAME_LEN \<and> list_all name_char s)"

lemma name_char_lower: "name_point (of_char c) \<Longrightarrow> name_char (ascii_lower_char c)"
  by (auto simp: name_point_def name_char_def ascii_lower_char_def Let_def)

lemma normalize_username_wf: "normalize_username j = Inr n \<Longrightarrow> wf_name n"
proof (cases j)
  case (JStr s)
  assume ok: "normalize_username j = Inr n"
  then have us: "list_all name_point (code_points s)" "n = lower s"
    "MIN_USERNAME_LEN \<le> length (code_points s)" "length (code_points s) \<le> MAX_USERNAME_LEN"
    by (auto simp: JStr Let_def USERNAME_RE_def split: if_splits)
  then have "code_points s = cps s" using code_points_small name_point_small by blast
  with us show ?thesis
    by (auto simp: wf_name_def lower_def list_all_iff cps_def name_char_lower)
qed simp_all

lemma normalize_organization_name_same:
  "map_sum (\<lambda>_. ()) id (normalize_organization_name j) = map_sum (\<lambda>_. ()) id (normalize_username j)"
  by (cases j) (auto simp: Let_def invalid_def)

lemma normalize_organization_name_wf: "normalize_organization_name j = Inr n \<Longrightarrow> wf_name n"
  using normalize_organization_name_same [of j]
  by (cases "normalize_username j") (auto intro: normalize_username_wf)

lemma wf_name_ascii:
  assumes "wf_name n"
  shows "code_points n = cps n" "list_all name_point (cps n)" "lower n = n"
proof -
  have "list_all (\<lambda>c. (of_char c :: nat) < 128) n"
    using assms by (auto simp: wf_name_def list_all_iff name_char_def Let_def)
  then show "code_points n = cps n" by (rule code_points_ascii)
  show "list_all name_point (cps n)"
    using assms by (auto simp: wf_name_def list_all_iff name_char_def name_point_def cps_def Let_def)
  show "lower n = n"
    using assms by (auto simp: wf_name_def list_all_iff name_char_def lower_def ascii_lower_char_def Let_def
        intro!: map_idI)
qed

lemma normalize_username_fixed:
  assumes "wf_name n" shows "normalize_username (JStr n) = Inr n"
proof -
  have "length n \<noteq> 0" using assms unfolding wf_name_def MIN_USERNAME_LEN_def by linarith
  then have "cps n \<noteq> []" by (metis length_cps list.size(3))
  with wf_name_ascii [OF assms] assms show ?thesis by (simp add: USERNAME_RE_def wf_name_def Let_def)
qed

section \<open>Texts\<close>

text \<open>What a normalized text is.\<close>

definition clean :: "unicode \<Rightarrow> nat \<Rightarrow> nat \<Rightarrow> string \<Rightarrow> bool" where
  "clean u lo hi s =
     (let us = code_points s in
      lo \<le> length us \<and> length us \<le> hi \<and> is_utf8 s \<and> nfc u us = us \<and> stripped us
        \<and> list_all (\<lambda>c. category u c \<noteq> ''Cc'') us)"

lemma nfc_points:
  assumes "points_law u" and "\<not> list_ex surrogate (code_points s)"
  shows "list_all (\<lambda>c. c < 1114112 \<and> \<not> surrogate c) (nfc u (code_points s))"
  using assms code_points_bound [of s] by (fastforce simp: points_law_def list_all_iff list_ex_iff)

lemma set_strip: "set (strip us) \<subseteq> set us"
  using strip_infix [of us] by (metis Un_iff set_append subsetI)

lemma clean_text_clean:
  assumes "nfc_law u" and "points_law u" and ok: "clean_text u lo hi m c s = Inr v"
  shows "clean u lo hi v"
proof -
  let ?t = "strip (nfc u (code_points s))"
  from ok have r: "\<not> list_ex surrogate (code_points s)" "lo \<le> length ?t" "length ?t \<le> hi"
    "\<not> list_ex (\<lambda>c. category u c = ''Cc'') ?t" "v = utf8_text ?t"
    by (auto simp: clean_text_def reject_surrogates_def exc_simps Let_def split: if_splits)
  have t: "list_all (\<lambda>c. c < 1114112 \<and> \<not> surrogate c) ?t"
    using nfc_points [OF assms(2) r(1)] set_strip by (fastforce simp: list_all_iff)
  then have "code_points v = ?t"
    using code_points_text [of ?t] r(5) by (simp add: list_all_iff)
  with r t nfc_strip [OF assms(1)] show ?thesis
    by (auto simp: clean_def is_utf8_def stripped_strip list_all_iff list_ex_iff Let_def)
qed

text \<open>Without the laws of Unicode the length of the text before its encoding is all there is.\<close>

lemma clean_text_fixed:
  assumes "clean u lo hi s" shows "clean_text u lo hi m c s = Inr (utf8_text (code_points s))"
  using assms strip_idle
  by (auto simp: clean_text_def clean_def reject_surrogates_def is_utf8_def list_all_iff list_ex_iff Let_def)

lemma sextet:
  assumes "(d :: nat) < 64" shows "(a * 64 + d) div 64 = a" "(a * 64 + d) mod 64 = d"
  using assms by simp_all

lemma sextets_div: "(v :: nat) div 4096 = v div 64 div 64" "(v :: nat) div 262144 = v div 64 div 64 div 64"
  by (simp_all add: div_mult2_eq [symmetric])

lemma point_bytes:
  assumes "\<not> surrogate (fst (point b s))"
  shows "utf8 (fst (point b s)) = b # take (snd (point b s)) s"
proof -
  let ?n = "of_char b :: nat"
  have n: "?n < 256" by (rule nat_of_char_less_256)
  have b: "char_of ?n = b" by simp
  have cont: "\<exists>d :: nat. d < 64 \<and> x = char_of (128 + d)" if "continuation x" for x
    using that by (intro exI [of _ "of_char x - 128"]) (auto simp: continuation_def)
  consider "?n < 128" | "194 \<le> ?n" "?n < 224" "continued 1 s"
    | "224 \<le> ?n" "?n < 240" "continued 2 s" "2048 \<le> tail_bits (?n - 224) 2 s"
    | "240 \<le> ?n" "?n < 245" "continued 3 s" "65536 \<le> tail_bits (?n - 240) 3 s"
      "tail_bits (?n - 240) 3 s < 1114112"
    | "fst (point b s) = 56320 + ?n" "128 \<le> ?n"
    by (fastforce simp: point_def Let_def)
  then show ?thesis
  proof cases
    case 1
    then show ?thesis by (simp add: point_ascii utf8_def)
  next
    case 2
    then obtain x t where s: "s = x # t" "continuation x"
      by (cases s) (auto simp: continued_def)
    from cont [OF s(2)] obtain d :: nat where d: "d < 64" "x = char_of (128 + d)" by blast
    have p: "point b s = ((?n - 192) * 64 + d, 1)"
      using 2 d by (simp add: point_def Let_def s tail_bits_take [unfolded One_nat_def])
    have "192 + ((?n - 192) * 64 + d) div 64 = ?n" "((?n - 192) * 64 + d) mod 64 = d"
      "(?n - 192) * 64 + d < 2048" "128 \<le> (?n - 192) * 64 + d" using 2 d(1) by auto
    then show ?thesis by (simp only: p) (simp add: utf8_def s b d(2))
  next
    case 3
    then obtain x y t where s: "s = x # y # t" "continuation x" "continuation y"
      by (cases s; cases "tl s") (auto simp: continued_def numeral_2_eq_2)
    from cont [OF s(2)] obtain d :: nat where d: "d < 64" "x = char_of (128 + d)" by blast
    from cont [OF s(3)] obtain d' :: nat where d': "d' < 64" "y = char_of (128 + d')" by blast
    let ?v = "((?n - 224) * 64 + d) * 64 + d'"
    have p: "point b s = (?v, 2)" "2048 \<le> ?v"
      using 3 d d' by (simp_all add: point_def Let_def s(1) tail_bits_take)
    have "224 + ?v div 4096 = ?n" "?v div 64 mod 64 = d" "?v mod 64 = d'"
      unfolding sextets_div sextet [OF d'(1)] sextet [OF d(1)] using 3 by simp_all
    moreover have "?v < 65536" using 3 d(1) d'(1) by simp
    ultimately have v: "224 + ?v div 4096 = ?n" "?v div 64 mod 64 = d" "?v mod 64 = d'" "?v < 65536"
      by simp_all
    then show ?thesis using p(2) by (simp only: p(1) utf8_def v fst_conv snd_conv) (simp add: s b numeral_2_eq_2 d(2) d'(2))
  next
    case 4
    then obtain x y z t where s: "s = x # y # z # t" "continuation x" "continuation y" "continuation z"
      by (cases s; cases "tl s"; cases "tl (tl s)") (auto simp: continued_def numeral_3_eq_3)
    from cont [OF s(2)] obtain d :: nat where d: "d < 64" "x = char_of (128 + d)" by blast
    from cont [OF s(3)] obtain d' :: nat where d': "d' < 64" "y = char_of (128 + d')" by blast
    from cont [OF s(4)] obtain d'' :: nat where d'': "d'' < 64" "z = char_of (128 + d'')" by blast
    let ?v = "(((?n - 240) * 64 + d) * 64 + d') * 64 + d''"
    have p: "point b s = (?v, 3)" "65536 \<le> ?v"
      using 4 d d' d'' by (simp_all add: point_def Let_def s(1) tail_bits_take)
    have v: "240 + ?v div 262144 = ?n" "?v div 4096 mod 64 = d" "?v div 64 mod 64 = d'" "?v mod 64 = d''"
      unfolding sextets_div sextet [OF d''(1)] sextet [OF d'(1)] sextet [OF d(1)] using 4 by simp_all
    then show ?thesis using p(2) by (simp only: p(1) utf8_def v fst_conv snd_conv) (simp add: s b numeral_3_eq_3 d(2) d'(2) d''(2))
  next
    case 5
    with assms n show ?thesis by (simp add: surrogate_def)
  qed
qed

text \<open>Strict decoding loses nothing.\<close>

lemma utf8_code_points: "is_utf8 s \<Longrightarrow> utf8_text (code_points s) = s"
proof (induction s rule: code_points.induct)
  case (2 b s)
  then have "utf8_text (code_points (drop (snd (point b s)) s)) = drop (snd (point b s)) s"
    "utf8 (fst (point b s)) = b # take (snd (point b s)) s"
    using point_bytes by (simp_all add: is_utf8_def)
  then show ?case by (simp add: utf8_text_def)
qed (simp add: utf8_text_def)

lemma clean_text_idem:
  assumes "nfc_law u" and "points_law u" and "clean_text u lo hi m c s = Inr v"
  shows "clean_text u lo hi m c v = Inr v"
proof -
  have "clean u lo hi v" using clean_text_clean [OF assms] .
  then show ?thesis using clean_text_fixed utf8_code_points by (simp add: clean_def Let_def)
qed

section \<open>Identifiers\<close>

text \<open>
  The integer of \<open>uuid.UUID\<close> holds one digit in each four bits, so its version and variant are
  two digits of the text, and its text is the text itself in lower case.
\<close>

definition hex_lower :: "nat \<Rightarrow> char" where
  "hex_lower c = hex_digit (nat (hex_point_value c))"

lemma hex_point_value: "hex_point c \<Longrightarrow> 0 \<le> hex_point_value c \<and> hex_point_value c < 16"
  by (auto simp: hex_point_def hex_point_value_def)

lemma hex_text_foldl:
  "list_all hex_point ds \<Longrightarrow>
     hex_text (length ds) (foldl (\<lambda>n c. n * 16 + hex_point_value c) a ds) = map hex_lower ds"
proof (induction ds rule: rev_induct)
  case (snoc c ds)
  have c: "0 \<le> hex_point_value c" "hex_point_value c < 16" using snoc.prems hex_point_value by auto
  let ?n = "foldl (\<lambda>n c. n * 16 + hex_point_value c) a ds"
  have "(?n * 16 + hex_point_value c) div 16 = ?n" "(?n * 16 + hex_point_value c) mod 16 = hex_point_value c"
    using c by simp_all
  with snoc show ?case by (simp add: hex_lower_def)
qed simp

lemma foldl_digit:
  "list_all hex_point ds \<Longrightarrow> k < length ds \<Longrightarrow>
     foldl (\<lambda>n c. n * 16 + hex_point_value c) a ds div 16 ^ k mod 16
       = hex_point_value (ds ! (length ds - 1 - k))"
proof (induction ds arbitrary: k rule: rev_induct)
  case (snoc c ds)
  have c: "0 \<le> hex_point_value c" "hex_point_value c < 16" using snoc.prems hex_point_value by auto
  let ?n = "foldl (\<lambda>n c. n * 16 + hex_point_value c) a ds"
  have d: "(?n * 16 + hex_point_value c) div 16 = ?n" "(?n * 16 + hex_point_value c) mod 16 = hex_point_value c"
    using c by simp_all
  show ?case
  proof (cases k)
    case 0
    then show ?thesis using d by simp
  next
    case (Suc i)
    have "(?n * 16 + hex_point_value c) div 16 ^ Suc i = ?n div 16 ^ i"
      by (simp only: power_Suc zdiv_zmult2_eq [of "16 ^ i"] zero_le_power zero_le_numeral d(1))
    moreover have "i < length ds" "length ds - Suc i < length ds" using snoc.prems Suc by auto
    ultimately show ?thesis using snoc Suc by (simp add: nth_append)
  qed
qed simp

lemma foldl_nonneg:
  "list_all hex_point ds \<Longrightarrow> 0 \<le> a \<Longrightarrow> 0 \<le> foldl (\<lambda>n c. n * 16 + hex_point_value c) a ds"
  by (induction ds arbitrary: a) (auto simp: hex_point_value)

lemma variant_bits:
  assumes "0 \<le> (x :: int)" "x < 16"
  shows "x div 8 = 1 \<and> x div 4 mod 2 = 0 \<longleftrightarrow> x div 4 = 2"
proof -
  have "x div 8 = x div 4 div 2" by (simp add: zdiv_zmult2_eq [symmetric])
  moreover have "0 \<le> x div 4" "x div 4 < 4" using assms by auto
  moreover have "q div 2 = 1 \<and> q mod 2 = 0 \<longleftrightarrow> q = 2" if "0 \<le> q" "q < 4" for q :: int
    using that by presburger
  ultimately show ?thesis by simp
qed

lemma digit_bits:
  assumes "0 \<le> (m :: int)"
  shows "m div 2 ^ 63 mod 2 = (m div 16 ^ 15 mod 16) div 8"
    "m div 2 ^ 62 mod 2 = (m div 16 ^ 15 mod 16) div 4 mod 2"
    "m div 2 ^ 76 mod 16 = m div 16 ^ 19 mod 16"
proof -
  have parts: "m div 2 ^ 63 = m div 16 ^ 15 div 8" "m div 2 ^ 62 = m div 16 ^ 15 div 4"
    by (simp_all add: zdiv_zmult2_eq [symmetric])
  have "x mod (8 * 2) div 8 = x div 8 mod 2" "x mod (4 * 4) div 4 = x div 4 mod 4" for x :: int
    by (subst zmod_zmult2_eq; simp)+
  then have low: "x div 8 mod 2 = x mod 16 div 8" "x div 4 mod 2 = x mod 16 div 4 mod 2" for x :: int
    by (simp_all add: mod_mod_cancel)
  show "m div 2 ^ 63 mod 2 = (m div 16 ^ 15 mod 16) div 8" unfolding parts by (rule low)
  show "m div 2 ^ 62 mod 2 = (m div 16 ^ 15 mod 16) div 4 mod 2" unfolding parts by (rule low)
qed simp

lemma uuid_points:
  assumes "UUID4_RE us"
  obtains a1 a2 a3 a4 a5 a6 a7 a8 b1 b2 b3 b4 c1 c2 c3 c4 d1 d2 d3 d4
    e1 e2 e3 e4 e5 e6 e7 e8 e9 e10 e11 e12
  where "us = [a1, a2, a3, a4, a5, a6, a7, a8, 45, b1, b2, b3, b4, 45, c1, c2, c3, c4, 45,
      d1, d2, d3, d4, 45, e1, e2, e3, e4, e5, e6, e7, e8, e9, e10, e11, e12]"
    and "list_all hex_point [a1, a2, a3, a4, a5, a6, a7, a8, b1, b2, b3, b4, c1, c2, c3, c4,
      d1, d2, d3, d4, e1, e2, e3, e4, e5, e6, e7, e8, e9, e10, e11, e12]"
  using assms by (auto simp: UUID4_RE_def matches_def numeral_eq_Suc list_all2_Cons1)

lemma hex_point_not_dash: "hex_point c \<Longrightarrow> c \<noteq> 45"
  by (auto simp: hex_point_def)

text \<open>The shape of a version 4 identifier, in either case.\<close>

definition uuid4_text :: "ustr \<Rightarrow> bool" where
  "uuid4_text us = (UUID4_RE us \<and> us ! 14 = 52 \<and> hex_point_value (us ! 19) div 4 = 2)"

lemma uuid_structure:
  assumes "UUID4_RE us"
  shows "dashed (hex_text 32 (uuid_int us)) = map (\<lambda>c. if c = 45 then CHR ''-'' else hex_lower c) us
    \<and> (uuid_is_v4 (uuid_int us) \<longleftrightarrow> us ! 14 = 52 \<and> hex_point_value (us ! 19) div 4 = 2)"
  using assms
proof (cases rule: uuid_points)
  case (1 a1 a2 a3 a4 a5 a6 a7 a8 b1 b2 b3 b4 c1 c2 c3 c4 d1 d2 d3 d4
      e1 e2 e3 e4 e5 e6 e7 e8 e9 e10 e11 e12)
  define ds where "ds = [a1, a2, a3, a4, a5, a6, a7, a8, b1, b2, b3, b4, c1, c2, c3, c4,
      d1, d2, d3, d4, e1, e2, e3, e4, e5, e6, e7, e8, e9, e10, e11, e12]"
  have hex: "list_all hex_point ds" using 1(2) by (simp only: ds_def)
  have ds: "filter (\<lambda>c. c \<noteq> 45) us = ds" using 1 hex_point_not_dash by (simp add: ds_def)
  have size: "length ds = 32" "ds ! 16 = d1" "ds ! 12 = c1" by (simp_all add: ds_def)
  have top: "hex_point c1" "hex_point d1" using 1(2) by simp_all
  define n where "n = foldl (\<lambda>n c. n * 16 + hex_point_value c) 0 ds"
  have n: "uuid_int us = n" by (simp only: uuid_int_def ds n_def)
  have tx: "hex_text 32 n = map hex_lower ds"
    using hex_text_foldl [OF hex, of 0] by (simp only: size n_def)
  have d: "n div 16 ^ 15 mod 16 = hex_point_value d1" "n div 16 ^ 19 mod 16 = hex_point_value c1"
    using foldl_digit [OF hex, of 15 0] foldl_digit [OF hex, of 19 0] by (simp_all add: size n_def)
  have c: "hex_point_value c1 = 4 \<longleftrightarrow> c1 = 52" "0 \<le> hex_point_value d1" "hex_point_value d1 < 16"
    using top by (auto simp: hex_point_def hex_point_value_def)
  have nonneg: "0 \<le> n" using foldl_nonneg [OF hex] by (simp add: n_def)
  have us: "us ! 14 = c1" "us ! 19 = d1" by (simp_all add: 1(1))
  have v: "uuid_is_v4 n \<longleftrightarrow> us ! 14 = 52 \<and> hex_point_value (us ! 19) div 4 = 2"
    using variant_bits [OF c(2,3)] by (simp only: uuid_is_v4_def digit_bits [OF nonneg] d us c(1)) metis
  have "dashed (map hex_lower ds) = map (\<lambda>c. if c = 45 then CHR ''-'' else hex_lower c) us"
    using hex_point_not_dash 1(2) by (simp add: dashed_def ds_def 1(1))
  with v show ?thesis by (simp only: n tx)
qed

lemma hex_lower_char: "hex_point (of_char c) \<Longrightarrow> hex_lower (of_char c) = ascii_lower_char c"
proof -
  let ?n = "of_char c :: nat"
  have v: "nat (int ?n - 48) = ?n - 48" "nat (int ?n - 87) = ?n - 87" "nat (int ?n - 55) = ?n - 55"
    by arith+
  have c: "char_of ?n = c" by simp
  assume "hex_point ?n"
  then consider "48 \<le> ?n" "?n \<le> 57" "?n - 48 < 10" | "97 \<le> ?n" "?n \<le> 102" "\<not> ?n - 87 < 10"
    | "65 \<le> ?n" "?n \<le> 70" "\<not> ?n - 55 < 10"
    unfolding hex_point_def by linarith
  then show ?thesis
    by cases (simp_all add: hex_lower_def hex_point_value_def hex_digit_def ascii_lower_char_def v c)
qed

lemma matches_all: "matches ps us \<Longrightarrow> (\<And>p c. p \<in> set ps \<Longrightarrow> p c \<Longrightarrow> P c) \<Longrightarrow> list_all P us"
  unfolding matches_def by (induction rule: list_all2_induct) auto

lemma uuid_small: "UUID4_RE us \<Longrightarrow> list_all (\<lambda>c. c < 128 \<and> (c \<noteq> 45 \<longrightarrow> hex_point c)) us"
  unfolding UUID4_RE_def by (erule matches_all) (auto simp: hex_point_def)

text \<open>\<open>normalize_uuid\<close>, without the integer.\<close>

lemma dash: "(of_char c :: nat) = 45 \<Longrightarrow> ascii_lower_char c = CHR ''-''"
proof -
  assume "(of_char c :: nat) = 45"
  then have "char_of (of_char c :: nat) = (char_of (45 :: nat) :: char)" by (rule arg_cong)
  moreover have "char_of (45 :: nat) = CHR ''-''" by code_simp
  ultimately show ?thesis by (simp add: ascii_lower_char_def)
qed

lemma normalize_uuid_eq:
  "normalize_uuid (JStr s) field =
     (if uuid4_text (code_points s) then Inr (lower s) else invalid (field @ '' must be a valid UUIDv4''))"
proof (cases "UUID4_RE (code_points s)")
  case True
  have small: "list_all (\<lambda>c. c < 128 \<and> (c \<noteq> 45 \<longrightarrow> hex_point c)) (code_points s)"
    by (rule uuid_small [OF True])
  then have s: "code_points s = cps s" using code_points_small by (auto simp: list_all_iff)
  have "map (\<lambda>c. if c = 45 then CHR ''-'' else hex_lower c) (code_points s) = lower s"
    using small by (auto simp: s cps_def lower_def list_all_iff hex_lower_char dash)
  with uuid_structure [OF True] True show ?thesis by (simp add: uuid4_text_def Let_def)
qed (simp add: uuid4_text_def Let_def)

end
