(* ===== verification/RequestTypes.thy ===== *)
theory RequestTypes
  imports Envelope ValidationFacts
begin

text \<open>
  The table of the commands and the handlers agree: the parameters that pass validation are of
  the kinds the handlers read, so a validated request always reaches its handler, with
  well-formed names and limits.
\<close>

section \<open>What each validator answers\<close>

definition word_ok :: "string list \<Rightarrow> json \<Rightarrow> bool" where
  "word_ok words v = (case v of JStr s \<Rightarrow> s \<in> set words | _ \<Rightarrow> False)"

definition name_ok :: "json \<Rightarrow> bool" where
  "name_ok v = (case v of JStr s \<Rightarrow> wf_name s | _ \<Rightarrow> False)"

definition texts_ok :: "json \<Rightarrow> bool" where
  "texts_ok v = (case v of JList xs \<Rightarrow> list_all is_text xs | _ \<Rightarrow> False)"

definition positive_ok :: "json \<Rightarrow> bool" where
  "positive_ok v = (case v of JInt i \<Rightarrow> 1 \<le> i | _ \<Rightarrow> False)"

definition STATUSES :: "string list" where
  "STATUSES = [''read'', ''unread'']"

fun value_ok :: "check \<Rightarrow> json \<Rightarrow> bool" where
  "value_ok Normalize_username v = name_ok v"
| "value_ok Normalize_organization_name v = name_ok v"
| "value_ok Normalize_department_name v = name_ok v"
| "value_ok Validate_sender_filter v = name_ok v"
| "value_ok Normalize_capabilities v = texts_ok v"
| "value_ok Normalize_tools v = texts_ok v"
| "value_ok Validate_depends_on v = texts_ok v"
| "value_ok Validate_event_types v =
     (case v of JList xs \<Rightarrow> list_all (word_ok EVENT_TYPES) xs | _ \<Rightarrow> False)"
| "value_ok Validate_bool v = is_bool v"
| "value_ok Validate_principal_type v = word_ok PRINCIPAL_TYPES v"
| "value_ok Validate_org_role v = word_ok ORG_ROLES v"
| "value_ok Validate_status v = word_ok STATUSES v"
| "value_ok Validate_task_state v = word_ok TASK_STATES v"
| "value_ok Validate_task_priority v = word_ok TASK_PRIORITIES v"
| "value_ok Validate_priority_filter v = word_ok TASK_PRIORITIES v"
| "value_ok Validate_limit v = (case v of JInt i \<Rightarrow> MIN_LIMIT \<le> i \<and> i \<le> MAX_LIMIT | _ \<Rightarrow> False)"
| "value_ok Validate_retention_days v = positive_ok v"
| "value_ok Validate_positive_seconds v = positive_ok v"
| "value_ok Validate_budget v = positive_ok v"
| "value_ok Validate_deadline v = True"
| "value_ok _ v = is_text v"

text \<open>The validators that answer \<open>None\<close> to \<open>None\<close>.\<close>

fun nullable :: "check \<Rightarrow> bool" where
  "nullable Validate_bool = False"
| "nullable Validate_limit = False"
| "nullable Validate_principal_type = False"
| "nullable Validate_task_priority = False"
| "nullable Validate_depends_on = False"
| "nullable Normalize_tools = False"
| "nullable c = True"

lemma jopt_Some [simp]: "jopt (Some s) = JStr s" "jopt None = JNull"
  by (simp_all add: jopt_def)

lemma jopt_int_Some [simp]: "jopt_int (Some i) = JInt i" "jopt_int None = JNull"
  by (simp_all add: jopt_int_def)

lemma map_sum_Inr: "map_sum f g x = Inr y \<longleftrightarrow> (\<exists>z. x = Inr z \<and> y = g z)"
  by (cases x) auto

lemma is_str_cases: "is_text v \<longleftrightarrow> (\<exists>s. v = JStr s)"
  by (cases v) simp_all

text \<open>A validator whose answer is a text or, to \<open>None\<close>, \<open>None\<close>.\<close>

lemma optional_answers:
  assumes "as_optional r = Inr v" and "\<And>x. r = Inr x \<Longrightarrow> x = None \<Longrightarrow> raw = JNull"
  shows "is_text v \<or> v = JNull \<and> raw = JNull"
  using assms by (cases r) (auto simp: jopt_def is_str_cases split: option.splits)

lemma texts_ok_list [simp]: "texts_ok (JList (map JStr xs))"
  by (simp add: texts_ok_def list_all_iff)

lemma one_of_ok: "one_of words m raw = Inr v \<Longrightarrow> word_ok words v"
  by (cases raw) (auto simp: one_of_def member_of_def word_ok_def split: if_splits)

lemma normalize_card_text_None: "normalize_card_text u raw f n = Inr x \<Longrightarrow> x = None \<Longrightarrow> raw = JNull"
  by (cases raw) (auto simp: map_sum_Inr)

lemma capability_filter_None: "validate_capability_filter u raw = Inr x \<Longrightarrow> x = None \<Longrightarrow> raw = JNull"
  by (cases "raw = JNull") (simp_all add: validate_capability_filter_def normalize_card_text_None)

lemma card_text_filter_None: "validate_card_text_filter u raw f = Inr x \<Longrightarrow> x = None \<Longrightarrow> raw = JNull"
  by (cases "raw = JNull") (simp_all add: validate_card_text_filter_def normalize_card_text_None)

lemma event_types_ok:
  assumes "validate_event_types raw = Inr v"
  shows "raw = JNull \<and> v = JNull \<or> value_ok Validate_event_types v"
proof (cases raw)
  case (JList xs)
  let ?unknown = "filter (\<lambda>x. \<not> (case x of JStr t \<Rightarrow> t \<in> set EVENT_TYPES | _ \<Rightarrow> False)) xs"
  have v: "list_all is_text xs" "v = JList xs" and none: "?unknown = [] \<or> \<not> is_text (hd ?unknown)"
    using assms by (auto simp: JList list_ex_iff list_all_iff split: if_splits list.splits json.splits)
  have "?unknown = []"
  proof (rule ccontr)
    assume "?unknown \<noteq> []"
    then have "hd ?unknown \<in> set xs" by (metis filter_is_subset hd_in_set subsetD)
    with v(1) none \<open>?unknown \<noteq> []\<close> show False by (simp add: list_all_iff)
  qed
  then have "list_all (word_ok EVENT_TYPES) xs"
    by (auto simp: filter_empty_conv list_all_iff word_ok_def split: json.splits)
  with v show ?thesis by simp
qed (use assms in auto)

lemma run_check_ok:
  assumes "run_check u c raw = Inr v" and "c = No_check \<Longrightarrow> raw = JNull \<or> is_text raw"
  shows "value_ok c v \<or> v = JNull \<and> raw = JNull \<and> nullable c"
proof (cases c)
  case Validate_event_types
  then show ?thesis using event_types_ok [of raw v] assms(1) by auto
next
  case (Normalize_card_text f n)
  then show ?thesis
    using optional_answers [of "normalize_card_text u raw f n" v raw, OF _ normalize_card_text_None] assms(1)
    by simp
next
  case Validate_capability_filter
  then show ?thesis
    using optional_answers [of "validate_capability_filter u raw" v raw, OF _ capability_filter_None] assms(1)
    by simp
next
  case (Validate_card_text_filter f)
  then show ?thesis
    using optional_answers [of "validate_card_text_filter u raw f" v raw, OF _ card_text_filter_None] assms(1)
    by simp
next
  case Normalize_business_reference
  then show ?thesis
    using assms(1) by (cases raw) (auto simp: map_sum_Inr)
next
  case Normalize_username
  then show ?thesis using assms(1) normalize_username_wf by (auto simp: map_sum_Inr name_ok_def)
next
  case Normalize_organization_name
  then show ?thesis using assms(1) normalize_organization_name_wf by (auto simp: map_sum_Inr name_ok_def)
next
  case Normalize_department_name
  then show ?thesis using assms(1) normalize_organization_name_wf
    by (auto simp: map_sum_Inr name_ok_def normalize_department_name_def)
next
  case Validate_sender_filter
  then show ?thesis using assms(1) normalize_username_wf
    by (auto simp: map_sum_Inr name_ok_def validate_sender_filter_def split: if_splits)
next
  case Validate_bool
  then show ?thesis using assms(1) by (cases raw) (auto simp: map_sum_Inr)
next
  case Validate_limit
  then show ?thesis using assms(1)
    by (cases raw) (auto simp: map_sum_Inr MIN_LIMIT_def MAX_LIMIT_def DEFAULT_LIMIT_def split: if_splits)
next
  case Validate_budget
  then show ?thesis using assms(1) by (cases raw) (auto simp: map_sum_Inr positive_ok_def split: if_splits)
next
  case Validate_retention_days
  then show ?thesis using assms(1)
    by (cases raw) (auto simp: map_sum_Inr validate_retention_days_def positive_ok_def exc_simps split: if_splits)
next
  case Validate_positive_seconds
  then show ?thesis using assms(1) by (cases raw) (auto simp: map_sum_Inr positive_ok_def split: if_splits)
next
  case Validate_principal_type
  then show ?thesis using assms(1)
    by (cases raw) (auto simp: map_sum_Inr word_ok_def PRINCIPAL_TYPES_def split: if_splits)
next
  case Validate_org_role
  then show ?thesis using assms(1) by (cases raw) (auto simp: map_sum_Inr word_ok_def split: if_splits)
next
  case Validate_status
  then show ?thesis using assms(1) by (auto simp: validate_status_def word_ok_def STATUSES_def split: if_splits)
next
  case Validate_task_state
  then show ?thesis using assms(1) one_of_ok by (auto simp: validate_task_state_def split: if_splits)
next
  case Validate_task_priority
  then show ?thesis using assms(1) one_of_ok
    by (auto simp: validate_task_priority_def word_ok_def TASK_PRIORITIES_def split: if_splits)
next
  case Validate_priority_filter
  then show ?thesis using assms(1) one_of_ok
    by (auto simp: validate_priority_filter_def validate_task_priority_def split: if_splits)
next
  case Validate_due_at
  then show ?thesis using assms(1) by (cases raw) (auto simp: map_sum_Inr split: if_splits)
next
  case Validate_optional_client_id
  then show ?thesis using assms(1)
    by (auto simp: map_sum_Inr validate_optional_client_id_def split: if_splits)
next
  case Validate_uuid_filter
  then show ?thesis using assms(1) by (auto simp: map_sum_Inr validate_uuid_filter_def split: if_splits)
next
  case Validate_command_name
  then show ?thesis using assms(1)
    by (cases raw) (auto simp: map_sum_Inr validate_command_name_def exc_simps split: if_splits)
next
  case Normalize_task_description
  then show ?thesis using assms(1) by (auto simp: map_sum_Inr normalize_task_description_def split: if_splits)
next
  case Normalize_task_result
  then show ?thesis using assms(1) by (auto simp: map_sum_Inr normalize_task_result_def split: if_splits)
next
  case Normalize_reason
  then show ?thesis using assms(1) by (auto simp: map_sum_Inr normalize_reason_def split: if_splits)
qed (use assms in \<open>auto simp: map_sum_Inr\<close>)

section \<open>The parameters of a validated request\<close>

definition param_ok :: "param_spec \<Rightarrow> string \<times> json \<Rightarrow> bool" where
  "param_ok p q = (case p of (name, type_, required, c) \<Rightarrow>
     fst q = name \<and> (value_ok c (snd q) \<or> snd q = JNull \<and> \<not> required \<and> nullable c))"

lemma validate_param_ok:
  assumes "validate_param u parameters p = Inr q"
    and "snd (snd (snd p)) = No_check \<Longrightarrow> fst (snd p) = PStr"
  shows "param_ok p q"
proof -
  obtain name t req c where p: "p = (name, t, req, c)" by (cases p)
  from assms(1) obtain raw v where q: "q = (name, v)" "run_check u c raw = Inr v"
    "raw = JNull \<longrightarrow> \<not> req" "raw \<noteq> JNull \<longrightarrow> has_type t raw"
    by (auto simp: validate_param_def p exc_simps split: if_splits)
  have "raw = JNull \<or> is_text raw" if "c = No_check"
    using q(4) assms(2) that by (cases raw) (auto simp: p)
  from run_check_ok [OF q(2) this] q show ?thesis by (auto simp: param_ok_def p)
qed

definition unchecked_text :: "command_spec \<Rightarrow> bool" where
  "unchecked_text s = list_all (\<lambda>p. snd (snd (snd p)) = No_check \<longrightarrow> fst (snd p) = PStr) (fst (snd s))"

lemmas specs_defs = ORGANIZATION_SPECS_def AGENT_SPECS_def CARD_SPECS_def TASK_SPECS_def
  SETTING_SPECS_def STRUCTURE_SPECS_def GROUP_SPECS_def OBSERVER_SPECS_def HUMAN_SPECS_def

lemma unchecked_texts: "list_all unchecked_text COMMAND_SPECS"
  by (simp add: COMMAND_SPECS_def specs_defs unchecked_text_def)

lemma validated_params:
  assumes "map_exc (validate_param u parameters) params = Inr validated"
    and "list_all (\<lambda>p. snd (snd (snd p)) = No_check \<longrightarrow> fst (snd p) = PStr) params"
  shows "list_all2 param_ok params validated"
  using assms
proof (induction params arbitrary: validated)
  case (Cons p params)
  then show ?case by (auto simp: exc_simps intro: validate_param_ok)
qed simp

section \<open>Well-formed requests\<close>

definition limit_ok :: "nat \<Rightarrow> bool" where
  "limit_ok l = (1 \<le> l \<and> l \<le> 100)"

fun org_command_ok :: "org_command \<Rightarrow> bool" where
  "org_command_ok (CreateAgent p) = wf_name (ca_username p)"
| "org_command_ok (DeactivateAgent u) = wf_name u"
| "org_command_ok (ReactivateAgent u) = wf_name u"
| "org_command_ok (ChangeAgentPassword u pw) = wf_name u"
| "org_command_ok (SetAgentVisibility u b) = wf_name u"
| "org_command_ok (GetOrgAgents l c) = limit_ok l"
| "org_command_ok (ChangeAgentDescription u x) = wf_name u"
| "org_command_ok (ApproveAgentCard u) = wf_name u"
| "org_command_ok (SetEscalationPolicy p) =
     (wf_name (es_to p) \<and> 1 \<le> es_due_after p \<and> 1 \<le> es_failed_after p)"
| "org_command_ok (SetAgentBudget u n m) =
     (wf_name u \<and> pred_option ((\<le>) 1) n \<and> pred_option ((\<le>) 1) m)"
| "org_command_ok (CreateDepartment x) = wf_name x"
| "org_command_ok (SetAgentDepartment u x r) = (wf_name u \<and> wf_name x)"
| "org_command_ok (GetOrgAudit p c) = (limit_ok (ga_limit p) \<and> pred_option wf_name (ga_actor p))"
| "org_command_ok (CreateObserverAccount p) = wf_name (ob_name p)"
| "org_command_ok (RevokeObserverAccount u) = wf_name u"
| "org_command_ok (SetEventRetentionDays n) = (1 \<le> n)"
| "org_command_ok _ = True"

fun human_command_ok :: "human_command \<Rightarrow> bool" where
  "human_command_ok (CreateOrg g pw) = wf_name g"
| "human_command_ok (DisableOrg g) = wf_name g"
| "human_command_ok (ListOrgConversations l c) = limit_ok l"
| "human_command_ok (GetOrgConversation i l c) = limit_ok l"

fun agent_command_ok :: "agent_command \<Rightarrow> bool" where
  "agent_command_ok (GetAgentDescription u) = wf_name u"
| "agent_command_ok (ListOrgAgents l c) = limit_ok l"
| "agent_command_ok (SendMessage p) = wf_name (sm_recipient p)"
| "agent_command_ok (GetMessages p c) = (limit_ok (gm_limit p) \<and> pred_option wf_name (gm_sender p))"
| "agent_command_ok (GetConversation u l c) = (wf_name u \<and> limit_ok l)"
| "agent_command_ok (GetNotifications l c) = limit_ok l"
| "agent_command_ok (GetAgentCard u) = wf_name u"
| "agent_command_ok (FindAgents p c) = limit_ok (fa_limit p)"
| "agent_command_ok (CreateTask p) = wf_name (ct_assignee p)"
| "agent_command_ok (ListTasks p c) = (limit_ok (lt_limit p) \<and> pred_option wf_name (lt_assignee p))"
| "agent_command_ok (TransferTask i u n) = wf_name u"
| "agent_command_ok (RequestApproval i u) = wf_name u"
| "agent_command_ok (GetMyWork l c) = limit_ok l"
| "agent_command_ok (GetEvents l t c) = limit_ok l"
| "agent_command_ok (ListDepartmentTasks x l c) = (wf_name x \<and> limit_ok l)"
| "agent_command_ok (AddGroupMember g u) = wf_name u"
| "agent_command_ok (RemoveGroupMember g u) = wf_name u"
| "agent_command_ok (GetGroupMessages g l c) = limit_ok l"
| "agent_command_ok (ListMyGroups l c) = limit_ok l"
| "agent_command_ok (GetAgentReputation u) = wf_name u"
| "agent_command_ok (CreateDelegation i u x) = wf_name u"
| "agent_command_ok (RevokeDelegation i u) = wf_name u"
| "agent_command_ok (GetMyDelegations l c) = limit_ok l"
| "agent_command_ok _ = True"

fun user_command_ok :: "user_command \<Rightarrow> bool" where
  "user_command_ok (ListOrgs b) = True"
| "user_command_ok (Humans c) = human_command_ok c"
| "user_command_ok (Agents c) = agent_command_ok c"

fun request_ok :: "request \<Rightarrow> bool" where
  "request_ok (OrgRequest name password c) = (wf_name name \<and> org_command_ok c)"
| "request_ok (UserRequest name password c) = user_command_ok c"

section \<open>Every validated request is handled\<close>

named_theorems forms \<open>the shape of a validated value\<close>

lemma name_form [forms]: "name_ok v \<longleftrightarrow> (\<exists>s. v = JStr s \<and> wf_name s)"
  by (cases v) (simp_all add: name_ok_def)

lemma str_form [forms]: "is_text v \<longleftrightarrow> (\<exists>s. v = JStr s)"
  by (cases v) simp_all

lemma bool_form [forms]: "is_bool v \<longleftrightarrow> (\<exists>b. v = JBool b)"
  by (cases v) simp_all

lemma word_form [forms]: "word_ok words v \<longleftrightarrow> (\<exists>s. v = JStr s \<and> s \<in> set words)"
  by (cases v) (simp_all add: word_ok_def)

lemma positive_form [forms]: "positive_ok v \<longleftrightarrow> (\<exists>i. v = JInt i \<and> 1 \<le> i)"
  by (cases v) (simp_all add: positive_ok_def)

lemma texts_form [forms]: "texts_ok v \<longleftrightarrow> (\<exists>ts. v = JList (map JStr ts))"
proof (cases v)
  case (JList xs)
  have "list_all is_text xs \<longleftrightarrow> (\<exists>ts. xs = map JStr ts)"
    by (induction xs) (auto simp: str_form Cons_eq_map_conv)
  then show ?thesis by (simp add: JList texts_ok_def)
qed (simp_all add: texts_ok_def)

lemma limit_form [forms]:
  "value_ok Validate_limit v \<longleftrightarrow> (\<exists>i. v = JInt i \<and> 1 \<le> i \<and> i \<le> 100)"
  by (cases v) (auto simp: MIN_LIMIT_def MAX_LIMIT_def)

definition opt_ok :: "check \<Rightarrow> json \<Rightarrow> bool" where
  "opt_ok c v = (value_ok c v \<or> v = JNull)"

lemma opt_text_form [forms]:
  "(\<And>j. value_ok c j = is_text j) \<Longrightarrow> opt_ok c v \<longleftrightarrow> (\<exists>x. v = jopt x)"
  by (cases v) (auto simp: opt_ok_def jopt_def split: option.splits intro: exI [of _ None])

lemma opt_name_form [forms]:
  "(\<And>j. value_ok c j = name_ok j) \<Longrightarrow> opt_ok c v \<longleftrightarrow> (\<exists>x. v = jopt x \<and> pred_option wf_name x)"
  by (cases v) (auto simp: opt_ok_def name_ok_def jopt_def split: option.splits intro: exI [of _ None])

lemma opt_word_form:
  "(\<And>j. value_ok c j = word_ok words j) \<Longrightarrow>
     opt_ok c v \<longleftrightarrow> (\<exists>x. v = jopt x \<and> pred_option (\<lambda>s. s \<in> set words) x)"
  by (cases v) (auto simp: opt_ok_def word_ok_def jopt_def split: option.splits intro: exI [of _ None])

lemmas opt_words [forms] = opt_word_form [OF value_ok.simps(12)] opt_word_form [OF value_ok.simps(13)]
  opt_word_form [OF value_ok.simps(15)]

lemma opt_positive_form [forms]:
  "(\<And>j. value_ok c j = positive_ok j) \<Longrightarrow>
     opt_ok c v \<longleftrightarrow> (\<exists>x. v = jopt_int x \<and> pred_option ((\<le>) 1) x)"
  by (cases v) (auto simp: opt_ok_def positive_ok_def jopt_int_def split: option.splits intro: exI [of _ None])

named_theorems readings \<open>what the handlers read of a validated value\<close>

lemma opt_text_value_jopt [readings]: "opt_text_value (jopt x) = Inr x"
  by (cases x) simp_all

lemma opt_int_value_jopt [readings]: "opt_int_value (jopt_int x) = Inr x"
  by (cases x) simp_all

lemma texts_value_texts [readings]: "texts_value (JList (map JStr ts)) = Inr ts"
  by (induction ts) simp_all

lemma word_iff: "set known = fst ` set words \<Longrightarrow> s \<in> set known \<longleftrightarrow> (\<exists>x. word words s = Inr x)"
  using dom_map_of_conv_image_fst [of words] by (auto simp: word_def exc_simps dom_def)

lemma opt_word_iff [forms]:
  "pred_option (\<lambda>s. \<exists>x. word words s = Inr x) x \<longleftrightarrow> (\<exists>y. opt_word words x = Inr y)"
  by (cases x) (auto simp: opt_word_def map_sum_Inr)

lemma states_known: "set TASK_STATES = fst ` set STATE_WORDS"
  by (auto simp: TASK_STATES_def STATE_WORDS_def)

lemma priorities_known: "set TASK_PRIORITIES = fst ` set PRIORITY_WORDS"
  by (auto simp: TASK_PRIORITIES_def PRIORITY_WORDS_def)

lemma roles_known: "set ORG_ROLES = fst ` set ROLE_WORDS"
  by (auto simp: ORG_ROLES_def ROLE_WORDS_def)

lemma principals_known: "set PRINCIPAL_TYPES = fst ` set PRINCIPAL_WORDS"
  by (auto simp: PRINCIPAL_TYPES_def PRINCIPAL_WORDS_def)

lemma statuses_known: "set STATUSES = fst ` set STATUS_WORDS"
  by (auto simp: STATUSES_def STATUS_WORDS_def)

lemma events_known: "set EVENT_TYPES = fst ` set EVENT_WORDS"
  by (auto simp: EVENT_TYPES_def EVENT_WORDS_def)

lemma opt_event_types_ex:
  assumes "opt_ok Validate_event_types v"
  shows "\<exists>x. opt_event_types_value v = Inr x"
proof (cases "v = JNull")
  case False
  with assms obtain xs where v: "v = JList xs" "list_all (word_ok EVENT_TYPES) xs"
    by (cases v) (auto simp: opt_ok_def)
  then obtain ts where ts: "texts_value v = Inr ts" "set ts \<subseteq> set EVENT_TYPES"
  proof -
    from v(2) have "\<exists>ts. map_exc text_value xs = Inr ts \<and> set ts \<subseteq> set EVENT_TYPES"
      by (induction xs) (auto simp: word_form)
    with that v(1) show thesis by auto
  qed
  from ts(2) have "\<exists>ys. map_exc (word EVENT_WORDS) ts = Inr ys"
  proof (induction ts)
    case (Cons t ts)
    then show ?case using word_iff [OF events_known, of t] by auto
  qed simp
  with ts(1) v(1) show ?thesis by auto
qed simp

definition handled :: "unicode \<Rightarrow> command_spec \<Rightarrow> bool" where
  "handled u s = (case s of (c, params, org) \<Rightarrow>
     \<forall>p. list_all2 param_ok params p \<longrightarrow> (\<exists>r. build_request u c org p = Inr r \<and> request_ok r))"

lemma param_ok_required: "param_ok (n, t, True, c) z \<longleftrightarrow> (\<exists>v. z = (n, v) \<and> value_ok c v)"
  by (cases z) (auto simp: param_ok_def opt_ok_def)

lemma param_ok_optional: "nullable c \<Longrightarrow>
    param_ok (n, t, False, c) z \<longleftrightarrow> (\<exists>v. z = (n, v) \<and> opt_ok c v)"
  by (cases z) (auto simp: param_ok_def opt_ok_def)

lemma param_ok_filled: "\<not> nullable c \<Longrightarrow>
    param_ok (n, t, False, c) z \<longleftrightarrow> (\<exists>v. z = (n, v) \<and> value_ok c v)"
  by (cases z) (auto simp: param_ok_def opt_ok_def)

lemma text_values [readings]: "map_exc text_value (map JStr ts) = Inr ts"
  by (induction ts) simp_all

lemma limit_nat [readings]: "1 \<le> i \<Longrightarrow> i \<le> 100 \<Longrightarrow> limit_ok (nat i)"
  by (auto simp: limit_ok_def)

lemmas word_iffs [forms] = word_iff [OF roles_known] word_iff [OF principals_known]
  word_iff [OF states_known] word_iff [OF priorities_known] word_iff [OF statuses_known]

lemma event_types_form [forms]:
  "opt_ok Validate_event_types v \<longleftrightarrow> (\<exists>x. opt_event_types_value v = Inr x)"
proof
  assume "\<exists>x. opt_event_types_value v = Inr x"
  moreover have "map_exc text_value xs = Inr ts \<Longrightarrow> map_exc (word EVENT_WORDS) ts = Inr ys
      \<Longrightarrow> list_all (word_ok EVENT_TYPES) xs" for xs ts ys
  proof (induction xs arbitrary: ts ys)
    case (Cons v xs)
    from Cons.prems obtain t ts' where t: "v = JStr t" "ts = t # ts'" "map_exc text_value xs = Inr ts'"
      by (cases v) (auto simp: exc_simps)
    with Cons.prems obtain y ys' where y: "word EVENT_WORDS t = Inr y" "map_exc (word EVENT_WORDS) ts' = Inr ys'"
      by (auto simp: exc_simps)
    with Cons.IH [OF t(3)] t(1) word_iff [OF events_known, of t] show ?case by (auto simp: word_ok_def)
  qed simp
  ultimately show "opt_ok Validate_event_types v"
    by (cases v) (auto simp: opt_ok_def exc_simps map_sum_Inr)
qed (rule opt_event_types_ex)

lemmas tables = build_request_def user_command_of_def ORG_HANDLERS_def HUMAN_HANDLERS_def AGENT_HANDLERS_def

lemmas read_params = readings param_def text_param_def opt_text_param_def flag_param_def int_param_def
  opt_int_param_def texts_param_def limit_param_def word_param_def opt_word_param_def arg_def

lemmas param_forms = list_all2_Cons1 param_ok_required param_ok_optional param_ok_filled forms

declare value_ok.simps(8, 16) [simp del]


end
