(* ===== verification/RequestHandling.thy ===== *)
theory RequestHandling
  imports RequestTypes
begin

text \<open>
  Each command of the table meets its handler: the parameters that passed the validators of the
  table are read by the handler of that name, and the request they make is well formed. Then
  which errors the validation of a request can answer.
\<close>

section \<open>Command by command\<close>

lemma handled_organization: "list_all (handled u) ORGANIZATION_SPECS"
  apply (simp only: ORGANIZATION_SPECS_def list.pred_inject handled_def prod.case)
  apply (intro conjI TrueI allI impI; simp only: tables map_of.simps if_True if_False fst_conv snd_conv;
      simp; simp add: param_forms; elim exE conjE; simp add: read_params)
  done

lemma handled_agent: "list_all (handled u) AGENT_SPECS"
  apply (simp only: AGENT_SPECS_def list.pred_inject handled_def prod.case)
  apply (intro conjI TrueI allI impI; simp only: tables map_of.simps if_True if_False fst_conv snd_conv;
      simp; simp add: param_forms; elim exE conjE; simp add: read_params)
  done

lemma handled_card: "list_all (handled u) CARD_SPECS"
  apply (simp only: CARD_SPECS_def list.pred_inject handled_def prod.case)
  apply (intro conjI TrueI allI impI; simp only: tables map_of.simps if_True if_False fst_conv snd_conv;
      simp; simp add: param_forms; elim exE conjE; simp add: read_params)
  done

lemma handled_task: "list_all (handled u) TASK_SPECS"
  apply (simp only: TASK_SPECS_def list.pred_inject handled_def prod.case)
  apply (intro conjI TrueI allI impI; simp only: tables map_of.simps if_True if_False fst_conv snd_conv;
      simp; simp add: param_forms; elim exE conjE; simp add: read_params)
  done

lemma handled_setting: "list_all (handled u) SETTING_SPECS"
  apply (simp only: SETTING_SPECS_def list.pred_inject handled_def prod.case)
  apply (intro conjI TrueI allI impI; simp only: tables map_of.simps if_True if_False fst_conv snd_conv;
      simp; simp add: param_forms; elim exE conjE; simp add: read_params)
  done

lemma handled_structure: "list_all (handled u) STRUCTURE_SPECS"
  apply (simp only: STRUCTURE_SPECS_def list.pred_inject handled_def prod.case)
  apply (intro conjI TrueI allI impI; simp only: tables map_of.simps if_True if_False fst_conv snd_conv;
      simp; simp add: param_forms; elim exE conjE; simp add: read_params)
  done

lemma handled_group: "list_all (handled u) GROUP_SPECS"
  apply (simp only: GROUP_SPECS_def list.pred_inject handled_def prod.case)
  apply (intro conjI TrueI allI impI; simp only: tables map_of.simps if_True if_False fst_conv snd_conv;
      simp; simp add: param_forms; elim exE conjE; simp add: read_params)
  done

lemma handled_observer: "list_all (handled u) OBSERVER_SPECS"
  apply (simp only: OBSERVER_SPECS_def list.pred_inject handled_def prod.case)
  apply (intro conjI TrueI allI impI; simp only: tables map_of.simps if_True if_False fst_conv snd_conv;
      simp; simp add: param_forms; elim exE conjE; simp add: read_params)
  done

lemma handled_human: "list_all (handled u) HUMAN_SPECS"
  apply (simp only: HUMAN_SPECS_def list.pred_inject handled_def prod.case)
  apply (intro conjI TrueI allI impI; simp only: tables map_of.simps if_True if_False fst_conv snd_conv;
      simp; simp add: param_forms; elim exE conjE; simp add: read_params)
  done

lemma all_handled: "list_all (handled u) COMMAND_SPECS"
  by (simp add: COMMAND_SPECS_def handled_organization handled_agent handled_card handled_task
      handled_setting handled_structure handled_group handled_observer handled_human)

lemma envelope_params:
  assumes "validate_envelope u j = Inr (c, p)"
  obtains params org where "map_of COMMAND_SPECS c = Some (params, org)" "list_all2 param_ok params p"
proof -
  from assms obtain params org parameters where m: "map_of COMMAND_SPECS c = Some (params, org)"
    and v: "map_exc (validate_param u parameters) params = Inr p"
    by (auto simp: validate_envelope_def exc_simps split: json.splits if_splits option.splits prod.splits)
  from map_of_SomeD [OF m] unchecked_texts
  have "list_all (\<lambda>p. snd (snd (snd p)) = No_check \<longrightarrow> fst (snd p) = PStr) params"
    by (fastforce simp: list_all_iff unchecked_text_def)
  from validated_params [OF v this] m show thesis by (rule that [rotated])
qed

lemma validated_is_handled:
  assumes "validate_envelope u j = Inr (c, p)"
  shows "\<exists>r. request_of u c p = Inr r \<and> request_ok r"
  using assms
proof (cases rule: envelope_params)
  case (1 params org)
  then have "handled u (c, params, org)"
    using all_handled [of u] map_of_SomeD by (fastforce simp: list_all_iff)
  with 1 show ?thesis by (simp add: handled_def request_of_def)
qed

text \<open>
  C23. A request that passed validation is read by its handler: no parameter is missing or of the
  wrong type, every name in it is well formed and every limit is between 1 and 100.
\<close>

theorem validated_requests_are_handled:
  assumes "validate_envelope u j = Inr (c, p)"
  shows "\<exists>r. request_of u c p = Inr r \<and> request_ok r"
  using assms by (rule validated_is_handled)

definition sample_envelope :: json where
  "sample_envelope = JObj [(''command'', JStr ''deactivate_agent''), (''api_version'', JStr ''v2''),
     (''parameters'', JObj [(''organization_name_auth'', JStr ''Acme''),
        (''organization_password_auth'', JStr ''secret''), (''username'', JStr ''Bob'')])]"

lemma sample_envelope_valid:
  "validate_envelope ascii_unicode sample_envelope = Inr (''deactivate_agent'',
     [(''username'', JStr ''bob''), (''organization_name_auth'', JStr ''acme''),
      (''organization_password_auth'', JStr ''secret'')])"
  by code_simp

theorem validated_requests_are_handled_witness:
  "\<exists>r. request_of ascii_unicode ''deactivate_agent''
     [(''username'', JStr ''bob''), (''organization_name_auth'', JStr ''acme''),
      (''organization_password_auth'', JStr ''secret'')] = Inr r \<and> request_ok r"
  by (rule validated_requests_are_handled [OF sample_envelope_valid])

section \<open>The errors of validation\<close>

definition refusal :: "exc \<Rightarrow> bool" where
  "refusal err = (\<exists>m. err = ApiError INVALID_ARGUMENT m \<or> err = ApiError UNKNOWN_COMMAND m)"

named_theorems refusals \<open>the validators that only refuse\<close>

lemma refusal_simps [simp]: "refusal (ApiError INVALID_ARGUMENT m)" "refusal (ApiError UNKNOWN_COMMAND m)"
  "\<not> refusal AssertionError" "\<not> refusal KeyError" "\<not> refusal TypeError"
  by (simp_all add: refusal_def)

lemma invalid_refuses [refusals]: "invalid m = Inl err \<Longrightarrow> refusal err"
  by (auto simp: invalid_def)

lemma map_sum_Inl: "map_sum id g x = Inl err \<longleftrightarrow> x = Inl err"
  by (cases x) auto

lemma normalize_username_refuses [refusals]: "normalize_username j = Inl err \<Longrightarrow> refusal err"
  by (cases j) (auto simp: invalid_def Let_def split: if_splits)

lemma normalize_organization_name_refuses [refusals]: "normalize_organization_name j = Inl err \<Longrightarrow> refusal err"
  by (cases j) (auto simp: invalid_def Let_def split: if_splits)

lemma clean_text_refuses [refusals]: "clean_text u lo hi m c s = Inl err \<Longrightarrow> refusal err"
  by (auto simp: clean_text_def reject_surrogates_def invalid_def Let_def split: if_splits)

lemma normalize_task_text_refuses [refusals]: "normalize_task_text u j f lo hi = Inl err \<Longrightarrow> refusal err"
  by (cases j) (auto simp: invalid_def dest: clean_text_refuses)

lemma normalize_card_text_refuses [refusals]: "normalize_card_text u j f hi = Inl err \<Longrightarrow> refusal err"
  by (cases j) (auto simp: invalid_def map_sum_Inl dest: clean_text_refuses)

lemma normalize_uuid_refuses [refusals]: "normalize_uuid j f = Inl err \<Longrightarrow> refusal err"
  by (cases j) (auto simp: invalid_def Let_def split: if_splits)

lemma validate_client_message_id_refuses [refusals]: "validate_client_message_id j = Inl err \<Longrightarrow> refusal err"
  by (cases j) (auto simp: invalid_def Let_def split: if_splits)

lemma validate_budget_refuses [refusals]: "validate_budget j = Inl err \<Longrightarrow> refusal err"
  by (cases j) (auto simp: invalid_def split: if_splits)

lemma validate_hlc_refuses [refusals]: "validate_hlc j = Inl err \<Longrightarrow> refusal err"
  by (cases j) (auto simp: invalid_def split: if_splits)

lemma ensure_exact_keys_refuses [refusals]: "ensure_exact_keys m a l = Inl err \<Longrightarrow> refusal err"
  by (auto simp: ensure_exact_keys_def Let_def invalid_def split: if_splits)

lemma keep_first_error:
  "keep_first f key seen xs = Inl err \<Longrightarrow> \<exists>x \<in> set xs. f x = Inl err"
  by (induction xs arbitrary: seen) (auto simp: exc_simps split: if_splits)

lemma card_element_error: "card_element u f x = Inl err \<Longrightarrow> refusal err \<or> err = AssertionError \<and> x = JNull"
  by (cases x) (auto simp: card_element_def exc_simps map_sum_Inr map_sum_Inl
      dest: clean_text_refuses invalid_refuses)

text \<open>What the table promises of the validators that only some types suit.\<close>

fun suits :: "check \<Rightarrow> json_type \<Rightarrow> bool \<Rightarrow> bool" where
  "suits Validate_task_state t required = (t = PStr)"
| "suits Validate_task_priority t required = (t = PStr)"
| "suits Validate_priority_filter t required = (t = PStr)"
| "suits Validate_command_name t required = (t = PStr)"
| "suits Normalize_group_name t required = required"
| "suits _ _ _ = True"

lemma table_suits:
  "list_all (\<lambda>s. list_all (\<lambda>(n, t, required, c). suits c t required) (fst (snd s))) COMMAND_SPECS"
  by (simp add: COMMAND_SPECS_def specs_defs)

lemma one_of_refuses: "one_of words m (JStr s) = Inl err \<Longrightarrow> refusal err"
  by (auto simp: one_of_def member_of_def split: if_splits dest: invalid_refuses)

lemma has_type_PStr: "has_type PStr raw \<longleftrightarrow> (\<exists>s. raw = JStr s)"
  by (cases raw) simp_all

lemma list_elements_refuse:
  assumes "keep_first (card_element u f) key seen xs = Inl err"
  shows "refusal err \<or> err = AssertionError \<and> JNull \<in> set xs"
  using keep_first_error [OF assms] card_element_error by blast

lemma run_check_refuses:
  assumes e: "run_check u c raw = Inl err" and t: "raw = JNull \<and> \<not> required \<or> raw \<noteq> JNull \<and> has_type t raw"
    and s: "suits c t required"
  shows "refusal err \<or> err = AssertionError \<and> (\<exists>xs. raw = JList xs \<and> JNull \<in> set xs)"
proof (cases c)
  case Normalize_capabilities
  with e have "normalize_capabilities u raw = Inl err" by (simp add: map_sum_Inl)
  then show ?thesis
    by (cases raw) (auto split: if_splits dest: invalid_refuses list_elements_refuse)
next
  case Normalize_tools
  with e have "normalize_tools u raw = Inl err" by (simp add: map_sum_Inl)
  then show ?thesis
    by (cases raw) (auto split: if_splits dest: invalid_refuses list_elements_refuse)
next
  case Validate_task_state
  with e t s show ?thesis
    by (auto simp: validate_task_state_def has_type_PStr split: if_splits dest: one_of_refuses)
next
  case Validate_task_priority
  with e t s show ?thesis
    by (auto simp: validate_task_priority_def has_type_PStr split: if_splits dest: one_of_refuses)
next
  case Validate_priority_filter
  with e t s show ?thesis
    by (auto simp: validate_priority_filter_def validate_task_priority_def has_type_PStr split: if_splits
        dest: one_of_refuses)
next
  case Validate_command_name
  with e t s show ?thesis
    by (auto simp: validate_command_name_def has_type_PStr member_of_def map_sum_Inl split: if_splits)
next
  case Normalize_group_name
  with e t s have "raw \<noteq> JNull" "normalize_group_name u raw = Inl err" by (auto simp: map_sum_Inl)
  then show ?thesis
    by (auto simp: normalize_group_name_def exc_simps dest: normalize_card_text_refuses normalize_card_text_None)
next
  case Validate_deadline
  with e have "validate_deadline raw = Inl err" by simp
  then show ?thesis
    by (cases raw) (auto simp: exc_simps Let_def split: option.splits json.splits if_splits
        dest: invalid_refuses ensure_exact_keys_refuses validate_hlc_refuses)
next
  case Validate_event_types
  with e have "validate_event_types raw = Inl err" by simp
  then show ?thesis
    by (cases raw) (auto split: if_splits list.splits json.splits dest: invalid_refuses)
next
  case Validate_depends_on
  with e have "validate_depends_on raw = Inl err" by (simp add: map_sum_Inl)
  then show ?thesis
    by (cases raw) (auto split: if_splits dest: invalid_refuses keep_first_error normalize_uuid_refuses)
next
  case Validate_limit
  with e show ?thesis by (cases raw) (auto simp: map_sum_Inl split: if_splits dest: invalid_refuses)
next
  case Validate_positive_seconds
  with e show ?thesis by (cases raw) (auto simp: map_sum_Inl split: if_splits dest: invalid_refuses)
next
  case Validate_retention_days
  with e show ?thesis
    by (auto simp: map_sum_Inl validate_retention_days_def exc_simps split: option.splits if_splits
        dest: invalid_refuses validate_budget_refuses)
next
  case Validate_bool
  with e show ?thesis by (cases raw) (auto simp: map_sum_Inl dest: invalid_refuses)
next
  case Validate_password
  with e show ?thesis by (cases raw) (auto simp: map_sum_Inl Let_def split: if_splits dest: invalid_refuses)
next
  case Validate_principal_type
  with e show ?thesis by (cases raw) (auto simp: map_sum_Inl split: if_splits dest: invalid_refuses)
next
  case Validate_org_role
  with e show ?thesis by (cases raw) (auto simp: map_sum_Inl split: if_splits dest: invalid_refuses)
next
  case Validate_due_at
  with e show ?thesis by (cases raw) (auto simp: map_sum_Inl split: if_splits dest: invalid_refuses)
next
  case Normalize_content
  with e show ?thesis by (cases raw) (auto simp: map_sum_Inl dest: invalid_refuses clean_text_refuses)
next
  case Normalize_description
  with e show ?thesis by (cases raw) (auto simp: map_sum_Inl dest: invalid_refuses clean_text_refuses)
next
  case Normalize_business_reference
  with e show ?thesis by (cases raw) (auto simp: map_sum_Inl dest: invalid_refuses clean_text_refuses)
qed (use e in \<open>auto simp: map_sum_Inl normalize_department_name_def normalize_task_title_def
    normalize_task_description_def normalize_task_result_def normalize_reason_def
    validate_optional_client_id_def validate_status_def validate_sender_filter_def validate_uuid_filter_def
    validate_capability_filter_def validate_card_text_filter_def split: if_splits dest: refusals\<close>)

lemma validate_param_refuses:
  assumes "validate_param u parameters p = Inl err" and "fst p \<in> fst ` set parameters"
    and "suits (snd (snd (snd p))) (fst (snd p)) (fst (snd (snd p)))"
  shows "refusal err \<or> err = AssertionError"
proof -
  obtain name t req c where p: "p = (name, t, req, c)" by (cases p)
  obtain raw where raw: "map_of parameters name = Some raw"
    using assms(2) by (cases "map_of parameters name") (auto simp: p map_of_eq_None_iff)
  show ?thesis
  proof (cases "raw = JNull \<and> req \<or> raw \<noteq> JNull \<and> \<not> has_type t raw")
    case True
    with assms(1) raw show ?thesis
      by (auto simp: validate_param_def p split: if_splits dest: invalid_refuses)
  next
    case False
    with assms(1) raw have "run_check u c raw = Inl err"
      by (auto simp: validate_param_def p exc_simps split: if_splits)
    with False assms(3) run_check_refuses [of u c raw err req t] show ?thesis by (auto simp: p)
  qed
qed

lemma map_exc_Inl: "map_exc f xs = Inl err \<Longrightarrow> \<exists>x \<in> set xs. f x = Inl err"
  by (induction xs) (auto simp: exc_simps)

lemma exact_keys: "ensure_exact_keys m allowed l = Inr x \<Longrightarrow> fst ` set m = set allowed"
  by (auto simp: ensure_exact_keys_def Let_def filter_empty_conv split: if_splits)

lemma validate_envelope_refuses:
  assumes "validate_envelope u j = Inl err"
  shows "refusal err \<or> err = AssertionError"
proof -
  have params: "refusal err \<or> err = AssertionError"
    if m: "map_of COMMAND_SPECS c = Some (params, org)"
      and keys: "ensure_exact_keys parameters (sort (map fst params)) l = Inr x"
      and e: "map_exc (validate_param u parameters) params = Inl err" for c params org parameters l x
  proof -
    from map_exc_Inl [OF e] obtain p where p: "p \<in> set params" "validate_param u parameters p = Inl err"
      by blast
    moreover have "fst p \<in> fst ` set parameters" using exact_keys [OF keys] p(1) by auto
    moreover have "suits (snd (snd (snd p))) (fst (snd p)) (fst (snd (snd p)))"
      using map_of_SomeD [OF m] table_suits p(1) by (fastforce simp: list_all_iff)
    ultimately show ?thesis using validate_param_refuses by blast
  qed
  from assms show ?thesis
    by (auto simp: validate_envelope_def exc_simps split: json.splits if_splits option.splits prod.splits
        dest: invalid_refuses ensure_exact_keys_refuses params)
qed

text \<open>
  A request refused before its dispatch is answered \<open>INVALID_ARGUMENT\<close> or
  \<open>UNKNOWN_COMMAND\<close>; the only other error its validation can raise is the failed assertion on a
  null among the capabilities or the tools of a card.
\<close>

theorem refused_requests_say_so:
  assumes "decode_request u too_nested raw = Inl err"
  shows "reply_code err \<in> {INVALID_ARGUMENT, UNKNOWN_COMMAND} \<or> err = AssertionError"
proof -
  have "refusal err \<or> err = AssertionError"
  proof (cases "parse_json_request too_nested raw")
    case (Inl e)
    with assms show ?thesis
      by (auto simp: decode_request_def parse_json_request_def split: if_splits option.splits
          dest: invalid_refuses)
  next
    case (Inr j)
    with assms validated_is_handled [of u j] show ?thesis
      by (auto simp: decode_request_def exc_simps dest: validate_envelope_refuses)
  qed
  then show ?thesis by (auto simp: refusal_def)
qed

lemma refused_requests_say_so_witness:
  "reply_code (ApiError INVALID_ARGUMENT (Custom ''Invalid JSON request'')) \<in> {INVALID_ARGUMENT, UNKNOWN_COMMAND}
   \<or> ApiError INVALID_ARGUMENT (Custom ''Invalid JSON request'') = AssertionError"
proof (rule refused_requests_say_so)
  show "decode_request ascii_unicode (\<lambda>_. False) [] =
      Inl (ApiError INVALID_ARGUMENT (Custom ''Invalid JSON request''))"
    by (simp add: decode_request_def parse_json_request_def is_utf8_def scan_text_def skip_ws_def invalid_def)
qed

end
