(* ===== verification/ValidationProperties.thy ===== *)
theory ValidationProperties
  imports RequestHandling
begin

text \<open>
  The properties of the validators and of the cursors: what a normalization does twice it does
  once, what an identifier is, what a card with a null answers, and the way a cursor goes to the
  caller and back.
\<close>

section \<open>Normalization\<close>

text \<open>
  Normalizing twice is normalizing once: a text that \<open>normalize_content\<close> accepted is
  accepted again and left as it is.
\<close>

theorem normalized_content_is_fixed:
  assumes "nfc_law u" and "points_law u" and "normalize_content u raw = Inr v"
  shows "normalize_content u (JStr v) = Inr v"
proof -
  from assms(3) obtain s where raw: "raw = JStr s" by (cases raw) auto
  with assms(3) clean_text_idem [OF assms(1,2)] show ?thesis by simp
qed

lemma ascii_content: "normalize_content ascii_unicode (JStr ''  hi '') = Inr ''hi''"
proof -
  have points: "code_points ''  hi '' = [32, 32, 104, 105, 32]"
    by (subst code_points_ascii) simp_all
  have chars: "char_of (104 :: nat) = CHR ''h''" "char_of (105 :: nat) = CHR ''i''" by code_simp+
  show ?thesis
    by (simp add: clean_text_def reject_surrogates_def points ascii_unicode_def surrogate_def strip_def
        is_space_def MIN_CONTENT_LEN_def MAX_CONTENT_LEN_def ascii_category_def utf8_text_def utf8_def chars
        del: code_points.simps)
qed

theorem normalized_content_is_fixed_witness: "normalize_content ascii_unicode (JStr ''hi'') = Inr ''hi''"
  by (rule normalized_content_is_fixed [OF ascii_unicode_laws ascii_content])

text \<open>
  C24. \<open>normalize_uuid\<close>, which goes through the 128-bit integer of \<open>uuid.UUID\<close>, accepts exactly
  the texts in the form of a version 4 identifier of the RFC variant, and answers them in lower
  case.
\<close>

theorem uuid_is_lower_case_text:
  "normalize_uuid (JStr s) field =
     (if uuid4_text (code_points s) then Inr (lower s)
      else Inl (ApiError INVALID_ARGUMENT (Custom (field @ '' must be a valid UUIDv4''))))"
  by (simp only: normalize_uuid_eq invalid_def)

text \<open>
  A list of capabilities whose first element is null passes every check of its type and
  fails an assertion: the reply is an internal error, not an invalid argument.
\<close>

theorem null_capability_is_internal_error:
  assumes "length xs < 50" and "\<not> list_ex is_bool xs"
  shows "error_code (run_check u Normalize_capabilities (JList (JNull # xs))) = Some INTERNAL_ERROR"
  using assms by (simp add: MIN_CAPABILITIES_def MAX_CAPABILITIES_def card_element_def)

theorem null_capability_is_internal_error_witness:
  "error_code (run_check ascii_unicode Normalize_capabilities (JList [JNull])) = Some INTERNAL_ERROR"
  by (rule null_capability_is_internal_error) simp_all

text \<open>
  \<open>str.strip\<close> also removes the separators \<open>0x1C\<close> to \<open>0x1F\<close>, control characters that are not
  white space to Unicode: at an end of a text they are removed, inside it they are refused.
\<close>

lemma separators_are_stripped:
  assumes "28 \<le> c" and "c \<le> 31" and "nfc u (c # code_points s) = c # nfc u (code_points s)"
  shows "clean_text u lo hi m k (char_of c # s) = clean_text u lo hi m k s \<and> \<not> white_space c"
proof -
  have "code_points (char_of c # s) = c # code_points s" using assms(1,2) by (simp add: point_ascii)
  moreover have "strip (c # t) = strip t" for t using assms(1,2) by (simp add: strip_def is_space_def)
  ultimately show ?thesis using assms
    by (simp add: clean_text_def reject_surrogates_def surrogate_def white_space_def is_space_def
        del: code_points.simps)
qed

section \<open>Cursors\<close>

text \<open>
  C25. The cursor a page gives out takes the same request of the same caller back to its position
  and to the instant of the first page.
\<close>

theorem cursor_round_trip:
  assumes "json_ok filters" and "position \<noteq> []"
  shows "pagination mac key at (Some (next_cursor mac key user command order filters boundary position))
    user command order filters = Inr (Some position, boundary)"
  using assms by (rule pagination_next_cursor)

theorem cursor_round_trip_witness:
  "pagination (\<lambda>k b. k @ b) ''k'' ''now''
     (Some (next_cursor (\<lambda>k b. k @ b) ''k'' ''alice'' ''get_messages'' SORT_DESC (JObj []) ''then'' [''a'', ''b'']))
     ''alice'' ''get_messages'' SORT_DESC (JObj []) = Inr (Some [''a'', ''b''], ''then'')"
  by (rule cursor_round_trip) simp_all

text \<open>
  A cursor that is accepted carries the signature of the service's key over its body: without
  the key no position or boundary can be made up.
\<close>

theorem accepted_cursors_are_signed:
  assumes "pagination mac key at (Some cursor) user command order filters = Inr r"
  shows "\<exists>body sig. cursor = body @ ''.'' @ sig \<and> unb64url sig = Inr (mac key body)"
proof -
  from assms obtain payload where "decode_cursor mac key cursor = Inr payload"
    by (auto simp: pagination_def exc_simps)
  from decode_cursor_signed [OF this] show ?thesis by blast
qed

theorem accepted_cursors_are_signed_witness:
  "\<exists>body sig. next_cursor (\<lambda>k b. k @ b) ''k'' ''alice'' ''get_messages'' SORT_DESC (JObj []) ''then'' [''a'']
     = body @ ''.'' @ sig \<and> unb64url sig = Inr (''k'' @ body)"
  by (rule accepted_cursors_are_signed [OF pagination_next_cursor]) simp_all

end
