(* ===== verification/JsonLoads.thy ===== *)
theory JsonLoads
  imports Unicode
begin

text \<open>
  \<open>json.loads(raw.decode("utf-8"))\<close> with its exceptions: the bytes are not UTF-8, the text is not
  JSON, an integer has too many digits (a \<open>ValueError\<close> that is not a \<open>JSONDecodeError\<close>), or the
  values are nested too deeply. The depth at which the interpreter gives up is its own:
  \<open>too_nested\<close> is a parameter. A text with several faults counts by the first in this order.
\<close>

datatype loaded = Loaded json | NotUnicode | NotJson | TooManyDigits | TooNested

text \<open>The limit of Python on the digits of an integer.\<close>

definition INT_MAX_STR_DIGITS :: nat where "INT_MAX_STR_DIGITS = 4300"

fun digits_ok :: "json \<Rightarrow> bool" where
  "digits_ok (JInt i) = (length (nat_text (nat \<bar>i\<bar>)) \<le> INT_MAX_STR_DIGITS)"
| "digits_ok (JList xs) = list_all digits_ok xs"
| "digits_ok (JObj kvs) = list_all (\<lambda>(k, v). digits_ok v) kvs"
| "digits_ok _ = True"

definition json_loads :: "(string \<Rightarrow> bool) \<Rightarrow> string \<Rightarrow> loaded" where
  "json_loads too_nested raw =
     (if \<not> is_utf8 raw then NotUnicode
      else if too_nested raw then TooNested
      else case scan_text raw of
          None \<Rightarrow> NotJson
        | Some j \<Rightarrow> if digits_ok j then Loaded (dicts j) else TooManyDigits)"

lemma json_loads_Loaded: "json_loads too_nested raw = Loaded j \<Longrightarrow> loads raw = Some j"
  by (auto simp: json_loads_def loads_def split: if_splits option.splits)

lemma json_loads_written:
  assumes "json_ok j" and "digits_ok j" and "w \<in> {[], [CHR 0x0A]}"
    and "is_utf8 (compact j @ w)" and "\<not> too_nested (compact j @ w)"
  shows "json_loads too_nested (compact j @ w) = Loaded j"
proof -
  have "scan_text (compact j @ w) = Some j" using assms(1,3) by (rule scan_line)
  with assms(2,4,5) dicts_json_ok [OF assms(1)] show ?thesis by (simp add: json_loads_def)
qed

end
