(* ===== verification/Client.thy ===== *)
theory Client
  imports RequestHandling JsonLoads
begin

text \<open>
  The client library, \<^verbatim>\<open>synapse/client.py\<close>: its methods as data (the parameters of each
  with their defaults, and the dictionary it sends), the envelope and its size limit, the reading
  of the service's answer and the errors it raises. The socket is a parameter: a function from
  the bytes sent to the bytes received.
\<close>

section \<open>The methods\<close>

text \<open>
  A field of the dictionary a method sends: its parameter of the same name (\<open>"k": k\<close>), or an
  empty list when that parameter is \<open>None\<close> (\<open>"k": k if k is not None else []\<close>).
\<close>

datatype client_field = Same string | ListOf string

text \<open>
  A method: its name, which is the command's, its parameters with their defaults, and the fields
  it sends.
\<close>

type_synonym client_method = "string \<times> (string \<times> json option) list \<times> client_field list"

definition CLIENT_METHODS_1 :: "client_method list" where
  "CLIENT_METHODS_1 = [
     (''create_agent'',
       [(''username'', None), (''password'', None), (''description'', None),
        (''organization_name_auth'', None), (''organization_password_auth'', None),
        (''can_see_org_agents'', Some (JBool False)), (''principal_type'', Some JNull)],
       [Same ''username'', Same ''password'', Same ''description'', Same ''can_see_org_agents'',
        Same ''principal_type'', Same ''organization_name_auth'',
        Same ''organization_password_auth'']),
     (''deactivate_agent'',
       [(''username'', None), (''organization_name_auth'', None),
        (''organization_password_auth'', None)],
       [Same ''username'', Same ''organization_name_auth'', Same ''organization_password_auth'']),
     (''reactivate_agent'',
       [(''username'', None), (''organization_name_auth'', None),
        (''organization_password_auth'', None)],
       [Same ''username'', Same ''organization_name_auth'', Same ''organization_password_auth'']),
     (''change_agent_password'',
       [(''username'', None), (''new_password'', None), (''organization_name_auth'', None),
        (''organization_password_auth'', None)],
       [Same ''username'', Same ''new_password'', Same ''organization_name_auth'',
        Same ''organization_password_auth'']),
     (''set_agent_visibility'',
       [(''username'', None), (''can_see_org_agents'', None), (''organization_name_auth'', None),
        (''organization_password_auth'', None)],
       [Same ''username'', Same ''can_see_org_agents'', Same ''organization_name_auth'',
        Same ''organization_password_auth'']),
     (''get_org_agents'',
       [(''organization_name_auth'', None), (''organization_password_auth'', None),
        (''limit'', Some (JInt 50)), (''cursor'', Some JNull)],
       [Same ''organization_name_auth'', Same ''organization_password_auth'', Same ''limit'',
        Same ''cursor'']),
     (''set_organization_policy'',
       [(''allow_incoming_external'', None), (''allow_outgoing_external'', None),
        (''organization_name_auth'', None), (''organization_password_auth'', None)],
       [Same ''allow_incoming_external'', Same ''allow_outgoing_external'',
        Same ''organization_name_auth'', Same ''organization_password_auth'']),
     (''get_organization_policy'',
       [(''organization_name_auth'', None), (''organization_password_auth'', None)],
       [Same ''organization_name_auth'', Same ''organization_password_auth'']),
     (''change_organization_password'',
       [(''new_password'', None), (''organization_name_auth'', None),
        (''organization_password_auth'', None)],
       [Same ''new_password'', Same ''organization_name_auth'',
        Same ''organization_password_auth''])]"

definition CLIENT_METHODS_2 :: "client_method list" where
  "CLIENT_METHODS_2 = [
     (''change_agent_description'',
       [(''username'', None), (''description'', None), (''organization_name_auth'', None),
        (''organization_password_auth'', None)],
       [Same ''username'', Same ''description'', Same ''organization_name_auth'',
        Same ''organization_password_auth'']),
     (''create_org'',
       [(''organization_name'', None), (''organization_password'', None),
        (''my_name_auth'', None), (''my_password_auth'', None)],
       [Same ''organization_name'', Same ''organization_password'', Same ''my_name_auth'',
        Same ''my_password_auth'']),
     (''disable_org'',
       [(''organization_name'', None), (''my_name_auth'', None), (''my_password_auth'', None)],
       [Same ''organization_name'', Same ''my_name_auth'', Same ''my_password_auth'']),
     (''list_orgs'',
       [(''my_name_auth'', None), (''my_password_auth'', None),
        (''include_disabled'', Some (JBool False))],
       [Same ''my_name_auth'', Same ''my_password_auth'', Same ''include_disabled'']),
     (''list_org_conversations'',
       [(''my_name_auth'', None), (''my_password_auth'', None), (''limit'', Some JNull),
        (''cursor'', Some JNull)],
       [Same ''my_name_auth'', Same ''my_password_auth'', Same ''limit'', Same ''cursor'']),
     (''get_org_conversation'',
       [(''conversation_id'', None), (''my_name_auth'', None), (''my_password_auth'', None),
        (''limit'', Some JNull), (''cursor'', Some JNull)],
       [Same ''conversation_id'', Same ''my_name_auth'', Same ''my_password_auth'',
        Same ''limit'', Same ''cursor'']),
     (''get_my_organization'',
       [(''my_name_auth'', None), (''my_password_auth'', None)],
       [Same ''my_name_auth'', Same ''my_password_auth'']),
     (''get_agent_description'',
       [(''username'', None), (''my_name_auth'', None), (''my_password_auth'', None)],
       [Same ''username'', Same ''my_name_auth'', Same ''my_password_auth'']),
     (''list_org_agents'',
       [(''my_name_auth'', None), (''my_password_auth'', None), (''limit'', Some (JInt 50)),
        (''cursor'', Some JNull)],
       [Same ''my_name_auth'', Same ''my_password_auth'', Same ''limit'', Same ''cursor''])]"

definition CLIENT_METHODS_3 :: "client_method list" where
  "CLIENT_METHODS_3 = [
     (''help'',
       [(''my_name_auth'', None), (''my_password_auth'', None), (''command_name'', Some JNull)],
       [Same ''my_name_auth'', Same ''my_password_auth'', Same ''command_name'']),
     (''send_message'',
       [(''recipient_username'', None), (''message'', None), (''client_message_id'', None),
        (''my_name_auth'', None), (''my_password_auth'', None),
        (''business_reference'', Some JNull)],
       [Same ''recipient_username'', Same ''message'', Same ''client_message_id'',
        Same ''business_reference'', Same ''my_name_auth'', Same ''my_password_auth'']),
     (''get_messages'',
       [(''my_name_auth'', None), (''my_password_auth'', None), (''status'', Some JNull),
        (''sender_username'', Some JNull), (''conversation_id'', Some JNull),
        (''limit'', Some (JInt 50)), (''cursor'', Some JNull)],
       [Same ''my_name_auth'', Same ''my_password_auth'', Same ''status'',
        Same ''sender_username'', Same ''conversation_id'', Same ''limit'', Same ''cursor'']),
     (''get_conversation'',
       [(''other_username'', None), (''my_name_auth'', None), (''my_password_auth'', None),
        (''limit'', Some (JInt 50)), (''cursor'', Some JNull)],
       [Same ''other_username'', Same ''my_name_auth'', Same ''my_password_auth'', Same ''limit'',
        Same ''cursor'']),
     (''read_message'',
       [(''message_id'', None), (''my_name_auth'', None), (''my_password_auth'', None)],
       [Same ''message_id'', Same ''my_name_auth'', Same ''my_password_auth'']),
     (''get_notifications'',
       [(''my_name_auth'', None), (''my_password_auth'', None), (''limit'', Some (JInt 50)),
        (''cursor'', Some JNull)],
       [Same ''my_name_auth'', Same ''my_password_auth'', Same ''limit'', Same ''cursor'']),
     (''mark_conversation_no_reply'',
       [(''conversation_id'', None), (''my_name_auth'', None), (''my_password_auth'', None)],
       [Same ''conversation_id'', Same ''my_name_auth'', Same ''my_password_auth'']),
     (''set_agent_card'',
       [(''capabilities'', None), (''my_name_auth'', None), (''my_password_auth'', None),
        (''domain'', Some JNull), (''model'', Some JNull), (''tools'', Some JNull),
        (''sla'', Some JNull), (''limits'', Some JNull), (''estimated_cost'', Some JNull)],
       [Same ''capabilities'', Same ''domain'', Same ''model'', ListOf ''tools'', Same ''sla'',
        Same ''limits'', Same ''estimated_cost'', Same ''my_name_auth'',
        Same ''my_password_auth'']),
     (''get_agent_card'',
       [(''username'', None), (''my_name_auth'', None), (''my_password_auth'', None)],
       [Same ''username'', Same ''my_name_auth'', Same ''my_password_auth''])]"

definition CLIENT_METHODS_4 :: "client_method list" where
  "CLIENT_METHODS_4 = [
     (''approve_agent_card'',
       [(''username'', None), (''organization_name_auth'', None),
        (''organization_password_auth'', None)],
       [Same ''username'', Same ''organization_name_auth'', Same ''organization_password_auth'']),
     (''find_agents'',
       [(''my_name_auth'', None), (''my_password_auth'', None), (''capability'', Some JNull),
        (''domain'', Some JNull), (''name_contains'', Some JNull), (''limit'', Some JNull),
        (''cursor'', Some JNull)],
       [Same ''capability'', Same ''domain'', Same ''name_contains'', Same ''limit'',
        Same ''cursor'', Same ''my_name_auth'', Same ''my_password_auth'']),
     (''create_task'',
       [(''title'', None), (''assignee_username'', None), (''my_name_auth'', None),
        (''my_password_auth'', None), (''description'', Some JNull), (''priority'', Some JNull),
        (''due_at'', Some JNull), (''deadline'', Some JNull), (''depends_on'', Some JNull),
        (''business_reference'', Some JNull), (''client_task_id'', Some JNull)],
       [Same ''title'', Same ''description'', Same ''assignee_username'', Same ''priority'',
        Same ''due_at'', Same ''deadline'', ListOf ''depends_on'', Same ''business_reference'',
        Same ''client_task_id'', Same ''my_name_auth'', Same ''my_password_auth'']),
     (''get_task'',
       [(''task_id'', None), (''my_name_auth'', None), (''my_password_auth'', None)],
       [Same ''task_id'', Same ''my_name_auth'', Same ''my_password_auth'']),
     (''list_tasks'',
       [(''my_name_auth'', None), (''my_password_auth'', None),
        (''assignee_username'', Some JNull), (''state'', Some JNull), (''priority'', Some JNull),
        (''due_before'', Some JNull), (''limit'', Some JNull), (''cursor'', Some JNull)],
       [Same ''assignee_username'', Same ''state'', Same ''priority'', Same ''due_before'',
        Same ''limit'', Same ''cursor'', Same ''my_name_auth'', Same ''my_password_auth'']),
     (''update_task_state'',
       [(''task_id'', None), (''new_state'', None), (''my_name_auth'', None),
        (''my_password_auth'', None), (''result'', Some JNull)],
       [Same ''task_id'', Same ''new_state'', Same ''result'', Same ''my_name_auth'',
        Same ''my_password_auth'']),
     (''transfer_task'',
       [(''task_id'', None), (''assignee_username'', None), (''my_name_auth'', None),
        (''my_password_auth'', None), (''note'', Some JNull)],
       [Same ''task_id'', Same ''assignee_username'', Same ''note'', Same ''my_name_auth'',
        Same ''my_password_auth''])]"

definition CLIENT_METHODS_5 :: "client_method list" where
  "CLIENT_METHODS_5 = [
     (''request_approval'',
       [(''task_id'', None), (''approver_username'', None), (''my_name_auth'', None),
        (''my_password_auth'', None)],
       [Same ''task_id'', Same ''approver_username'', Same ''my_name_auth'',
        Same ''my_password_auth'']),
     (''approve_task'',
       [(''task_id'', None), (''my_name_auth'', None), (''my_password_auth'', None)],
       [Same ''task_id'', Same ''my_name_auth'', Same ''my_password_auth'']),
     (''reject_task'',
       [(''task_id'', None), (''my_name_auth'', None), (''my_password_auth'', None),
        (''reason'', Some JNull)],
       [Same ''task_id'', Same ''reason'', Same ''my_name_auth'', Same ''my_password_auth'']),
     (''get_my_work'',
       [(''my_name_auth'', None), (''my_password_auth'', None), (''limit'', Some JNull),
        (''cursor'', Some JNull)],
       [Same ''limit'', Same ''cursor'', Same ''my_name_auth'', Same ''my_password_auth'']),
     (''get_events'',
       [(''my_name_auth'', None), (''my_password_auth'', None), (''types'', Some JNull),
        (''limit'', Some JNull), (''cursor'', Some JNull)],
       [Same ''types'', Same ''limit'', Same ''cursor'', Same ''my_name_auth'',
        Same ''my_password_auth'']),
     (''set_escalation_policy'',
       [(''enabled'', None), (''due_after_seconds'', None), (''failed_after_seconds'', None),
        (''escalate_to_username'', None), (''organization_name_auth'', None),
        (''organization_password_auth'', None)],
       [Same ''enabled'', Same ''due_after_seconds'', Same ''failed_after_seconds'',
        Same ''escalate_to_username'', Same ''organization_name_auth'',
        Same ''organization_password_auth'']),
     (''get_escalation_policy'',
       [(''organization_name_auth'', None), (''organization_password_auth'', None)],
       [Same ''organization_name_auth'', Same ''organization_password_auth'']),
     (''set_agent_budget'',
       [(''username'', None), (''organization_name_auth'', None),
        (''organization_password_auth'', None), (''max_active_tasks'', Some JNull),
        (''max_messages_per_hour'', Some JNull)],
       [Same ''username'', Same ''max_active_tasks'', Same ''max_messages_per_hour'',
        Same ''organization_name_auth'', Same ''organization_password_auth'']),
     (''set_event_retention_days'',
       [(''days'', None), (''organization_name_auth'', None),
        (''organization_password_auth'', None)],
       [Same ''days'', Same ''organization_name_auth'', Same ''organization_password_auth''])]"

definition CLIENT_METHODS_6 :: "client_method list" where
  "CLIENT_METHODS_6 = [
     (''create_department'',
       [(''department_name'', None), (''organization_name_auth'', None),
        (''organization_password_auth'', None)],
       [Same ''department_name'', Same ''organization_name_auth'',
        Same ''organization_password_auth'']),
     (''set_agent_department'',
       [(''username'', None), (''department_name'', None), (''role'', None),
        (''organization_name_auth'', None), (''organization_password_auth'', None)],
       [Same ''username'', Same ''department_name'', Same ''role'',
        Same ''organization_name_auth'', Same ''organization_password_auth'']),
     (''get_org_structure'',
       [(''organization_name_auth'', None), (''organization_password_auth'', None)],
       [Same ''organization_name_auth'', Same ''organization_password_auth'']),
     (''list_department_tasks'',
       [(''department_name'', None), (''my_name_auth'', None), (''my_password_auth'', None),
        (''limit'', Some JNull), (''cursor'', Some JNull)],
       [Same ''department_name'', Same ''limit'', Same ''cursor'', Same ''my_name_auth'',
        Same ''my_password_auth'']),
     (''get_org_audit'',
       [(''organization_name_auth'', None), (''organization_password_auth'', None),
        (''since'', Some JNull), (''actor_username'', Some JNull), (''command'', Some JNull),
        (''limit'', Some JNull), (''cursor'', Some JNull)],
       [Same ''since'', Same ''actor_username'', Same ''command'', Same ''limit'',
        Same ''cursor'', Same ''organization_name_auth'', Same ''organization_password_auth'']),
     (''get_org_metrics'',
       [(''organization_name_auth'', None), (''organization_password_auth'', None)],
       [Same ''organization_name_auth'', Same ''organization_password_auth'']),
     (''get_server_status'',
       [(''organization_name_auth'', None), (''organization_password_auth'', None)],
       [Same ''organization_name_auth'', Same ''organization_password_auth'']),
     (''create_group'',
       [(''name'', None), (''my_name_auth'', None), (''my_password_auth'', None)],
       [Same ''name'', Same ''my_name_auth'', Same ''my_password_auth'']),
     (''add_group_member'',
       [(''group_id'', None), (''username'', None), (''my_name_auth'', None),
        (''my_password_auth'', None)],
       [Same ''group_id'', Same ''username'', Same ''my_name_auth'', Same ''my_password_auth'']),
     (''remove_group_member'',
       [(''group_id'', None), (''username'', None), (''my_name_auth'', None),
        (''my_password_auth'', None)],
       [Same ''group_id'', Same ''username'', Same ''my_name_auth'', Same ''my_password_auth''])]"

definition CLIENT_METHODS_7 :: "client_method list" where
  "CLIENT_METHODS_7 = [
     (''send_group_message'',
       [(''group_id'', None), (''message'', None), (''my_name_auth'', None),
        (''my_password_auth'', None), (''client_message_id'', Some JNull)],
       [Same ''group_id'', Same ''message'', Same ''client_message_id'', Same ''my_name_auth'',
        Same ''my_password_auth'']),
     (''get_group_messages'',
       [(''group_id'', None), (''my_name_auth'', None), (''my_password_auth'', None),
        (''limit'', Some (JInt 50)), (''cursor'', Some JNull)],
       [Same ''group_id'', Same ''limit'', Same ''cursor'', Same ''my_name_auth'',
        Same ''my_password_auth'']),
     (''get_group_members'',
       [(''group_id'', None), (''my_name_auth'', None), (''my_password_auth'', None),
        (''limit'', Some (JInt 50)), (''cursor'', Some JNull)],
       [Same ''group_id'', Same ''limit'', Same ''cursor'', Same ''my_name_auth'',
        Same ''my_password_auth'']),
     (''list_my_groups'',
       [(''my_name_auth'', None), (''my_password_auth'', None), (''limit'', Some (JInt 50)),
        (''cursor'', Some JNull)],
       [Same ''limit'', Same ''cursor'', Same ''my_name_auth'', Same ''my_password_auth'']),
     (''get_agent_reputation'',
       [(''username'', None), (''my_name_auth'', None), (''my_password_auth'', None)],
       [Same ''username'', Same ''my_name_auth'', Same ''my_password_auth'']),
     (''create_delegation'',
       [(''task_id'', None), (''delegatee_username'', None), (''expires_at'', None),
        (''my_name_auth'', None), (''my_password_auth'', None)],
       [Same ''task_id'', Same ''delegatee_username'', Same ''expires_at'', Same ''my_name_auth'',
        Same ''my_password_auth'']),
     (''revoke_delegation'',
       [(''task_id'', None), (''delegatee_username'', None), (''my_name_auth'', None),
        (''my_password_auth'', None)],
       [Same ''task_id'', Same ''delegatee_username'', Same ''my_name_auth'',
        Same ''my_password_auth'']),
     (''get_my_delegations'',
       [(''my_name_auth'', None), (''my_password_auth'', None), (''limit'', Some (JInt 50)),
        (''cursor'', Some JNull)],
       [Same ''limit'', Same ''cursor'', Same ''my_name_auth'', Same ''my_password_auth''])]"

definition CLIENT_METHODS_8 :: "client_method list" where
  "CLIENT_METHODS_8 = [
     (''create_observer_account'',
       [(''observer_name'', None), (''password'', None), (''description'', None),
        (''organization_name_auth'', None), (''organization_password_auth'', None)],
       [Same ''observer_name'', Same ''password'', Same ''description'',
        Same ''organization_name_auth'', Same ''organization_password_auth'']),
     (''revoke_observer_account'',
       [(''observer_name'', None), (''organization_name_auth'', None),
        (''organization_password_auth'', None)],
       [Same ''observer_name'', Same ''organization_name_auth'',
        Same ''organization_password_auth'']),
     (''list_observers'',
       [(''organization_name_auth'', None), (''organization_password_auth'', None)],
       [Same ''organization_name_auth'', Same ''organization_password_auth'']),
     (''get_org_snapshot'',
       [(''my_name_auth'', None), (''my_password_auth'', None)],
       [Same ''my_name_auth'', Same ''my_password_auth''])]"

definition CLIENT_METHODS :: "client_method list" where
  "CLIENT_METHODS = CLIENT_METHODS_1 @ CLIENT_METHODS_2 @ CLIENT_METHODS_3 @ CLIENT_METHODS_4
     @ CLIENT_METHODS_5 @ CLIENT_METHODS_6 @ CLIENT_METHODS_7 @ CLIENT_METHODS_8"

section \<open>A call\<close>

text \<open>The arguments of a call, by name: an unknown name or a missing one is a \<open>TypeError\<close>.\<close>

definition bind_arguments :: "(string \<times> json option) list \<Rightarrow> params \<Rightarrow> exc + params" where
  "bind_arguments declared given =
     (if list_ex (\<lambda>(k, v). k \<notin> set (map fst declared)) given then Inl TypeError
      else map_exc (\<lambda>(k, fallback). case map_of given k of
          Some v \<Rightarrow> Inr (k, v)
        | None \<Rightarrow> map_sum id (\<lambda>v. (k, v)) (some_or TypeError fallback)) declared)"

primrec field_key :: "client_field \<Rightarrow> string" where
  "field_key (Same k) = k"
| "field_key (ListOf k) = k"

definition field_value :: "params \<Rightarrow> client_field \<Rightarrow> exc + (string \<times> json)" where
  "field_value arguments f =
     andthen (some_or KeyError (map_of arguments (field_key f))) (\<lambda>v. case f of
       Same k \<Rightarrow> Inr (k, v)
     | ListOf k \<Rightarrow> Inr (k, if v = JNull then JList [] else v))"

definition call_parameters :: "client_method \<Rightarrow> params \<Rightarrow> exc + params" where
  "call_parameters m given =
     (case m of (name, declared, sent) \<Rightarrow>
        andthen (bind_arguments declared given) (\<lambda>arguments. map_exc (field_value arguments) sent))"

definition client_envelope :: "string \<Rightarrow> params \<Rightarrow> json" where
  "client_envelope command p = JObj [(''api_version'', JStr API_VERSION), (''command'', JStr command),
     (''parameters'', JObj p)]"

section \<open>The request and its answer\<close>

datatype client_error =
    ClientTransportError string
  | ApiClientError json json
  | ClientValueError
  | ClientRecursionError
  | ClientUnicodeError
  | ClientAttributeError

definition MAX_REQUEST_BYTES :: int where "MAX_REQUEST_BYTES = 1024 * 1024"
definition MAX_RESPONSE_BYTES :: int where "MAX_RESPONSE_BYTES = 16 * 1024 * 1024"

text \<open>Python's truth of a value; a float literal is zero when its mantissa has no other digit.\<close>

fun truthy :: "json \<Rightarrow> bool" where
  "truthy JNull = False"
| "truthy (JBool b) = b"
| "truthy (JInt i) = (i \<noteq> 0)"
| "truthy (JFloat t) = (list_ex (\<lambda>c. is_dec c \<and> c \<noteq> CHR ''0'')
     (takeWhile (\<lambda>c. c \<noteq> CHR ''e'' \<and> c \<noteq> CHR ''E'') t) \<or> \<not> list_ex is_dec t)"
| "truthy (JStr s) = (s \<noteq> [])"
| "truthy (JList xs) = (xs \<noteq> [])"
| "truthy (JObj kvs) = (kvs \<noteq> [])"

definition NEWLINE :: char where "NEWLINE = CHR 0x0A"

definition parse_response :: "(string \<Rightarrow> bool) \<Rightarrow> string \<Rightarrow> client_error + (string \<times> json) list" where
  "parse_response too_nested raw =
     (if raw = [] then Inl (ClientTransportError ''The service closed the connection without a response'')
      else case json_loads too_nested raw of
          Loaded (JObj kvs) \<Rightarrow> Inr kvs
        | TooManyDigits \<Rightarrow> Inl ClientValueError
        | TooNested \<Rightarrow> Inl ClientRecursionError
        | _ \<Rightarrow> Inl (ClientTransportError ''Invalid response from the service''))"

text \<open>The loop over \<open>recv\<close> keeps at most \<open>_MAX_RESPONSE_BYTES\<close>.\<close>

definition transact ::
    "(string \<Rightarrow> bool) \<Rightarrow> (string \<Rightarrow> client_error + string) \<Rightarrow> string \<Rightarrow> client_error + (string \<times> json) list" where
  "transact too_nested socket payload =
     andthen (socket payload) (\<lambda>raw.
       if MAX_RESPONSE_BYTES < int (length raw) then Inl (ClientTransportError ''Response too large'')
       else parse_response too_nested raw)"

definition get_or :: "(string \<times> json) list \<Rightarrow> string \<Rightarrow> json \<Rightarrow> json" where
  "get_or kvs k otherwise = (case map_of kvs k of None \<Rightarrow> otherwise | Some v \<Rightarrow> v)"

definition or_else :: "json \<Rightarrow> json \<Rightarrow> json" where
  "or_else v w = (if truthy v then v else w)"

text \<open>What \<open>request\<close> makes of the response: its \<open>data\<close>, or the error it raises.\<close>

definition read_response :: "(string \<times> json) list \<Rightarrow> client_error + json" where
  "read_response response =
     (if \<not> truthy (get_or response ''success'' JNull) then
        (case or_else (get_or response ''error'' JNull) (JObj []) of
           JObj err \<Rightarrow>
             (let code = get_or err ''code'' (JStr ''INTERNAL_ERROR'') in
              Inl (ApiClientError code (or_else (get_or err ''message'' JNull) code)))
         | _ \<Rightarrow> Inl ClientAttributeError)
      else Inr (or_else (get_or response ''data'' JNull) (JObj [])))"

definition client_request ::
    "(string \<Rightarrow> bool) \<Rightarrow> (string \<Rightarrow> client_error + string) \<Rightarrow> string \<Rightarrow> params \<Rightarrow> client_error + json" where
  "client_request too_nested socket command p =
     (let payload = compact (client_envelope command p) in
      if \<not> is_utf8 payload then Inl ClientUnicodeError
      else if MAX_REQUEST_BYTES < int (length payload)
      then Inl (ClientTransportError ''Request too large (1 MiB max)'')
      else andthen (transact too_nested socket (payload @ [NEWLINE])) read_response)"

section \<open>The client and the table agree\<close>

text \<open>Every method sends the declared keys of its command, out of parameters of its own.\<close>

definition method_fits :: "client_method \<Rightarrow> bool" where
  "method_fits m = (case m of (name, declared, sent) \<Rightarrow>
     (case map_of COMMAND_SPECS name of
        None \<Rightarrow> False
      | Some (spec, org) \<Rightarrow> list_all (\<lambda>f. field_key f \<in> set (map fst declared)) sent
          \<and> set (map field_key sent) = set (map fst spec)
          \<and> distinct (map field_key sent)))"



lemma methods_fit_1: "list_all method_fits CLIENT_METHODS_1"
  by code_simp

lemma methods_fit_2: "list_all method_fits CLIENT_METHODS_2"
  by code_simp

lemma methods_fit_3: "list_all method_fits CLIENT_METHODS_3"
  by code_simp

lemma methods_fit_4: "list_all method_fits CLIENT_METHODS_4"
  by code_simp

lemma methods_fit_5: "list_all method_fits CLIENT_METHODS_5"
  by code_simp

lemma methods_fit_6: "list_all method_fits CLIENT_METHODS_6"
  by code_simp

lemma methods_fit_7: "list_all method_fits CLIENT_METHODS_7"
  by code_simp

lemma methods_fit_8: "list_all method_fits CLIENT_METHODS_8"
  by code_simp

lemma methods_fit: "list_all method_fits CLIENT_METHODS"
  by (simp add: CLIENT_METHODS_def methods_fit_1 methods_fit_2 methods_fit_3 methods_fit_4
      methods_fit_5 methods_fit_6 methods_fit_7 methods_fit_8)

text \<open>Every command of the table has its method.\<close>

lemma every_command_has_a_method: "set (map fst COMMAND_SPECS) \<subseteq> set (map fst CLIENT_METHODS)"
proof -
  have "list_all (\<lambda>c. c \<in> set (map fst CLIENT_METHODS)) (map fst COMMAND_SPECS)" by code_simp
  then show ?thesis unfolding list_all_iff by blast
qed

lemma field_value_key: "field_value arguments f = Inr kv \<Longrightarrow> fst kv = field_key f"
  by (cases f) (auto simp: field_value_def exc_simps split: option.splits)

lemma map_exc_keys:
  assumes "map_exc f xs = Inr ys" and "\<And>x y. f x = Inr y \<Longrightarrow> g y = h x"
  shows "map g ys = map h xs"
  using assms(1) by (induction xs arbitrary: ys) (auto simp: exc_simps assms(2))

lemma ensure_exact_keys_ok: "fst ` set m = set allowed \<Longrightarrow> ensure_exact_keys m allowed l = Inr ()"
  by (auto simp: ensure_exact_keys_def Let_def filter_empty_conv)

lemma envelope_keys: "ensure_exact_keys [(''api_version'', a), (''command'', b), (''parameters'', c)]
    [''api_version'', ''command'', ''parameters''] l = Inr ()"
  by (rule ensure_exact_keys_ok) simp

text \<open>
  C26. The client library sends what the service accepts: whatever the arguments of a method, the
  envelope it sends names an existing command with exactly its declared parameters, so that only
  the values of the parameters can be refused.
\<close>

theorem client_calls_meet_the_table:
  assumes m: "m \<in> set CLIENT_METHODS" and p: "call_parameters m given = Inr p"
  shows "\<exists>params org. map_of COMMAND_SPECS (fst m) = Some (params, org) \<and>
    validate_envelope u (client_envelope (fst m) p) =
      andthen (map_exc (validate_param u p) params) (\<lambda>validated. Inr (fst m, validated))"
proof -
  obtain name declared sent where f: "m = (name, declared, sent)" by (cases m)
  have "method_fits m" using methods_fit m by (simp add: list_all_iff)
  then obtain params org where spec: "map_of COMMAND_SPECS name = Some (params, org)"
    and keys: "set (map field_key sent) = set (map fst params)"
    by (auto simp: method_fits_def f split: option.splits)
  obtain arguments where "map_exc (field_value arguments) sent = Inr p"
    using p by (auto simp: call_parameters_def f exc_simps)
  then have "map fst p = map field_key sent" using field_value_key by (rule map_exc_keys)
  then have "fst ` set p = set (sort (map fst params))" using keys by (metis set_map set_sort)
  from ensure_exact_keys_ok [OF this] have
    "validate_envelope u (client_envelope name p) =
      andthen (map_exc (validate_param u p) params) (\<lambda>validated. Inr (name, validated))"
    by (simp add: validate_envelope_def client_envelope_def envelope_keys spec exc_simps)
  with spec show ?thesis by (auto simp: f)
qed

definition sample_method :: client_method where
  "sample_method = (''list_orgs'',
       [(''my_name_auth'', None), (''my_password_auth'', None), (''include_disabled'', Some (JBool False))],
       [Same ''my_name_auth'', Same ''my_password_auth'', Same ''include_disabled''])"

definition sample_arguments :: params where
  "sample_arguments = [(''my_password_auth'', JStr ''secret''), (''my_name_auth'', JStr ''alice'')]"

definition sample_sent :: params where
  "sample_sent = [(''my_name_auth'', JStr ''alice''), (''my_password_auth'', JStr ''secret''),
     (''include_disabled'', JBool False)]"

lemma sample_method_listed: "sample_method \<in> set CLIENT_METHODS"
proof -
  have "List.member CLIENT_METHODS sample_method" by code_simp
  then show ?thesis by (simp add: List.member_iff)
qed

lemma sample_call: "call_parameters sample_method sample_arguments = Inr sample_sent"
  by code_simp

lemma client_calls_meet_the_table_witness:
  "\<exists>params org. map_of COMMAND_SPECS (fst sample_method) = Some (params, org) \<and>
    validate_envelope ascii_unicode (client_envelope (fst sample_method) sample_sent) =
      andthen (map_exc (validate_param ascii_unicode sample_sent) params)
        (\<lambda>validated. Inr (fst sample_method, validated))"
  by (rule client_calls_meet_the_table [OF sample_method_listed sample_call])

end
