(* ===== verification/Connection.thy ===== *)
theory Connection
  imports Client
begin

text \<open>
  A connection of the local server, \<^verbatim>\<open>synapse/server.py\<close>: the reading of a line with its
  size limit, the token of the loopback listener, the loop over the requests and the lines it
  writes. What \<open>recv\<close> gives is a list of events; each request has its own environment. The end
  of the list is the end of the input.

  The lemmas: the answers depend on the bytes received and not on how \<open>recv\<close> cuts them, every
  request has its answer, and the client reads the error that the service gave.
\<close>

section \<open>Reading a line\<close>

datatype recv_event = Chunk string | Timeout | Broken

datatype reading = Line string | TooLarge | NoLine | Lost

text \<open>\<open>self._buffer.find(b"\\n")\<close>: the line before the first newline and what follows it.\<close>

fun cut_line :: "string \<Rightarrow> (string \<times> string) option" where
  "cut_line [] = None"
| "cut_line (c # buf) =
     (if c = NEWLINE then Some ([], buf) else map_option (\<lambda>(line, rest). (c # line, rest)) (cut_line buf))"

fun read_line :: "nat \<Rightarrow> string \<Rightarrow> recv_event list \<Rightarrow> reading \<times> string \<times> recv_event list" where
  "read_line max_bytes buf evs =
     (case cut_line buf of
        Some (line, rest) \<Rightarrow>
          (if max_bytes < length line then (TooLarge, rest, evs) else (Line line, rest, evs))
      | None \<Rightarrow>
          if max_bytes < length buf then (TooLarge, buf, evs)
          else (case evs of
              Timeout # evs' \<Rightarrow> (NoLine, buf, evs')
            | Broken # evs' \<Rightarrow> (Lost, buf, evs')
            | Chunk (c # cs) # evs' \<Rightarrow> read_line max_bytes (buf @ c # cs) evs'
            | Chunk [] # evs' \<Rightarrow> if buf \<noteq> [] then (Line buf, [], evs') else (NoLine, [], evs')
            | [] \<Rightarrow> if buf \<noteq> [] then (Line buf, [], []) else (NoLine, [], [])))"

declare read_line.simps [simp del]

section \<open>The lines written\<close>

primrec code_name :: "err_code \<Rightarrow> string" where
  "code_name AUTH_FAILED = ''AUTH_FAILED''"
| "code_name ACCESS_DENIED = ''ACCESS_DENIED''"
| "code_name INVALID_ARGUMENT = ''INVALID_ARGUMENT''"
| "code_name UNKNOWN_COMMAND = ''UNKNOWN_COMMAND''"
| "code_name USERNAME_ALREADY_EXISTS = ''USERNAME_ALREADY_EXISTS''"
| "code_name USER_NOT_FOUND = ''USER_NOT_FOUND''"
| "code_name RECIPIENT_NOT_FOUND = ''RECIPIENT_NOT_FOUND''"
| "code_name MESSAGE_NOT_FOUND = ''MESSAGE_NOT_FOUND''"
| "code_name CONVERSATION_NOT_FOUND = ''CONVERSATION_NOT_FOUND''"
| "code_name MESSAGE_ALREADY_EXISTS = ''MESSAGE_ALREADY_EXISTS''"
| "code_name POLICY_DENIED = ''POLICY_DENIED''"
| "code_name TASK_NOT_FOUND = ''TASK_NOT_FOUND''"
| "code_name TASK_STATE_INVALID = ''TASK_STATE_INVALID''"
| "code_name TASK_DEPENDENCY_NOT_MET = ''TASK_DEPENDENCY_NOT_MET''"
| "code_name QUOTA_EXCEEDED = ''QUOTA_EXCEEDED''"
| "code_name GROUP_NOT_FOUND = ''GROUP_NOT_FOUND''"
| "code_name INTERNAL_ERROR = ''INTERNAL_ERROR''"

definition error_response :: "err_code \<Rightarrow> string \<Rightarrow> json" where
  "error_response code message = JObj [(''success'', JBool False), (''data'', JNull),
     (''error'', JObj [(''code'', JStr (code_name code)), (''message'', JStr message)])]"

text \<open>
  The encoding of an error. \<open>json.dumps(...).encode("utf-8")\<close> raises on a lone surrogate, which
  a message that quotes the request can hold.
\<close>

definition error_line :: "err_code \<Rightarrow> string \<Rightarrow> string option" where
  "error_line code message =
     (if is_utf8 message then Some (compact (error_response code message) @ [NEWLINE]) else None)"

fun encodable :: "response \<Rightarrow> bool" where
  "encodable (Success data) = True"
| "encodable (Failure code message) = (error_line code message \<noteq> None)"

section \<open>The loop over the requests\<close>

record listener =
  settings :: config
  max_request_bytes :: nat
  auth_token :: "string option"
  interpreter :: "string \<Rightarrow> bool"
  characters :: unicode
  scanning :: scan_order

definition answer_line :: "listener \<Rightarrow> env \<Rightarrow> string \<Rightarrow> service \<Rightarrow> response \<times> service" where
  "answer_line l e line s =
     (if line = [] then (Failure INVALID_ARGUMENT ''Empty request'', s)
      else process_bytes (settings l) e (scanning l) (characters l) (interpreter l) line s)"

definition event_bytes :: "recv_event \<Rightarrow> nat" where
  "event_bytes ev = (case ev of Chunk c \<Rightarrow> Suc (length c) | _ \<Rightarrow> 1)"

lemma cut_line_None: "cut_line buf = None \<longleftrightarrow> NEWLINE \<notin> set buf"
  by (induction buf) auto

lemma cut_line_cut:
  "cut_line buf = Some (line, rest) \<Longrightarrow> buf = line @ NEWLINE # rest \<and> NEWLINE \<notin> set line"
  by (induction buf arbitrary: line) (auto split: if_splits)

lemma cut_line_line: "NEWLINE \<notin> set line \<Longrightarrow> cut_line (line @ NEWLINE # rest) = Some (line, rest)"
  by (induction line) auto

lemma cut_line_shorter: "cut_line buf = Some (line, rest) \<Longrightarrow> length rest < length buf"
  by (auto dest!: cut_line_cut)

lemma read_line_cut:
  "cut_line buf = Some (line, rest) \<Longrightarrow>
     read_line m buf evs = (if m < length line then TooLarge else Line line, rest, evs)"
  by (subst read_line.simps) simp

lemma read_line_wait:
  assumes "cut_line buf = None"
  shows "read_line m buf [] = (if m < length buf then (TooLarge, buf, [])
      else if buf \<noteq> [] then (Line buf, [], []) else (NoLine, [], []))"
    and "read_line m buf (Chunk (c # cs) # evs) =
      (if m < length buf then (TooLarge, buf, Chunk (c # cs) # evs) else read_line m (buf @ c # cs) evs)"
  by (subst read_line.simps, simp add: assms)+

lemma read_line_shorter:
  "read_line m buf evs = (Line line, buf', evs') \<Longrightarrow>
     length buf' + sum_list (map event_bytes evs') < length buf + sum_list (map event_bytes evs)"
proof (induction m buf evs rule: read_line.induct)
  case (1 m buf evs)
  show ?case
  proof (cases "cut_line buf")
    case None
    with 1 show ?thesis
      by (subst (asm) (2) read_line.simps)
        (force simp: event_bytes_def split: if_splits list.splits recv_event.splits)
  next
    case (Some p)
    then obtain line' rest where "cut_line buf = Some (line', rest)" by (cases p) auto
    with 1(2) cut_line_shorter show ?thesis by (auto simp: read_line_cut split: if_splits)
  qed
qed

text \<open>
  The loop of \<open>handle\<close>: the \<open>n\<close>-th request is served in the environment \<open>es n\<close>. An answer that
  cannot be encoded raises out of the loop, and the connection closes.
\<close>

function serve_connection ::
    "listener \<Rightarrow> (nat \<Rightarrow> env) \<Rightarrow> nat \<Rightarrow> string \<Rightarrow> recv_event list \<Rightarrow> service \<Rightarrow> response list \<times> service"
  where
  "serve_connection l es n buf evs s =
     (case read_line (max_request_bytes l) buf evs of
        (TooLarge, _, _) \<Rightarrow> ([Failure INVALID_ARGUMENT ''Request too large''], s)
      | (Line line, buf', evs') \<Rightarrow>
          (case answer_line l (es n) line s of
             (r, s') \<Rightarrow>
               if encodable r then apfst ((#) r) (serve_connection l es (Suc n) buf' evs' s')
               else ([], s'))
      | _ \<Rightarrow> ([], s))"
  by pat_completeness auto
termination
  by (relation "measure (\<lambda>(l, es, n, buf, evs, s). length buf + sum_list (map event_bytes evs))")
    (auto dest: read_line_shorter [OF sym])

declare serve_connection.simps [simp del]

text \<open>
  The first line of a loopback connection is the token: \<open>decode("ascii", "replace").strip()\<close>,
  then \<open>compare_digest\<close>, which raises on the replacement characters.
\<close>

definition token_accepted :: "string \<Rightarrow> string \<Rightarrow> bool" where
  "token_accepted token line = (list_all (\<lambda>c. (of_char c :: nat) < 128) line \<and> strip (cps line) = cps token)"

definition handle_connection ::
    "listener \<Rightarrow> (nat \<Rightarrow> env) \<Rightarrow> recv_event list \<Rightarrow> service \<Rightarrow> response list \<times> service" where
  "handle_connection l es evs s =
     (case auth_token l of
        None \<Rightarrow> serve_connection l es 0 [] evs s
      | Some token \<Rightarrow>
          if token = [] then serve_connection l es 0 [] evs s
          else (case read_line (max_request_bytes l) [] evs of
              (Line line, buf, evs') \<Rightarrow>
                if line \<noteq> [] \<and> token_accepted token line then serve_connection l es 0 buf evs' s else ([], s)
            | _ \<Rightarrow> ([], s)))"

section \<open>The answers do not depend on how the bytes arrive\<close>

text \<open>The reference: the lines of the whole input, answered one after the other.\<close>

function lines_of :: "string \<Rightarrow> string list" where
  "lines_of s = (case cut_line s of
     None \<Rightarrow> if s = [] then [] else [s]
   | Some (line, rest) \<Rightarrow> line # lines_of rest)"
  by pat_completeness auto
termination by (relation "measure length") (auto dest: cut_line_shorter)

declare lines_of.simps [simp del]

fun answer_lines ::
    "listener \<Rightarrow> (nat \<Rightarrow> env) \<Rightarrow> nat \<Rightarrow> string list \<Rightarrow> service \<Rightarrow> response list \<times> service" where
  "answer_lines l es n [] s = ([], s)"
| "answer_lines l es n (line # lines) s =
     (if max_request_bytes l < length line then ([Failure INVALID_ARGUMENT ''Request too large''], s)
      else (case answer_line l (es n) line s of
        (r, s') \<Rightarrow> if encodable r then apfst ((#) r) (answer_lines l es (Suc n) lines s') else ([], s')))"

lemma cut_line_append:
  "cut_line buf = Some (line, rest) \<Longrightarrow> cut_line (buf @ x) = Some (line, rest @ x)"
  by (induction buf arbitrary: line) (auto split: if_splits)

lemma cut_line_long:
  "cut_line buf = None \<Longrightarrow> cut_line (buf @ x) = Some (line, rest) \<Longrightarrow> length buf \<le> length line"
  by (induction buf arbitrary: line) (auto split: if_splits)

lemma lines_of_cut: "cut_line s = Some (line, rest) \<Longrightarrow> lines_of s = line # lines_of rest"
  by (subst lines_of.simps) simp

lemma lines_of_last: "cut_line s = None \<Longrightarrow> lines_of s = (if s = [] then [] else [s])"
  by (subst lines_of.simps) simp

text \<open>One reading, whatever the chunks, is that of the whole input.\<close>

lemma read_line_chunks:
  assumes "[] \<notin> set cs"
  shows "case lines_of (buf @ concat cs) of
      [] \<Rightarrow> read_line m buf (map Chunk cs) = (NoLine, [], [])
    | line # lines \<Rightarrow>
        if m < length line then fst (read_line m buf (map Chunk cs)) = TooLarge
        else \<exists>buf' cs'. read_line m buf (map Chunk cs) = (Line line, buf', map Chunk cs')
          \<and> [] \<notin> set cs' \<and> lines_of (buf' @ concat cs') = lines"
  using assms
proof (induction cs arbitrary: buf)
  case Nil
  show ?case
  proof (cases "cut_line buf")
    case None
    then show ?thesis
      by (auto simp: lines_of_last lines_of_last [of "[]"] read_line_wait intro!: exI [of _ "[]"])
  next
    case (Some p)
    then obtain line rest where "cut_line buf = Some (line, rest)" by (cases p) auto
    then show ?thesis by (auto simp: lines_of_cut read_line_cut)
  qed
next
  case (Cons c cs)
  show ?case
  proof (cases "cut_line buf")
    case None
    show ?thesis
    proof (cases "m < length buf")
      case True
      obtain line lines where "lines_of (buf @ concat (c # cs)) = line # lines" "m < length line"
      proof (cases "cut_line (buf @ concat (c # cs))")
        case None
        have "buf @ concat (c # cs) \<noteq> []" using True by auto
        with lines_of_last [OF None] that [of "buf @ concat (c # cs)" "[]"] True show thesis by simp
      next
        case (Some p)
        then obtain line rest where p: "cut_line (buf @ concat (c # cs)) = Some (line, rest)"
          by (cases p) auto
        with cut_line_long [OF None] True have "m < length line" by fastforce
        with that lines_of_cut [OF p] show thesis by blast
      qed
      with None True Cons.prems show ?thesis by (cases c) (simp_all add: read_line_wait)
    next
      case False
      with None Cons.prems have e: "read_line m buf (map Chunk (c # cs)) = read_line m (buf @ c) (map Chunk cs)"
        by (cases c) (simp_all add: read_line_wait)
      show ?thesis unfolding e using Cons.IH [of "buf @ c"] Cons.prems by simp
    qed
  next
    case (Some p)
    then obtain line rest where c: "cut_line buf = Some (line, rest)" by (cases p) auto
    from lines_of_cut [OF cut_line_append [OF c, of "concat (c # cs)"]] Cons.prems show ?thesis
      using read_line_cut [OF c, of m "map Chunk (c # cs)"]
      by (auto intro!: exI [of _ rest] exI [of _ "c # cs"])
  qed
qed

lemma serve_chunks:
  assumes "[] \<notin> set cs"
  shows "serve_connection l es n buf (map Chunk cs) s =
    answer_lines l es n (lines_of (buf @ concat cs)) s"
  using assms
proof (induction "lines_of (buf @ concat cs)" arbitrary: n buf cs s)
  case Nil
  with read_line_chunks [where buf = buf and m = "max_request_bytes l", OF Nil.prems] show ?case
    by (subst serve_connection.simps) simp
next
  case (Cons line lines)
  note step = read_line_chunks [where buf = buf and m = "max_request_bytes l", OF Cons.prems, folded Cons.hyps(2), simplified]
  show ?case
  proof (cases "max_request_bytes l < length line")
    case True
    with step show ?thesis
      by (subst serve_connection.simps)
        (cases "read_line (max_request_bytes l) buf (map Chunk cs)"; simp add: Cons.hyps(2) [symmetric])
  next
    case False
    with step obtain buf' cs' where read: "read_line (max_request_bytes l) buf (map Chunk cs) =
        (Line line, buf', map Chunk cs')" and cs': "[] \<notin> set cs'" "lines_of (buf' @ concat cs') = lines"
      by auto
    from Cons.hyps(1) [OF cs'(2) [symmetric] cs'(1)] False show ?thesis
      by (subst serve_connection.simps) (simp add: read cs'(2) Cons.hyps(2) [symmetric] split: prod.split)
  qed
qed


text \<open>
  C27. The answers on a connection are those of the lines of its input, one after the other, up to
  the first line that is too long: they do not depend on how the bytes arrive.
\<close>

theorem answers_follow_the_lines:
  assumes "auth_token l = None" and "[] \<notin> set cs"
  shows "handle_connection l es (map Chunk cs) s = answer_lines l es 0 (lines_of (concat cs)) s"
  using assms serve_chunks [of cs l es 0 "[]" s] by (simp add: handle_connection_def)

section \<open>What the client reads\<close>

lemma code_points_append: "is_utf8 s \<Longrightarrow> code_points (s @ t) = code_points s @ code_points t"
proof -
  have "code_points (utf8_text us @ t) = us @ code_points t" if "list_all (\<lambda>c. c < 1114112) us" for us
    using that by (induction us) (simp_all add: utf8_text_def code_points_utf8)
  then show "is_utf8 s \<Longrightarrow> ?thesis" using code_points_bound utf8_code_points by metis
qed

lemma is_utf8_append: "is_utf8 s \<Longrightarrow> is_utf8 t \<Longrightarrow> is_utf8 (s @ t)"
  by (simp add: code_points_append is_utf8_def)

lemma is_utf8_ascii: "list_all (\<lambda>c. (of_char c :: nat) < 128) s \<Longrightarrow> is_utf8 s"
  by (auto simp: is_utf8_def code_points_ascii list_all_iff surrogate_def cps_def)

lemma utf8_high: "128 \<le> n \<Longrightarrow> n < 1114112 \<Longrightarrow> list_all (\<lambda>c. 128 \<le> (of_char c :: nat)) (utf8 n)"
  by (auto simp: utf8_def)

lemma escape_high: "list_all (\<lambda>c. 128 \<le> (of_char c :: nat)) s \<Longrightarrow> concat (map json_escape s) = s"
  by (induction s) (simp_all add: json_escape_def)

lemma is_utf8_escape: "(of_char c :: nat) < 128 \<Longrightarrow> is_utf8 (json_escape c)"
  by (rule is_utf8_ascii) (auto simp: json_escape_def Let_def hex_digit_def BSL_def)

lemma is_utf8_json_string:
  assumes "is_utf8 s"
  shows "is_utf8 (json_string s)"
proof -
  have one: "is_utf8 (concat (map json_escape (utf8 n)))" if "n < 1114112" "\<not> surrogate n" for n
  proof (cases "n < 128")
    case True
    then show ?thesis by (simp add: utf8_def is_utf8_escape)
  next
    case False
    then have "concat (map json_escape (utf8 n)) = utf8 n"
      using utf8_high [of n] that(1) by (intro escape_high) simp_all
    moreover have "code_points (utf8 n @ []) = [n]" using that(1) by (simp only: code_points_utf8) simp
    ultimately show ?thesis using that(2) by (simp add: is_utf8_def)
  qed
  have "is_utf8 (concat (map json_escape (utf8_text us)))"
    if "list_all (\<lambda>c. c < 1114112 \<and> \<not> surrogate c) us" for us
    using that
  proof (induction us)
    case (Cons n us)
    then show ?case using is_utf8_append [OF one] by (simp add: utf8_text_def)
  qed (simp add: utf8_text_def is_utf8_def)
  from this [of "code_points s"] have "is_utf8 (concat (map json_escape s))"
    using assms utf8_code_points [OF assms] code_points_bound [of s]
    by (simp add: is_utf8_def list_all_iff)
  then have "is_utf8 ([QUOTE] @ concat (map json_escape s) @ [QUOTE])"
    by (intro is_utf8_append) (simp_all add: is_utf8_ascii QUOTE_def)
  then show ?thesis by (simp add: json_string_def)
qed

lemma code_name_ascii: "list_all (\<lambda>c. (of_char c :: nat) < 128) (code_name c) \<and> code_name c \<noteq> []"
  by (cases c) simp_all

lemma error_line_utf8:
  assumes "error_line c m = Some raw"
  shows "is_utf8 raw" "loads raw = Some (error_response c m)"
proof -
  have raw: "raw = compact (error_response c m) @ [NEWLINE]" and m: "is_utf8 m"
    using assms by (auto simp: error_line_def split: if_splits)
  have c: "is_utf8 (code_name c)" using code_name_ascii by (blast intro: is_utf8_ascii)
  have layout: "raw = ''{'' @ json_string ''success'' @ '':false,'' @ json_string ''data'' @ '':null,'' @
      json_string ''error'' @ '':{'' @ json_string ''code'' @ '':'' @ json_string (code_name c) @ '','' @
      json_string ''message'' @ '':'' @ json_string m @ ''}}'' @ [NEWLINE]"
    by (simp add: raw error_response_def compact_separators_def)
  show "is_utf8 raw" unfolding layout
    by (intro is_utf8_append is_utf8_json_string m c) (rule is_utf8_ascii; simp add: NEWLINE_def)+
  show "loads raw = Some (error_response c m)"
    unfolding raw by (rule loads_line) (simp_all add: error_response_def NEWLINE_def)
qed

section \<open>An answer that cannot be written\<close>

text \<open>
  C28. A request that names, by an escape, a command with a lone surrogate gets no answer: the
  message quotes the name, its encoding raises outside the protected call, and the connection
  closes. The remark that a failure never leaves a connection without a response does not hold.
\<close>

theorem lone_surrogate_closes_the_connection:
  assumes "auth_token l = None" and "length line \<le> max_request_bytes l"
    and "line \<noteq> []" and "NEWLINE \<notin> set line"
    and "parse_json_request (interpreter l) line = Inr (client_envelope c p)"
    and "map_of COMMAND_SPECS c = None" and "\<not> is_utf8 c"
  shows "handle_connection l es [Chunk (line @ [NEWLINE])] s =
    ([], s\<lparr>requests_total := requests_total s + 1\<rparr>)"
proof -
  have "validate_envelope (characters l) (client_envelope c p) =
      Inl (ApiError UNKNOWN_COMMAND (Custom (''Unknown command: '' @ c)))"
    by (simp add: validate_envelope_def client_envelope_def envelope_keys assms(6) exc_simps)
  then have answer: "answer_line l e line s = (Failure UNKNOWN_COMMAND (''Unknown command: '' @ c),
      s\<lparr>requests_total := requests_total s + 1\<rparr>)" for e
    using assms(3,5) by (simp add: answer_line_def process_bytes_def decode_request_def process_def exc_simps)
  have "is_utf8 ''Unknown command: ''" by (rule is_utf8_ascii) simp
  then have "\<not> is_utf8 (''Unknown command: '' @ c)"
    using assms(7) by (simp only: is_utf8_def code_points_append list_all_append) simp
  then have "error_line UNKNOWN_COMMAND (''Unknown command: '' @ c) = None"
    by (simp only: error_line_def if_False)
  moreover have "lines_of (line @ [NEWLINE]) = [line]"
    using cut_line_line [OF assms(4), of "[]"] by (simp add: lines_of_cut lines_of_last)
  ultimately show ?thesis
    using assms(1-3) serve_chunks [of "[line @ [NEWLINE]]" l es 0 "[]" s]
    by (simp add: handle_connection_def answer)
qed

definition surrogate_line :: string where
  "surrogate_line = CHR ''{'' # json_string ''api_version'' @ CHR '':'' # json_string ''v2'' @ CHR '','' #
     json_string ''command'' @ CHR '':'' # QUOTE # BSL # ''ud800'' @ QUOTE # CHR '','' #
     json_string ''parameters'' @ '':{}}''"

lemma surrogate_body: "str_body (BSL # ''ud800'' @ QUOTE # r) = Some (utf8 55296, r)"
  by (simp add: str_body.simps(2) BSL_QUOTE take_drop_4 hex4_def hex_val_def low_surrogate_def)
    (simp add: QUOTE_def BSL_def)

lemma scan_members_key:
  "scan_members (Suc n) (json_string k @ CHR '':'' # s) =
     (case scan n (skip_ws s) of None \<Rightarrow> None
      | Some (v, r) \<Rightarrow> (case skip_ws r of [] \<Rightarrow> None
          | e # r' \<Rightarrow> if e = CHR ''}'' then Some ([(k, v)], r')
              else if e = CHR '','' then
                map_option (\<lambda>(kvs, q). ((k, v) # kvs, q)) (scan_members n (skip_ws r'))
              else None))"
  by (simp add: json_string_def str_body_written skip_ws_head)

lemma braces: "CHR ''{'' \<noteq> QUOTE" "\<not> is_ws CHR ''{''"
  by (simp_all add: QUOTE_def is_ws_def)

lemma skip_json_string: "skip_ws (json_string k @ r) = json_string k @ r"
  by (simp add: json_string_def skip_ws_head)

lemma scan_object_key:
  "scan (Suc n) (CHR ''{'' # json_string k @ r) =
     map_option (\<lambda>(kvs, q). (JObj kvs, q)) (scan_members n (json_string k @ r))"
  by (simp add: json_string_def skip_ws_head) (simp add: QUOTE_def)

lemma surrogate_scanned:
  "scan (Suc (Suc (Suc (Suc (Suc n))))) surrogate_line = Some (client_envelope (utf8 55296) [], [])"
proof -
  have "scan (Suc m) (QUOTE # BSL # ''ud800'' @ QUOTE # r) = Some (JStr (utf8 55296), r)" for m r
    using surrogate_body [of r] by simp
  note [simp] = this [simplified]
  have "scan_members (Suc (Suc (Suc (Suc n)))) (json_string ''api_version'' @ CHR '':'' # json_string ''v2'' @ CHR '','' #
     json_string ''command'' @ CHR '':'' # QUOTE # BSL # ''ud800'' @ QUOTE # CHR '','' #
     json_string ''parameters'' @ '':{}}'') = Some ([(''api_version'', JStr API_VERSION), (''command'', JStr (utf8 55296)),
     (''parameters'', JObj [])], [])"
    by (simp add: scan_members_key scan_string skip_json_string skip_ws_head API_VERSION_def braces del: scan_members.simps)
  then show ?thesis
    by (simp add: surrogate_line_def client_envelope_def scan_object_key del: scan.simps scan_members.simps)
qed

lemma surrogate_line_plain:
  "NEWLINE \<notin> set surrogate_line" "surrogate_line \<noteq> []" "length surrogate_line \<le> 100"
  "4 \<le> length surrogate_line" "is_utf8 surrogate_line" "skip_ws surrogate_line = surrogate_line"
  by (simp_all add: surrogate_line_def json_string_def QUOTE_def BSL_def NEWLINE_def json_escape_def
      is_utf8_def point_ascii surrogate_def skip_ws_head is_ws_def)

lemma surrogate_line_parsed:
  "parse_json_request (\<lambda>_. False) surrogate_line = Inr (client_envelope (utf8 55296) [])"
proof -
  have "Suc (Suc (Suc (Suc (Suc (length surrogate_line - 4))))) = Suc (length surrogate_line)"
    using surrogate_line_plain(4) by simp
  then have "scan (Suc (length surrogate_line)) surrogate_line = Some (client_envelope (utf8 55296) [], [])"
    using surrogate_scanned [of "length surrogate_line - 4"] by (simp only:)
  then have "scan_text surrogate_line = Some (client_envelope (utf8 55296) [])"
    by (simp only: scan_text_def surrogate_line_plain) (simp add: skip_ws_def)
  then show ?thesis
    by (simp add: parse_json_request_def surrogate_line_plain) (simp add: client_envelope_def)
qed

lemma commands_are_ascii: "list_all (\<lambda>c. list_all (\<lambda>b. b \<noteq> CHR 0xED) c) (map fst COMMAND_SPECS)"
  by code_simp

lemma unknown_surrogate: "map_of COMMAND_SPECS (utf8 55296) = None"
proof -
  have "(char_of (237 :: nat) :: char) = CHR 0xED" by code_simp
  then have "CHR 0xED \<in> set (utf8 55296)" by (simp add: utf8_def)
  then have "utf8 55296 \<notin> set (map fst COMMAND_SPECS)"
    using commands_are_ascii by (auto simp: list_all_iff simp del: set_map)
  then show ?thesis by (simp add: map_of_eq_None_iff)
qed

lemma surrogate_not_utf8: "\<not> is_utf8 (utf8 55296)"
  using code_points_utf8 [of 55296 "[]"] by (simp add: is_utf8_def surrogate_def)

definition plain_listener :: listener where
  "plain_listener = \<lparr>settings = plain_config, max_request_bytes = 100, auth_token = None,
     interpreter = (\<lambda>_. False), characters = ascii_unicode, scanning = \<lparr>scan_flows = (\<lambda>x. x), scan_tasks = (\<lambda>x. x)\<rparr>\<rparr>"

lemma answers_follow_the_lines_witness:
  "handle_connection plain_listener (\<lambda>_. plain_env) (map Chunk [[NEWLINE], [NEWLINE]]) plain_service =
    ([Failure INVALID_ARGUMENT ''Empty request'', Failure INVALID_ARGUMENT ''Empty request''], plain_service)"
proof -
  have "error_line INVALID_ARGUMENT ''Empty request'' \<noteq> None"
    by (simp add: error_line_def is_utf8_ascii)
  then show ?thesis
    by (subst answers_follow_the_lines)
      (simp_all add: plain_listener_def lines_of_cut lines_of_last answer_line_def)
qed

lemma lone_surrogate_closes_the_connection_witness:
  "handle_connection plain_listener (\<lambda>_. plain_env) [Chunk (surrogate_line @ [NEWLINE])] plain_service =
    ([], plain_service\<lparr>requests_total := requests_total plain_service + 1\<rparr>)"
  by (rule lone_surrogate_closes_the_connection [where c = "utf8 55296" and p = "[]"])
    (simp_all add: plain_listener_def surrogate_line_plain(1-3) surrogate_line_parsed
      unknown_surrogate [simplified] surrogate_not_utf8 [simplified])

end
