(* ===== verification/Registry.thy ===== *)
theory Registry
  imports Envelope JsonLoads
begin

text \<open>
  The A2A registry, \<^verbatim>\<open>synapse/registry.py\<close>: the validation of an agent card, the guard of the
  addresses it may be fetched from, the fetch with its redirections, and the in-memory store of
  the cards with its heartbeats and evictions. A time is an integer number of clock units.

  The network is a parameter: how a URL splits and how an address reads (the standard library's
  parsers), what a name resolves to and what a server answers.
\<close>

section \<open>Addresses\<close>

datatype ip = V4 int | V6 int

definition v4 :: "int \<Rightarrow> int \<Rightarrow> int \<Rightarrow> int \<Rightarrow> int" where
  "v4 a b c d = ((a * 256 + b) * 256 + c) * 256 + d"

definition v6 :: "int list \<Rightarrow> int" where
  "v6 hextets = foldl (\<lambda>n g. n * 65536 + g) 0 hextets"

definition in_network :: "nat \<Rightarrow> int \<Rightarrow> int \<times> nat \<Rightarrow> bool" where
  "in_network width n net = (n div 2 ^ (width - snd net) = fst net div 2 ^ (width - snd net))"

text \<open>The networks of \<open>ipaddress\<close>, with their exceptions.\<close>

definition PRIVATE_V4 :: "(int \<times> nat) list" where
  "PRIVATE_V4 = [(v4 0 0 0 0, 8), (v4 10 0 0 0, 8), (v4 127 0 0 0, 8), (v4 169 254 0 0, 16),
     (v4 172 16 0 0, 12), (v4 192 0 0 0, 24), (v4 192 0 0 170, 31), (v4 192 0 2 0, 24),
     (v4 192 168 0 0, 16), (v4 198 18 0 0, 15), (v4 198 51 100 0, 24), (v4 203 0 113 0, 24),
     (v4 240 0 0 0, 4), (v4 255 255 255 255, 32)]"

definition PRIVATE_V4_EXCEPTIONS :: "(int \<times> nat) list" where
  "PRIVATE_V4_EXCEPTIONS = [(v4 192 0 0 9, 32), (v4 192 0 0 10, 32)]"

definition SHARED_V4 :: "int \<times> nat" where "SHARED_V4 = (v4 100 64 0 0, 10)"

definition PRIVATE_V6 :: "(int \<times> nat) list" where
  "PRIVATE_V6 = [(v6 [0, 0, 0, 0, 0, 0, 0, 1], 128), (v6 [0, 0, 0, 0, 0, 0, 0, 0], 128),
     (v6 [0, 0, 0, 0, 0, 0xFFFF, 0, 0], 96), (v6 [0x64, 0xFF9B, 1, 0, 0, 0, 0, 0], 48),
     (v6 [0x100, 0, 0, 0, 0, 0, 0, 0], 64), (v6 [0x2001, 0, 0, 0, 0, 0, 0, 0], 23),
     (v6 [0x2001, 0xDB8, 0, 0, 0, 0, 0, 0], 32), (v6 [0x2002, 0, 0, 0, 0, 0, 0, 0], 16),
     (v6 [0x3FFF, 0, 0, 0, 0, 0, 0, 0], 20), (v6 [0xFC00, 0, 0, 0, 0, 0, 0, 0], 7),
     (v6 [0xFE80, 0, 0, 0, 0, 0, 0, 0], 10)]"

definition PRIVATE_V6_EXCEPTIONS :: "(int \<times> nat) list" where
  "PRIVATE_V6_EXCEPTIONS = [(v6 [0x2001, 1, 0, 0, 0, 0, 0, 1], 128), (v6 [0x2001, 1, 0, 0, 0, 0, 0, 2], 128),
     (v6 [0x2001, 3, 0, 0, 0, 0, 0, 0], 32), (v6 [0x2001, 4, 0x112, 0, 0, 0, 0, 0], 48),
     (v6 [0x2001, 0x20, 0, 0, 0, 0, 0, 0], 28), (v6 [0x2001, 0x30, 0, 0, 0, 0, 0, 0], 28)]"

definition listed :: "nat \<Rightarrow> (int \<times> nat) list \<Rightarrow> (int \<times> nat) list \<Rightarrow> int \<Rightarrow> bool" where
  "listed width networks exceptions n =
     (list_ex (in_network width n) networks \<and> \<not> list_ex (in_network width n) exceptions)"

fun is_global :: "ip \<Rightarrow> bool" where
  "is_global (V4 n) =
     (\<not> in_network 32 n SHARED_V4 \<and> \<not> listed 32 PRIVATE_V4 PRIVATE_V4_EXCEPTIONS n)"
| "is_global (V6 n) = (\<not> listed 128 PRIVATE_V6 PRIVATE_V6_EXCEPTIONS n)"

text \<open>\<open>addr.ipv4_mapped\<close>: the last 32 bits of an address \<open>::ffff:a.b.c.d\<close>.\<close>

fun unmapped :: "ip \<Rightarrow> ip" where
  "unmapped (V4 n) = V4 n"
| "unmapped (V6 n) = (if n div 2 ^ 32 = 0xFFFF then V4 (n mod 2 ^ 32) else V6 n)"

section \<open>The guard\<close>

text \<open>What a server answers to a request for a URL.\<close>

datatype answer = Body string | RedirectTo nat string | HttpStatus nat | Unreachable string

record network =
  split_url :: "string \<Rightarrow> exc + (string \<times> string)"
  ip_address :: "string \<Rightarrow> ip option"
  resolve :: "string \<Rightarrow> string list option"
  open_url :: "string \<Rightarrow> answer"
  nesting :: "string \<Rightarrow> bool"

datatype registry_error = RegistryError string int nat | RegistryRaises exc | TooDeep

definition ERROR_INVALID_REQUEST :: int where "ERROR_INVALID_REQUEST = -32600"
definition ERROR_INVALID_PARAMS :: int where "ERROR_INVALID_PARAMS = -32602"

definition card_error :: "string \<Rightarrow> registry_error + 'a" where
  "card_error message = Inl (RegistryError message ERROR_INVALID_REQUEST 400)"

definition blocked :: "string \<Rightarrow> registry_error + 'a" where
  "blocked reason = Inl (RegistryError (''registry refuses '' @ reason) ERROR_INVALID_PARAMS 400)"

definition is_global_ip :: "network \<Rightarrow> string \<Rightarrow> bool" where
  "is_global_ip net value = (case ip_address net value of
     None \<Rightarrow> False | Some address \<Rightarrow> is_global (unmapped address))"

definition host_is_public :: "network \<Rightarrow> string \<Rightarrow> bool" where
  "host_is_public net host =
     (if is_global_ip net host then True
      else if ip_address net host \<noteq> None then False
      else case resolve net host of
          None \<Rightarrow> False
        | Some addresses \<Rightarrow> addresses \<noteq> [] \<and> list_all (is_global_ip net) addresses)"

definition ALLOWED_SCHEMES :: "string list" where "ALLOWED_SCHEMES = [''http'', ''https'']"

definition assert_safe_fetch_url :: "network \<Rightarrow> bool \<Rightarrow> string \<Rightarrow> registry_error + unit" where
  "assert_safe_fetch_url net allow_private url =
     (case split_url net url of
        Inl err \<Rightarrow> Inl (RegistryRaises err)
      | Inr (scheme, host) \<Rightarrow>
          if lower scheme \<notin> set ALLOWED_SCHEMES
          then blocked (''non-http(s) scheme '' @ quoted (if scheme = [] then ''<none>'' else scheme))
          else if host = [] then blocked (''URL without a host ('' @ quoted url @ '')'')
          else if allow_private then Inr ()
          else if \<not> host_is_public net host
          then blocked (''private/loopback/link-local target '' @ quoted host)
          else Inr ())"

section \<open>The fetch\<close>

definition MAX_REGISTRATION_BYTES :: nat where "MAX_REGISTRATION_BYTES = 1024 * 1024"

definition fetch_error :: "string \<Rightarrow> string \<Rightarrow> registry_error + 'a" where
  "fetch_error url reason = Inl (RegistryError (''could not fetch card at '' @ url @ '': '' @ reason)
     ERROR_INVALID_PARAMS 502)"

text \<open>
  \<open>HTTPRedirectHandler\<close>: it follows to these schemes, to a URL at most four times and to at most
  ten URLs.
\<close>

definition REDIRECT_SCHEMES :: "string list" where "REDIRECT_SCHEMES = [''http'', ''https'', ''ftp'']"

definition may_follow :: "string list \<Rightarrow> string \<Rightarrow> bool" where
  "may_follow visited target = (count_list visited target < 4 \<and> length (remdups visited) < 10)"

definition load :: "string list \<Rightarrow> nat" where
  "load visited = (\<Sum>u\<in>set visited. min 4 (count_list visited u))"

lemma load_grows:
  assumes "may_follow visited target"
  shows "load visited < load (target # visited)" and "load (target # visited) \<le> 40"
proof -
  let ?rest = "\<lambda>v. \<Sum>u\<in>set visited - {target}. min 4 (count_list v u)"
  have "load (target # visited) = min 4 (Suc (count_list visited target)) + ?rest (target # visited)"
    by (simp add: load_def sum.insert_remove)
  moreover have "?rest (target # visited) = ?rest visited" by (rule sum.cong) auto
  moreover have "load visited = min 4 (count_list visited target) + ?rest visited"
  proof (cases "target \<in> set visited")
    case True
    then show ?thesis by (simp add: load_def sum.remove [of "set visited" target])
  next
    case False
    then show ?thesis by (simp add: load_def count_notin)
  qed
  moreover have "count_list visited target < 4" using assms by (simp add: may_follow_def)
  ultimately show "load visited < load (target # visited)" by simp
  have "load (target # visited) \<le> 4 * card (set (target # visited))"
    unfolding load_def using sum_bounded_above [of "set (target # visited)" _ "4 :: nat"] by (simp add: mult.commute)
  also have "card (set (target # visited)) \<le> 10"
    using assms card_insert_le_m1 [of 10 "set visited" target]
    by (simp add: may_follow_def length_remdups_card_conv)
  finally show "load (target # visited) \<le> 40" by simp
qed

text \<open>
  \<open>opener.open\<close>: the request for \<open>at\<close>, on behalf of \<open>url\<close>, with the URLs it contacted. Without
  \<open>allow_private\<close> each hop passes the guard before it is followed.
\<close>

function follow_hops ::
    "network \<Rightarrow> bool \<Rightarrow> string \<Rightarrow> string list \<Rightarrow> string \<Rightarrow> (registry_error + string) \<times> string list" where
  "follow_hops net allow_private url visited at =
     (case open_url net at of
        Body b \<Rightarrow> (Inr (take (MAX_REGISTRATION_BYTES + 1) b), [at])
      | HttpStatus code \<Rightarrow> (fetch_error url (''HTTP '' @ nat_text code), [at])
      | Unreachable reason \<Rightarrow> (fetch_error url reason, [at])
      | RedirectTo code target \<Rightarrow>
          (case split_url net target of
             Inl err \<Rightarrow> (Inl (RegistryRaises err), [at])
           | Inr (scheme, _) \<Rightarrow>
               if scheme \<notin> set REDIRECT_SCHEMES then (fetch_error url (''HTTP '' @ nat_text code), [at])
               else (case (if allow_private then Inr () else assert_safe_fetch_url net False target) of
                  Inl err \<Rightarrow> (Inl err, [at])
                | Inr _ \<Rightarrow>
                    if may_follow visited target
                    then apsnd ((#) at) (follow_hops net allow_private url (target # visited) target)
                    else (fetch_error url (''HTTP '' @ nat_text code), [at]))))"
  by pat_completeness auto
termination
  by (relation "measure (\<lambda>(net, allow_private, url, visited, at). 41 - load visited)")
    (use load_grows in \<open>fastforce+\<close>)

declare follow_hops.simps [simp del]

definition default_fetch :: "network \<Rightarrow> bool \<Rightarrow> string \<Rightarrow> (registry_error + string) \<times> string list" where
  "default_fetch net allow_private url =
     (case assert_safe_fetch_url net allow_private url of
        Inl err \<Rightarrow> (Inl err, [])
      | Inr _ \<Rightarrow> follow_hops net allow_private url [] url)"

section \<open>Cards\<close>

fun skill_capability :: "json \<Rightarrow> string list" where
  "skill_capability (JObj kvs) = (case map_of kvs ''id'' of
     Some (JStr s) \<Rightarrow> if s = [] then [] else [s] | _ \<Rightarrow> [])"
| "skill_capability _ = []"

fun text_items :: "json \<Rightarrow> string list" where
  "text_items (JStr s) = (if s = [] then [] else [s])"
| "text_items _ = []"

fun skill_tag_items :: "json \<Rightarrow> string list" where
  "skill_tag_items (JObj kvs) = (case map_of kvs ''tags'' of
     Some (JList ts) \<Rightarrow> concat (map text_items ts) | _ \<Rightarrow> [])"
| "skill_tag_items _ = []"

definition skill_capabilities :: "json list \<Rightarrow> string list" where
  "skill_capabilities skills = concat (map skill_capability skills)"

definition skill_tags :: "json list \<Rightarrow> string list" where
  "skill_tags skills = concat (map skill_tag_items skills)"

record searchable =
  sc_name :: string
  sc_description :: json
  sc_capabilities :: "string list"
  sc_tags :: "string list"

definition normalize_card :: "json \<Rightarrow> registry_error + searchable" where
  "normalize_card document =
     (case document of
        JObj kvs \<Rightarrow>
          (case map_of kvs ''name'' of
             Some (JStr name) \<Rightarrow>
               if strip (code_points name) = []
               then card_error (''invalid card: missing '' @ quoted ''name'' @ '' (AgentCard v1.0)'')
               else (case map_of kvs ''supportedInterfaces'' of
                  Some (JList (i # is)) \<Rightarrow>
                    (case map_of kvs ''skills'' of
                       Some (JList skills) \<Rightarrow>
                         if skill_capabilities skills = []
                         then card_error (''invalid card: no skill '' @ quoted ''id'' @ '' to index (capability ''
                           @ ''search needs at least one discoverable skill)'')
                         else Inr \<lparr>sc_name = name,
                           sc_description = (case map_of kvs ''description'' of None \<Rightarrow> JNull | Some v \<Rightarrow> v),
                           sc_capabilities = skill_capabilities skills, sc_tags = skill_tags skills\<rparr>
                     | _ \<Rightarrow> card_error (''invalid card: '' @ quoted ''skills'' @ '' must be a list''))
                | _ \<Rightarrow> card_error (''invalid card: missing non-empty '' @ quoted ''supportedInterfaces''))
           | _ \<Rightarrow> card_error (''invalid card: missing '' @ quoted ''name'' @ '' (AgentCard v1.0)''))
      | _ \<Rightarrow> card_error ''invalid card: expected a JSON object'')"

section \<open>The store\<close>

record entry =
  en_url :: string
  en_name :: string
  en_description :: json
  en_capabilities :: "string list"
  en_tags :: "string list"
  en_verified :: bool
  en_registered :: int
  en_seen :: int

text \<open>The dict from URLs to entries, in the order of insertion.\<close>

record registry =
  reg_cards :: "(string \<times> entry) list"
  reg_ttl :: int
  reg_private :: bool

definition WELL_KNOWN_CARD :: string where "WELL_KNOWN_CARD = ''/.well-known/agent-card.json''"

definition rstrip_slash :: "string \<Rightarrow> string" where
  "rstrip_slash s = rev (dropWhile (\<lambda>c. c = CHR ''/'') (rev s))"

definition resolve_card_url :: "string \<Rightarrow> string" where
  "resolve_card_url url =
     (if ends_with ''.json'' (rstrip_slash url) \<or> ends_with WELL_KNOWN_CARD (rstrip_slash url) then url
      else rstrip_slash url @ WELL_KNOWN_CARD)"

definition register_payload ::
    "int \<Rightarrow> json \<Rightarrow> string \<Rightarrow> bool \<Rightarrow> registry \<Rightarrow> (registry_error + entry) \<times> registry" where
  "register_payload at document url verified r =
     (case normalize_card document of
        Inl err \<Rightarrow> (Inl err, r)
      | Inr n \<Rightarrow>
          (let x = \<lparr>en_url = url, en_name = sc_name n, en_description = sc_description n,
                 en_capabilities = sort (sc_capabilities n), en_tags = sort (remdups (sc_tags n)),
                 en_verified = verified, en_registered = at, en_seen = at\<rparr>
           in (Inr x, r\<lparr>reg_cards := AList.update url x (reg_cards r)\<rparr>)))"

definition register ::
    "network \<Rightarrow> int \<Rightarrow> string \<Rightarrow> registry \<Rightarrow> (registry_error + entry) \<times> registry" where
  "register net at url r =
     (let card_url = resolve_card_url url in
      case fst (default_fetch net (reg_private r) card_url) of
        Inl err \<Rightarrow> (Inl err, r)
      | Inr raw \<Rightarrow>
          (case json_loads (nesting net) raw of
             Loaded payload \<Rightarrow> register_payload at payload card_url True r
           | TooNested \<Rightarrow> (Inl TooDeep, r)
           | _ \<Rightarrow> (Inl (RegistryError (''invalid card JSON at '' @ card_url) ERROR_INVALID_PARAMS 502), r)))"

text \<open>\<open>_evict_stale_locked\<close>: the URLs it removed.\<close>

definition stale :: "int \<Rightarrow> registry \<Rightarrow> entry \<Rightarrow> bool" where
  "stale at r x = (reg_ttl r < at - en_seen x)"

definition evict_stale :: "int \<Rightarrow> registry \<Rightarrow> string list \<times> registry" where
  "evict_stale at r =
     (map fst (filter (\<lambda>(u, x). stale at r x) (reg_cards r)),
      r\<lparr>reg_cards := filter (\<lambda>(u, x). \<not> stale at r x) (reg_cards r)\<rparr>)"

definition fits :: "unicode \<Rightarrow> string option \<Rightarrow> string list \<Rightarrow> bool" where
  "fits u needle words = (case needle of
     None \<Rightarrow> True
   | Some s \<Rightarrow> s = [] \<or> py_lower u s \<in> set (map (py_lower u) words))"

definition search ::
    "unicode \<Rightarrow> int \<Rightarrow> string option \<Rightarrow> string option \<Rightarrow> registry \<Rightarrow> entry list \<times> registry" where
  "search u at capability tag r =
     (let r' = snd (evict_stale at r) in
      (sort_key en_url (filter (\<lambda>x. fits u capability (en_capabilities x) \<and> fits u tag (en_tags x))
         (map snd (reg_cards r'))), r'))"

definition get_card :: "int \<Rightarrow> string \<Rightarrow> registry \<Rightarrow> entry option \<times> registry" where
  "get_card at url r = (let r' = snd (evict_stale at r) in (map_of (reg_cards r') url, r'))"

definition list_all_cards :: "int \<Rightarrow> registry \<Rightarrow> entry list \<times> registry" where
  "list_all_cards at r =
     (let r' = snd (evict_stale at r) in (sort_key en_url (map snd (reg_cards r')), r'))"

definition heartbeat :: "int \<Rightarrow> string \<Rightarrow> registry \<Rightarrow> bool \<times> registry" where
  "heartbeat at url r =
     (case map_of (reg_cards r) url of
        None \<Rightarrow> (False, r)
      | Some x \<Rightarrow> (True, r\<lparr>reg_cards := AList.update url (x\<lparr>en_seen := at\<rparr>) (reg_cards r)\<rparr>))"

definition remove_card :: "string \<Rightarrow> registry \<Rightarrow> bool \<times> registry" where
  "remove_card url r =
     (map_of (reg_cards r) url \<noteq> None, r\<lparr>reg_cards := AList.delete url (reg_cards r)\<rparr>)"

section \<open>What is contacted\<close>

text \<open>A fetch contacts the first URL, then what the hop it may follow contacts.\<close>

lemma follow_hops_contacts:
  "snd (follow_hops net priv url visited at) = [at] \<or>
     (\<exists>target. may_follow visited target \<and> (\<not> priv \<longrightarrow> assert_safe_fetch_url net False target = Inr ())
       \<and> snd (follow_hops net priv url visited at)
           = at # snd (follow_hops net priv url (target # visited) target))"
proof (cases "open_url net at")
  case (RedirectTo code target)
  note step = follow_hops.simps [of net priv url visited at]
  show ?thesis
  proof (cases "split_url net target")
    case (Inl err)
    then have "snd (follow_hops net priv url visited at) = [at]" by (simp add: step RedirectTo)
    then show ?thesis by simp
  next
    case (Inr p)
    obtain scheme host where p: "p = (scheme, host)" by (cases p)
    show ?thesis
    proof (cases "scheme \<in> set REDIRECT_SCHEMES \<and> may_follow visited target
        \<and> (priv \<or> assert_safe_fetch_url net False target = Inr ())")
      case True
      then have "follow_hops net priv url visited at =
          apsnd ((#) at) (follow_hops net priv url (target # visited) target)"
        by (auto simp: step RedirectTo Inr p)
      with True show ?thesis by (intro disjI2 exI [of _ target]) auto
    next
      case False
      then have "snd (follow_hops net priv url visited at) = [at]"
        by (auto simp: step RedirectTo Inr p split: sum.splits)
      then show ?thesis by simp
    qed
  qed
qed (simp_all add: follow_hops.simps [of net priv url visited at])

lemma follow_hops_guarded:
  assumes "assert_safe_fetch_url net False at = Inr ()" and "u \<in> set (snd (follow_hops net False url visited at))"
  shows "assert_safe_fetch_url net False u = Inr ()"
  using assms
proof (induction "41 - load visited" arbitrary: visited at rule: less_induct)
  case less
  show ?case using follow_hops_contacts [of net False url visited at]
  proof (elim disjE exE conjE)
    fix target
    assume "may_follow visited target" and safe: "\<not> False \<longrightarrow> assert_safe_fetch_url net False target = Inr ()"
      and e: "snd (follow_hops net False url visited at)
        = at # snd (follow_hops net False url (target # visited) target)"
    then have "41 - load (target # visited) < 41 - load visited" using load_grows [of visited target] by simp
    with less safe e show ?thesis by auto
  qed (use less.prems in simp)
qed

lemma follow_hops_bound: "length (snd (follow_hops net priv url visited at)) \<le> Suc (40 - load visited)"
proof (induction "41 - load visited" arbitrary: visited at rule: less_induct)
  case less
  show ?case using follow_hops_contacts [of net priv url visited at]
  proof (elim disjE exE conjE)
    fix target
    assume "may_follow visited target"
      and e: "snd (follow_hops net priv url visited at)
        = at # snd (follow_hops net priv url (target # visited) target)"
    then have "load visited < load (target # visited)" "load (target # visited) \<le> 40"
      using load_grows by blast+
    moreover from this less [of "target # visited" target]
    have "length (snd (follow_hops net priv url (target # visited) target)) \<le> Suc (40 - load (target # visited))"
      by simp
    ultimately show ?thesis using e by simp
  qed simp
qed

text \<open>
  C29. Unless private targets are allowed, every URL that a fetch contacts, the redirections
  included, is an http or https URL whose host is a public address or a name that resolves to
  public addresses only.
\<close>

theorem fetch_contacts_public_hosts:
  assumes "u \<in> set (snd (default_fetch net False url))"
  shows "\<exists>scheme host. split_url net u = Inr (scheme, host) \<and> lower scheme \<in> {''http'', ''https''} \<and> host \<noteq> [] \<and>
    (case ip_address net host of
       Some a \<Rightarrow> is_global (unmapped a)
     | None \<Rightarrow> \<exists>addresses. resolve net host = Some addresses \<and> addresses \<noteq> [] \<and>
         (\<forall>a \<in> set addresses. \<exists>b. ip_address net a = Some b \<and> is_global (unmapped b)))"
proof -
  have safe: "assert_safe_fetch_url net False u = Inr ()"
    using assms by (auto simp: default_fetch_def split: sum.splits intro: follow_hops_guarded)
  then obtain scheme host where "split_url net u = Inr (scheme, host)"
    by (auto simp: assert_safe_fetch_url_def split: sum.splits)
  with safe show ?thesis
    by (intro exI [of _ scheme] exI [of _ host])
      (auto simp: assert_safe_fetch_url_def blocked_def ALLOWED_SCHEMES_def host_is_public_def
        is_global_ip_def list_all_iff split: if_splits option.splits)
qed


section \<open>The store over time\<close>

datatype registry_op =
    Register_url string
  | Register_payload json string bool
  | Search "string option" "string option"
  | Get_card string
  | List_all
  | Heartbeat string
  | Remove string
  | Evict

fun registry_step :: "unicode \<Rightarrow> network \<Rightarrow> int \<times> registry_op \<Rightarrow> registry \<Rightarrow> registry" where
  "registry_step u net (at, Register_url url) r = snd (register net at url r)"
| "registry_step u net (at, Register_payload document url verified) r =
     snd (register_payload at document url verified r)"
| "registry_step u net (at, Search capability tag) r = snd (search u at capability tag r)"
| "registry_step u net (at, Get_card url) r = snd (get_card at url r)"
| "registry_step u net (at, List_all) r = snd (list_all_cards at r)"
| "registry_step u net (at, Heartbeat url) r = snd (heartbeat at url r)"
| "registry_step u net (at, Remove url) r = snd (remove_card url r)"
| "registry_step u net (at, Evict) r = snd (evict_stale at r)"

definition entry_ok :: "int \<Rightarrow> string \<times> entry \<Rightarrow> bool" where
  "entry_ok at kx = (en_url (snd kx) = fst kx \<and> en_capabilities (snd kx) \<noteq> []
     \<and> en_registered (snd kx) \<le> en_seen (snd kx) \<and> en_seen (snd kx) \<le> at)"

definition registry_ok :: "int \<Rightarrow> registry \<Rightarrow> bool" where
  "registry_ok at r = (distinct (map fst (reg_cards r)) \<and> list_all (entry_ok at) (reg_cards r))"

lemma registry_ok_later: "registry_ok at r \<Longrightarrow> at \<le> at' \<Longrightarrow> registry_ok at' r"
  by (fastforce simp: registry_ok_def list_all_iff entry_ok_def)

lemma registry_ok_filter: "registry_ok at r \<Longrightarrow> registry_ok at (r\<lparr>reg_cards := filter P (reg_cards r)\<rparr>)"
  by (auto simp: registry_ok_def list_all_iff distinct_map_filter)

lemma set_update_subset: "set (AList.update k x xs) \<subseteq> insert (k, x) (set xs)"
  by (induction xs) auto

lemma registry_ok_update:
  "registry_ok at r \<Longrightarrow> entry_ok at (k, x) \<Longrightarrow> registry_ok at (r\<lparr>reg_cards := AList.update k x (reg_cards r)\<rparr>)"
  using set_update_subset [of k x "reg_cards r"]
  by (auto simp: registry_ok_def list_all_iff distinct_update)

lemma normalized_capabilities: "normalize_card document = Inr n \<Longrightarrow> sc_capabilities n \<noteq> []"
  by (auto simp: normalize_card_def card_error_def split: json.splits option.splits if_splits list.splits)

lemma registry_ok_payload: "registry_ok at r \<Longrightarrow> registry_ok at (snd (register_payload at document url verified r))"
  by (auto simp: register_payload_def Let_def entry_ok_def intro!: registry_ok_update
      dest!: normalized_capabilities arg_cong [of "sort _" "[]" set] split: sum.splits)

lemma registry_ok_heartbeat: "registry_ok at r \<Longrightarrow> registry_ok at (snd (heartbeat at url r))"
proof (cases "map_of (reg_cards r) url")
  case (Some x)
  assume ok: "registry_ok at r"
  with map_of_SomeD [OF Some] have "entry_ok at (url, x)" by (auto simp: registry_ok_def list_all_iff)
  then have "entry_ok at (url, x\<lparr>en_seen := at\<rparr>)" by (simp add: entry_ok_def)
  from registry_ok_update [OF ok this] Some show ?thesis by (simp add: heartbeat_def)
qed (simp add: heartbeat_def)

lemma registry_ok_remove: "registry_ok at r \<Longrightarrow> registry_ok at (snd (remove_card url r))"
  by (simp add: remove_card_def AList.delete_eq registry_ok_filter)

lemma registry_ok_step: "registry_ok at r \<Longrightarrow> registry_ok at (registry_step u net (at, act) r)"
  by (cases act) (auto simp: register_def search_def get_card_def list_all_cards_def evict_stale_def Let_def
      intro: registry_ok_payload registry_ok_heartbeat registry_ok_remove registry_ok_filter
      split: sum.splits loaded.splits)

lemma registry_step_ttl: "reg_ttl (registry_step u net (at, act) r) = reg_ttl r"
  by (cases act) (auto simp: register_def register_payload_def heartbeat_def remove_card_def search_def
      get_card_def list_all_cards_def evict_stale_def Let_def split: sum.splits loaded.splits option.splits)

fun registry_run :: "unicode \<Rightarrow> network \<Rightarrow> (int \<times> registry_op) list \<Rightarrow> registry \<Rightarrow> registry" where
  "registry_run u net [] r = r"
| "registry_run u net (act # acts) r = registry_run u net acts (registry_step u net act r)"

lemma registry_ok_run:
  "registry_ok at r \<Longrightarrow> sorted (at # map fst acts @ [at']) \<Longrightarrow> registry_ok at' (registry_run u net acts r)"
proof (induction acts arbitrary: at r)
  case (Cons act acts)
  then have "registry_ok (fst act) (registry_step u net act r)"
    using registry_ok_step [of "fst act" r u net "snd act"] registry_ok_later [of at r "fst act"] by simp
  with Cons.IH [of "fst act"] Cons.prems(2) show ?case by simp
qed (auto intro: registry_ok_later)

lemma distinct_sorted_filter:
  "distinct (map f xs) \<Longrightarrow> distinct (map f (sort_key f (filter P xs)))"
  using distinct_map_filter [of f xs P] by (simp add: distinct_map)

definition empty_registry :: "int \<Rightarrow> bool \<Rightarrow> registry" where
  "empty_registry ttl priv = \<lparr>reg_cards = [], reg_ttl = ttl, reg_private = priv\<rparr>"

text \<open>
  A search finds, after any operations, exactly the stored cards that were seen within the
  time to live and that fit the filters, each once and in the order of their URLs.
\<close>

theorem search_finds_the_live_cards:
  fixes u net acts ttl priv
  defines "r \<equiv> registry_run u net acts (empty_registry ttl priv)"
  assumes times: "sorted (map fst acts @ [at])"
  shows "sorted_wrt (<) (map en_url (fst (search u at capability tag r))) \<and>
    (\<forall>x. x \<in> set (fst (search u at capability tag r)) \<longleftrightarrow>
       map_of (reg_cards r) (en_url x) = Some x \<and> at - en_seen x \<le> reg_ttl r
       \<and> fits u capability (en_capabilities x) \<and> fits u tag (en_tags x))"
proof -
  have "sorted (Min (insert at (set (map fst acts))) # map fst acts @ [at])" using times by simp
  moreover have "registry_ok (Min (insert at (set (map fst acts)))) (empty_registry ttl priv)"
    by (simp add: registry_ok_def empty_registry_def)
  ultimately have ok: "registry_ok at r" unfolding r_def by (rule registry_ok_run [rotated])
  let ?live = "filter (\<lambda>(k, x). \<not> stale at r x) (reg_cards r)"
  have keys: "map en_url (map snd cs) = map fst cs" if "list_all (entry_ok at) cs" for cs
    using that by (auto simp: list_all_iff entry_ok_def)
  have "list_all (entry_ok at) ?live" "distinct (map fst ?live)"
    using registry_ok_filter [OF ok, of "\<lambda>(k, x). \<not> stale at r x"] by (simp_all add: registry_ok_def)
  then have "distinct (map en_url (map snd ?live))" using keys [of ?live] by (simp only:)
  then have "distinct (map en_url (fst (search u at capability tag r)))"
    by (simp add: search_def evict_stale_def Let_def distinct_sorted_filter)
  moreover have "sorted (map en_url (fst (search u at capability tag r)))"
    by (simp add: search_def Let_def)
  ultimately have "sorted_wrt (<) (map en_url (fst (search u at capability tag r)))"
    by (simp only: strict_sorted_iff)
  moreover have "map_of (reg_cards r) (en_url x) = Some x \<longleftrightarrow> x \<in> snd ` set (reg_cards r)" for x
    using ok by (force simp: registry_ok_def list_all_iff entry_ok_def)
  then have "x \<in> set (fst (search u at capability tag r)) \<longleftrightarrow>
       map_of (reg_cards r) (en_url x) = Some x \<and> at - en_seen x \<le> reg_ttl r
       \<and> fits u capability (en_capabilities x) \<and> fits u tag (en_tags x)" for x
    by (force simp: search_def evict_stale_def Let_def stale_def)
  ultimately show ?thesis by blast
qed

definition sample_card :: json where
  "sample_card = JObj [(''name'', JStr ''Bot''), (''supportedInterfaces'', JList [JNull]),
     (''skills'', JList [JObj [(''id'', JStr ''sum''), (''tags'', JList [JStr ''math''])]])]"

definition sample_net :: network where
  "sample_net = \<lparr>split_url = (\<lambda>s. Inr (''http'', ''8.8.8.8'')),
     ip_address = (\<lambda>s. if s = ''8.8.8.8'' then Some (V4 (v4 8 8 8 8)) else None),
     resolve = (\<lambda>s. None), open_url = (\<lambda>s. Body ''{}''), nesting = (\<lambda>s. False)\<rparr>"

lemma public_address: "is_global (V4 (v4 8 8 8 8))"
  by code_simp

lemma sample_guard: "assert_safe_fetch_url sample_net False s = Inr ()"
proof -
  have "lower ''http'' = ''http''" by code_simp
  then show ?thesis using public_address
    by (simp add: assert_safe_fetch_url_def sample_net_def ALLOWED_SCHEMES_def host_is_public_def
      is_global_ip_def)
qed

lemma fetch_contacts_public_hosts_witness:
  "\<exists>scheme host. split_url sample_net ''http://dns'' = Inr (scheme, host) \<and>
    lower scheme \<in> {''http'', ''https''} \<and> host \<noteq> [] \<and>
    (case ip_address sample_net host of
       Some a \<Rightarrow> is_global (unmapped a)
     | None \<Rightarrow> \<exists>addresses. resolve sample_net host = Some addresses \<and> addresses \<noteq> [] \<and>
         (\<forall>a \<in> set addresses. \<exists>b. ip_address sample_net a = Some b \<and> is_global (unmapped b)))"
proof (rule fetch_contacts_public_hosts)
  show "''http://dns'' \<in> set (snd (default_fetch sample_net False ''http://dns''))"
    using follow_hops_contacts [of sample_net False "''http://dns''" "[]" "''http://dns''"]
    by (auto simp: default_fetch_def sample_guard)
qed

lemma singleton_list: "distinct xs \<Longrightarrow> set xs = {x} \<Longrightarrow> xs = [x]"
  by (cases xs) (auto simp: subset_singleton_iff)

definition sample_acts :: "(int \<times> registry_op) list" where
  "sample_acts = [(1, Register_payload sample_card ''http://bot'' True), (2, Heartbeat ''http://bot'')]"

lemma search_finds_the_live_cards_witness:
  "map en_url (fst (search ascii_unicode 3 (Some ''SUM'') None
     (registry_run ascii_unicode sample_net sample_acts (empty_registry 10 False)))) = [''http://bot'']"
proof -
  let ?r = "registry_run ascii_unicode sample_net sample_acts (empty_registry 10 False)"
  let ?x = "\<lparr>en_url = ''http://bot'', en_name = ''Bot'', en_description = JNull, en_capabilities = [''sum''],
    en_tags = [''math''], en_verified = True, en_registered = 1, en_seen = 2\<rparr>"
  have "strip (code_points ''Bot'') \<noteq> []" by (simp add: point_ascii strip_def is_space_def)
  then have r: "reg_cards ?r = [(''http://bot'', ?x)]" "reg_ttl ?r = 10"
    by (simp_all add: sample_acts_def empty_registry_def register_payload_def normalize_card_def
        sample_card_def heartbeat_def skill_capabilities_def skill_tags_def Let_def)
  have fits: "fits ascii_unicode (Some ''SUM'') (en_capabilities ?x)" by code_simp
  have "sorted (map fst sample_acts @ [3])" by (simp add: sample_acts_def)
  from search_finds_the_live_cards [OF this, where u = ascii_unicode and net = sample_net
      and ttl = 10 and priv = False and capability = "Some ''SUM''" and tag = None]
  have "\<forall>y. y \<in> set (fst (search ascii_unicode 3 (Some ''SUM'') None ?r)) \<longleftrightarrow> y = ?x"
    and "distinct (map en_url (fst (search ascii_unicode 3 (Some ''SUM'') None ?r)))"
    using fits unfolding r by (auto simp: fits_def strict_sorted_iff split: if_splits)
  moreover from this have "set (fst (search ascii_unicode 3 (Some ''SUM'') None ?r)) = {?x}" by blast
  ultimately have "fst (search ascii_unicode 3 (Some ''SUM'') None ?r) = [?x]"
    by (intro singleton_list) (simp_all add: distinct_map)
  then show ?thesis by simp
qed

end
