(* ===== verification/Bridge.thy ===== *)
theory Bridge
  imports Connection Registry
begin

text \<open>
  The gateway to the A2A protocol, \<^verbatim>\<open>synapse/a2a_bridge.py\<close>: the HTTP handler with its
  token, the negotiation of the version, the bounded body, the JSON-RPC dispatch and its four
  methods over the client library, the registry's endpoints and the agent card. The gateway has
  its own causal clock. What Python's libraries make of a request line, of a query and of a header
  are the fields of the request.
\<close>

section \<open>A call of the service\<close>

definition first_line :: "listener \<Rightarrow> string" where
  "first_line l = (case auth_token l of None \<Rightarrow> [] | Some t \<Rightarrow> if t = [] then [] else t @ [NEWLINE])"

text \<open>
  A command through the client library and a connection of the server: the data of the reply, or
  the error that the client raises, which quotes the error line.
\<close>

definition service_reply ::
    "listener \<Rightarrow> env \<Rightarrow> string \<Rightarrow> params \<Rightarrow> service \<Rightarrow> (client_error + reply) \<times> service" where
  "service_reply l e command p s =
     (let payload = compact (client_envelope command p) in
      if \<not> is_utf8 payload then (Inl ClientUnicodeError, s)
      else if MAX_REQUEST_BYTES < int (length payload)
      then (Inl (ClientTransportError ''Request too large (1 MiB max)''), s)
      else (case handle_connection l (\<lambda>_. e) [Chunk (first_line l @ payload @ [NEWLINE])] s of
          ([], s') \<Rightarrow>
            (Inl (ClientTransportError ''The service closed the connection without a response''), s')
        | (Success data # _, s') \<Rightarrow> (Inr data, s')
        | (Failure c m # _, s') \<Rightarrow>
            (Inl (ApiClientError (JStr (code_name c)) (JStr (if m = [] then code_name c else m))), s')))"

text \<open>The client does raise that error on the line that the server writes.\<close>

lemma error_line_is_raised:
  assumes "error_line c m = Some raw" and "int (length raw) \<le> MAX_RESPONSE_BYTES" and "\<not> too_nested raw"
  shows "andthen (transact too_nested (\<lambda>_. Inr raw) payload) read_response =
    Inl (ApiClientError (JStr (code_name c)) (JStr (if m = [] then code_name c else m)))"
proof -
  have ok: "json_ok (error_response c m)" by (simp add: error_response_def)
  have "raw \<noteq> []" and utf8: "is_utf8 raw" and scan: "scan_text raw = Some (error_response c m)"
    using error_line_utf8 [OF assms(1)] assms(1) scan_line [OF ok, of "[NEWLINE]"]
    by (auto simp: error_line_def NEWLINE_def split: if_splits)
  moreover have "json_ok (error_response c m)" "digits_ok (error_response c m)"
    by (simp_all add: error_response_def)
  ultimately have "parse_response too_nested raw = Inr [(''success'', JBool False), (''data'', JNull),
      (''error'', JObj [(''code'', JStr (code_name c)), (''message'', JStr m)])]"
    using assms(3) dicts_json_ok [of "error_response c m"]
    by (simp add: parse_response_def json_loads_def) (simp add: error_response_def)
  with assms(2) show ?thesis by (simp add: transact_def read_response_def get_or_def or_else_def Let_def)
qed

section \<open>The gateway\<close>

record bridge =
  br_agent :: string
  br_password :: string
  br_port :: nat
  br_token :: "ustr option"
  br_clock :: hlc
  br_registry :: registry

text \<open>
  What surrounds it: the service it is a client of, the network of the registry's fetches, the
  installed version, the text of a Python value in a message and that of a time.
\<close>

record gateway =
  gw_listener :: listener
  gw_network :: network
  gw_version :: string
  gw_nesting :: "string \<Rightarrow> bool"
  gw_text_of :: "json \<Rightarrow> string"
  gw_time_text :: "int \<Rightarrow> string"

definition A2A_PROTOCOL_VERSION :: string where "A2A_PROTOCOL_VERSION = ''1.0''"
definition A2A_VERSION_NOT_SUPPORTED :: int where "A2A_VERSION_NOT_SUPPORTED = -32009"
definition MAX_BRIDGE_REQUEST_BYTES :: int where "MAX_BRIDGE_REQUEST_BYTES = 1024 * 1024"

definition a2a_error :: "json \<Rightarrow> int \<Rightarrow> json \<Rightarrow> json" where
  "a2a_error rpc_id code message = JObj [(''jsonrpc'', JStr ''2.0''), (''id'', rpc_id),
     (''error'', JObj [(''code'', JInt code), (''message'', message)])]"

definition a2a_result :: "json \<Rightarrow> params \<Rightarrow> json" where
  "a2a_result rpc_id r = JObj [(''jsonrpc'', JStr ''2.0''), (''id'', rpc_id), (''result'', JObj r)]"

subsection \<open>The methods\<close>

text \<open>
  What a method makes: a result, a refusal of its parameters, the message of an \<open>ApiClientError\<close>,
  or any other exception.
\<close>

datatype outcome = Result params | Refusal int string | ApiRefused json | Internal

definition agent_args :: "bridge \<Rightarrow> params" where
  "agent_args b = [(''my_name_auth'', JStr (br_agent b)), (''my_password_auth'', JStr (br_password b))]"

definition bridge_call ::
    "gateway \<Rightarrow> env \<Rightarrow> string \<Rightarrow> params \<Rightarrow> bridge \<Rightarrow> service \<Rightarrow> (outcome + reply) \<times> service" where
  "bridge_call g e name args b s =
     (case map_of CLIENT_METHODS name of
        None \<Rightarrow> (Inl Internal, s)
      | Some m \<Rightarrow> (case call_parameters (name, m) (args @ agent_args b) of
            Inl _ \<Rightarrow> (Inl Internal, s)
          | Inr p \<Rightarrow> (case service_reply (gw_listener g) e name p s of
              (Inl (ApiClientError c m), s') \<Rightarrow> (Inl (ApiRefused m), s')
            | (Inl _, s') \<Rightarrow> (Inl Internal, s')
            | (Inr data, s') \<Rightarrow> (Inr data, s'))))"

definition upper_char :: "char \<Rightarrow> char" where
  "upper_char c = (let n = (of_char c :: nat) in if 97 \<le> n \<and> n \<le> 122 then char_of (n - 32) else c)"

definition task_status :: "task_view \<Rightarrow> json" where
  "task_status t = JObj [(''state'', JStr (map upper_char (state_text (task_state (tv_row t)))))]"

definition envelope_hlc :: "gateway \<Rightarrow> env \<Rightarrow> params \<Rightarrow> bridge \<Rightarrow> outcome \<times> bridge" where
  "envelope_hlc g e r b =
     (case stamp (physical e + clock_skew_ms (settings (gw_listener g))) (br_clock b) of
        (Inl _, k) \<Rightarrow> (Internal, b\<lparr>br_clock := k\<rparr>)
      | (Inr h, k) \<Rightarrow> (Result (r @ [(''hlc'', JStr h)]), b\<lparr>br_clock := k\<rparr>))"

definition with_task ::
    "gateway \<Rightarrow> env \<Rightarrow> (task_view \<Rightarrow> params) \<Rightarrow> bridge \<Rightarrow> (outcome + reply) \<times> service
     \<Rightarrow> outcome \<times> bridge \<times> service" where
  "with_task g e f b called =
     (case called of
        (Inr (RTask t), s) \<Rightarrow> (case envelope_hlc g e (f t) b of (r, b') \<Rightarrow> (r, b', s))
      | (Inr _, s) \<Rightarrow> (Internal, b, s)
      | (Inl r, s) \<Rightarrow> (r, b, s))"

text \<open>\<open>(message.get("parts") or [{}])[0].get("text", "")\<close>.\<close>

definition first_text :: "params \<Rightarrow> json option" where
  "first_text message =
     (case or_else (get_or message ''parts'' JNull) (JList [JObj []]) of
        JList (JObj part # _) \<Rightarrow> Some (get_or part ''text'' (JStr []))
      | _ \<Rightarrow> None)"

definition tasks_message ::
    "gateway \<Rightarrow> env \<Rightarrow> params \<Rightarrow> bridge \<Rightarrow> service \<Rightarrow> outcome \<times> bridge \<times> service" where
  "tasks_message g e p b s =
     (case or_else (get_or p ''message'' JNull) (JObj []) of
        JObj message \<Rightarrow>
          (case (first_text message, or_else (get_or message ''metadata'' JNull) (JObj [])) of
             (Some words, JObj metadata) \<Rightarrow>
               (let assignee = or_else (get_or metadata ''assignee'' JNull) (JStr (br_agent b));
                    create = (\<lambda>b'. with_task g e
                       (\<lambda>t. [(''taskId'', JStr (task_id (tv_row t))), (''status'', task_status t)]) b'
                       (bridge_call g e ''create_task''
                          [(''title'', or_else words (JStr ''A2A task'')), (''assignee_username'', assignee)] b' s))
                in case get_or metadata ''hlc'' JNull of
                     JNull \<Rightarrow> create b
                   | JStr h \<Rightarrow>
                       if is_valid (code_points h) then
                         (case observe (code_points h) (br_clock b) of
                            (Inl _, k) \<Rightarrow> (Internal, b\<lparr>br_clock := k\<rparr>, s)
                          | (Inr _, k) \<Rightarrow> create (b\<lparr>br_clock := k\<rparr>))
                       else (Refusal (-32602)
                         ''invalid params: message.metadata.hlc is not a canonical hybrid logical clock'', b, s)
                   | _ \<Rightarrow> (Refusal (-32602)
                         ''invalid params: message.metadata.hlc is not a canonical hybrid logical clock'', b, s))
           | _ \<Rightarrow> (Internal, b, s))
      | _ \<Rightarrow> (Internal, b, s))"

definition tasks_get ::
    "gateway \<Rightarrow> env \<Rightarrow> params \<Rightarrow> bridge \<Rightarrow> service \<Rightarrow> outcome \<times> bridge \<times> service" where
  "tasks_get g e p b s =
     with_task g e
       (\<lambda>t. [(''taskId'', JStr (task_id (tv_row t))), (''status'', task_status t),
          (''title'', JStr (task_title (tv_row t))), (''result'', jopt (task_result (tv_row t)))]) b
       (bridge_call g e ''get_task'' [(''task_id'', get_or p ''id'' (JStr []))] b s)"

definition tasks_list :: "gateway \<Rightarrow> env \<Rightarrow> bridge \<Rightarrow> service \<Rightarrow> outcome \<times> bridge \<times> service" where
  "tasks_list g e b s =
     (case bridge_call g e ''list_tasks'' [] b s of
        (Inr (RTasks (_, ts, _)), s') \<Rightarrow>
          (case envelope_hlc g e [(''tasks'', JList (map (\<lambda>t. JObj [
              (''taskId'', JStr (task_id (tv_row t))), (''status'', task_status t),
              (''title'', JStr (task_title (tv_row t)))]) ts))] b of (r, b') \<Rightarrow> (r, b', s'))
      | (Inr _, s') \<Rightarrow> (Internal, b, s')
      | (Inl r, s') \<Rightarrow> (r, b, s'))"

definition tasks_cancel ::
    "gateway \<Rightarrow> env \<Rightarrow> params \<Rightarrow> bridge \<Rightarrow> service \<Rightarrow> outcome \<times> bridge \<times> service" where
  "tasks_cancel g e p b s =
     with_task g e
       (\<lambda>t. [(''taskId'', JStr (task_id (tv_row t))), (''status'', task_status t)]) b
       (bridge_call g e ''update_task_state''
          [(''task_id'', get_or p ''id'' (JStr [])), (''new_state'', JStr ''canceled'')] b s)"

text \<open>The parameters of a call: only \<open>tasks/list\<close> does without a dict.\<close>

definition run_method ::
    "gateway \<Rightarrow> env \<Rightarrow> string \<Rightarrow> json \<Rightarrow> bridge \<Rightarrow> service \<Rightarrow> (outcome \<times> bridge \<times> service) option" where
  "run_method g e name p b s =
     (let dict = (\<lambda>f. Some (case p of JObj kvs \<Rightarrow> f kvs | _ \<Rightarrow> (Internal, b, s))) in
      if name = ''tasks/message'' then dict (\<lambda>kvs. tasks_message g e kvs b s)
      else if name = ''tasks/get'' then dict (\<lambda>kvs. tasks_get g e kvs b s)
      else if name = ''tasks/list'' then Some (tasks_list g e b s)
      else if name = ''tasks/cancel'' then dict (\<lambda>kvs. tasks_cancel g e kvs b s)
      else None)"

definition rpc_answer :: "json \<Rightarrow> outcome \<Rightarrow> json" where
  "rpc_answer rpc_id r =
     (case r of
        Result kvs \<Rightarrow> a2a_result rpc_id kvs
      | Refusal code m \<Rightarrow> a2a_error rpc_id code (JStr m)
      | ApiRefused m \<Rightarrow> a2a_error rpc_id (-32000) m
      | Internal \<Rightarrow> a2a_error rpc_id (-32603) (JStr ''Internal error''))"

definition bridge_dispatch ::
    "gateway \<Rightarrow> env \<Rightarrow> params \<Rightarrow> bridge \<Rightarrow> service \<Rightarrow> json \<times> bridge \<times> service" where
  "bridge_dispatch g e request b s =
     (case map_of request ''method'' of
        Some name \<Rightarrow>
          if get_or request ''jsonrpc'' JNull \<noteq> JStr ''2.0''
          then (a2a_error JNull (-32600) (JStr ''Invalid JSON-RPC 2.0 request''), b, s)
          else (let rpc_id = get_or request ''id'' JNull;
                    p = or_else (get_or request ''params'' JNull) (JObj []);
                    unknown = a2a_error rpc_id (-32601) (JStr (''Unknown method: '' @
                      (case name of JStr m \<Rightarrow> m | j \<Rightarrow> gw_text_of g j)))
                in case (case name of JStr m \<Rightarrow> run_method g e m p b s | _ \<Rightarrow> None) of
                     None \<Rightarrow> (unknown, b, s)
                   | Some (r, b', s') \<Rightarrow> (rpc_answer rpc_id r, b', s'))
      | None \<Rightarrow> (a2a_error JNull (-32600) (JStr ''Invalid JSON-RPC 2.0 request''), b, s))"

subsection \<open>Integers and versions in headers\<close>

fun split_at :: "nat \<Rightarrow> ustr \<Rightarrow> ustr list" where
  "split_at c [] = [[]]"
| "split_at c (x # us) =
     (if x = c then [] # split_at c us
      else case split_at c us of [] \<Rightarrow> [[x]] | w # ws \<Rightarrow> (x # w) # ws)"

text \<open>\<open>int(text)\<close>: white space around, a sign, digits with single underscores between them.\<close>

definition unsigned :: "ustr \<Rightarrow> int option" where
  "unsigned us =
     (let runs = split_at 95 us in
      if list_all (\<lambda>r. r \<noteq> [] \<and> list_all is_digit r) runs \<and> length (concat runs) \<le> INT_MAX_STR_DIGITS
      then Some (int (py_int (concat runs))) else None)"

definition read_int :: "ustr \<Rightarrow> int option" where
  "read_int us =
     (case strip us of
        [] \<Rightarrow> None
      | x # rest \<Rightarrow>
          if x = 45 then map_option uminus (unsigned rest)
          else if x = 43 then unsigned rest
          else unsigned (x # rest))"

definition version_pair :: "ustr \<Rightarrow> (int \<times> int) option" where
  "version_pair value =
     (case split_at 46 (strip value) of
        [] \<Rightarrow> None
      | [major] \<Rightarrow> map_option (\<lambda>x. (x, 0)) (read_int major)
      | major # minor # _ \<Rightarrow>
          (case read_int major of None \<Rightarrow> None | Some x \<Rightarrow> map_option (\<lambda>y. (x, y)) (read_int minor)))"

definition version_compatible :: "ustr \<Rightarrow> ustr \<Rightarrow> bool" where
  "version_compatible requested supported =
     (version_pair requested \<noteq> None \<and> version_pair supported \<noteq> None
      \<and> version_pair requested = version_pair supported)"

subsection \<open>The HTTP handler\<close>

text \<open>
  A request: the path and the query of its target, the parameters of the query, the headers the
  handler looks at, and the bytes that follow them.
\<close>

record http_request =
  rq_path :: string
  rq_query :: "(string \<times> string list) list"
  rq_token :: "ustr option"
  rq_version :: "ustr option"
  rq_length :: "ustr option"
  rq_body :: string

datatype http_body = JsonBody json | TextBody string

type_synonym http_response = "nat \<times> http_body"

text \<open>An answer whose text cannot be encoded raises out of the handler: nothing is sent.\<close>

definition answer_json :: "nat \<Rightarrow> json \<Rightarrow> http_response option" where
  "answer_json status j =
     (if is_utf8 (dumps default_separators j) then Some (status, JsonBody j) else None)"

definition error_body :: "nat \<Rightarrow> int \<Rightarrow> string \<Rightarrow> http_response" where
  "error_body status code m = (status, JsonBody (a2a_error JNull code (JStr m)))"

definition unavailable :: "string \<Rightarrow> http_response" where
  "unavailable what = (503, JsonBody (JObj [(''error'', JStr (what @ '' unavailable''))]))"

definition check_token :: "bridge \<Rightarrow> http_request \<Rightarrow> bool" where
  "check_token b rq = (case br_token b of
     None \<Rightarrow> False
   | Some expected \<Rightarrow> (case rq_token rq of None \<Rightarrow> [] | Some provided \<Rightarrow> provided) = expected)"

definition negotiate_version :: "http_request \<Rightarrow> http_response option" where
  "negotiate_version rq =
     (case rq_version rq of
        None \<Rightarrow> None
      | Some v \<Rightarrow>
          if v = [] \<or> version_compatible v (cps A2A_PROTOCOL_VERSION) then None
          else Some (error_body 400 A2A_VERSION_NOT_SUPPORTED (''Protocol version '' @ utf8_text (strip v)
            @ '' not supported (bridge speaks '' @ A2A_PROTOCOL_VERSION @ '')'')))"

datatype read_body = Dict params | Refused http_response | Raised

definition read_json_body :: "gateway \<Rightarrow> http_request \<Rightarrow> read_body" where
  "read_json_body g rq =
     (case read_int (case rq_length rq of None \<Rightarrow> cps ''0'' | Some x \<Rightarrow> x) of
        None \<Rightarrow> Refused (error_body 400 (-32700) ''Invalid Content-Length'')
      | Some n \<Rightarrow>
          if n < 0 \<or> MAX_BRIDGE_REQUEST_BYTES < n then Refused (error_body 413 (-32600) ''Request too large'')
          else (case json_loads (gw_nesting g) (take (nat n) (rq_body rq)) of
              Loaded (JObj kvs) \<Rightarrow> Dict kvs
            | Loaded _ \<Rightarrow> Refused (error_body 400 (-32600) ''Invalid JSON body'')
            | TooNested \<Rightarrow> Raised
            | _ \<Rightarrow> Refused (error_body 400 (-32700) ''Invalid JSON'')))"

definition with_body ::
    "gateway \<Rightarrow> http_request \<Rightarrow> bridge \<times> service \<Rightarrow> (params \<Rightarrow> http_response option \<times> bridge \<times> service)
     \<Rightarrow> http_response option \<times> bridge \<times> service" where
  "with_body g rq bs f =
     (case read_json_body g rq of
        Dict kvs \<Rightarrow> f kvs
      | Refused r \<Rightarrow> (Some r, bs)
      | Raised \<Rightarrow> (None, bs))"

definition rpc_message ::
    "gateway \<Rightarrow> env \<Rightarrow> http_request \<Rightarrow> bridge \<Rightarrow> service \<Rightarrow> http_response option \<times> bridge \<times> service" where
  "rpc_message g e rq b s =
     with_body g rq (b, s) (\<lambda>kvs. case bridge_dispatch g e kvs b s of (j, bs) \<Rightarrow> (answer_json 200 j, bs))"

definition entry_json :: "gateway \<Rightarrow> entry \<Rightarrow> json" where
  "entry_json g x = JObj [(''url'', JStr (en_url x)), (''name'', JStr (en_name x)),
     (''description'', en_description x), (''capabilities'', JList (map JStr (en_capabilities x))),
     (''tags'', JList (map JStr (en_tags x))), (''verified'', JBool (en_verified x)),
     (''registered_at'', JFloat (gw_time_text g (en_registered x))),
     (''last_seen'', JFloat (gw_time_text g (en_seen x)))]"

definition registry_register ::
    "gateway \<Rightarrow> env \<Rightarrow> http_request \<Rightarrow> bridge \<Rightarrow> service \<Rightarrow> http_response option \<times> bridge \<times> service" where
  "registry_register g e rq b s =
     with_body g rq (b, s) (\<lambda>kvs.
       case map_of kvs ''url'' of
         Some (JStr url) \<Rightarrow>
           if strip (code_points url) = [] then (Some (error_body 400 (-32602) (''missing '' @ quoted ''url'')), b, s)
           else (case register (gw_network g) (physical e) (utf8_text (strip (code_points url))) (br_registry b) of
              (r, reg) \<Rightarrow>
                ((case r of
                    Inr x \<Rightarrow> answer_json 201 (JObj [(''card'', entry_json g x), (''registered'', JBool True)])
                  | Inl (RegistryError m code status) \<Rightarrow> Some (error_body status code m)
                  | Inl _ \<Rightarrow> Some (unavailable ''registry'')), b\<lparr>br_registry := reg\<rparr>, s))
       | _ \<Rightarrow> (Some (error_body 400 (-32602) (''missing '' @ quoted ''url'')), b, s))"

definition mint_stub :: "bridge \<Rightarrow> string \<Rightarrow> json" where
  "mint_stub b capability = JObj [(''capability'', JStr capability), (''minted'', JBool True),
     (''stub'', JBool True), (''issuer'', JStr (br_agent b)),
     (''note'', JStr ''capability minting is post-MVE (design R-D); mint-on-resolve lands with the JWS trust layer (R-C)'')]"

definition registry_mint ::
    "gateway \<Rightarrow> http_request \<Rightarrow> bridge \<Rightarrow> service \<Rightarrow> http_response option \<times> bridge \<times> service" where
  "registry_mint g rq b s =
     with_body g rq (b, s) (\<lambda>kvs.
       case or_else (get_or kvs ''capability'' JNull) (get_or kvs ''id'' JNull) of
         JStr c \<Rightarrow>
           (if strip (code_points c) = [] then Some (error_body 400 (-32602) (''missing '' @ quoted ''capability''))
            else answer_json 200 (mint_stub b (utf8_text (strip (code_points c)))), b, s)
       | _ \<Rightarrow> (Some (error_body 400 (-32602) (''missing '' @ quoted ''capability'')), b, s))"

definition do_POST ::
    "gateway \<Rightarrow> env \<Rightarrow> http_request \<Rightarrow> bridge \<Rightarrow> service \<Rightarrow> http_response option \<times> bridge \<times> service" where
  "do_POST g e rq b s =
     (if \<not> check_token b rq then (Some (401, TextBody ''401''), b, s)
      else case negotiate_version rq of
          Some r \<Rightarrow> (Some r, b, s)
        | None \<Rightarrow>
            if rq_path rq = ''/message'' then rpc_message g e rq b s
            else if rq_path rq = ''/v1/registry/cards'' then registry_register g e rq b s
            else if rq_path rq = ''/v1/registry/capabilities/mint'' then registry_mint g rq b s
            else (Some (404, TextBody ''404''), b, s))"

subsection \<open>The agent card\<close>

definition agent_skill :: "string option \<Rightarrow> string \<Rightarrow> json" where
  "agent_skill domain capability =
     (let shown = (case domain of None \<Rightarrow> [] | Some x \<Rightarrow> x) in
      JObj [(''id'', JStr capability), (''name'', JStr capability),
        (''description'', JStr (if shown = [] then capability else shown)),
        (''tags'', JList (if shown = [] then [] else [JStr shown])),
        (''inputModes'', JList [JStr ''text/plain'']), (''outputModes'', JList [JStr ''text/plain''])])"

definition interface_url :: "bridge \<Rightarrow> string" where
  "interface_url b = ''http://127.0.0.1:'' @ nat_text (br_port b) @ ''/''"

definition agent_card_json :: "gateway \<Rightarrow> bridge \<Rightarrow> string \<Rightarrow> card_row option \<Rightarrow> json" where
  "agent_card_json g b org c =
     (let domain = (case c of None \<Rightarrow> None | Some x \<Rightarrow> card_domain x);
          capabilities = (case c of None \<Rightarrow> [] | Some x \<Rightarrow> card_capabilities x)
      in JObj [(''name'', JStr (br_agent b)),
        (''description'', JStr (case domain of None \<Rightarrow> [] | Some x \<Rightarrow> x)),
        (''version'', JStr (if gw_version g = [] then A2A_PROTOCOL_VERSION else gw_version g)),
        (''supportedInterfaces'', JList [JObj [(''url'', JStr (interface_url b)),
           (''protocolBinding'', JStr ''JSONRPC''), (''protocolVersion'', JStr A2A_PROTOCOL_VERSION)]]),
        (''provider'', JObj [(''url'', JStr (interface_url b)), (''organization'', JStr org)]),
        (''capabilities'', JObj [(''streaming'', JBool False), (''pushNotifications'', JBool False),
           (''extendedAgentCard'', JBool False)]),
        (''defaultInputModes'', JList [JStr ''text/plain'']),
        (''defaultOutputModes'', JList [JStr ''text/plain'']),
        (''securitySchemes'', JObj [(''apiKey'', JObj [(''apiKeySecurityScheme'',
           JObj [(''name'', JStr ''X-Synapse-Token''), (''location'', JStr ''header'')])])]),
        (''securityRequirements'', JList [JObj [(''schemes'', JObj [(''apiKey'', JList [])])]]),
        (''skills'', JList (map (agent_skill domain) capabilities))])"

definition agent_card :: "gateway \<Rightarrow> env \<Rightarrow> bridge \<Rightarrow> service \<Rightarrow> json option \<times> service" where
  "agent_card g e b s =
     (case bridge_call g e ''get_my_organization'' [] b s of
        (Inr (RPolicy (org, _, _)), s1) \<Rightarrow>
          (case bridge_call g e ''get_agent_card'' [(''username'', JStr (br_agent b))] b s1 of
             (Inr (RCardOf (c, _)), s2) \<Rightarrow> (Some (agent_card_json g b org c), s2)
           | (_, s2) \<Rightarrow> (None, s2))
      | (_, s1) \<Rightarrow> (None, s1))"

definition first_param :: "(string \<times> string list) list \<Rightarrow> string \<Rightarrow> string option" where
  "first_param query k = (case map_of query k of
     Some (v # _) \<Rightarrow> if v = [] then None else Some v | _ \<Rightarrow> None)"

definition registry_search ::
    "gateway \<Rightarrow> env \<Rightarrow> http_request \<Rightarrow> bridge \<Rightarrow> http_response option \<times> bridge" where
  "registry_search g e rq b =
     (case search (characters (gw_listener g)) (physical e) (first_param (rq_query rq) ''capability'')
        (first_param (rq_query rq) ''tag'') (br_registry b) of
        (found, reg) \<Rightarrow> (answer_json 200 (JObj [(''cards'', JList (map (entry_json g) found)),
            (''count'', JInt (int (length found)))]), b\<lparr>br_registry := reg\<rparr>))"

definition do_GET ::
    "gateway \<Rightarrow> env \<Rightarrow> http_request \<Rightarrow> bridge \<Rightarrow> service \<Rightarrow> http_response option \<times> bridge \<times> service" where
  "do_GET g e rq b s =
     (let is_card = rq_path rq \<in> {''/.well-known/agent-card.json'', ''/.well-known/agent.json''};
          is_search = (rq_path rq = ''/v1/registry/cards'')
      in if \<not> is_card \<and> \<not> is_search \<and> \<not> check_token b rq then (Some (401, TextBody ''401''), b, s)
         else case negotiate_version rq of
             Some r \<Rightarrow> (Some r, b, s)
           | None \<Rightarrow>
               if is_card then
                 (case agent_card g e b s of
                    (Some j, s') \<Rightarrow>
                      (Some (case answer_json 200 j of None \<Rightarrow> unavailable ''agent'' | Some r \<Rightarrow> r), b, s')
                  | (None, s') \<Rightarrow> (Some (unavailable ''agent''), b, s'))
               else if is_search then (case registry_search g e rq b of (r, b') \<Rightarrow> (r, b', s))
               else (Some (404, TextBody ''404''), b, s))"

end
