(* ===== verification/Web.thy ===== *)
theory Web
  imports Bridge
begin

text \<open>
  The web interface for humans, \<^verbatim>\<open>synapse/web.py\<close>: the sessions behind a cookie, the lockout of
  the login, the cache of the reads, the tables of the routes and the handlers, over the client
  library. What Python's libraries make of a request line, of a query and of a header are the
  fields of the request; the files of the page and the hash of an answer are parameters. Times of
  the interface are whole seconds.
\<close>

section \<open>State\<close>

text \<open>
  A session is an object: reading it from the dictionary puts a new object in its place, and one
  method compares objects by identity, so each carries the number of its creation.
\<close>

record session =
  se_object :: nat
  se_org :: string
  se_human :: string
  se_secret :: string
  se_created :: int
  se_used :: int

text \<open>The data of an answer: a reply of the service, or what the interface makes of several.\<close>

datatype shown =
    Reply reply
  | OrgInfo reply string
  | AgentInfo reply "reply option" "reply option"
  | Conversation reply
  | GroupList "(group_row \<times> nat) list"
  | GroupDetail "string list" "group_message_view list"
  | SessionInfo string string int
  | StatusInfo nat nat "int option"
  | Done
  | ErrorText json
  | ErrorCode json json

record web =
  wb_port :: nat
  wb_started :: "int option"
  wb_token :: "string option"
  wb_sessions :: "(ustr \<times> session) list"
  wb_failures :: "(string \<times> int \<times> int) list"
  wb_cache :: "(string \<times> int \<times> shown) list"
  wb_objects :: nat

datatype file_read = NoFile | Unreadable | FileBytes string string

text \<open>
  What surrounds the interface: the service and whether its socket accepts a connection, the
  configuration, the decoders of the texts that are not UTF-8, the hash of an answer, and the
  files: the directory of the page, the resolution of a path, the type and bytes of a file.
\<close>

record site =
  st_listener :: listener
  st_up :: bool
  st_ttl :: int
  st_attempts :: int
  st_lockout :: int
  st_max_sessions :: int
  st_snapshot_ttl :: int
  st_nesting :: "string \<Rightarrow> bool"
  st_wide :: "string \<Rightarrow> string \<Rightarrow> string option"
  st_etag :: "shown \<Rightarrow> string"
  st_root :: "string list"
  st_resolve :: "string list \<Rightarrow> string list option"
  st_file :: "string list \<Rightarrow> file_read"

text \<open>
  A request reads the clocks once and makes calls, each with its environment; \<open>token_hex\<close> and
  \<open>uuid4\<close> give the fresh values it may use.
\<close>

record web_env =
  we_call :: "nat \<Rightarrow> env"
  we_token :: ustr
  we_uuid :: string

abbreviation we_now :: "web_env \<Rightarrow> int" where
  "we_now x \<equiv> monotonic (we_call x 0)"

definition ORG_TTL :: int where "ORG_TTL = 10"
definition AGENT_TTL :: int where "AGENT_TTL = 15"
definition SEARCH_TTL :: int where "SEARCH_TTL = 5"
definition CONVERSATIONS_TTL :: int where "CONVERSATIONS_TTL = 3"
definition MAX_CACHE_ENTRIES :: nat where "MAX_CACHE_ENTRIES = 512"
definition SESSION_COOKIE :: string where "SESSION_COOKIE = ''synapse_session''"

section \<open>Calls of the service\<close>

text \<open>An \<open>ApiClientError\<close>, or any other exception.\<close>

datatype web_error = Api json json | Crash

definition web_call ::
    "site \<Rightarrow> env \<Rightarrow> string \<Rightarrow> params \<Rightarrow> service \<Rightarrow> (web_error + reply) \<times> service" where
  "web_call st e name args s =
     (case map_of CLIENT_METHODS name of
        None \<Rightarrow> (Inl Crash, s)
      | Some m \<Rightarrow> (case call_parameters (name, m) args of
            Inl _ \<Rightarrow> (Inl Crash, s)
          | Inr p \<Rightarrow>
              if \<not> st_up st then (Inl Crash, s)
              else (case service_reply (st_listener st) e name p s of
                  (Inl (ApiClientError c m), s') \<Rightarrow> (Inl (Api c m), s')
                | (Inl _, s') \<Rightarrow> (Inl Crash, s')
                | (Inr data, s') \<Rightarrow> (Inr data, s'))))"

definition then_call ::
    "(web_error + 'a) \<times> service \<Rightarrow> ('a \<Rightarrow> service \<Rightarrow> (web_error + 'b) \<times> service)
     \<Rightarrow> (web_error + 'b) \<times> service" where
  "then_call r f = (case r of (Inl x, s) \<Rightarrow> (Inl x, s) | (Inr y, s) \<Rightarrow> f y s)"

definition user_args :: "session \<Rightarrow> params" where
  "user_args x = [(''my_name_auth'', JStr (se_human x)), (''my_password_auth'', JStr (se_secret x))]"

definition org_args :: "session \<Rightarrow> params" where
  "org_args x = [(''organization_name_auth'', JStr (se_org x)),
     (''organization_password_auth'', JStr (se_secret x))]"

section \<open>Sessions\<close>

text \<open>
  The name of the human account, on any text: \<open>None\<close> when a long name has a lone surrogate, that
  the fingerprint cannot encode.
\<close>

definition human_name :: "env \<Rightarrow> string \<Rightarrow> string option" where
  "human_name e org =
     (let us = code_points org in
      if length us + length HUMAN_SUFFIX \<le> MAX_USERNAME_LEN then Some (org @ HUMAN_SUFFIX)
      else if \<not> is_utf8 org then None
      else let digest = take 8 (sha256 e org);
               prefix_len = MAX_USERNAME_LEN - length HUMAN_SUFFIX - 1 - length digest
           in Some (utf8_text (take prefix_len us) @ HUMAN_SUFFIX @ ''_'' @ digest))"

definition expired :: "site \<Rightarrow> int \<Rightarrow> session \<Rightarrow> bool" where
  "expired st t x = (st_ttl st < t - se_used x)"

definition prune_sessions :: "site \<Rightarrow> int \<Rightarrow> (ustr \<times> session) list \<Rightarrow> (ustr \<times> session) list" where
  "prune_sessions st t xs = filter (\<lambda>(k, x). \<not> expired st t x) xs"

definition sessions_of :: "string \<Rightarrow> (ustr \<times> session) list \<Rightarrow> ustr list" where
  "sessions_of org xs = map fst (filter (\<lambda>(k, x). se_org x = org) xs)"

text \<open>A new session takes the place of the oldest ones of its organization.\<close>

definition open_session :: "site \<Rightarrow> int \<Rightarrow> ustr \<Rightarrow> string \<Rightarrow> string \<Rightarrow> string \<Rightarrow> web \<Rightarrow> web" where
  "open_session st t token org human secret w =
     (let live = prune_sessions st t (wb_sessions w);
          mine = sessions_of org live;
          oldest = take (nat (int (length mine) - st_max_sessions st + 1)) mine;
          kept = filter (\<lambda>(k, x). k \<notin> set oldest) live
      in w\<lparr>wb_failures := AList.delete org (wb_failures w),
           wb_sessions := AList.update token \<lparr>se_object = wb_objects w, se_org = org,
             se_human = human, se_secret = secret, se_created = t, se_used = t\<rparr> kept,
           wb_objects := Suc (wb_objects w)\<rparr>)"

definition failures_of :: "web \<Rightarrow> string \<Rightarrow> int \<times> int" where
  "failures_of w org = (case map_of (wb_failures w) org of None \<Rightarrow> (0, 0) | Some x \<Rightarrow> x)"

definition record_failure :: "site \<Rightarrow> int \<Rightarrow> string \<Rightarrow> web \<Rightarrow> web" where
  "record_failure st t org w =
     (let n = fst (failures_of w org) + 1;
          entry = (if st_attempts st \<le> n then (0, t + st_lockout st) else (n, 0))
      in w\<lparr>wb_failures := AList.update org entry (wb_failures w)\<rparr>)"

datatype login_result = LoggedIn ustr int | LoginFailed | LoginLocked | LoginRaised

definition login ::
    "site \<Rightarrow> web_env \<Rightarrow> string \<Rightarrow> string option \<Rightarrow> web \<Rightarrow> service \<Rightarrow> login_result \<times> web \<times> service" where
  "login st x org password w s =
     (case (case password of None \<Rightarrow> wb_token w | Some p \<Rightarrow> Some p) of
        None \<Rightarrow> (LoginFailed, w, s)
      | Some secret \<Rightarrow>
          if we_now x < snd (failures_of w org) then (LoginLocked, w, s)
          else (case human_name (we_call x 0) org of
              None \<Rightarrow> (LoginRaised, w, s)
            | Some human \<Rightarrow>
                (case web_call st (we_call x 0) ''get_my_organization''
                    [(''my_name_auth'', JStr human), (''my_password_auth'', JStr secret)] s of
                   (Inl (Api _ _), s') \<Rightarrow> (LoginFailed, record_failure st (we_now x) org w, s')
                 | (Inl Crash, s') \<Rightarrow> (LoginRaised, w, s')
                 | (Inr _, s') \<Rightarrow>
                     (LoggedIn (we_token x) (st_ttl st),
                      open_session st (we_now x) (we_token x) org human secret w, s'))))"

definition get_session :: "site \<Rightarrow> int \<Rightarrow> ustr option \<Rightarrow> web \<Rightarrow> session option \<times> web" where
  "get_session st t token w =
     (case token of
        None \<Rightarrow> (None, w)
      | Some k \<Rightarrow>
          (case map_of (wb_sessions w) k of
             None \<Rightarrow> (None, w)
           | Some x \<Rightarrow>
               if expired st t x then (None, w\<lparr>wb_sessions := AList.delete k (wb_sessions w)\<rparr>)
               else (Some x, w\<lparr>wb_sessions := AList.update k
                   (x\<lparr>se_object := wb_objects w, se_used := t\<rparr>) (wb_sessions w),
                 wb_objects := Suc (wb_objects w)\<rparr>)))"

definition destroy_session :: "ustr option \<Rightarrow> web \<Rightarrow> web" where
  "destroy_session token w =
     (case token of None \<Rightarrow> w | Some k \<Rightarrow> w\<lparr>wb_sessions := AList.delete k (wb_sessions w)\<rparr>)"

text \<open>\<open>s is session\<close>: the same object.\<close>

definition destroy_session_for :: "session \<Rightarrow> web \<Rightarrow> web" where
  "destroy_session_for x w =
     (case filter (\<lambda>(k, y). se_object y = se_object x) (wb_sessions w) of
        [] \<Rightarrow> w
      | (k, _) # _ \<Rightarrow> w\<lparr>wb_sessions := AList.delete k (wb_sessions w)\<rparr>)"

definition session_info :: "site \<Rightarrow> web_env \<Rightarrow> session \<Rightarrow> shown" where
  "session_info st x se = SessionInfo (se_org se) (se_human se)
     (physical (we_call x 0) div 1000 + max 0 (st_ttl st - (we_now x - se_used se)))"

section \<open>The cache\<close>

definition cache_lookup :: "string \<Rightarrow> int \<Rightarrow> web \<Rightarrow> shown option" where
  "cache_lookup k t w =
     (case map_of (wb_cache w) k of None \<Rightarrow> None | Some (expiry, v) \<Rightarrow> if t < expiry then Some v else None)"

definition cache_store :: "string \<Rightarrow> int \<Rightarrow> int \<Rightarrow> shown \<Rightarrow> web \<Rightarrow> web" where
  "cache_store k t ttl v w =
     (let room = (if MAX_CACHE_ENTRIES < length (wb_cache w)
                  then filter (\<lambda>(k, expiry, v). t < expiry) (wb_cache w) else wb_cache w)
      in w\<lparr>wb_cache := AList.update k (t + ttl, v) room\<rparr>)"

definition invalidate :: "string \<Rightarrow> web \<Rightarrow> web" where
  "invalidate k w = w\<lparr>wb_cache := AList.delete k (wb_cache w)\<rparr>"

definition cached ::
    "string \<Rightarrow> int \<Rightarrow> int \<Rightarrow> (service \<Rightarrow> (web_error + shown) \<times> service) \<Rightarrow> web \<Rightarrow> service
     \<Rightarrow> (web_error + shown) \<times> web \<times> service" where
  "cached k t ttl fn w s =
     (case cache_lookup k t w of
        Some v \<Rightarrow> (Inr v, w, s)
      | None \<Rightarrow> (case fn s of
          (Inl x, s') \<Rightarrow> (Inl x, w, s')
        | (Inr v, s') \<Rightarrow> (Inr v, cache_store k t ttl v w, s')))"

section \<open>The reads and the commands of a session\<close>

definition reply_of :: "(web_error + reply) \<times> service \<Rightarrow> (web_error + shown) \<times> service" where
  "reply_of r = then_call r (\<lambda>data s. (Inr (Reply data), s))"

definition snapshot_data ::
    "site \<Rightarrow> web_env \<Rightarrow> session \<Rightarrow> web \<Rightarrow> service \<Rightarrow> (web_error + shown) \<times> web \<times> service" where
  "snapshot_data st x se w s =
     cached (''snapshot:'' @ se_org se) (we_now x) (st_snapshot_ttl st)
       (\<lambda>s. reply_of (web_call st (we_call x 0) ''get_org_snapshot'' (user_args se) s)) w s"

definition org_data ::
    "site \<Rightarrow> web_env \<Rightarrow> session \<Rightarrow> web \<Rightarrow> service \<Rightarrow> (web_error + shown) \<times> web \<times> service" where
  "org_data st x se w s =
     cached (''org:'' @ se_org se) (we_now x) ORG_TTL
       (\<lambda>s. then_call (web_call st (we_call x 0) ''get_my_organization'' (user_args se) s)
          (\<lambda>data s. (Inr (OrgInfo data (se_human se)), s))) w s"

text \<open>A part of an agent's page that the service does not know is left out.\<close>

definition optional_part :: "(web_error + reply) \<times> service \<Rightarrow> (web_error + reply option) \<times> service" where
  "optional_part r =
     (case r of
        (Inr data, s) \<Rightarrow> (Inr (Some data), s)
      | (Inl (Api c m), s) \<Rightarrow> (if c = JStr ''USER_NOT_FOUND'' then Inr None else Inl (Api c m), s)
      | (Inl Crash, s) \<Rightarrow> (Inl Crash, s))"

definition agent_data ::
    "site \<Rightarrow> web_env \<Rightarrow> session \<Rightarrow> string \<Rightarrow> web \<Rightarrow> service \<Rightarrow> (web_error + shown) \<times> web \<times> service" where
  "agent_data st x se username w s =
     (let args = (''username'', JStr username) # user_args se in
      cached (''agent:'' @ se_org se @ '':'' @ username) (we_now x) AGENT_TTL
       (\<lambda>s. then_call (web_call st (we_call x 0) ''get_agent_description'' args s) (\<lambda>about s.
          then_call (optional_part (web_call st (we_call x 1) ''get_agent_card'' args s)) (\<lambda>card s.
          then_call (optional_part (web_call st (we_call x 2) ''get_agent_reputation'' args s)) (\<lambda>reputation s.
          (Inr (AgentInfo about card reputation), s))))) w s)"

definition none_text :: "string option \<Rightarrow> string" where
  "none_text x = (case x of None \<Rightarrow> ''None'' | Some s \<Rightarrow> s)"

definition search_key :: "session \<Rightarrow> string \<Rightarrow> string option \<Rightarrow> string option \<Rightarrow> string" where
  "search_key se q capability domain =
     ''search:'' @ se_org se @ '':'' @ q @ ''|'' @ none_text capability @ ''|'' @ none_text domain"

definition search_data ::
    "site \<Rightarrow> web_env \<Rightarrow> session \<Rightarrow> string \<Rightarrow> string option \<Rightarrow> string option \<Rightarrow> web \<Rightarrow> service
     \<Rightarrow> (web_error + shown) \<times> web \<times> service" where
  "search_data st x se q capability domain w s =
     cached (search_key se q capability domain) (we_now x) SEARCH_TTL
       (\<lambda>s. reply_of (web_call st (we_call x 0) ''find_agents'' (user_args se @
          [(''capability'', jopt capability), (''domain'', jopt domain),
           (''name_contains'', if q = [] then JNull else JStr q), (''limit'', JInt 12)]) s)) w s"

definition conversations_key :: "session \<Rightarrow> string" where
  "conversations_key se = ''conversations:'' @ se_org se"

definition conversations_data ::
    "site \<Rightarrow> web_env \<Rightarrow> session \<Rightarrow> web \<Rightarrow> service \<Rightarrow> (web_error + shown) \<times> web \<times> service" where
  "conversations_data st x se w s =
     cached (conversations_key se) (we_now x) CONVERSATIONS_TTL
       (\<lambda>s. reply_of (web_call st (we_call x 0) ''list_org_conversations''
          (user_args se @ [(''limit'', JInt 100)]) s)) w s"

text \<open>
  Reading a conversation reads the messages addressed to the human, one call each from the
  \<open>n\<close>-th on; a refusal leaves the message as it was.
\<close>

fun read_unread ::
    "site \<Rightarrow> web_env \<Rightarrow> session \<Rightarrow> nat \<Rightarrow> message_row list \<Rightarrow> service
     \<Rightarrow> (web_error + message_row list \<times> nat) \<times> service" where
  "read_unread st x se n [] s = (Inr ([], 0), s)"
| "read_unread st x se n (m # ms) s =
     (if msg_recipient m = se_human se \<and> msg_read_at m = None then
        (case web_call st (we_call x n) ''read_message'' ((''message_id'', JStr (msg_id m)) # user_args se) s of
           (Inl Crash, s') \<Rightarrow> (Inl Crash, s')
         | (Inl (Api _ _), s') \<Rightarrow>
             then_call (read_unread st x se (Suc n) ms s') (\<lambda>(ms', k) s. (Inr (m # ms', k), s))
         | (Inr (RMessage v), s') \<Rightarrow>
             then_call (read_unread st x se (Suc n) ms s')
               (\<lambda>(ms', k) s. (Inr (m\<lparr>msg_read_at := mv_read_at v\<rparr> # ms', Suc k), s))
         | (Inr _, s') \<Rightarrow>
             then_call (read_unread st x se (Suc n) ms s')
               (\<lambda>(ms', k) s. (Inr (m\<lparr>msg_read_at := None\<rparr> # ms', Suc k), s)))
      else then_call (read_unread st x se n ms s) (\<lambda>(ms', k) s. (Inr (m # ms', k), s)))"

definition conversation_data ::
    "site \<Rightarrow> web_env \<Rightarrow> session \<Rightarrow> string \<Rightarrow> web \<Rightarrow> service \<Rightarrow> (web_error + shown) \<times> web \<times> service" where
  "conversation_data st x se conv w s =
     (case web_call st (we_call x 0) ''get_org_conversation''
         ((''conversation_id'', JStr conv) # user_args se @ [(''limit'', JInt 100)]) s of
        (Inl r, s1) \<Rightarrow> (Inl r, w, s1)
      | (Inr (ROrgConversation (c, ms, next)), s1) \<Rightarrow>
          (case read_unread st x se 1 ms s1 of
             (Inl r, s2) \<Rightarrow> (Inl r, w, s2)
           | (Inr (ms', k), s2) \<Rightarrow> (Inr (Conversation (ROrgConversation (c, ms', next))),
               if k = 0 then w else invalidate (conversations_key se) w, s2))
      | (Inr data, s1) \<Rightarrow> (Inr (Conversation data), w, s1))"

text \<open>The first page of the groups, and of a group's members and messages.\<close>

definition groups_data ::
    "site \<Rightarrow> web_env \<Rightarrow> session \<Rightarrow> service \<Rightarrow> (web_error + shown) \<times> service" where
  "groups_data st x se s =
     then_call (web_call st (we_call x 0) ''list_my_groups'' (user_args se) s) (\<lambda>data s.
       (Inr (GroupList (case data of RGroups (_, gs, _) \<Rightarrow> gs | _ \<Rightarrow> [])), s))"

definition group_data ::
    "site \<Rightarrow> web_env \<Rightarrow> session \<Rightarrow> string \<Rightarrow> service \<Rightarrow> (web_error + shown) \<times> service" where
  "group_data st x se group_id s =
     (let args = (''group_id'', JStr group_id) # user_args se in
      then_call (web_call st (we_call x 0) ''get_group_members'' args s) (\<lambda>ms s.
      then_call (web_call st (we_call x 1) ''get_group_messages'' (args @ [(''limit'', JInt 100)]) s) (\<lambda>gms s.
        (Inr (GroupDetail (case ms of RMembers (_, us) \<Rightarrow> us | _ \<Rightarrow> [])
                (case gms of RGroupMessages (_, vs, _) \<Rightarrow> vs | _ \<Rightarrow> [])), s))))"

definition missing :: "string \<Rightarrow> web_error" where
  "missing m = Api (JStr ''INVALID_ARGUMENT'') (JStr m)"

definition send_data ::
    "site \<Rightarrow> web_env \<Rightarrow> session \<Rightarrow> params \<Rightarrow> service \<Rightarrow> (web_error + shown) \<times> service" where
  "send_data st x se body s =
     (case (map_of body ''recipient_username'', map_of body ''message'') of
        (Some (JStr recipient), Some (JStr message)) \<Rightarrow>
          (let key = (case map_of body ''client_message_id'' of
                 Some (JStr k) \<Rightarrow> if k = [] then we_uuid x else k | _ \<Rightarrow> we_uuid x)
           in reply_of (web_call st (we_call x 0) ''send_message''
                ([(''recipient_username'', JStr recipient), (''message'', JStr message),
                  (''client_message_id'', JStr key)] @ user_args se) s))
      | _ \<Rightarrow> (Inl (missing ''missing required fields''), s))"

definition create_agent_data ::
    "site \<Rightarrow> web_env \<Rightarrow> session \<Rightarrow> params \<Rightarrow> service \<Rightarrow> (web_error + shown) \<times> service" where
  "create_agent_data st x se body s =
     (case (map_of body ''username'', map_of body ''password'', map_of body ''description'') of
        (Some (JStr username), Some (JStr password), Some (JStr description)) \<Rightarrow>
          reply_of (web_call st (we_call x 0) ''create_agent''
            ([(''username'', JStr username), (''password'', JStr password),
              (''description'', JStr description)] @ org_args se) s)
      | _ \<Rightarrow> (Inl (missing ''missing required fields''), s))"

definition change_description_data ::
    "site \<Rightarrow> web_env \<Rightarrow> session \<Rightarrow> string \<Rightarrow> params \<Rightarrow> service \<Rightarrow> (web_error + shown) \<times> service" where
  "change_description_data st x se username body s =
     (case map_of body ''description'' of
        Some (JStr description) \<Rightarrow>
          reply_of (web_call st (we_call x 0) ''change_agent_description''
            ([(''username'', JStr username), (''description'', JStr description)] @ org_args se) s)
      | _ \<Rightarrow> (Inl (missing ''description required''), s))"

definition disable_org_data ::
    "site \<Rightarrow> web_env \<Rightarrow> session \<Rightarrow> params \<Rightarrow> service \<Rightarrow> (web_error + shown) \<times> service" where
  "disable_org_data st x se body s =
     (case map_of body ''organization_name'' of
        Some (JStr org) \<Rightarrow>
          reply_of (web_call st (we_call x 0) ''disable_org'' ((''organization_name'', JStr org) # user_args se) s)
      | _ \<Rightarrow> (Inl (missing ''organization_name required''), s))"

text \<open>The two powers of the local web identity.\<close>

definition list_orgs_data :: "site \<Rightarrow> web_env \<Rightarrow> web \<Rightarrow> service \<Rightarrow> (web_error + reply) \<times> service" where
  "list_orgs_data st x w s =
     web_call st (we_call x 0) ''list_orgs'' [(''my_name_auth'', JStr WEB_LOCAL),
       (''my_password_auth'', JStr (case wb_token w of None \<Rightarrow> [] | Some t \<Rightarrow> t))] s"

definition create_org_public ::
    "site \<Rightarrow> web_env \<Rightarrow> params \<Rightarrow> web \<Rightarrow> service \<Rightarrow> (web_error + reply) \<times> service" where
  "create_org_public st x body w s =
     (case (map_of body ''organization_name'', map_of body ''organization_password'') of
        (Some (JStr org), Some (JStr password)) \<Rightarrow>
          (case wb_token w of
             None \<Rightarrow> (Inl (Api (JStr ''AUTH_FAILED'') (JStr ''local service not ready (web token missing)'')), s)
           | Some token \<Rightarrow> web_call st (we_call x 0) ''create_org''
               [(''organization_name'', JStr org), (''organization_password'', JStr password),
                (''my_name_auth'', JStr WEB_LOCAL), (''my_password_auth'', JStr token)] s)
      | _ \<Rightarrow> (Inl (missing ''missing required fields''), s))"

section \<open>Requests and answers\<close>

record web_request =
  wq_path :: string
  wq_query :: "(string \<times> string list) list"
  wq_cookie :: ustr
  wq_match :: "string option"
  wq_length :: "ustr option"
  wq_body :: string

datatype web_body = JsonData shown | PlainText string | File string string | NotModified string | Redirect string

datatype cookie = SetCookie ustr int | ClearCookie

type_synonym web_response = "nat \<times> web_body \<times> cookie option"

text \<open>A handler that raises, or that returns before it answers, sends nothing.\<close>

type_synonym answered = "web_response option \<times> web \<times> service"

definition send_json :: "nat \<Rightarrow> shown \<Rightarrow> web_response option" where
  "send_json code data = Some (code, JsonData data, None)"

definition send_error :: "nat \<Rightarrow> string \<Rightarrow> web_response option" where
  "send_error code m = send_json code (ErrorText (JStr m))"

definition not_here :: "web_response option" where
  "not_here = Some (404, PlainText ''404'', None)"

fun cookie_value :: "ustr list \<Rightarrow> ustr option" where
  "cookie_value [] = None"
| "cookie_value (part # rest) =
     (case split_at 61 (strip part) of
        k # v # vs \<Rightarrow>
          let value = concat (v # map (\<lambda>w. 61 # w) vs)
          in if k = cps SESSION_COOKIE \<and> value \<noteq> [] then Some value else cookie_value rest
      | _ \<Rightarrow> cookie_value rest)"

definition session_token :: "web_request \<Rightarrow> ustr option" where
  "session_token rq = cookie_value (split_at 59 (wq_cookie rq))"

definition require_session ::
    "site \<Rightarrow> web_env \<Rightarrow> web_request \<Rightarrow> web \<Rightarrow> service \<Rightarrow> (session \<Rightarrow> web \<Rightarrow> answered) \<Rightarrow> answered" where
  "require_session st x rq w s f =
     (case get_session st (we_now x) (session_token rq) w of
        (None, w') \<Rightarrow> (Some (401, JsonData (ErrorText (JStr ''session required'')), Some ClearCookie), w', s)
      | (Some se, w') \<Rightarrow> f se w')"

subsection \<open>The body of a request\<close>

definition starts_with :: "string \<Rightarrow> string \<Rightarrow> bool" where
  "starts_with p s = (take (length p) s = p)"

definition bytes :: "nat list \<Rightarrow> string" where
  "bytes ns = map char_of ns"

text \<open>\<open>json.detect_encoding\<close>: by the byte-order mark, then by the zeros among the first bytes.\<close>

definition detect_encoding :: "string \<Rightarrow> string" where
  "detect_encoding b =
     (let zero = (\<lambda>i. b ! i = char_of (0 :: nat)) in
      if starts_with (bytes [0, 0, 254, 255]) b \<or> starts_with (bytes [255, 254, 0, 0]) b then ''utf-32''
      else if starts_with (bytes [254, 255]) b \<or> starts_with (bytes [255, 254]) b then ''utf-16''
      else if starts_with (bytes [239, 187, 191]) b then ''utf-8-sig''
      else if 4 \<le> length b \<and> zero 0 then (if zero 1 then ''utf-32-be'' else ''utf-16-be'')
      else if 4 \<le> length b \<and> zero 1 then (if zero 2 \<and> zero 3 then ''utf-32-le'' else ''utf-16-le'')
      else if length b = 2 \<and> zero 0 then ''utf-16-be''
      else if length b = 2 \<and> zero 1 then ''utf-16-le''
      else ''utf-8'')"

text \<open>\<open>bytes.decode(..., "surrogatepass")\<close>: in UTF-8 a surrogate is its three bytes.\<close>

definition decode_pass :: "site \<Rightarrow> string \<Rightarrow> string option" where
  "decode_pass st b =
     (let encoding = detect_encoding b;
          b' = (if encoding = ''utf-8-sig'' then drop 3 b else b)
      in if encoding \<notin> {''utf-8'', ''utf-8-sig''} then st_wide st encoding b
         else if utf8_text (code_points b') = b' then Some b' else None)"

definition read_web_json :: "site \<Rightarrow> string \<Rightarrow> json option" where
  "read_web_json st raw =
     (case decode_pass st raw of
        None \<Rightarrow> None
      | Some b \<Rightarrow>
          if st_nesting st b then None
          else (case scan_text b of
              None \<Rightarrow> None
            | Some j \<Rightarrow> if digits_ok j then Some (dicts j) else None))"

definition read_web_body :: "site \<Rightarrow> web_request \<Rightarrow> web_response option + params" where
  "read_web_body st rq =
     (let n = (case read_int (case wq_length rq of None \<Rightarrow> cps ''0'' | Some l \<Rightarrow> l) of None \<Rightarrow> -1 | Some n \<Rightarrow> n) in
      if n < 0 \<or> int (max_request_bytes (st_listener st)) < n
      then Inl (send_error 413 ''request body too large'')
      else (case read_web_json st (take (nat n) (wq_body rq)) of
          None \<Rightarrow> Inl (send_error 400 ''Invalid JSON'')
        | Some (JObj kvs) \<Rightarrow> Inr kvs
        | Some _ \<Rightarrow> Inl (send_error 400 ''JSON object expected'')))"

definition with_web_body ::
    "site \<Rightarrow> web_request \<Rightarrow> web \<Rightarrow> service \<Rightarrow> (params \<Rightarrow> answered) \<Rightarrow> answered" where
  "with_web_body st rq w s f =
     (case read_web_body st rq of Inl r \<Rightarrow> (r, w, s) | Inr kvs \<Rightarrow> f kvs)"

subsection \<open>Answers\<close>

definition serve_json ::
    "site \<Rightarrow> web_request \<Rightarrow> session \<Rightarrow> bool \<Rightarrow> (web_error + shown) \<times> web \<times> service \<Rightarrow> answered" where
  "serve_json st rq se not_found made =
     (case made of
        (Inl (Api c m), w, s) \<Rightarrow>
          if c = JStr ''AUTH_FAILED''
          then (Some (401, JsonData (ErrorText (JStr ''session expired'')), Some ClearCookie),
                destroy_session_for se w, s)
          else if not_found \<and> c = JStr ''USER_NOT_FOUND'' then (send_error 404 ''agent not found'', w, s)
          else (send_json 400 (ErrorCode m c), w, s)
      | (Inl Crash, w, s) \<Rightarrow> (send_error 500 ''cannot read the state'', w, s)
      | (Inr data, w, s) \<Rightarrow>
          (if wq_match rq = Some (st_etag st data) then Some (304, NotModified (st_etag st data), None)
           else send_json 200 data, w, s))"

definition uncached :: "web \<Rightarrow> (web_error + shown) \<times> service \<Rightarrow> (web_error + shown) \<times> web \<times> service" where
  "uncached w made = (case made of (r, s) \<Rightarrow> (r, w, s))"

text \<open>\<open>_WEBUI_DIR / rel\<close>: an absolute path replaces the directory.\<close>

definition path_parts :: "string \<Rightarrow> string list" where
  "path_parts s = filter (\<lambda>p. p \<noteq> [] \<and> p \<noteq> ''.'') (map utf8_text (split_at 47 (code_points s)))"

definition joined :: "string list \<Rightarrow> string \<Rightarrow> string list" where
  "joined root rel = (if starts_with ''/'' rel then path_parts rel else root @ path_parts rel)"

definition serve_static :: "site \<Rightarrow> string \<Rightarrow> web_response option" where
  "serve_static st rel =
     (case st_resolve st (joined (st_root st) rel) of
        None \<Rightarrow> not_here
      | Some target \<Rightarrow>
          if take (length (st_root st)) target \<noteq> st_root st then not_here
          else (case st_file st target of
              NoFile \<Rightarrow> not_here
            | Unreadable \<Rightarrow> Some (500, PlainText ''500'', None)
            | FileBytes kind b \<Rightarrow> Some (200, File kind b, None)))"

section \<open>The routes\<close>

datatype get_handler = GetOnboarding | GetLogin | GetRoot | GetOrgs | GetStatus | GetSession
  | GetSnapshot | GetOrg | GetSearch | GetConversations | GetConversation | GetGroups | GetGroup

definition GET_ROUTES :: "(string \<times> get_handler \<times> bool) list" where
  "GET_ROUTES = [
     (''/onboarding'', GetOnboarding, False),
     (''/login'', GetLogin, False),
     (''/'', GetRoot, False),
     (''/index.html'', GetRoot, False),
     (''/api/orgs'', GetOrgs, False),
     (''/api/status'', GetStatus, False),
     (''/api/session'', GetSession, True),
     (''/api/snapshot'', GetSnapshot, True),
     (''/api/org'', GetOrg, True),
     (''/api/search'', GetSearch, True),
     (''/api/conversations'', GetConversations, True),
     (''/api/conversation'', GetConversation, True),
     (''/api/groups'', GetGroups, True),
     (''/api/groups/group'', GetGroup, True)]"

datatype post_handler = PostLogin | PostCreateOrg | PostLogout | PostSend | PostCreateAgent
  | PostDisableOrg | PostApproveTask | PostRejectTask

definition POST_ROUTES :: "(string \<times> post_handler \<times> bool) list" where
  "POST_ROUTES = [
     (''/api/login'', PostLogin, False),
     (''/api/orgs'', PostCreateOrg, False),
     (''/api/logout'', PostLogout, True),
     (''/api/send'', PostSend, True),
     (''/api/agents'', PostCreateAgent, True),
     (''/api/orgs/disable'', PostDisableOrg, True),
     (''/api/tasks/approve'', PostApproveTask, True),
     (''/api/tasks/reject'', PostRejectTask, True)]"

datatype agent_action = Deactivate | Reactivate | ChangeDescription

definition POST_AGENT_ACTIONS :: "(string \<times> agent_action) list" where
  "POST_AGENT_ACTIONS = [(''/deactivate'', Deactivate), (''/reactivate'', Reactivate),
     (''/description'', ChangeDescription)]"

definition AGENTS_PREFIX :: string where "AGENTS_PREFIX = ''/api/agents/''"
definition GROUPS_PREFIX :: string where "GROUPS_PREFIX = ''/api/groups/''"
definition ASSETS_PREFIX :: string where "ASSETS_PREFIX = ''/assets/''"

subsection \<open>Reading\<close>

definition get_root :: "site \<Rightarrow> web_env \<Rightarrow> web \<Rightarrow> service \<Rightarrow> answered" where
  "get_root st x w s =
     (let guide = Some (302, Redirect ''/onboarding'', None) in
      case wb_token w of
        None \<Rightarrow> (guide, w, s)
      | Some _ \<Rightarrow>
          (case list_orgs_data st x w s of
             (Inl Crash, s') \<Rightarrow> (None, w, s')
           | (Inl (Api _ _), s') \<Rightarrow> (guide, w, s')
           | (Inr data, s') \<Rightarrow>
               (if (case data of ROrgs (names, _) \<Rightarrow> names = [] | _ \<Rightarrow> True) then guide
                else serve_static st ''index.html'', w, s')))"

definition get_orgs :: "site \<Rightarrow> web_env \<Rightarrow> web \<Rightarrow> service \<Rightarrow> answered" where
  "get_orgs st x w s =
     (case wb_token w of
        None \<Rightarrow> (send_error 503 ''local service not ready (web token missing)'', w, s)
      | Some _ \<Rightarrow>
          (case list_orgs_data st x w s of
             (Inl Crash, s') \<Rightarrow> (None, w, s')
           | (Inl (Api _ _), s') \<Rightarrow> (send_error 503 ''local service unreachable'', w, s')
           | (Inr data, s') \<Rightarrow> (send_json 200 (Reply data), w, s')))"

definition get_status :: "web \<Rightarrow> web_response option" where
  "get_status w = send_json 200 (StatusInfo (wb_port w) (length (wb_sessions w)) (wb_started w))"

text \<open>\<open>query.get(k, [""])[0].strip()\<close>.\<close>

definition query_text :: "web_request \<Rightarrow> string \<Rightarrow> string" where
  "query_text rq k = utf8_text (strip (code_points
     (case map_of (wq_query rq) k of Some (v # _) \<Rightarrow> v | _ \<Rightarrow> [])))"

definition or_none :: "string \<Rightarrow> string option" where
  "or_none s = (if s = [] then None else Some s)"

definition get_search :: "site \<Rightarrow> web_env \<Rightarrow> web_request \<Rightarrow> session \<Rightarrow> web \<Rightarrow> service \<Rightarrow> answered" where
  "get_search st x rq se w s =
     (let q = query_text rq ''q''; capability = or_none (query_text rq ''capability'');
          domain = or_none (query_text rq ''domain'')
      in if q = [] \<and> capability = None \<and> domain = None
         then (send_error 400 ''parameter q, capability or domain required'', w, s)
         else serve_json st rq se False (search_data st x se q capability domain w s))"

definition get_conversation ::
    "site \<Rightarrow> web_env \<Rightarrow> web_request \<Rightarrow> session \<Rightarrow> web \<Rightarrow> service \<Rightarrow> answered" where
  "get_conversation st x rq se w s =
     (let conv = query_text rq ''conversation_id'' in
      if conv = [] then (send_error 400 ''conversation_id required'', w, s)
      else serve_json st rq se False (conversation_data st x se conv w s))"

text \<open>
  A route that needs a session gives it to its handler, the others none. The method of the route
  \<open>/api/groups/group\<close> takes one argument and is given two: it raises.
\<close>

definition run_get ::
    "site \<Rightarrow> web_env \<Rightarrow> web_request \<Rightarrow> get_handler \<Rightarrow> session \<Rightarrow> web \<Rightarrow> service \<Rightarrow> answered" where
  "run_get st x rq h se w s =
     (case h of
        GetSession \<Rightarrow> (send_json 200 (session_info st x se), w, s)
      | GetSnapshot \<Rightarrow> serve_json st rq se False (snapshot_data st x se w s)
      | GetOrg \<Rightarrow> serve_json st rq se False (org_data st x se w s)
      | GetSearch \<Rightarrow> get_search st x rq se w s
      | GetConversations \<Rightarrow> serve_json st rq se False (conversations_data st x se w s)
      | GetConversation \<Rightarrow> get_conversation st x rq se w s
      | GetGroups \<Rightarrow> serve_json st rq se False (uncached w (groups_data st x se s))
      | _ \<Rightarrow> (None, w, s))"

definition run_public_get :: "site \<Rightarrow> web_env \<Rightarrow> get_handler \<Rightarrow> web \<Rightarrow> service \<Rightarrow> answered" where
  "run_public_get st x h w s =
     (case h of
        GetOnboarding \<Rightarrow> (serve_static st ''onboarding.html'', w, s)
      | GetLogin \<Rightarrow> (serve_static st ''index.html'', w, s)
      | GetRoot \<Rightarrow> get_root st x w s
      | GetOrgs \<Rightarrow> get_orgs st x w s
      | GetStatus \<Rightarrow> (get_status w, w, s)
      | _ \<Rightarrow> (None, w, s))"

definition get_agent :: "site \<Rightarrow> web_env \<Rightarrow> web_request \<Rightarrow> web \<Rightarrow> service \<Rightarrow> answered" where
  "get_agent st x rq w s =
     require_session st x rq w s (\<lambda>se w.
       let username = drop (length AGENTS_PREFIX) (wq_path rq) in
       if username = [] \<or> CHR ''/'' \<in> set username then (send_error 404 ''agent not found'', w, s)
       else serve_json st rq se True (agent_data st x se username w s))"

definition get_group :: "site \<Rightarrow> web_env \<Rightarrow> web_request \<Rightarrow> string \<Rightarrow> web \<Rightarrow> service \<Rightarrow> answered" where
  "get_group st x rq group_id w s =
     require_session st x rq w s (\<lambda>se w.
       serve_json st rq se True (uncached w (group_data st x se group_id s)))"

definition web_GET :: "site \<Rightarrow> web_env \<Rightarrow> web_request \<Rightarrow> web \<Rightarrow> service \<Rightarrow> answered" where
  "web_GET st x rq w s =
     (let path = wq_path rq; group_id = drop (length GROUPS_PREFIX) path in
      if starts_with ASSETS_PREFIX path
      then (serve_static st (drop (length ASSETS_PREFIX) path), w, s)
      else (case map_of GET_ROUTES path of
          Some (h, True) \<Rightarrow> require_session st x rq w s (\<lambda>se w. run_get st x rq h se w s)
        | Some (h, False) \<Rightarrow> run_public_get st x h w s
        | None \<Rightarrow>
            if starts_with AGENTS_PREFIX path then get_agent st x rq w s
            else if starts_with GROUPS_PREFIX path \<and> group_id \<noteq> [] \<and> CHR ''/'' \<notin> set group_id
            then get_group st x rq group_id w s
            else (not_here, w, s)))"

subsection \<open>Writing\<close>

definition post_create_org :: "site \<Rightarrow> web_env \<Rightarrow> web_request \<Rightarrow> web \<Rightarrow> service \<Rightarrow> answered" where
  "post_create_org st x rq w s =
     with_web_body st rq w s (\<lambda>body.
       case create_org_public st x body w s of
         (Inl Crash, s') \<Rightarrow> (None, w, s')
       | (Inl (Api c m), s') \<Rightarrow>
           (send_json (if c = JStr ''AUTH_FAILED'' then 503 else 400) (ErrorText m), w, s')
       | (Inr data, s') \<Rightarrow> (send_json 200 (Reply data), w, s'))"

text \<open>\<open>org_name.lower()\<close> is the interpreter's, on code points.\<close>

definition handle_login :: "site \<Rightarrow> web_env \<Rightarrow> web_request \<Rightarrow> web \<Rightarrow> service \<Rightarrow> answered" where
  "handle_login st x rq w s =
     with_web_body st rq w s (\<lambda>body.
       if body = [] then (None, w, s)
       else case map_of body ''organization_name'' of
           Some (JStr name) \<Rightarrow>
             (let org = utf8_text (lowercase (characters (st_listener st)) (code_points name)) in
              case login st x org None w s of
                (LoginLocked, w', s') \<Rightarrow> (send_error 429 ''too many attempts, try again later'', w', s')
              | (LoginFailed, w', s') \<Rightarrow> (send_error 401 ''invalid credentials'', w', s')
              | (LoginRaised, w', s') \<Rightarrow> (None, w', s')
              | (LoggedIn token ttl, w', s') \<Rightarrow>
                  (case get_session st (we_now x) (Some token) w' of
                     (None, w'') \<Rightarrow> (send_error 500 ''cannot create the session'', w'', s')
                   | (Some se, w'') \<Rightarrow>
                       (Some (200, JsonData (session_info st x se), Some (SetCookie token ttl)), w'', s')))
         | _ \<Rightarrow> (send_error 401 ''invalid credentials'', w, s))"

definition post_task ::
    "string \<Rightarrow> site \<Rightarrow> web_env \<Rightarrow> web_request \<Rightarrow> session \<Rightarrow> web \<Rightarrow> service \<Rightarrow> answered" where
  "post_task command st x rq se w s =
     with_web_body st rq w s (\<lambda>body.
       case map_of body ''task_id'' of
         Some (JStr i) \<Rightarrow> serve_json st rq se False
           (uncached w (reply_of (web_call st (we_call x 0) command ((''task_id'', JStr i) # user_args se) s)))
       | _ \<Rightarrow> (send_error 400 ''task_id required'', w, s))"

definition post_logout :: "web_request \<Rightarrow> web \<Rightarrow> service \<Rightarrow> answered" where
  "post_logout rq w s = (Some (200, JsonData Done, Some ClearCookie), destroy_session (session_token rq) w, s)"

definition serve_body ::
    "site \<Rightarrow> web_request \<Rightarrow> session \<Rightarrow> (params \<Rightarrow> service \<Rightarrow> (web_error + shown) \<times> service)
     \<Rightarrow> web \<Rightarrow> service \<Rightarrow> answered" where
  "serve_body st rq se f w s =
     with_web_body st rq w s (\<lambda>body. serve_json st rq se False (uncached w (f body s)))"

definition run_post ::
    "site \<Rightarrow> web_env \<Rightarrow> web_request \<Rightarrow> post_handler \<Rightarrow> session \<Rightarrow> web \<Rightarrow> service \<Rightarrow> answered" where
  "run_post st x rq h se w s =
     (case h of
        PostLogout \<Rightarrow> post_logout rq w s
      | PostSend \<Rightarrow> serve_body st rq se (send_data st x se) w s
      | PostCreateAgent \<Rightarrow> serve_body st rq se (create_agent_data st x se) w s
      | PostDisableOrg \<Rightarrow> serve_body st rq se (disable_org_data st x se) w s
      | PostApproveTask \<Rightarrow> post_task ''approve_task'' st x rq se w s
      | PostRejectTask \<Rightarrow> post_task ''reject_task'' st x rq se w s
      | _ \<Rightarrow> (None, w, s))"

definition run_public_post :: "site \<Rightarrow> web_env \<Rightarrow> web_request \<Rightarrow> post_handler \<Rightarrow> web \<Rightarrow> service \<Rightarrow> answered" where
  "run_public_post st x rq h w s =
     (case h of
        PostLogin \<Rightarrow> handle_login st x rq w s
      | PostCreateOrg \<Rightarrow> post_create_org st x rq w s
      | _ \<Rightarrow> (None, w, s))"

definition run_action ::
    "site \<Rightarrow> web_env \<Rightarrow> web_request \<Rightarrow> agent_action \<Rightarrow> session \<Rightarrow> string \<Rightarrow> web \<Rightarrow> service \<Rightarrow> answered" where
  "run_action st x rq a se username w s =
     (let switch = (\<lambda>command. serve_json st rq se False
            (uncached w (reply_of (web_call st (we_call x 0) command
               ((''username'', JStr username) # org_args se) s))))
      in case a of
          Deactivate \<Rightarrow> switch ''deactivate_agent''
        | Reactivate \<Rightarrow> switch ''reactivate_agent''
        | ChangeDescription \<Rightarrow> serve_body st rq se (change_description_data st x se username) w s)"

fun find_action :: "(string \<times> agent_action) list \<Rightarrow> string \<Rightarrow> (string \<times> agent_action) option" where
  "find_action [] path = None"
| "find_action ((suffix, a) # rest) path =
     (if ends_with suffix path
      then Some (drop (length AGENTS_PREFIX) (take (length path - length suffix) path), a)
      else find_action rest path)"

definition post_agent_action ::
    "site \<Rightarrow> web_env \<Rightarrow> web_request \<Rightarrow> session \<Rightarrow> web \<Rightarrow> service \<Rightarrow> answered" where
  "post_agent_action st x rq se w s =
     (case find_action POST_AGENT_ACTIONS (wq_path rq) of
        Some (username, a) \<Rightarrow> run_action st x rq a se username w s
      | None \<Rightarrow> (not_here, w, s))"

definition web_POST :: "site \<Rightarrow> web_env \<Rightarrow> web_request \<Rightarrow> web \<Rightarrow> service \<Rightarrow> answered" where
  "web_POST st x rq w s =
     (case map_of POST_ROUTES (wq_path rq) of
        Some (h, True) \<Rightarrow> require_session st x rq w s (\<lambda>se w. run_post st x rq h se w s)
      | Some (h, False) \<Rightarrow> run_public_post st x rq h w s
      | None \<Rightarrow>
          if starts_with AGENTS_PREFIX (wq_path rq)
          then require_session st x rq w s (\<lambda>se w. post_agent_action st x rq se w s)
          else (not_here, w, s))"

section \<open>A run of the interface\<close>

datatype web_method = GET | POST

definition web_serve ::
    "site \<Rightarrow> web_method \<times> web_env \<times> web_request \<Rightarrow> web \<Rightarrow> service \<Rightarrow> answered" where
  "web_serve st i w s =
     (case i of (GET, x, rq) \<Rightarrow> web_GET st x rq w s | (POST, x, rq) \<Rightarrow> web_POST st x rq w s)"

text \<open>Any sequence of requests.\<close>

primrec web_run ::
    "site \<Rightarrow> (web_method \<times> web_env \<times> web_request) list \<Rightarrow> web \<Rightarrow> service
     \<Rightarrow> web_response option list \<times> web \<times> service" where
  "web_run st [] w s = ([], w, s)"
| "web_run st (i # is) w s =
     (case web_serve st i w s of (r, w1, s1) \<Rightarrow>
      (case web_run st is w1 s1 of (rs, w2, s2) \<Rightarrow> (r # rs, w2, s2)))"

text \<open>\<open>SynapseWebUI.__init__\<close> and \<open>start\<close>: the text of the token file, if it can be read.\<close>

definition web_start :: "nat \<Rightarrow> int \<Rightarrow> ustr option \<Rightarrow> web" where
  "web_start port t token_file = \<lparr>wb_port = port, wb_started = Some t,
     wb_token = (case token_file of None \<Rightarrow> None | Some us \<Rightarrow> or_none (utf8_text (strip us))),
     wb_sessions = [], wb_failures = [], wb_cache = [], wb_objects = 0\<rparr>"

end
