(* ===== verification/WebProperties.thy ===== *)
theory WebProperties
  imports Web
begin

text \<open>
  What holds of the web interface: which requests need a session, how many sessions there are,
  what ends one, and what happens while the service is away.
\<close>

section \<open>What a request does to the sessions\<close>

definition same_sessions :: "web \<Rightarrow> web \<Rightarrow> bool" where
  "same_sessions w w' = (wb_sessions w' = wb_sessions w \<and> wb_objects w' = wb_objects w
     \<and> wb_token w' = wb_token w)"

lemma same_sessions_refl [simp]: "same_sessions w w"
  by (simp add: same_sessions_def)

lemma same_sessions_cache [simp]:
  "same_sessions w (cache_store k t ttl v w)" "same_sessions w (invalidate k w)"
  "same_sessions w (record_failure st t org w)"
  by (simp_all add: same_sessions_def cache_store_def invalidate_def record_failure_def Let_def)

lemma cached_sessions: "same_sessions w (fst (snd (cached k t ttl fn w s)))"
  by (auto simp: cached_def split: option.splits prod.splits sum.splits)

lemma conversation_sessions: "same_sessions w (fst (snd (conversation_data st x se conv w s)))"
  by (auto simp: conversation_data_def split: prod.splits sum.splits reply.splits)

lemma uncached_sessions [simp]: "fst (snd (uncached w made)) = w"
  by (simp add: uncached_def split: prod.splits)

lemmas data_sessions = cached_sessions conversation_sessions

lemma snapshot_sessions: "same_sessions w (fst (snd (snapshot_data st x se w s)))"
  unfolding snapshot_data_def by (rule cached_sessions)

lemma org_sessions: "same_sessions w (fst (snd (org_data st x se w s)))"
  unfolding org_data_def by (rule cached_sessions)

lemma agent_sessions: "same_sessions w (fst (snd (agent_data st x se username w s)))"
  unfolding agent_data_def Let_def by (rule cached_sessions)

lemma search_sessions: "same_sessions w (fst (snd (search_data st x se q capability domain w s)))"
  unfolding search_data_def by (rule cached_sessions)

lemma conversations_sessions: "same_sessions w (fst (snd (conversations_data st x se w s)))"
  unfolding conversations_data_def by (rule cached_sessions)

text \<open>
  A predicate that the operations on the sessions keep is kept by every request: the operations
  are the opening, the refreshing, the removal, and what leaves the sessions alone.
\<close>

locale web_invariant =
  fixes st :: site and P :: "web \<Rightarrow> bool"
  assumes P_same: "same_sessions w w' \<Longrightarrow> P w \<Longrightarrow> P w'"
    and P_open: "\<lbrakk>P w; wb_token w = Some secret; human_name e org = Some human\<rbrakk>
      \<Longrightarrow> P (open_session st t token org human secret w)"
    and P_refresh: "\<lbrakk>P w; map_of (wb_sessions w) k = Some se\<rbrakk>
      \<Longrightarrow> P (w\<lparr>wb_sessions := AList.update k (se\<lparr>se_object := wb_objects w, se_used := t\<rparr>) (wb_sessions w),
                wb_objects := Suc (wb_objects w)\<rparr>)"
    and P_delete: "P w \<Longrightarrow> P (w\<lparr>wb_sessions := AList.delete k (wb_sessions w)\<rparr>)"
begin

lemma P_get_session: "P w \<Longrightarrow> P (snd (get_session st t token w))"
  by (auto simp: get_session_def P_delete P_refresh split: option.splits)

lemma P_destroy: "P w \<Longrightarrow> P (destroy_session token w)"
  by (auto simp: destroy_session_def P_delete split: option.splits)

lemma P_destroy_for: "P w \<Longrightarrow> P (destroy_session_for se w)"
  by (auto simp: destroy_session_for_def P_delete split: list.splits)

lemma P_serve_json:
  assumes "P (fst (snd made))"
  shows "P (fst (snd (serve_json st rq se nf made)))"
  using assms P_destroy_for by (auto simp: serve_json_def split: prod.splits sum.splits web_error.splits)

lemma P_login:
  assumes "P w"
  shows "P (fst (snd (login st x org None w s)))"
  using assms P_open P_same [OF same_sessions_cache(3) assms]
  by (auto simp: login_def split: option.splits prod.splits sum.splits web_error.splits)

lemma P_with_body:
  assumes "P w" and "\<And>kvs. P (fst (snd (f kvs)))"
  shows "P (fst (snd (with_web_body st rq w s f)))"
  using assms by (simp add: with_web_body_def split: sum.splits)

lemma P_require:
  assumes "P w" and "\<And>se w'. P w' \<Longrightarrow> P (fst (snd (f se w')))"
  shows "P (fst (snd (require_session st x rq w s f)))"
  using P_get_session [OF assms(1), of "we_now x" "session_token rq"] assms(2)
  by (auto simp: require_session_def split: prod.splits option.splits)

lemma P_run_get:
  assumes "P w"
  shows "P (fst (snd (run_get st x rq h se w s)))"
  using assms P_same [OF snapshot_sessions assms] P_same [OF org_sessions assms]
    P_same [OF search_sessions assms] P_same [OF conversations_sessions assms]
    P_same [OF conversation_sessions assms]
  by (cases h) (simp_all add: run_get_def get_search_def get_conversation_def Let_def P_serve_json)

lemma P_run_public_get:
  assumes "P w"
  shows "P (fst (snd (run_public_get st x h w s)))"
  using assms by (cases h) (auto simp: run_public_get_def get_root_def get_orgs_def Let_def
    split: option.splits prod.splits sum.splits web_error.splits)

lemma P_GET:
  assumes "P w"
  shows "P (fst (snd (web_GET st x rq w s)))"
  using assms P_same [OF agent_sessions]
  by (auto simp: web_GET_def Let_def get_agent_def get_group_def
      intro!: P_require P_run_get P_run_public_get P_serve_json split: option.splits bool.splits)

lemma P_serve_body: "P w \<Longrightarrow> P (fst (snd (serve_body st rq se f w s)))"
  by (auto simp: serve_body_def intro!: P_with_body P_serve_json)

lemma P_post_task: "P w \<Longrightarrow> P (fst (snd (post_task c st x rq se w s)))"
  by (auto simp: post_task_def intro!: P_with_body P_serve_json split: option.splits json.splits)

lemma P_run_post: "P w \<Longrightarrow> P (fst (snd (run_post st x rq h se w s)))"
  by (cases h) (simp_all add: run_post_def post_logout_def P_destroy P_serve_body P_post_task)

lemma P_handle_login:
  assumes "P w"
  shows "P (fst (snd (handle_login st x rq w s)))"
  unfolding handle_login_def Let_def
proof (rule P_with_body [OF assms], goal_cases)
  case (1 kvs)
  have login: "P w'" if "login st x org None w s = (r, w', s')" for org r w' s'
    using P_login [OF assms, of x org s] that by simp
  have "P w''" if "login st x org None w s = (r', w', s')" "get_session st t k w' = (r, w'')"
    for org r' s' r t k w' w''
    using P_get_session [OF login [OF that(1)], of t k] that(2) by simp
  with login assms show ?case
    by (auto split: option.splits json.splits prod.splits login_result.splits)
qed

lemma P_create_org: "P w \<Longrightarrow> P (fst (snd (post_create_org st x rq w s)))"
  unfolding post_create_org_def
  by (rule P_with_body) (auto split: prod.splits sum.splits web_error.splits)

lemma P_run_public_post: "P w \<Longrightarrow> P (fst (snd (run_public_post st x rq h w s)))"
  by (cases h) (simp_all add: run_public_post_def P_handle_login P_create_org)

lemma P_run_action: "P w \<Longrightarrow> P (fst (snd (run_action st x rq a se username w s)))"
  by (cases a) (simp_all add: run_action_def P_serve_json P_serve_body)

lemma P_POST:
  assumes "P w"
  shows "P (fst (snd (web_POST st x rq w s)))"
  using assms
  by (auto simp: web_POST_def post_agent_action_def
      intro!: P_require P_run_post P_run_public_post P_run_action split: option.splits bool.splits)

lemma P_serve: "P w \<Longrightarrow> P (fst (snd (web_serve st i w s)))"
  by (cases i; cases "fst i") (simp_all add: web_serve_def P_GET P_POST)

lemma P_run: "P w \<Longrightarrow> P (fst (snd (web_run st is w s)))"
proof (induction "is" arbitrary: w s)
  case (Cons i "is")
  obtain r w1 s1 where 1: "web_serve st i w s = (r, w1, s1)" by (metis prod_cases3)
  then have "P w1" using P_serve [OF Cons.prems, of i s] by simp
  from Cons.IH [OF this, of s1] 1 show ?case by (auto split: prod.splits)
qed simp

end

section \<open>How many sessions\<close>

definition objects :: "(ustr \<times> session) list \<Rightarrow> nat list" where
  "objects xs = map (\<lambda>(k, x). se_object x) xs"

lemma objects_simps [simp]: "objects [] = []" "objects ((k, x) # xs) = se_object x # objects xs"
  by (simp_all add: objects_def)

definition sessions_ok :: "site \<Rightarrow> web \<Rightarrow> bool" where
  "sessions_ok st w = (distinct (map fst (wb_sessions w))
     \<and> distinct (objects (wb_sessions w))
     \<and> list_all (\<lambda>(k, x). se_object x < wb_objects w) (wb_sessions w)
     \<and> (\<forall>org. int (length (sessions_of org (wb_sessions w))) \<le> max 1 (st_max_sessions st)))"

lemma sessions_of_simps [simp]:
  "sessions_of org [] = []"
  "sessions_of org ((k, x) # xs) = (if se_org x = org then k # sessions_of org xs else sessions_of org xs)"
  by (simp_all add: sessions_of_def)

lemma sessions_of_filter: "sessions_of org (filter (\<lambda>(k, x). Q k) xs) = filter Q (sessions_of org xs)"
  by (induction xs) auto

lemma sessions_of_fewer: "length (sessions_of org (filter Q xs)) \<le> length (sessions_of org xs)"
  by (induction xs) auto

lemma sessions_of_delete: "length (sessions_of org (AList.delete k xs)) \<le> length (sessions_of org xs)"
  by (simp add: AList.delete_eq sessions_of_fewer)

lemma sessions_of_update:
  "length (sessions_of org (AList.update k x xs)) \<le> length (sessions_of org xs) + (if se_org x = org then 1 else 0)"
  by (induction xs) auto

lemma sessions_of_refresh:
  "map_of xs k = Some x \<Longrightarrow> se_org y = se_org x \<Longrightarrow> sessions_of org (AList.update k y xs) = sessions_of org xs"
  by (induction xs) (auto split: if_splits)

lemma filter_not_first: "distinct ys \<Longrightarrow> filter (\<lambda>k. k \<notin> set (take n ys)) ys = drop n ys"
proof (induction ys arbitrary: n)
  case (Cons y ys)
  show ?case
  proof (cases n)
    case (Suc m)
    have "filter (\<lambda>k. k \<notin> set (take n (y # ys))) (y # ys) = filter (\<lambda>k. k \<notin> set (take m ys)) ys"
      using Cons.prems Suc by (auto intro!: filter_cong)
    with Cons Suc show ?thesis by simp
  qed simp
qed simp

lemma distinct_sessions_of: "distinct (map fst xs) \<Longrightarrow> distinct (sessions_of org xs)"
  by (simp add: sessions_of_def distinct_map_filter)

lemma objects_update:
  "list_all (\<lambda>(k, x). se_object x < n) xs \<Longrightarrow> se_object y \<le> n
   \<Longrightarrow> list_all (\<lambda>(k, x). se_object x < Suc n) (AList.update k y xs)"
  by (induction xs) (auto simp: list_all_iff less_Suc_eq)

lemma objects_of_update: "set (objects (AList.update k y xs)) \<subseteq> insert (se_object y) (set (objects xs))"
  by (induction xs) auto

lemma objects_of_member: "(k, x) \<in> set xs \<Longrightarrow> se_object x \<in> set (objects xs)"
  by (force simp: objects_def)

lemma distinct_objects_update:
  "distinct (objects xs) \<Longrightarrow> se_object y \<notin> set (objects xs) \<Longrightarrow> distinct (objects (AList.update k y xs))"
proof (induction xs)
  case (Cons p xs)
  with objects_of_update [of k y xs] show ?case by (cases p) auto
qed simp

lemma distinct_objects_filter: "distinct (objects xs) \<Longrightarrow> distinct (objects (filter Q xs))"
  by (simp add: objects_def distinct_map_filter)

lemma new_object: "list_all (\<lambda>(k, x). se_object x < n) xs \<Longrightarrow> n \<notin> set (objects xs)"
  by (auto simp: objects_def list_all_iff)

lemma objects_fewer: "list_all R xs \<Longrightarrow> list_all R (filter Q xs)"
  by (simp add: list_all_iff)

lemma sessions_ok_open:
  assumes "sessions_ok st w"
  shows "sessions_ok st (open_session st t token org human secret w)"
proof -
  let ?live = "prune_sessions st t (wb_sessions w)"
  let ?mine = "sessions_of org ?live"
  let ?n = "nat (int (length ?mine) - st_max_sessions st + 1)"
  let ?kept = "filter (\<lambda>(k, x). k \<notin> set (take ?n ?mine)) ?live"
  let ?new = "\<lparr>se_object = wb_objects w, se_org = org, se_human = human, se_secret = secret,
    se_created = t, se_used = t\<rparr>"
  have keys: "distinct (map fst ?live)"
    using assms by (simp add: sessions_ok_def prune_sessions_def distinct_map_filter)
  then have "sessions_of org ?kept = drop ?n ?mine"
    by (simp add: sessions_of_filter filter_not_first distinct_sessions_of)
  then have kept: "int (length (sessions_of org ?kept)) + 1 \<le> max 1 (st_max_sessions st)" by simp
  have "int (length (sessions_of other (AList.update token ?new ?kept))) \<le> max 1 (st_max_sessions st)" for other
  proof (cases "org = other")
    case True
    then have "int (length (sessions_of other (AList.update token ?new ?kept)))
        \<le> int (length (sessions_of org ?kept)) + 1"
      using sessions_of_update [of other token ?new ?kept] by simp
    with kept show ?thesis by linarith
  next
    case False
    then have "length (sessions_of other (AList.update token ?new ?kept)) \<le> length (sessions_of other ?kept)"
      using sessions_of_update [of other token ?new ?kept] by simp
    also have "\<dots> \<le> length (sessions_of other (wb_sessions w))"
      using sessions_of_fewer le_trans unfolding prune_sessions_def by blast
    finally show ?thesis using assms unfolding sessions_ok_def by (meson of_nat_mono order_trans)
  qed
  moreover have "distinct (map fst (AList.update token ?new ?kept))"
    using keys by (intro AList.distinct_update) (simp add: distinct_map_filter)
  moreover have "list_all (\<lambda>(k, x). se_object x < Suc (wb_objects w)) (AList.update token ?new ?kept)"
    using assms by (intro objects_update objects_fewer) (auto simp: sessions_ok_def prune_sessions_def objects_fewer)
  moreover have "distinct (objects (AList.update token ?new ?kept))"
    using assms by (intro distinct_objects_update)
      (auto simp: sessions_ok_def prune_sessions_def distinct_objects_filter intro!: new_object objects_fewer)
  ultimately show ?thesis by (simp add: sessions_ok_def open_session_def Let_def)
qed

lemma sessions_ok_delete:
  assumes "sessions_ok st w"
  shows "sessions_ok st (w\<lparr>wb_sessions := AList.delete k (wb_sessions w)\<rparr>)"
proof -
  have "int (length (sessions_of org (AList.delete k (wb_sessions w)))) \<le> max 1 (st_max_sessions st)" for org
    using assms sessions_of_delete [of org k "wb_sessions w"] unfolding sessions_ok_def
    by (meson of_nat_mono order_trans)
  then show ?thesis using assms by (simp add: sessions_ok_def AList.delete_eq objects_fewer distinct_map_filter
    distinct_objects_filter)
qed

interpretation bounded: web_invariant st "sessions_ok st" for st
proof
  show "sessions_ok st w'" if "same_sessions w w'" "sessions_ok st w" for w w'
    using that by (simp add: same_sessions_def sessions_ok_def)
  show "sessions_ok st (open_session st t token org human secret w)" if "sessions_ok st w"
    for w secret e org human t token
    using that by (rule sessions_ok_open)
  show "sessions_ok st (w\<lparr>wb_sessions := AList.update k (se\<lparr>se_object := wb_objects w, se_used := t\<rparr>)
      (wb_sessions w), wb_objects := Suc (wb_objects w)\<rparr>)"
    if "sessions_ok st w" "map_of (wb_sessions w) k = Some se" for w k se t
    using that by (simp add: sessions_ok_def AList.distinct_update objects_update sessions_of_refresh
      distinct_objects_update new_object)
  show "sessions_ok st (w\<lparr>wb_sessions := AList.delete k (wb_sessions w)\<rparr>)" if "sessions_ok st w" for w k
    using that by (rule sessions_ok_delete)
qed

text \<open>
  C35. However many people log in, refresh, leave or are refused, an organization has at most
  \<open>web_max_sessions\<close> sessions (one, if the setting is smaller).
\<close>

theorem web_sessions_bounded:
  "int (length (sessions_of org (wb_sessions (fst (snd (web_run st is (web_start port t token_file) s))))))
     \<le> max 1 (st_max_sessions st)"
proof -
  have "sessions_ok st (web_start port t token_file)" by (simp add: sessions_ok_def web_start_def)
  from bounded.P_run [OF this, of "is" s] show ?thesis by (simp add: sessions_ok_def)
qed

section \<open>A refused session stays\<close>

text \<open>No entry of the dictionary is the object \<open>se\<close>.\<close>

definition stale :: "session \<Rightarrow> web \<Rightarrow> bool" where
  "stale se w = list_all (\<lambda>(k, x). se_object x \<noteq> se_object se) (wb_sessions w)"

lemma stale_same: "same_sessions w w' \<Longrightarrow> stale se w \<Longrightarrow> stale se w'"
  by (simp add: stale_def same_sessions_def)

lemma destroy_stale: "stale se w \<Longrightarrow> destroy_session_for se w = w"
proof -
  assume "stale se w"
  then have "filter (\<lambda>(k, y). se_object y = se_object se) (wb_sessions w) = []"
    by (auto simp: stale_def list_all_iff filter_empty_conv)
  then show ?thesis by (simp add: destroy_session_for_def)
qed

lemma stale_update:
  "\<lbrakk>map_of xs k = Some se; distinct (objects xs); se_object y \<noteq> se_object se\<rbrakk>
   \<Longrightarrow> list_all (\<lambda>(k, x). se_object x \<noteq> se_object se) (AList.update k y xs)"
proof (induction xs)
  case (Cons p xs)
  then show ?case by (cases p) (auto simp: list_all_iff split: if_splits dest!: map_of_SomeD objects_of_member)
qed simp

text \<open>The object that a session is read as is no longer in the dictionary.\<close>

lemma get_session_stale:
  assumes "sessions_ok st w" and "get_session st t token w = (Some se, w')"
  shows "stale se w'"
proof -
  from assms(2) obtain k where k: "map_of (wb_sessions w) k = Some se"
      and w': "w' = w\<lparr>wb_sessions := AList.update k (se\<lparr>se_object := wb_objects w, se_used := t\<rparr>) (wb_sessions w),
        wb_objects := Suc (wb_objects w)\<rparr>"
    by (auto simp: get_session_def split: option.splits if_splits)
  have "se_object se < wb_objects w"
    using assms(1) map_of_SomeD [OF k] by (auto simp: sessions_ok_def list_all_iff)
  with assms(1) k show ?thesis unfolding w' stale_def
    by (simp add: stale_update sessions_ok_def)
qed

lemma serve_json_stale:
  assumes "same_sessions w (fst (snd made))" and "stale se w"
  shows "same_sessions w (fst (snd (serve_json st rq se nf made)))"
  using assms destroy_stale [OF stale_same [OF assms]]
  by (auto simp: serve_json_def split: prod.splits sum.splits web_error.splits)

lemma with_body_sessions:
  assumes "\<And>kvs. same_sessions w (fst (snd (f kvs)))"
  shows "same_sessions w (fst (snd (with_web_body st rq w s f)))"
  using assms by (simp add: with_web_body_def split: sum.splits)

lemmas stale_steps = serve_json_stale with_body_sessions snapshot_sessions org_sessions agent_sessions
  search_sessions conversations_sessions conversation_sessions

lemma run_get_stale: "stale se w \<Longrightarrow> same_sessions w (fst (snd (run_get st x rq h se w s)))"
  by (cases h) (auto simp: run_get_def get_search_def get_conversation_def Let_def intro!: stale_steps)

lemma run_post_stale:
  "stale se w \<Longrightarrow> h \<noteq> PostLogout \<Longrightarrow> same_sessions w (fst (snd (run_post st x rq h se w s)))"
  by (cases h) (auto simp: run_post_def serve_body_def post_task_def intro!: stale_steps
    split: option.splits json.splits)

lemma run_action_stale: "stale se w \<Longrightarrow> same_sessions w (fst (snd (run_action st x rq a se u w s)))"
  by (cases a) (auto simp: run_action_def serve_body_def intro!: stale_steps)

lemma public_get_sessions: "same_sessions w (fst (snd (run_public_get st x h w s)))"
  by (cases h) (auto simp: run_public_get_def get_root_def get_orgs_def Let_def
    split: option.splits prod.splits sum.splits web_error.splits)

lemma create_org_sessions: "same_sessions w (fst (snd (post_create_org st x rq w s)))"
  unfolding post_create_org_def
  by (rule with_body_sessions) (auto split: prod.splits sum.splits web_error.splits)

definition alive :: "ustr \<Rightarrow> web \<Rightarrow> bool" where
  "alive k w = (map_of (wb_sessions w) k \<noteq> None)"

lemma alive_same: "same_sessions w w' \<Longrightarrow> alive k w \<Longrightarrow> alive k w'"
  by (simp add: alive_def same_sessions_def)

lemma require_alive:
  assumes "sessions_ok st w" and "get_session st (we_now x) (session_token rq) w = (Some se, w1)"
    and "session_token rq = Some k" and "stale se w1 \<Longrightarrow> same_sessions w1 (fst (snd (f se w1)))"
  shows "alive k (fst (snd (require_session st x rq w s f)))"
proof -
  have "alive k w1" using assms(2,3) by (auto simp: get_session_def alive_def update_conv' split: option.splits if_splits)
  moreover have "same_sessions w1 (fst (snd (f se w1)))" using assms(1,2,4) get_session_stale by blast
  ultimately show ?thesis using assms(2) alive_same by (simp add: require_session_def)
qed

text \<open>
  C36. The comment in \<open>_serve_json\<close> says that a session whose credentials the service refuses is
  destroyed. It is not: the object that the handler holds was replaced in the dictionary when it
  was read, and the removal looks for that object. Whatever the service answers, \<open>AUTH_FAILED\<close>
  included, a request other than a login or a logout leaves its session alive.
\<close>

theorem refused_session_survives:
  assumes "sessions_ok st w" and "session_token rq = Some k"
    and "fst (get_session st (we_now x) (Some k) w) \<noteq> None"
    and "(m, wq_path rq) \<notin> {(POST, ''/api/login''), (POST, ''/api/logout'')}"
  shows "alive k (fst (snd (web_serve st (m, x, rq) w s)))"
proof -
  obtain se w1 where g: "get_session st (we_now x) (session_token rq) w = (Some se, w1)"
    using assms(2,3) by (metis not_Some_eq prod.collapse)
  note req = require_alive [OF assms(1) g assms(2)]
  have now: "alive k w"
    using assms(3) by (auto simp: get_session_def alive_def split: option.splits)
  show ?thesis
  proof (cases m)
    case GET
    have "alive k (fst (snd (run_public_get st x h w s)))" for h
      using public_get_sessions now by (rule alive_same)
    then show ?thesis using GET now
      by (auto simp: web_serve_def web_GET_def get_agent_def get_group_def Let_def run_get_stale
        intro!: req stale_steps split: option.splits bool.splits)
  next
    case POST
    have h: "h \<noteq> PostLogout" if "map_of POST_ROUTES (wq_path rq) = Some (h, b)" for h b
      using that assms(4) POST by (auto simp: POST_ROUTES_def split: if_splits)
    have "alive k (fst (snd (run_public_post st x rq h w s)))"
      if "map_of POST_ROUTES (wq_path rq) = Some (h, b)" for h b
      using that assms(4) POST now alive_same [OF create_org_sessions now]
      by (cases h) (auto simp: POST_ROUTES_def run_public_post_def split: if_splits)
    with h POST now show ?thesis
      by (auto simp: web_serve_def web_POST_def post_agent_action_def run_post_stale run_action_stale
        intro!: req split: option.splits bool.splits)
  qed
qed

section \<open>What needs a session\<close>

fun public_path :: "web_method \<Rightarrow> string \<Rightarrow> bool" where
  "public_path GET p = (starts_with ASSETS_PREFIX p
     \<or> p \<in> {''/onboarding'', ''/login'', ''/'', ''/index.html'', ''/api/orgs'', ''/api/status''})"
| "public_path POST p = (p \<in> {''/api/login'', ''/api/orgs''})"

text \<open>An answer with nothing of the service: no answer, or an error text.\<close>

definition says_nothing :: "web_response option \<Rightarrow> bool" where
  "says_nothing r = (case r of
     None \<Rightarrow> True
   | Some (code, body, c) \<Rightarrow> code \<in> {401, 404} \<and> (case body of JsonData (ErrorText m) \<Rightarrow> True | PlainText t \<Rightarrow> True | _ \<Rightarrow> False))"

text \<open>
  C34. A request without a live session reaches the service through the public routes only: any
  other is answered with an error, whatever its path and its body, and the service is not called.
\<close>

theorem no_session_no_data:
  assumes "fst (get_session st (we_now x) (session_token rq) w) = None"
    and "\<not> public_path m (wq_path rq)"
  shows "\<exists>r w'. web_serve st (m, x, rq) w s = (r, w', s) \<and> says_nothing r"
proof -
  have refused: "says_nothing (fst (require_session st x rq w s f))"
    "snd (snd (require_session st x rq w s f)) = s" for f
    using assms(1) by (auto simp: require_session_def says_nothing_def split: prod.splits)
  have missing: "says_nothing not_here" by (simp add: says_nothing_def not_here_def)
  have "says_nothing (fst (web_serve st (m, x, rq) w s)) \<and> snd (snd (web_serve st (m, x, rq) w s)) = s"
  proof (cases m)
    case GET
    then have "map_of GET_ROUTES (wq_path rq) \<noteq> Some (h, False)" for h
      using assms(2) by (auto simp: GET_ROUTES_def split: if_splits)
    with GET assms(2) refused missing show ?thesis
      by (auto simp: web_serve_def web_GET_def get_agent_def get_group_def Let_def split: option.splits bool.splits)
  next
    case POST
    then have "map_of POST_ROUTES (wq_path rq) \<noteq> Some (h, False)" for h
      using assms(2) by (auto simp: POST_ROUTES_def split: if_splits)
    with POST refused missing show ?thesis
      by (auto simp: web_serve_def web_POST_def split: option.splits bool.splits)
  qed
  then show ?thesis by (metis prod.collapse)
qed

section \<open>Files\<close>

lemma served_file:
  assumes "serve_static st rel = Some (code, File kind b, c)"
  shows "\<exists>rest. st_file st (st_root st @ rest) = FileBytes kind b"
proof -
  obtain target where "take (length (st_root st)) target = st_root st" "st_file st target = FileBytes kind b"
    using assms by (auto simp: serve_static_def not_here_def split: option.splits if_splits file_read.splits)
  then show ?thesis by (metis append_take_drop_id)
qed

section \<open>While the service is away\<close>

text \<open>
  While the socket of the service refuses connections, the list of the organizations and the
  entry page are not answered at all. The handlers mean to answer 503 and to fall back on the
  guide, but they catch the errors of the service only, not those of the transport.
\<close>

theorem service_away_is_unanswered:
  assumes "\<not> st_up st" and "wb_token w = Some secret"
    and "wq_path rq \<in> {''/api/orgs'', ''/'', ''/index.html''}"
  shows "web_serve st (GET, x, rq) w s = (None, w, s)"
proof -
  have "list_orgs_data st x w s = (Inl Crash, s)"
    using assms(1) by (auto simp: list_orgs_data_def web_call_def split: option.splits sum.splits)
  then show ?thesis using assms(2,3)
    by (auto simp: web_serve_def web_GET_def GET_ROUTES_def ASSETS_PREFIX_def starts_with_def
      run_public_get_def get_orgs_def get_root_def)
qed

section \<open>Instances\<close>

definition plain_site :: site where
  "plain_site = \<lparr>st_listener = plain_listener, st_up = False, st_ttl = 900, st_attempts = 5, st_lockout = 900,
     st_max_sessions = 3, st_snapshot_ttl = 3, st_nesting = (\<lambda>_. False), st_wide = (\<lambda>_ _. None),
     st_etag = (\<lambda>_. []), st_root = [''webui''], st_resolve = Some, st_file = (\<lambda>_. NoFile)\<rparr>"

definition plain_web_env :: web_env where
  "plain_web_env = \<lparr>we_call = (\<lambda>_. plain_env), we_token = cps ''abc'', we_uuid = ''u''\<rparr>"

definition plain_session :: session where
  "plain_session = \<lparr>se_object = 0, se_org = ''acme'', se_human = ''acme_humain'', se_secret = ''token'',
     se_created = 0, se_used = 0\<rparr>"

definition plain_web :: web where
  "plain_web = \<lparr>wb_port = 8080, wb_started = Some 0, wb_token = Some ''token'',
     wb_sessions = [(cps ''abc'', plain_session)], wb_failures = [], wb_cache = [], wb_objects = 1\<rparr>"

definition plain_web_request :: "string \<Rightarrow> ustr \<Rightarrow> web_request" where
  "plain_web_request path c = \<lparr>wq_path = path, wq_query = [], wq_cookie = c, wq_match = None,
     wq_length = None, wq_body = []\<rparr>"

lemma plain_web_ok: "sessions_ok plain_site plain_web"
  by (simp add: sessions_ok_def plain_web_def plain_session_def plain_site_def)

lemma plain_cookie: "session_token (plain_web_request path (cps ''synapse_session=abc'')) = Some (cps ''abc'')"
  by (simp add: session_token_def plain_web_request_def cps_def SESSION_COOKIE_def strip_def is_space_def)

lemma no_cookie: "session_token (plain_web_request path []) = None"
  by (simp add: session_token_def plain_web_request_def strip_def)

lemma refused_session_survives_witness:
  "alive (cps ''abc'') (fst (snd (web_serve plain_site (GET, plain_web_env,
     plain_web_request ''/api/snapshot'' (cps ''synapse_session=abc'')) plain_web plain_service)))"
  by (rule refused_session_survives [OF plain_web_ok plain_cookie])
    (simp_all add: get_session_def plain_web_def plain_session_def expired_def plain_site_def
      plain_web_env_def plain_env_def)

lemma no_session_no_data_witness:
  "\<exists>r w'. web_serve plain_site (POST, plain_web_env, plain_web_request ''/api/agents/bob/deactivate'' [])
     plain_web plain_service = (r, w', plain_service) \<and> says_nothing r"
  by (rule no_session_no_data) (simp add: no_cookie get_session_def, simp add: plain_web_request_def)

lemma service_away_is_unanswered_witness:
  "web_serve plain_site (GET, plain_web_env, plain_web_request ''/api/orgs'' []) plain_web plain_service
     = (None, plain_web, plain_service)"
  by (rule service_away_is_unanswered) (simp_all add: plain_site_def plain_web_def plain_web_request_def)

end
