(* ===== verification/BridgeProperties.thy ===== *)
theory BridgeProperties
  imports Bridge
begin

text \<open>
  What holds of the gateway: its answers, what one message can do to its clock, and what it can do
  to the service.
\<close>

section \<open>A clock at its end\<close>

text \<open>A remote stamp is at most the last canonical one.\<close>

lemma decimal_bound: "decimal x = Some d \<Longrightarrow> d < 10"
  by (auto simp: decimal_def dest!: fetch_SomeD)

lemma py_int_bound: "py_int us < 10 ^ length us"
proof (induction us rule: rev_induct)
  case (snoc x us)
  have "(case decimal x of None \<Rightarrow> 0 | Some d \<Rightarrow> d) < 10" using decimal_bound by (auto split: option.split)
  with snoc show ?case by (simp add: py_int_snoc)
qed (simp add: py_int_def)

lemma decimals: "decimal 46 = None" "decimal 57 = Some 9"
  by (simp_all add: decimal_def nd_zeros_def fetch_Cons)

lemma dot_is_no_digit: "\<not> is_digit 46"
  by (simp add: is_digit_def decimals)

lemma valid_parts:
  assumes "is_valid s"
  shows "takeWhile (\<lambda>x. x \<noteq> 46) s = take 13 s" and "tl (dropWhile (\<lambda>x. x \<noteq> 46) s) = drop 14 s"
proof -
  have len: "length s = 20" and dig: "\<forall>x \<in> set (take 13 s). is_digit x" and dot: "s ! 13 = 46"
    using assms by (simp_all add: is_valid_def)
  have s: "s = take 13 s @ 46 # drop 14 s"
    using len dot id_take_nth_drop [of 13 s] by simp
  have all: "\<forall>x \<in> set (take 13 s). x \<noteq> 46" using dig dot_is_no_digit by metis
  show "takeWhile (\<lambda>x. x \<noteq> 46) s = take 13 s"
    by (subst s, subst takeWhile_append2) (use all in auto)
  show "tl (dropWhile (\<lambda>x. x \<noteq> 46) s) = drop 14 s"
    by (subst s, subst dropWhile_append2) (use all in auto)
qed

lemma decode_bound:
  assumes "decode s = Inr (l, c)"
  shows "l \<le> MAX_L"
proof -
  have v: "is_valid s" using assms by (auto simp: decode_def split: if_splits)
  then have "length (take 13 s) = 13" by (simp add: is_valid_def)
  then have "py_int (take 13 s) < 10 ^ 13" using py_int_bound [of "take 13 s"] by simp
  moreover have "l = int (py_int (take 13 s))" using assms v by (auto simp: decode_def valid_parts)
  ultimately show ?thesis by (simp add: MAX_L_def)
qed

definition spent :: "hlc \<Rightarrow> bool" where
  "spent k = (hl k = MAX_L \<and> MAX_C \<le> hc k)"

lemma spent_stamp: "spent k \<Longrightarrow> pt \<le> MAX_L \<Longrightarrow> \<exists>k'. stamp pt k = (Inl ValueError, k') \<and> spent k'"
  by (auto simp: stamp_def spent_def encode_def Let_def MAX_C_def)

lemma spent_observe: "spent k \<Longrightarrow> observe remote k = (r, k') \<Longrightarrow> spent k'"
proof (cases "decode remote")
  case (Inr p)
  assume "spent k" and o: "observe remote k = (r, k')"
  obtain l c where p: "p = (l, c)" by (cases p)
  with Inr observe_result [OF _ o] decode_bound [of remote l c] have "k < k'" "hl k' = max (hl k) l" "l \<le> MAX_L"
    by simp_all
  with \<open>spent k\<close> show ?thesis by (auto simp: spent_def less_hlc_def max_def split: if_splits)
next
  case (Inl err)
  assume "spent k" "observe remote k = (r, k')"
  with Inl show ?thesis by (auto simp: observe_def split: if_splits)
qed

lemma observe_last:
  assumes "hl k \<le> MAX_L" and "decode remote = Inr (MAX_L, MAX_C)" and o: "observe remote k = (r, k')"
  shows "r = Inr () \<and> spent k'"
  using observe_result [OF assms(2) o] assms(1)
  by (auto simp: spent_def less_hlc_def max_def split: if_splits)

text \<open>The last canonical stamp, a text that any peer may send.\<close>

definition LAST_STAMP :: string where "LAST_STAMP = ''9999999999999.999999''"

lemma last_stamp: "is_valid (code_points LAST_STAMP)" "decode (code_points LAST_STAMP) = Inr (MAX_L, MAX_C)"
proof -
  have c: "code_points LAST_STAMP = replicate 13 57 @ 46 # replicate 6 57"
    by (simp add: LAST_STAMP_def point_ascii numeral_eq_Suc)
  then show v: "is_valid (code_points LAST_STAMP)"
    by (simp add: is_valid_def is_digit_def decimals nth_append)
  have nines: "int (py_int (replicate n 57)) = 10 ^ n - 1" for n
  proof (induction n)
    case (Suc n)
    then show ?case by (simp add: replicate_append_same [symmetric] py_int_snoc decimals)
  qed (simp add: py_int_def)
  show "decode (code_points LAST_STAMP) = Inr (MAX_L, MAX_C)"
    using valid_parts [OF v] v by (simp add: decode_def MAX_L_def MAX_C_def c nines)
qed

section \<open>A gateway whose clock is spent\<close>

definition skewed :: "gateway \<Rightarrow> env \<Rightarrow> int" where
  "skewed g e = physical e + clock_skew_ms (settings (gw_listener g))"

lemma spent_envelope:
  assumes "spent (br_clock b)" and "skewed g e \<le> MAX_L"
  shows "\<exists>b'. envelope_hlc g e r b = (Internal, b') \<and> spent (br_clock b')"
  using spent_stamp [OF assms(1), of "skewed g e"] assms(2)
  by (auto simp: envelope_hlc_def skewed_def)

definition no_result :: "outcome \<times> bridge \<times> service \<Rightarrow> bool" where
  "no_result x = (case x of (r, b, s) \<Rightarrow> (\<forall>kvs. r \<noteq> Result kvs) \<and> spent (br_clock b))"

lemma bridge_call_no_result: "bridge_call g e name args b s = (Inl r, s') \<Longrightarrow> r \<noteq> Result kvs"
  by (auto simp: bridge_call_def split: option.splits sum.splits prod.splits client_error.splits)

lemma with_task_other:
  "\<nexists>t. data = RTask t \<Longrightarrow> with_task g e f b (Inr data, s) = (Internal, b, s)"
  by (cases data) (simp_all add: with_task_def)

lemma with_task_no_result:
  assumes "spent (br_clock b)" and "skewed g e \<le> MAX_L"
  shows "no_result (with_task g e f b (bridge_call g e name args b s))"
proof -
  obtain r s' where c: "bridge_call g e name args b s = (r, s')" by force
  show ?thesis
  proof (cases r)
    case (Inl err)
    with c bridge_call_no_result assms(1) show ?thesis
      by (fastforce simp: with_task_def no_result_def)
  next
    case (Inr data)
    show ?thesis
    proof (cases "\<exists>t. data = RTask t")
      case True
      then obtain t where t: "data = RTask t" by blast
      obtain b' where "envelope_hlc g e (f t) b = (Internal, b')" "spent (br_clock b')"
        using spent_envelope [OF assms] by blast
      then show ?thesis by (simp add: c Inr t with_task_def no_result_def)
    next
      case False
      then show ?thesis using assms(1) by (simp add: c Inr with_task_other no_result_def)
    qed
  qed
qed

lemma tasks_list_no_result:
  assumes "spent (br_clock b)" and "skewed g e \<le> MAX_L"
  shows "no_result (tasks_list g e b s)"
proof -
  obtain r s' where c: "bridge_call g e ''list_tasks'' [] b s = (r, s')" by force
  show ?thesis
  proof (cases r)
    case (Inl err)
    with c bridge_call_no_result assms(1) show ?thesis
      by (fastforce simp: tasks_list_def no_result_def)
  next
    case (Inr data)
    show ?thesis
    proof (cases "\<exists>x. data = RTasks x")
      case True
      then obtain x ts y where t: "data = RTasks (x, ts, y)" by (metis prod_cases3)
      obtain b' where "envelope_hlc g e [(''tasks'', JList (map (\<lambda>t. JObj [
              (''taskId'', JStr (task_id (tv_row t))), (''status'', task_status t),
              (''title'', JStr (task_title (tv_row t)))]) ts))] b = (Internal, b')" "spent (br_clock b')"
        using spent_envelope [OF assms] by blast
      then show ?thesis by (simp add: c Inr t tasks_list_def no_result_def)
    next
      case False
      then show ?thesis using assms(1) by (cases data) (auto simp: c Inr tasks_list_def no_result_def)
    qed
  qed
qed

lemma no_result_simps: "no_result (r, b, s) \<longleftrightarrow> (\<forall>kvs. r \<noteq> Result kvs) \<and> spent (br_clock b)"
  by (simp add: no_result_def)

lemma tasks_message_no_result:
  assumes "spent (br_clock b)" and "skewed g e \<le> MAX_L"
  shows "no_result (tasks_message g e p b s)"
proof -
  have after: "spent (br_clock (b\<lparr>br_clock := k\<rparr>))" if "observe h (br_clock b) = (r, k)" for h r k
    using spent_observe [OF assms(1) that] by simp
  show ?thesis
    using assms(1) with_task_no_result [OF _ assms(2)] after
    by (auto simp: tasks_message_def no_result_simps Let_def split: json.splits option.splits list.splits
        prod.splits sum.splits)
qed

lemma run_method_no_result:
  assumes "spent (br_clock b)" and "skewed g e \<le> MAX_L" and "run_method g e name p b s = Some x"
  shows "no_result x"
  using assms(1,3) tasks_message_no_result [OF assms(1,2)] tasks_list_no_result [OF assms(1,2)]
    with_task_no_result [OF assms(1,2)]
  by (auto simp: run_method_def Let_def tasks_get_def tasks_cancel_def no_result_simps
      split: if_splits json.splits)

lemma answer_no_result: "(\<forall>kvs. r \<noteq> Result kvs) \<Longrightarrow> jget (rpc_answer rpc_id r) ''result'' = None"
  by (cases r) (simp_all add: rpc_answer_def a2a_error_def)

text \<open>A dispatched request either runs a method or leaves everything as it was.\<close>

lemma dispatch_cases:
  "(\<exists>rpc_id code m. bridge_dispatch g e request b s = (a2a_error rpc_id code m, b, s)) \<or>
   (\<exists>m r b' s'. map_of request ''method'' = Some (JStr m)
      \<and> run_method g e m (or_else (get_or request ''params'' JNull) (JObj [])) b s = Some (r, b', s')
      \<and> bridge_dispatch g e request b s = (rpc_answer (get_or request ''id'' JNull) r, b', s'))"
proof (cases "map_of request ''method''")
  case (Some name)
  let ?run = "case name of JStr m \<Rightarrow>
    run_method g e m (or_else (get_or request ''params'' JNull) (JObj [])) b s | _ \<Rightarrow> None"
  show ?thesis
  proof (cases "get_or request ''jsonrpc'' JNull = JStr ''2.0''")
    case True
    show ?thesis
    proof (cases ?run)
      case None
      with True Some show ?thesis by (intro disjI1) (simp add: bridge_dispatch_def Let_def, blast)
    next
      case run: (Some x)
      then obtain m where m: "name = JStr m" by (auto split: json.splits)
      obtain r b' s' where "x = (r, b', s')" by (metis prod_cases3)
      with True m Some run show ?thesis by (auto simp: bridge_dispatch_def Let_def)
    qed
  next
    case False
    with Some show ?thesis by (intro disjI1) (simp add: bridge_dispatch_def, blast)
  qed
qed (intro disjI1, simp add: bridge_dispatch_def, blast)

lemma dispatch_no_result:
  assumes "spent (br_clock b)" and "skewed g e \<le> MAX_L" and "bridge_dispatch g e request b s = (j, b', s')"
  shows "jget j ''result'' = None \<and> spent (br_clock b')"
  using dispatch_cases [of g e request b s]
proof (elim disjE exE conjE)
  fix m r b1 s1
  assume "run_method g e m (or_else (get_or request ''params'' JNull) (JObj [])) b s = Some (r, b1, s1)"
    and d: "bridge_dispatch g e request b s = (rpc_answer (get_or request ''id'' JNull) r, b1, s1)"
  from run_method_no_result [OF assms(1,2) this(1)] d assms(3) answer_no_result [of r]
  show ?thesis by (simp add: no_result_simps)
next
  fix rpc_id code m
  assume "bridge_dispatch g e request b s = (a2a_error rpc_id code m, b, s)"
  with assms(1,3) show ?thesis by (auto simp: a2a_error_def)
qed

text \<open>JSON-RPC requests one after the other.\<close>

fun dispatch_all ::
    "gateway \<Rightarrow> (env \<times> params) list \<Rightarrow> bridge \<Rightarrow> service \<Rightarrow> json list \<times> bridge \<times> service" where
  "dispatch_all g [] b s = ([], b, s)"
| "dispatch_all g ((e, request) # later) b s =
     (case bridge_dispatch g e request b s of
        (j, b', s') \<Rightarrow> apfst ((#) j) (dispatch_all g later b' s'))"

lemma dispatch_all_no_result:
  assumes "spent (br_clock b)" and "\<forall>(e, rq) \<in> set rqs. skewed g e \<le> MAX_L"
  shows "\<forall>j \<in> set (fst (dispatch_all g rqs b s)). jget j ''result'' = None"
  using assms
proof (induction rqs arbitrary: b s)
  case (Cons x rqs)
  obtain e rq where x: "x = (e, rq)" by (cases x)
  obtain j b' s' where d: "bridge_dispatch g e rq b s = (j, b', s')" by (metis prod_cases3)
  with dispatch_no_result [OF _ _ d] Cons.prems x have "jget j ''result'' = None" "spent (br_clock b')"
    by auto
  with Cons.IH [of b' s'] Cons.prems(2) show ?case by (auto simp: x d)
qed simp

definition last_stamp_message :: "json \<Rightarrow> params" where
  "last_stamp_message words = [(''jsonrpc'', JStr ''2.0''), (''id'', JInt 1),
     (''method'', JStr ''tasks/message''),
     (''params'', JObj [(''message'', JObj [(''parts'', JList [JObj [(''text'', words)]]),
        (''metadata'', JObj [(''hlc'', JStr LAST_STAMP)])])])]"

lemma last_stamp_message_spends:
  assumes "hl (br_clock b) \<le> MAX_L" and "skewed g e \<le> MAX_L"
    and d: "bridge_dispatch g e (last_stamp_message words) b s = (j, b', s')"
  shows "jget j ''result'' = None \<and> spent (br_clock b')"
proof -
  let ?message = "[(''parts'', JList [JObj [(''text'', words)]]), (''metadata'', JObj [(''hlc'', JStr LAST_STAMP)])]"
  let ?p = "[(''message'', JObj ?message)]"
  obtain r k where o: "observe (code_points LAST_STAMP) (br_clock b) = (r, k)" by force
  with observe_last [OF assms(1) last_stamp(2)] have k: "r = Inr ()" "spent k" by blast+
  have "no_result (tasks_message g e ?p b s)"
    using with_task_no_result [OF _ assms(2), of "b\<lparr>br_clock := k\<rparr>"] k last_stamp(1)
    by (simp add: tasks_message_def get_or_def or_else_def first_text_def Let_def o)
  moreover have "run_method g e ''tasks/message'' (JObj ?p) b s = Some (tasks_message g e ?p b s)"
    by (simp add: run_method_def)
  ultimately show ?thesis
    using d answer_no_result
    by (auto simp: bridge_dispatch_def last_stamp_message_def get_or_def or_else_def no_result_def
        split: prod.splits)
qed

text \<open>
  C32. One message of a peer silences the gateway: after the last canonical stamp, which is
  accepted as a remote clock, no call is answered by a result again, although the calls are still
  made. The remark that a remote stamp can never corrupt the clock does not hold.
\<close>

theorem one_message_silences_the_gateway:
  assumes "hl (br_clock b) \<le> MAX_L"
    and "\<forall>(e, rq) \<in> set ((e0, last_stamp_message words) # later). skewed g e \<le> MAX_L"
  shows "\<forall>j \<in> set (fst (dispatch_all g ((e0, last_stamp_message words) # later) b s)). jget j ''result'' = None"
proof -
  obtain j b' s' where d: "bridge_dispatch g e0 (last_stamp_message words) b s = (j, b', s')"
    by (metis prod_cases3)
  from last_stamp_message_spends [OF assms(1) _ this] assms(2)
  have "jget j ''result'' = None" "spent (br_clock b')" by simp_all
  with dispatch_all_no_result [of b' later g s'] assms(2) show ?thesis by (simp add: d)
qed

definition plain_gateway :: gateway where
  "plain_gateway = \<lparr>gw_listener = plain_listener, gw_network = sample_net, gw_version = [],
     gw_nesting = (\<lambda>_. False), gw_text_of = (\<lambda>_. []), gw_time_text = (\<lambda>_. [])\<rparr>"

definition plain_bridge :: bridge where
  "plain_bridge = \<lparr>br_agent = ''alice'', br_password = ''alice-password'', br_port = 8090,
     br_token = Some (cps ''secret''), br_clock = HLC 0 0, br_registry = empty_registry 86400000 False\<rparr>"

definition list_request :: params where
  "list_request = [(''jsonrpc'', JStr ''2.0''), (''id'', JInt 2), (''method'', JStr ''tasks/list'')]"

lemma one_message_silences_the_gateway_witness:
  "list_all (\<lambda>j. jget j ''result'' = None) (fst (dispatch_all plain_gateway
     [(plain_env, last_stamp_message (JStr ''hello'')), (plain_env, list_request)] plain_bridge plain_service))"
  unfolding list_all_iff
  by (rule one_message_silences_the_gateway)
    (simp_all add: plain_bridge_def plain_gateway_def plain_listener_def skewed_def plain_env_def
      plain_config_def MAX_L_def)

section \<open>What the gateway asks of the service\<close>

lemma NEWLINE_code: "(of_char NEWLINE :: nat) = 10"
  by (simp add: NEWLINE_def)

lemma no_newline: "\<forall>c \<in> set s. (of_char c :: nat) \<noteq> 10 \<Longrightarrow> NEWLINE \<notin> set s"
  using NEWLINE_code by metis

lemma no_newline_escape: "NEWLINE \<notin> set (json_escape c)"
  by (rule no_newline) (auto simp: json_escape_def Let_def hex_digit_def BSL_def)

lemma no_newline_string: "NEWLINE \<notin> set (json_string s)"
  using no_newline_escape by (auto simp: json_string_def QUOTE_def NEWLINE_def)

lemma no_newline_int: "NEWLINE \<notin> set (int_text i)"
proof -
  have "\<forall>c \<in> set (nat_text n). (of_char c :: nat) \<noteq> 10" for n
    using nat_text_dec [of n] by (auto simp: list_all_iff is_dec_def)
  then show ?thesis by (intro no_newline) (auto simp: int_text_def)
qed

lemma set_join: "set (join sep xs) \<subseteq> set sep \<union> (\<Union>x \<in> set xs. set x)"
  by (induction sep xs rule: join.induct) auto

lemma no_newline_dumps:
  "json_ok j \<Longrightarrow> NEWLINE \<notin> set (fst sep) \<union> set (snd sep) \<Longrightarrow> NEWLINE \<notin> set (dumps sep j)"
proof (induction j)
  case (JList xs)
  then have "NEWLINE \<notin> set (join (fst sep) (map (dumps sep) xs))"
    using set_join [of "fst sep" "map (dumps sep) xs"] by (auto simp: list_all_iff)
  then show ?case by (simp add: NEWLINE_def)
next
  case (JObj kvs)
  have one: "NEWLINE \<notin> set (json_string k @ snd sep @ dumps sep v)" if "(k, v) \<in> set kvs" for k v
  proof -
    have "json_ok v" using JObj.prems(1) that by (auto simp: list_all_iff)
    then have "NEWLINE \<notin> set (dumps sep v)" using JObj.IH [OF that] JObj.prems(2) by simp
    then show ?thesis using no_newline_string JObj.prems(2) by simp
  qed
  then have "\<forall>x \<in> set (map (\<lambda>(k, v). json_string k @ snd sep @ dumps sep v) kvs). NEWLINE \<notin> set x"
    by auto
  then have "NEWLINE \<notin> set (join (fst sep) (map (\<lambda>(k, v). json_string k @ snd sep @ dumps sep v) kvs))"
    using set_join [of "fst sep" "map (\<lambda>(k, v). json_string k @ snd sep @ dumps sep v) kvs"] JObj.prems(2)
    by blast
  then show ?case by (simp add: NEWLINE_def)
qed (simp_all add: no_newline_int no_newline_string, simp_all add: NEWLINE_def)

lemma no_newline_compact: "json_ok j \<Longrightarrow> NEWLINE \<notin> set (compact j)"
  by (rule no_newline_dumps) (auto simp: compact_separators_def NEWLINE_def)

text \<open>One line on a connection: the service is left alone or processes the line.\<close>

lemma one_line_state:
  assumes "NEWLINE \<notin> set payload" and "payload \<noteq> []"
  shows "snd (serve_connection l (\<lambda>_. e) 0 (payload @ [NEWLINE]) [] s) \<in> {s, snd (answer_line l e payload s)}"
proof -
  have "lines_of (payload @ [NEWLINE]) = [payload]"
    using cut_line_line [OF assms(1), of "[]"] by (simp add: lines_of_cut lines_of_last)
  then show ?thesis
    using serve_chunks [of "[]" l "\<lambda>_. e" 0 "payload @ [NEWLINE]" s] by (simp split: prod.split)
qed

lemma strip_subset: "set (strip us) \<subseteq> set us"
  using strip_infix [of us] by (metis Un_iff set_append subsetI)

lemma token_line:
  assumes "NEWLINE \<notin> set line" and "token_accepted t line"
  shows "NEWLINE \<notin> set t"
proof
  assume "NEWLINE \<in> set t"
  then have "10 \<in> set (cps t)" using NEWLINE_code by (force simp: cps_def)
  then have "10 \<in> set (cps line)" using assms(2) strip_subset [of "cps line"] by (auto simp: token_accepted_def)
  then have "NEWLINE \<in> set line" using NEWLINE_code by (auto simp: cps_def)
  with assms(1) show False by contradiction
qed

lemma one_request_state:
  assumes "NEWLINE \<notin> set payload" and "payload \<noteq> []"
  shows "snd (handle_connection l (\<lambda>_. e) [Chunk (first_line l @ payload @ [NEWLINE])] s)
    \<in> {s, snd (answer_line l e payload s)}"
proof (cases "first_line l = []")
  case True
  then have "handle_connection l (\<lambda>_. e) [Chunk (first_line l @ payload @ [NEWLINE])] s =
      serve_connection l (\<lambda>_. e) 0 [] (map Chunk [payload @ [NEWLINE]]) s"
    by (auto simp: handle_connection_def first_line_def split: option.splits if_splits)
  also have "\<dots> = serve_connection l (\<lambda>_. e) 0 (payload @ [NEWLINE]) [] s"
    using serve_chunks [of "[payload @ [NEWLINE]]" l "\<lambda>_. e" 0 "[]" s]
      serve_chunks [of "[]" l "\<lambda>_. e" 0 "payload @ [NEWLINE]" s] by simp
  finally show ?thesis using one_line_state [OF assms] by simp
next
  case False
  then obtain t where t: "auth_token l = Some t" "t \<noteq> []" "first_line l = t @ [NEWLINE]"
    by (auto simp: first_line_def split: option.splits if_splits)
  let ?input = "t @ [NEWLINE] @ payload @ [NEWLINE]"
  obtain line rest where cut: "cut_line ?input = Some (line, rest)"
    using cut_line_None [of ?input] by (cases "cut_line ?input") auto
  have "read_line (max_request_bytes l) [] [Chunk ?input] =
      (if max_request_bytes l < length line then TooLarge else Line line, rest, [])"
    using read_line_wait(2) [of "[]" _ "hd ?input" "tl ?input" "[]"] read_line_cut [OF cut, of _ "[]"]
    by (cases t) simp_all
  moreover have "rest = payload @ [NEWLINE]" if "token_accepted t line"
  proof -
    have "NEWLINE \<notin> set t" using cut_line_cut [OF cut] token_line that by blast
    from cut_line_line [OF this, of "payload @ [NEWLINE]"] cut show ?thesis by simp
  qed
  ultimately show ?thesis
    using one_line_state [OF assms, of l e s] t by (auto simp: handle_connection_def)
qed

lemma service_reply_state:
  assumes "json_ok (JObj p)"
  shows "snd (service_reply l e c p s) \<in>
    {s, snd (process (settings l) e (scanning l)
      (decode_request (characters l) (interpreter l) (compact (client_envelope c p))) s)}"
proof -
  have ok: "json_ok (client_envelope c p)" using assms by (simp add: client_envelope_def)
  then have "NEWLINE \<notin> set (compact (client_envelope c p))" "compact (client_envelope c p) \<noteq> []"
    using no_newline_compact compact_nonempty by auto
  from one_request_state [OF this, of l e s] this(2) show ?thesis
    by (auto simp: service_reply_def Let_def answer_line_def process_bytes_def
        split: list.splits response.splits prod.splits)
qed

lemma envelope_validated:
  assumes "validate_envelope u (client_envelope c p) = Inr (c', p')"
  shows "c' = c \<and> (\<exists>params org. map_of COMMAND_SPECS c = Some (params, org)
    \<and> map_exc (validate_param u p) params = Inr p')"
  using assms by (auto simp: validate_envelope_def client_envelope_def exc_simps split: if_splits option.splits)

lemma decoded_request:
  assumes "json_ok (JObj p)" and "decode_request u tn (compact (client_envelope c p)) = Inr r"
  obtains params org p' where "map_of COMMAND_SPECS c = Some (params, org)"
    and "map_exc (validate_param u p) params = Inr p'" and "build_request u c org p' = Inr r"
proof -
  have "json_ok (client_envelope c p)" using assms(1) by (simp add: client_envelope_def)
  from scan_line [OF this, of "[]"] assms(2) obtain c' p' where
    v: "validate_envelope u (client_envelope c p) = Inr (c', p')" "request_of u c' p' = Inr r"
    by (auto simp: decode_request_def parse_json_request_def exc_simps split: if_splits)
  from envelope_validated [OF v(1)] v(2) that show thesis by (auto simp: request_of_def)
qed

lemma validated_value:
  assumes "map_exc (validate_param u parameters) params = Inr p'" and "(k, t, req, chk) \<in> set params"
    and "distinct (map fst params)"
  shows "\<exists>raw v. map_of parameters k = Some raw \<and> run_check u chk raw = Inr v \<and> map_of p' k = Some v"
  using assms
proof (induction params arbitrary: p')
  case (Cons q params)
  obtain y p1 where y: "validate_param u parameters q = Inr y" "map_exc (validate_param u parameters) params = Inr p1"
    "p' = y # p1"
    using Cons.prems(1) by (auto simp: exc_simps)
  have key: "fst y = fst q" using y(1) by (auto simp: validate_param_def exc_simps split: prod.splits if_splits)
  show ?case
  proof (cases "q = (k, t, req, chk)")
    case True
    with y(1) have "\<exists>raw v. map_of parameters k = Some raw \<and> run_check u chk raw = Inr v \<and> y = (k, v)"
      by (auto simp: validate_param_def exc_simps split: if_splits option.splits)
    with y(3) show ?thesis by auto
  next
    case False
    then have "(k, t, req, chk) \<in> set params" using Cons.prems(2) by auto
    moreover from this have "fst q \<noteq> k" using Cons.prems(3) by (auto simp: image_iff)
    ultimately show ?thesis using Cons.IH [OF y(2)] Cons.prems(3) key y(3) by (cases y) auto
  qed
qed simp

text \<open>The caller of a decoded user's request is read from the two parameters, as they are.\<close>

lemma decoded_caller:
  assumes "map_exc (validate_param u p) params = Inr p'" and "build_request u c False p' = Inr r"
    and "(''my_name_auth'', PStr, True, No_check) \<in> set params"
    and "(''my_password_auth'', PStr, True, No_check) \<in> set params" and "distinct (map fst params)"
    and "map_of p ''my_name_auth'' = Some (JStr n)" and "map_of p ''my_password_auth'' = Some (JStr pw)"
  shows "\<exists>x. r = UserRequest (py_lower u n) pw x \<and> user_command_of c p' = Inr x"
  using validated_value [OF assms(1,3,5)] validated_value [OF assms(1,4,5)] assms(2,6,7)
  by (auto simp: build_request_def arg_def text_param_def param_def exc_simps)

text \<open>The six commands.\<close>

fun gateway_command :: "bool \<Rightarrow> agent_command \<Rightarrow> bool" where
  "gateway_command holder GetMyOrganization = True"
| "gateway_command holder (GetAgentCard u) = True"
| "gateway_command holder (CreateTask p) = holder"
| "gateway_command holder (GetTask i) = holder"
| "gateway_command holder (ListTasks p c) = holder"
| "gateway_command holder (UpdateTaskState i st r) = (holder \<and> st = Canceled)"
| "gateway_command holder _ = False"

lemma gateway_handlers:
  "map_of HUMAN_HANDLERS ''get_my_organization'' = None" "map_of HUMAN_HANDLERS ''get_agent_card'' = None"
  "map_of HUMAN_HANDLERS ''create_task'' = None" "map_of HUMAN_HANDLERS ''get_task'' = None"
  "map_of HUMAN_HANDLERS ''list_tasks'' = None" "map_of HUMAN_HANDLERS ''update_task_state'' = None"
  by (simp_all add: HUMAN_HANDLERS_def)

lemma read_commands:
  "user_command_of ''get_my_organization'' p = Inr x \<Longrightarrow> \<exists>c. x = Agents c \<and> gateway_command False c"
  "user_command_of ''get_agent_card'' p = Inr x \<Longrightarrow> \<exists>c. x = Agents c \<and> gateway_command False c"
  by (auto simp: user_command_of_def gateway_handlers AGENT_HANDLERS_def arg_def exc_simps split: sum.splits)

lemma task_commands:
  "user_command_of ''create_task'' p = Inr x \<Longrightarrow> \<exists>c. x = Agents c \<and> gateway_command True c"
  "user_command_of ''get_task'' p = Inr x \<Longrightarrow> \<exists>c. x = Agents c \<and> gateway_command True c"
  "user_command_of ''list_tasks'' p = Inr x \<Longrightarrow> \<exists>c. x = Agents c \<and> gateway_command True c"
  by (auto simp: user_command_of_def gateway_handlers AGENT_HANDLERS_def arg_def exc_simps split: sum.splits)

lemma cancel_command:
  assumes "user_command_of ''update_task_state'' p = Inr x" and "map_of p ''new_state'' = Some (JStr ''canceled'')"
  shows "\<exists>c. x = Agents c \<and> gateway_command True c"
  using assms
  by (auto simp: user_command_of_def gateway_handlers AGENT_HANDLERS_def arg_def exc_simps word_param_def
      text_param_def param_def word_def STATE_WORDS_def split: sum.splits)

definition bridge_send :: "gateway \<Rightarrow> env \<Rightarrow> string \<Rightarrow> params \<Rightarrow> service \<Rightarrow> (outcome + reply) \<times> service" where
  "bridge_send g e name p s =
     (case service_reply (gw_listener g) e name p s of
        (Inl (ApiClientError c m), s') \<Rightarrow> (Inl (ApiRefused m), s')
      | (Inl _, s') \<Rightarrow> (Inl Internal, s')
      | (Inr data, s') \<Rightarrow> (Inr data, s'))"

text \<open>What the client library sends in each call.\<close>

lemma method_create_task: "map_of CLIENT_METHODS ''create_task'' = Some (
    [(''title'', None), (''assignee_username'', None), (''my_name_auth'', None),
     (''my_password_auth'', None), (''description'', Some JNull), (''priority'', Some JNull),
     (''due_at'', Some JNull), (''deadline'', Some JNull), (''depends_on'', Some JNull),
     (''business_reference'', Some JNull), (''client_task_id'', Some JNull)],
    [Same ''title'', Same ''description'', Same ''assignee_username'', Same ''priority'',
     Same ''due_at'', Same ''deadline'', ListOf ''depends_on'', Same ''business_reference'',
     Same ''client_task_id'', Same ''my_name_auth'', Same ''my_password_auth''])"
  by code_simp

lemma call_create_task:
  "bridge_call g e ''create_task'' [(''title'', x), (''assignee_username'', y)] b s = bridge_send g e ''create_task''
     [(''title'', x), (''description'', JNull), (''assignee_username'', y),
      (''priority'', JNull), (''due_at'', JNull), (''deadline'', JNull),
      (''depends_on'', JList []), (''business_reference'', JNull),
      (''client_task_id'', JNull), (''my_name_auth'', JStr (br_agent b)),
      (''my_password_auth'', JStr (br_password b))] s"
  by (simp add: bridge_call_def method_create_task call_parameters_def bind_arguments_def agent_args_def
      field_value_def bridge_send_def)

lemma method_get_task: "map_of CLIENT_METHODS ''get_task'' = Some (
    [(''task_id'', None), (''my_name_auth'', None), (''my_password_auth'', None)],
    [Same ''task_id'', Same ''my_name_auth'', Same ''my_password_auth''])"
  by code_simp

lemma call_get_task:
  "bridge_call g e ''get_task'' [(''task_id'', x)] b s = bridge_send g e ''get_task''
     [(''task_id'', x), (''my_name_auth'', JStr (br_agent b)),
      (''my_password_auth'', JStr (br_password b))] s"
  by (simp add: bridge_call_def method_get_task call_parameters_def bind_arguments_def agent_args_def
      field_value_def bridge_send_def)

lemma method_list_tasks: "map_of CLIENT_METHODS ''list_tasks'' = Some (
    [(''my_name_auth'', None), (''my_password_auth'', None),
     (''assignee_username'', Some JNull), (''state'', Some JNull), (''priority'', Some JNull),
     (''due_before'', Some JNull), (''limit'', Some JNull), (''cursor'', Some JNull)],
    [Same ''assignee_username'', Same ''state'', Same ''priority'', Same ''due_before'',
     Same ''limit'', Same ''cursor'', Same ''my_name_auth'', Same ''my_password_auth''])"
  by code_simp

lemma call_list_tasks:
  "bridge_call g e ''list_tasks'' [] b s = bridge_send g e ''list_tasks''
     [(''assignee_username'', JNull), (''state'', JNull), (''priority'', JNull),
      (''due_before'', JNull), (''limit'', JNull), (''cursor'', JNull),
      (''my_name_auth'', JStr (br_agent b)), (''my_password_auth'', JStr (br_password b))] s"
  by (simp add: bridge_call_def method_list_tasks call_parameters_def bind_arguments_def agent_args_def
      field_value_def bridge_send_def)

lemma method_update_task_state: "map_of CLIENT_METHODS ''update_task_state'' = Some (
    [(''task_id'', None), (''new_state'', None), (''my_name_auth'', None),
     (''my_password_auth'', None), (''result'', Some JNull)],
    [Same ''task_id'', Same ''new_state'', Same ''result'', Same ''my_name_auth'',
     Same ''my_password_auth''])"
  by code_simp

lemma call_update_task_state:
  "bridge_call g e ''update_task_state'' [(''task_id'', x), (''new_state'', y)] b s = bridge_send g e ''update_task_state''
     [(''task_id'', x), (''new_state'', y), (''result'', JNull),
      (''my_name_auth'', JStr (br_agent b)), (''my_password_auth'', JStr (br_password b))] s"
  by (simp add: bridge_call_def method_update_task_state call_parameters_def bind_arguments_def agent_args_def
      field_value_def bridge_send_def)

lemma method_get_my_organization: "map_of CLIENT_METHODS ''get_my_organization'' = Some (
    [(''my_name_auth'', None), (''my_password_auth'', None)],
    [Same ''my_name_auth'', Same ''my_password_auth''])"
  by code_simp

lemma call_get_my_organization:
  "bridge_call g e ''get_my_organization'' [] b s = bridge_send g e ''get_my_organization''
     [(''my_name_auth'', JStr (br_agent b)), (''my_password_auth'', JStr (br_password b))] s"
  by (simp add: bridge_call_def method_get_my_organization call_parameters_def bind_arguments_def agent_args_def
      field_value_def bridge_send_def)

lemma method_get_agent_card: "map_of CLIENT_METHODS ''get_agent_card'' = Some (
    [(''username'', None), (''my_name_auth'', None), (''my_password_auth'', None)],
    [Same ''username'', Same ''my_name_auth'', Same ''my_password_auth''])"
  by code_simp

lemma call_get_agent_card:
  "bridge_call g e ''get_agent_card'' [(''username'', x)] b s = bridge_send g e ''get_agent_card''
     [(''username'', x), (''my_name_auth'', JStr (br_agent b)),
      (''my_password_auth'', JStr (br_password b))] s"
  by (simp add: bridge_call_def method_get_agent_card call_parameters_def bind_arguments_def agent_args_def
      field_value_def bridge_send_def)

definition user_spec :: "string \<Rightarrow> bool" where
  "user_spec c = (case map_of COMMAND_SPECS c of
     None \<Rightarrow> False
   | Some (params, org) \<Rightarrow> \<not> org \<and> (''my_name_auth'', PStr, True, No_check) \<in> set params
       \<and> (''my_password_auth'', PStr, True, No_check) \<in> set params \<and> distinct (map fst params))"

lemma user_specs:
  "user_spec ''create_task''" "user_spec ''get_task''" "user_spec ''list_tasks''"
  "user_spec ''update_task_state''" "user_spec ''get_my_organization''" "user_spec ''get_agent_card''"
  by code_simp+

text \<open>The service after requests that a gateway may make, for a holder of the token or not.\<close>

definition gateway_request :: "gateway \<Rightarrow> bridge \<Rightarrow> bool \<Rightarrow> exc + request \<Rightarrow> bool" where
  "gateway_request g b holder r = (case r of
     Inl err \<Rightarrow> True
   | Inr q \<Rightarrow> (\<exists>c. q = UserRequest (py_lower (characters (gw_listener g)) (br_agent b)) (br_password b) (Agents c)
       \<and> gateway_command holder c))"

definition served :: "gateway \<Rightarrow> env \<Rightarrow> (exc + request) list \<Rightarrow> service \<Rightarrow> service" where
  "served g e rs s =
     foldl (\<lambda>s r. snd (process (settings (gw_listener g)) e (scanning (gw_listener g)) r s)) s rs"

definition asks :: "gateway \<Rightarrow> env \<Rightarrow> bridge \<Rightarrow> bool \<Rightarrow> service \<Rightarrow> service \<Rightarrow> bool" where
  "asks g e b holder s s' = (\<exists>rs. list_all (gateway_request g b holder) rs \<and> s' = served g e rs s)"

lemma asks_refl: "asks g e b holder s s"
  unfolding asks_def by (intro exI [of _ "[]"]) (simp add: served_def)

lemma asks_one:
  "gateway_request g b holder r \<Longrightarrow>
     asks g e b holder s (snd (process (settings (gw_listener g)) e (scanning (gw_listener g)) r s))"
  unfolding asks_def by (intro exI [of _ "[r]"]) (simp add: served_def)

lemma asks_trans: "asks g e b holder s s1 \<Longrightarrow> asks g e b holder s1 s2 \<Longrightarrow> asks g e b holder s s2"
  unfolding asks_def
proof (elim exE conjE)
  fix rs1 rs2
  assume "list_all (gateway_request g b holder) rs1" "s1 = served g e rs1 s"
    "list_all (gateway_request g b holder) rs2" "s2 = served g e rs2 s1"
  then show "\<exists>rs. list_all (gateway_request g b holder) rs \<and> s2 = served g e rs s"
    by (intro exI [of _ "rs1 @ rs2"]) (simp add: served_def)
qed

lemma gateway_command_holder: "gateway_command False c \<Longrightarrow> gateway_command holder c"
  by (cases c) simp_all

lemma asks_holder: "asks g e b False s s' \<Longrightarrow> asks g e b holder s s'"
  by (fastforce simp: asks_def list_all_iff gateway_request_def intro: gateway_command_holder split: sum.splits)

lemma bridge_send_asks:
  assumes p: "json_ok (JObj p)" and spec: "user_spec c"
    and name: "map_of p ''my_name_auth'' = Some (JStr (br_agent b))"
    and pw: "map_of p ''my_password_auth'' = Some (JStr (br_password b))"
    and command: "\<And>params org p' x. map_of COMMAND_SPECS c = Some (params, org) \<Longrightarrow>
      map_exc (validate_param (characters (gw_listener g)) p) params = Inr p' \<Longrightarrow>
      user_command_of c p' = Inr x \<Longrightarrow> \<exists>a. x = Agents a \<and> gateway_command holder a"
  shows "asks g e b holder s (snd (bridge_send g e c p s))"
proof -
  let ?u = "characters (gw_listener g)"
  let ?r = "decode_request ?u (interpreter (gw_listener g)) (compact (client_envelope c p))"
  have "gateway_request g b holder ?r"
  proof (cases ?r)
    case (Inr q)
    obtain params org p' where d: "map_of COMMAND_SPECS c = Some (params, org)"
      "map_exc (validate_param ?u p) params = Inr p'" "build_request ?u c org p' = Inr q"
      using decoded_request [OF p Inr] .
    have "\<not> org" "(''my_name_auth'', PStr, True, No_check) \<in> set params"
      "(''my_password_auth'', PStr, True, No_check) \<in> set params" "distinct (map fst params)"
      using spec d(1) by (simp_all add: user_spec_def)
    with decoded_caller [OF d(2) _ _ _ _ name pw] d(3) obtain x where
      "q = UserRequest (py_lower ?u (br_agent b)) (br_password b) x" "user_command_of c p' = Inr x"
      by auto
    with command [OF d(1,2)] Inr show ?thesis by (auto simp: gateway_request_def)
  qed (simp add: gateway_request_def)
  from asks_one [OF this] have "asks g e b holder s (snd (service_reply (gw_listener g) e c p s))"
    using service_reply_state [OF p, of "gw_listener g" e c s] asks_refl by auto
  then show ?thesis
    by (auto simp: bridge_send_def split: prod.splits sum.splits client_error.splits)
qed

subsection \<open>The values a peer sends\<close>

fun no_float :: "json \<Rightarrow> bool" where
  "no_float (JFloat t) = False"
| "no_float (JList xs) = list_all no_float xs"
| "no_float (JObj kvs) = list_all (\<lambda>(k, v). no_float v) kvs"
| "no_float _ = True"

lemma dict_of_ok:
  "distinct (map fst (dict_of kvs)) \<and> set (dict_of kvs) \<subseteq> set kvs"
proof -
  have "distinct (map fst acc) \<Longrightarrow> distinct (map fst (foldl (\<lambda>acc (k, v). AList.update k v acc) acc kvs))
      \<and> set (foldl (\<lambda>acc (k, v). AList.update k v acc) acc kvs) \<subseteq> set acc \<union> set kvs" for acc :: params
  proof (induction kvs arbitrary: acc)
    case (Cons kv kvs)
    obtain k v where kv: "kv = (k, v)" by (cases kv)
    have "set (AList.update k v acc) \<subseteq> insert (k, v) (set acc)" by (rule set_update_subset)
    with Cons.IH [of "AList.update k v acc"] Cons.prems show ?case
      by (auto simp: kv distinct_update)
  qed simp
  from this [of "[]"] show ?thesis by (simp add: dict_of_def)
qed

lemma dicts_ok: "no_float j \<Longrightarrow> json_ok (dicts j)"
proof (induction j)
  case (JObj kvs)
  have "json_ok v" if "(k, v) \<in> set (dict_of (map (\<lambda>(k, v). (k, dicts v)) kvs))" for k v
  proof -
    have "(k, v) \<in> set (map (\<lambda>(k, v). (k, dicts v)) kvs)" using that dict_of_ok by blast
    then obtain w where w: "(k, w) \<in> set kvs" "v = dicts w" by auto
    with JObj.prems have "no_float w" by (auto simp: list_all_iff)
    with JObj.IH [OF w(1)] w(2) show ?thesis by simp
  qed
  then show ?case using dict_of_ok by (auto simp: list_all_iff)
qed (auto simp: list_all_iff)

definition plain_body :: "http_request \<Rightarrow> bool" where
  "plain_body rq = (\<forall>n j. scan_text (take n (rq_body rq)) = Some j \<longrightarrow> no_float j)"

lemma plain_body_ok: "plain_body rq \<Longrightarrow> read_json_body g rq = Dict kvs \<Longrightarrow> json_ok (JObj kvs)"
  using dicts_ok
  by (fastforce simp: read_json_body_def json_loads_def plain_body_def
      split: option.splits if_splits loaded.splits json.splits)

lemma json_ok_get: "json_ok (JObj kvs) \<Longrightarrow> json_ok d \<Longrightarrow> json_ok (get_or kvs k d)"
  by (auto simp: get_or_def list_all_iff dest!: map_of_SomeD split: option.splits)

lemma json_ok_else: "json_ok v \<Longrightarrow> json_ok w \<Longrightarrow> json_ok (or_else v w)"
  by (simp add: or_else_def)

lemma first_text_ok: "json_ok (JObj message) \<Longrightarrow> first_text message = Some words \<Longrightarrow> json_ok words"
proof -
  assume m: "json_ok (JObj message)" and f: "first_text message = Some words"
  have "json_ok (or_else (get_or message ''parts'' JNull) (JList [JObj []]))"
    by (intro json_ok_else json_ok_get m) simp_all
  with f json_ok_get [of _ "JStr []" "''text''"] show ?thesis
    by (auto simp: first_text_def split: json.splits list.splits)
qed

subsection \<open>The calls\<close>

lemma asks_clock: "asks g e (b\<lparr>br_clock := k\<rparr>) holder s s' = asks g e b holder s s'"
proof -
  have "gateway_request g (b\<lparr>br_clock := k\<rparr>) holder = gateway_request g b holder"
    by (simp add: fun_eq_iff gateway_request_def split: sum.split)
  then show ?thesis by (simp add: asks_def)
qed

lemma cancel_spec:
  "map_of COMMAND_SPECS ''update_task_state'' = Some (params, org) \<Longrightarrow>
     (''new_state'', PStr, True, Validate_task_state) \<in> set params"
proof -
  have "case map_of COMMAND_SPECS ''update_task_state'' of None \<Rightarrow> False
    | Some (params, org) \<Rightarrow> (''new_state'', PStr, True, Validate_task_state) \<in> set params" by code_simp
  then show "map_of COMMAND_SPECS ''update_task_state'' = Some (params, org) \<Longrightarrow> ?thesis" by simp
qed

lemma canceled_value: "run_check u Validate_task_state (JStr ''canceled'') = Inr v \<Longrightarrow> v = JStr ''canceled''"
  by (auto simp: validate_task_state_def one_of_def invalid_def exc_simps split: if_splits)

lemma read_calls_ask:
  "asks g e b False s (snd (bridge_call g e ''get_my_organization'' [] b s))"
  "asks g e b False s (snd (bridge_call g e ''get_agent_card'' [(''username'', JStr (br_agent b))] b s))"
  unfolding call_get_my_organization call_get_agent_card
  by (rule bridge_send_asks; simp add: user_specs read_commands)+

lemma task_calls_ask:
  "json_ok x \<Longrightarrow> json_ok y \<Longrightarrow> asks g e b True s
     (snd (bridge_call g e ''create_task'' [(''title'', x), (''assignee_username'', y)] b s))"
  "json_ok x \<Longrightarrow> asks g e b True s (snd (bridge_call g e ''get_task'' [(''task_id'', x)] b s))"
  "asks g e b True s (snd (bridge_call g e ''list_tasks'' [] b s))"
  unfolding call_create_task call_get_task call_list_tasks
  by (rule bridge_send_asks; simp add: user_specs task_commands)+

lemma cancel_call_asks:
  assumes "json_ok x"
  shows "asks g e b True s
    (snd (bridge_call g e ''update_task_state'' [(''task_id'', x), (''new_state'', JStr ''canceled'')] b s))"
  unfolding call_update_task_state
proof (rule bridge_send_asks)
  fix params org p' y
  assume m: "map_of COMMAND_SPECS ''update_task_state'' = Some (params, org)"
    and v: "map_exc (validate_param (characters (gw_listener g))
      [(''task_id'', x), (''new_state'', JStr ''canceled''), (''result'', JNull),
       (''my_name_auth'', JStr (br_agent b)), (''my_password_auth'', JStr (br_password b))]) params = Inr p'"
    and c: "user_command_of ''update_task_state'' p' = Inr y"
  have "distinct (map fst params)" using user_specs(4) m by (simp add: user_spec_def)
  with validated_value [OF v cancel_spec [OF m]] canceled_value
  have "map_of p' ''new_state'' = Some (JStr ''canceled'')" by auto
  with cancel_command c show "\<exists>a. y = Agents a \<and> gateway_command True a" by blast
qed (use assms user_specs in simp_all)

lemma with_task_state: "snd (snd (with_task g e f b called)) = snd called"
  by (auto simp: with_task_def split: prod.splits sum.splits reply.splits)

lemma tasks_list_state: "snd (snd (tasks_list g e b s)) = snd (bridge_call g e ''list_tasks'' [] b s)"
  by (auto simp: tasks_list_def split: prod.splits sum.splits reply.splits)

lemma tasks_message_asks:
  assumes "json_ok (JObj p)"
  shows "asks g e b True s (snd (snd (tasks_message g e p b s)))"
proof (cases "or_else (get_or p ''message'' JNull) (JObj [])")
  case (JObj message)
  have m: "json_ok (JObj message)"
    unfolding JObj [symmetric] using assms by (intro json_ok_else json_ok_get) simp_all
  show ?thesis
  proof (cases "first_text message")
    case (Some words)
    show ?thesis
    proof (cases "or_else (get_or message ''metadata'' JNull) (JObj [])")
      case metadata: (JObj md)
      have "json_ok (JObj md)"
        unfolding metadata [symmetric] using m by (intro json_ok_else json_ok_get) simp_all
      then have args: "json_ok (or_else words (JStr ''A2A task''))"
        "json_ok (or_else (get_or md ''assignee'' JNull) (JStr (br_agent b)))"
        using first_text_ok [OF m Some] by (intro json_ok_else json_ok_get; simp)+
      show ?thesis
        using task_calls_ask(1) [OF args, of g e b s] task_calls_ask(1) [OF args, of g e "b\<lparr>br_clock := k\<rparr>" s for k]
        by (auto simp: tasks_message_def JObj Some metadata Let_def asks_refl asks_clock with_task_state
            split: json.split prod.split sum.split)
    qed (simp_all add: tasks_message_def JObj Some asks_refl)
  qed (simp add: tasks_message_def JObj asks_refl)
qed (simp_all add: tasks_message_def asks_refl)

lemma run_method_asks:
  assumes "run_method g e m p b s = Some (r, b', s')" and "json_ok p"
  shows "asks g e b True s s'"
proof -
  have get: "json_ok (get_or kvs ''id'' (JStr []))" if "p = JObj kvs" for kvs
    using assms(2) that by (intro json_ok_get) simp_all
  have "asks g e b True s (snd (snd x))" if "run_method g e m p b s = Some x" for x
    using that get assms(2) tasks_message_asks [of _ g e b s] task_calls_ask(2) [of _ g e b s]
      task_calls_ask(3) [of g e b s] cancel_call_asks [of _ g e b s]
    by (auto simp: run_method_def Let_def tasks_get_def tasks_cancel_def with_task_state tasks_list_state
        asks_refl split: if_splits json.splits)
  from this [OF assms(1)] show ?thesis by simp
qed

subsection \<open>The handler\<close>

lemma dispatch_asks:
  assumes "json_ok (JObj request)"
  shows "asks g e b True s (snd (snd (bridge_dispatch g e request b s)))"
  using dispatch_cases [of g e request b s]
proof (elim disjE exE conjE)
  fix m r b' s'
  assume run: "run_method g e m (or_else (get_or request ''params'' JNull) (JObj [])) b s = Some (r, b', s')"
    and d: "bridge_dispatch g e request b s = (rpc_answer (get_or request ''id'' JNull) r, b', s')"
  have "json_ok (or_else (get_or request ''params'' JNull) (JObj []))"
    using assms by (intro json_ok_else json_ok_get) simp_all
  from run_method_asks [OF run this] d show ?thesis by simp
qed (simp add: asks_refl)

lemma POST_asks:
  assumes "plain_body rq"
  shows "asks g e b (check_token b rq) s (snd (snd (do_POST g e rq b s)))"
proof -
  have "asks g e b True s (snd (snd (bridge_dispatch g e kvs b s)))" if "read_json_body g rq = Dict kvs" for kvs
    using plain_body_ok [OF assms that] by (rule dispatch_asks)
  then have "asks g e b True s (snd (snd (rpc_message g e rq b s)))"
    by (auto simp: rpc_message_def with_body_def asks_refl split: read_body.splits prod.splits)
  moreover have "snd (snd (registry_register g e rq b s)) = s"
    by (auto simp: registry_register_def with_body_def split: read_body.splits prod.splits option.splits json.splits)
  moreover have "snd (snd (registry_mint g rq b s)) = s"
    by (auto simp: registry_mint_def with_body_def split: read_body.splits json.splits)
  ultimately show ?thesis
    by (auto simp: do_POST_def asks_refl split: option.splits)
qed

lemma agent_card_asks: "asks g e b False s (snd (agent_card g e b s))"
proof -
  obtain r1 s1 where c1: "bridge_call g e ''get_my_organization'' [] b s = (r1, s1)" by force
  obtain r2 s2 where c2: "bridge_call g e ''get_agent_card'' [(''username'', JStr (br_agent b))] b s1 = (r2, s2)"
    by force
  have "asks g e b False s s1" "asks g e b False s1 s2"
    using read_calls_ask(1) [of g e b s] read_calls_ask(2) [of g e b s1] c1 c2 by simp_all
  moreover have "snd (agent_card g e b s) \<in> {s1, s2}"
    using c1 c2 by (auto simp: agent_card_def split: sum.splits reply.splits)
  ultimately show ?thesis using asks_trans by fastforce
qed

lemma GET_asks: "asks g e b (check_token b rq) s (snd (snd (do_GET g e rq b s)))"
proof -
  obtain r s' where c: "agent_card g e b s = (r, s')" by force
  then have "asks g e b holder s s'" for holder
    using asks_holder [OF agent_card_asks [of g e b s]] by simp
  then show ?thesis by (auto simp: do_GET_def Let_def asks_refl c split: option.splits prod.splits)
qed

text \<open>
  C31. Whatever is asked of the gateway over HTTP, floating-point numbers aside, the service ends as
  after requests that the gateway's own agent makes, with its own password, and for these commands
  only: reads of its organization and card for anyone, and for the holder of the token the
  creation, the reading, the listing and the cancellation of tasks.
\<close>

theorem gateway_acts_as_its_agent:
  assumes "answer \<in> {do_GET, do_POST}" and "plain_body rq"
  shows "\<exists>rs. snd (snd (answer g e rq b s)) = served g e rs s \<and>
    (\<forall>q. Inr q \<in> set rs \<longrightarrow>
      (\<exists>c. q = UserRequest (py_lower (characters (gw_listener g)) (br_agent b)) (br_password b) (Agents c)
        \<and> gateway_command (check_token b rq) c))"
proof -
  have "asks g e b (check_token b rq) s (snd (snd (answer g e rq b s)))"
    using assms POST_asks GET_asks by auto
  then show ?thesis by (fastforce simp: asks_def list_all_iff gateway_request_def)
qed

definition card_request :: http_request where
  "card_request = \<lparr>rq_path = ''/.well-known/agent-card.json'', rq_query = [], rq_token = None,
     rq_version = None, rq_length = None, rq_body = []\<rparr>"

lemma gateway_acts_as_its_agent_witness:
  "\<exists>rs. snd (snd (do_GET plain_gateway plain_env card_request plain_bridge plain_service))
      = served plain_gateway plain_env rs plain_service \<and>
    (\<forall>q. Inr q \<in> set rs \<longrightarrow>
      (\<exists>c. q = UserRequest (py_lower (characters (gw_listener plain_gateway)) (br_agent plain_bridge))
          (br_password plain_bridge) (Agents c)
        \<and> gateway_command (check_token plain_bridge card_request) c))"
  by (rule gateway_acts_as_its_agent)
    (simp_all add: plain_body_def card_request_def scan_text_def skip_ws_def)

end
