(* ===== verification/WebCalls.thy ===== *)
theory WebCalls
  imports WebProperties BridgeProperties
begin

text \<open>
  In whose name the web interface calls the service: every call is sent with the local token as
  its password, for an organization, the human account of one, or the local web identity.
\<close>

section \<open>The calls by name\<close>

definition sends_key :: "string \<Rightarrow> bool \<Rightarrow> string" where
  "sends_key what org = (if org then ''organization_'' @ what @ ''_auth'' else ''my_'' @ what @ ''_auth'')"

text \<open>
  The commands the interface calls: the client sends the caller's name and password as they are
  given, and the table of the commands reads them as they are sent.
\<close>

definition plain_field :: "client_field \<Rightarrow> bool" where
  "plain_field f = (case f of Same k \<Rightarrow> True | ListOf k \<Rightarrow> False)"

definition fallback_ok :: "json option \<Rightarrow> bool" where
  "fallback_ok v = (case v of None \<Rightarrow> True | Some j \<Rightarrow> json_ok j)"

definition relays :: "string \<Rightarrow> bool \<Rightarrow> bool" where
  "relays c org = (case (map_of CLIENT_METHODS c, map_of COMMAND_SPECS c) of
     (Some (declared, sent), Some (params, org')) \<Rightarrow>
       org' = org \<and> list_all plain_field sent \<and> distinct (map field_key sent)
       \<and> list_all (\<lambda>(k, v). fallback_ok v) declared
       \<and> distinct (map fst params)
       \<and> list_all (\<lambda>what. Same (sends_key what org) \<in> set sent \<and> sends_key what org \<in> set (map fst declared)
            \<and> (org \<and> what = ''name'' \<or> (sends_key what org, PStr, True, No_check) \<in> set params))
         [''name'', ''password'']
   | _ \<Rightarrow> False)"

definition USER_CALLS :: "string list" where
  "USER_CALLS = [''get_my_organization'', ''get_org_snapshot'', ''get_agent_description'', ''get_agent_card'',
     ''get_agent_reputation'', ''find_agents'', ''list_org_conversations'', ''get_org_conversation'',
     ''read_message'', ''list_my_groups'', ''get_group_members'', ''get_group_messages'', ''send_message'',
     ''disable_org'', ''approve_task'', ''reject_task'', ''list_orgs'', ''create_org'']"

definition ORG_CALLS :: "string list" where
  "ORG_CALLS = [''create_agent'', ''change_agent_description'', ''deactivate_agent'', ''reactivate_agent'']"

lemma calls_relay: "list_all (\<lambda>c. relays c False) USER_CALLS" "list_all (\<lambda>c. relays c True) ORG_CALLS"
  by code_simp+

lemma bound_arguments:
  assumes "bind_arguments declared given = Inr args"
  shows "map fst args = map fst declared
    \<and> (\<forall>k v. map_of given k = Some v \<longrightarrow> k \<in> set (map fst declared) \<longrightarrow> map_of args k = Some v)
    \<and> (\<forall>(k, v) \<in> set args. map_of given k = Some v \<or> (k, Some v) \<in> set declared)"
proof -
  let ?one = "\<lambda>(k, fallback). case map_of given k of
      Some v \<Rightarrow> Inr (k, v) | None \<Rightarrow> map_sum id (\<lambda>v. (k, v)) (some_or TypeError fallback)"
  have "map_exc ?one declared = Inr args" using assms by (auto simp: bind_arguments_def split: if_splits)
  then show ?thesis
  proof (induction declared arbitrary: args)
    case (Cons d declared)
    obtain k fallback where d: "d = (k, fallback)" by (cases d)
    from Cons.prems obtain y ys where y: "?one (k, fallback) = Inr y" "map_exc ?one declared = Inr ys"
      and args: "args = y # ys" by (auto simp: exc_simps d)
    from y(1) obtain v where "y = (k, v)" "map_of given k = Some v \<or> (map_of given k = None \<and> fallback = Some v)"
      by (cases fallback) (auto simp: some_or_def split: option.splits)
    with Cons.IH [OF y(2)] show ?case by (auto simp: d args)
  qed simp
qed

lemma sent_values:
  assumes "map_exc (field_value args) sent = Inr p" and "list_all plain_field sent"
  shows "map fst p = map field_key sent \<and> (\<forall>(k, v) \<in> set p. map_of args k = Some v)"
  using assms
proof (induction sent arbitrary: p)
  case (Cons f sent)
  from Cons.prems obtain y ys where y: "field_value args f = Inr y" "map_exc (field_value args) sent = Inr ys"
    and p: "p = y # ys" by (auto simp: exc_simps)
  from Cons.prems(2) obtain k where "f = Same k" by (cases f) (auto simp: plain_field_def)
  with y(1) obtain v where "y = (k, v)" "map_of args k = Some v" by (auto simp: field_value_def exc_simps)
  with Cons.IH [OF y(2)] Cons.prems(2) \<open>f = Same k\<close> show ?case by (auto simp: p)
qed simp

lemma relayed_parameters:
  assumes "relays c org" and "map_of CLIENT_METHODS c = Some m" and "call_parameters (c, m) given = Inr p"
    and "list_all (\<lambda>(k, v). json_ok v) given" and "what \<in> {''name'', ''password''}"
    and "map_of given (sends_key what org) = Some v"
  shows "json_ok (JObj p) \<and> map_of p (sends_key what org) = Some v"
proof -
  obtain declared sent where m: "m = (declared, sent)" by (cases m)
  obtain args where args: "bind_arguments declared given = Inr args" "map_exc (field_value args) sent = Inr p"
    using assms(3) by (auto simp: call_parameters_def m exc_simps)
  have r: "list_all plain_field sent" "distinct (map field_key sent)"
    "list_all (\<lambda>(k, v). fallback_ok v) declared"
    "Same (sends_key what org) \<in> set sent" "sends_key what org \<in> set (map fst declared)"
    using assms(1,2,5) by (auto simp: relays_def m split: option.splits prod.splits)
  note b = bound_arguments [OF args(1)] and s = sent_values [OF args(2) r(1)]
  have ok: "json_ok v'" if "(k, v') \<in> set p" for k v'
  proof -
    have "(k, v') \<in> set args" using s that map_of_SomeD by fastforce
    then consider "map_of given k = Some v'" | "(k, Some v') \<in> set declared" using b by blast
    then show ?thesis using assms(4) r(3) by cases (auto simp: list_all_iff fallback_ok_def dest!: map_of_SomeD)
  qed
  have keys: "map fst p = map field_key sent" using s by simp
  moreover have "sends_key what org \<in> set (map field_key sent)" using r(4) by force
  ultimately obtain v' where v': "(sends_key what org, v') \<in> set p"
    by (metis (no_types, lifting) imageE list.set_map prod.collapse)
  then have "map_of p (sends_key what org) = Some v'" using r(2) keys by simp
  moreover have "map_of args (sends_key what org) = Some v" using b r(5) assms(6) by blast
  ultimately have "map_of p (sends_key what org) = Some v" using s v' by fastforce
  with ok keys r(2) show ?thesis by (auto simp: list_all_iff)
qed

section \<open>Who asks\<close>

fun secret_of :: "request \<Rightarrow> string" where
  "secret_of (OrgRequest n p c) = p"
| "secret_of (UserRequest n p c) = p"

text \<open>An organization, or the given user under the name the service lowers.\<close>

fun asked_as :: "unicode \<Rightarrow> string set \<Rightarrow> request \<Rightarrow> bool" where
  "asked_as u names (OrgRequest n p c) = True"
| "asked_as u names (UserRequest n p c) = (n \<in> py_lower u ` names)"

lemma asked_as_mono: "asked_as u A q \<Longrightarrow> A \<subseteq> B \<Longrightarrow> asked_as u B q"
  by (cases q) auto

lemma relayed_request:
  assumes "relays c org" and "json_ok (JObj p)" and "decode_request u tn (compact (client_envelope c p)) = Inr q"
    and "map_of p (sends_key ''password'' org) = Some (JStr secret)"
    and "\<not> org \<Longrightarrow> map_of p (sends_key ''name'' org) = Some (JStr name)"
  shows "secret_of q = secret \<and> asked_as u (if org then {} else {name}) q"
proof -
  obtain params org' p' where d: "map_of COMMAND_SPECS c = Some (params, org')"
    "map_exc (validate_param u p) params = Inr p'" "build_request u c org' p' = Inr q"
    using decoded_request [OF assms(2,3)] .
  have r: "org' = org" "distinct (map fst params)"
    "(sends_key ''password'' org, PStr, True, No_check) \<in> set params"
    "\<not> org \<Longrightarrow> (sends_key ''name'' org, PStr, True, No_check) \<in> set params"
    using assms(1) d(1) by (auto simp: relays_def split: option.splits prod.splits)
  have pw: "map_of p' (sends_key ''password'' org) = Some (JStr secret)"
    using validated_value [OF d(2) r(3,2)] assms(4) by auto
  have "map_of p' (sends_key ''name'' org) = Some (JStr name)" if "\<not> org"
    using validated_value [OF d(2) r(4) [OF that] r(2)] assms(5) [OF that] by auto
  with pw d(3) r(1) show ?thesis
    by (cases org) (auto simp: build_request_def sends_key_def arg_def text_param_def param_def exc_simps)
qed

text \<open>
  The requests that one token may stand behind, and the service after a sequence of requests,
  each in its own environment.
\<close>

definition local_request :: "listener \<Rightarrow> string option \<Rightarrow> exc + request \<Rightarrow> bool" where
  "local_request l tk r = (case r of
     Inl err \<Rightarrow> True
   | Inr q \<Rightarrow> tk = Some (secret_of q)
       \<and> asked_as (characters l) (insert WEB_LOCAL {h. \<exists>e org. human_name e org = Some h}) q)"

definition after_requests :: "listener \<Rightarrow> (env \<times> (exc + request)) list \<Rightarrow> service \<Rightarrow> service" where
  "after_requests l rs s = foldl (\<lambda>s (e, r). snd (process (settings l) e (scanning l) r s)) s rs"

definition locally_asked :: "listener \<Rightarrow> string option \<Rightarrow> service \<Rightarrow> service \<Rightarrow> bool" where
  "locally_asked l tk s s' = (\<exists>rs. list_all (\<lambda>(e, r). local_request l tk r) rs \<and> s' = after_requests l rs s)"

lemma locally_refl [simp]: "locally_asked l tk s s"
  unfolding locally_asked_def by (intro exI [of _ "[]"]) (simp add: after_requests_def)

lemma locally_one:
  "local_request l tk r \<Longrightarrow> locally_asked l tk s (snd (process (settings l) e (scanning l) r s))"
  unfolding locally_asked_def by (intro exI [of _ "[(e, r)]"]) (simp add: after_requests_def)

lemma locally_trans [trans]:
  "locally_asked l tk s s1 \<Longrightarrow> locally_asked l tk s1 s2 \<Longrightarrow> locally_asked l tk s s2"
  unfolding locally_asked_def
proof (elim exE conjE)
  fix rs1 rs2
  assume "list_all (\<lambda>(e, r). local_request l tk r) rs1" "s1 = after_requests l rs1 s"
    "list_all (\<lambda>(e, r). local_request l tk r) rs2" "s2 = after_requests l rs2 s1"
  then show "\<exists>rs. list_all (\<lambda>(e, r). local_request l tk r) rs \<and> s2 = after_requests l rs s"
    by (intro exI [of _ "rs1 @ rs2"]) (simp add: after_requests_def)
qed

lemma web_call_asks:
  assumes "relays c org" and "list_all (\<lambda>(k, v). json_ok v) given"
    and "map_of given (sends_key ''password'' org) = Some (JStr secret)"
    and "\<not> org \<Longrightarrow> map_of given (sends_key ''name'' org) = Some (JStr name)
        \<and> name \<in> insert WEB_LOCAL {h. \<exists>e org. human_name e org = Some h}"
  shows "locally_asked (st_listener st) (Some secret) s (snd (web_call st e c given s))"
proof (cases "map_of CLIENT_METHODS c")
  case (Some m)
  show ?thesis
  proof (cases "call_parameters (c, m) given")
    case (Inr p)
    let ?l = "st_listener st"
    let ?r = "decode_request (characters ?l) (interpreter ?l) (compact (client_envelope c p))"
    have p: "json_ok (JObj p)" "map_of p (sends_key ''password'' org) = Some (JStr secret)"
      "\<not> org \<Longrightarrow> map_of p (sends_key ''name'' org) = Some (JStr name)"
      using relayed_parameters [OF assms(1) Some Inr assms(2)] assms(3,4) by auto
    have "local_request ?l (Some secret) ?r"
    proof (cases ?r)
      case (Inr q)
      from relayed_request [OF assms(1) p(1) Inr p(2,3)] have "secret_of q = secret"
        "asked_as (characters ?l) (if org then {} else {name}) q" by auto
      moreover have "(if org then {} else {name}) \<subseteq> insert WEB_LOCAL {h. \<exists>e org. human_name e org = Some h}"
        using assms(4) by auto
      ultimately show ?thesis using Inr asked_as_mono by (simp add: local_request_def)
    qed (simp add: local_request_def)
    from locally_one [OF this] have "locally_asked ?l (Some secret) s (snd (service_reply ?l e c p s))"
      using service_reply_state [OF p(1), of ?l e c s] by auto
    then show ?thesis
      by (auto simp: web_call_def Some Inr split: prod.splits sum.splits client_error.splits)
  qed (simp add: web_call_def Some)
qed (simp add: web_call_def)

section \<open>What a request of the interface asks\<close>

text \<open>The sessions of a state hold its token, for the human account of an organization.\<close>

definition local_session :: "string option \<Rightarrow> session \<Rightarrow> bool" where
  "local_session tk x = (tk = Some (se_secret x) \<and> (\<exists>e org. human_name e org = Some (se_human x)))"

definition local_sessions :: "string option \<Rightarrow> web \<Rightarrow> bool" where
  "local_sessions tk w = (wb_token w = tk \<and> list_all (\<lambda>(k, x). local_session tk x) (wb_sessions w))"

lemma update_members: "list_all R xs \<Longrightarrow> R (k, y) \<Longrightarrow> list_all R (AList.update k y xs)"
  by (induction xs) auto

interpretation holding: web_invariant st "local_sessions tk" for st tk
proof
  show "local_sessions tk w'" if "same_sessions w w'" "local_sessions tk w" for w w'
    using that by (simp add: same_sessions_def local_sessions_def local_session_def)
  show "local_sessions tk (open_session st t token org human secret w)"
    if "local_sessions tk w" "wb_token w = Some secret" "human_name e org = Some human"
    for w secret e org human t token
  proof -
    have "list_all (\<lambda>(k, x). local_session tk x)
        (filter (\<lambda>(k, x). k \<notin> S) (prune_sessions st t (wb_sessions w)))" for S
      using that(1) by (auto simp: local_sessions_def prune_sessions_def list_all_iff)
    moreover have "local_session tk \<lparr>se_object = wb_objects w, se_org = org, se_human = human,
        se_secret = secret, se_created = t, se_used = t\<rparr>"
      using that by (auto simp: local_sessions_def local_session_def)
    ultimately show ?thesis using that(1)
      by (simp add: open_session_def local_sessions_def Let_def update_members)
  qed
  show "local_sessions tk (w\<lparr>wb_sessions := AList.update k (se\<lparr>se_object := wb_objects w, se_used := t\<rparr>)
      (wb_sessions w), wb_objects := Suc (wb_objects w)\<rparr>)"
    if "local_sessions tk w" "map_of (wb_sessions w) k = Some se" for w k se t
  proof -
    have "local_session tk se"
      using that map_of_SomeD [OF that(2)] by (auto simp: local_sessions_def list_all_iff)
    then have "local_session tk (se\<lparr>se_object := wb_objects w, se_used := t\<rparr>)" by (simp add: local_session_def)
    with that(1) show ?thesis by (simp add: local_sessions_def update_members)
  qed
  show "local_sessions tk (w\<lparr>wb_sessions := AList.delete k (wb_sessions w)\<rparr>)" if "local_sessions tk w" for w k
    using that by (auto simp: local_sessions_def local_session_def AList.delete_eq list_all_iff)
qed

text \<open>A call in the name of a session.\<close>

lemma user_call:
  assumes "c \<in> set USER_CALLS" and "local_session tk se" and "list_all (\<lambda>(k, v). json_ok v) given"
    and "map_of given ''my_name_auth'' = Some (JStr (se_human se))"
    and "map_of given ''my_password_auth'' = Some (JStr (se_secret se))"
  shows "locally_asked (st_listener st) tk s (snd (web_call st e c given s))"
proof -
  have "relays c False" using calls_relay(1) assms(1) by (simp add: list_all_iff)
  from web_call_asks [OF this assms(3), of "se_secret se" "se_human se"] assms(2,4,5) show ?thesis
    by (auto simp: sends_key_def local_session_def)
qed

lemma org_call:
  assumes "c \<in> set ORG_CALLS" and "local_session tk se" and "list_all (\<lambda>(k, v). json_ok v) given"
    and "map_of given ''organization_password_auth'' = Some (JStr (se_secret se))"
  shows "locally_asked (st_listener st) tk s (snd (web_call st e c given s))"
proof -
  have "relays c True" using calls_relay(2) assms(1) by (simp add: list_all_iff)
  from web_call_asks [OF this assms(3)] assms(2,4) show ?thesis
    by (auto simp: sends_key_def local_session_def)
qed

lemma local_call:
  assumes "c \<in> set USER_CALLS" and "list_all (\<lambda>(k, v). json_ok v) given"
    and "map_of given ''my_name_auth'' = Some (JStr WEB_LOCAL)"
    and "map_of given ''my_password_auth'' = Some (JStr secret)"
  shows "locally_asked (st_listener st) (Some secret) s (snd (web_call st e c given s))"
proof -
  have "relays c False" using calls_relay(1) assms(1) by (simp add: list_all_iff)
  from web_call_asks [OF this assms(2)] assms(3,4) show ?thesis by (auto simp: sends_key_def)
qed

lemma then_call_asks:
  "\<lbrakk>locally_asked l tk s (snd r); \<And>y s'. locally_asked l tk s' (snd (f y s'))\<rbrakk>
   \<Longrightarrow> locally_asked l tk s (snd (then_call r f))"
  by (auto simp: then_call_def intro: locally_trans split: prod.splits sum.splits)

lemma optional_part_state [simp]: "snd (optional_part r) = snd r"
  by (auto simp: optional_part_def split: prod.splits sum.splits web_error.splits)

lemma reply_of_state [simp]: "snd (reply_of r) = snd r"
  by (auto simp: reply_of_def then_call_def split: prod.splits sum.splits)

lemma cached_asks:
  "(\<And>s. locally_asked l tk s (snd (fn s))) \<Longrightarrow> locally_asked l tk s (snd (snd (cached k t ttl fn w s)))"
proof -
  assume fn: "\<And>s. locally_asked l tk s (snd (fn s))"
  obtain r s' where f: "fn s = (r, s')" by force
  with fn [of s] show ?thesis by (auto simp: cached_def split: option.splits sum.splits)
qed

lemma uncached_state [simp]: "snd (snd (uncached w made)) = snd made"
  by (simp add: uncached_def split: prod.splits)

lemma serve_json_state [simp]: "snd (snd (serve_json st rq se nf made)) = snd (snd made)"
  by (auto simp: serve_json_def split: prod.splits sum.splits web_error.splits)

lemma read_asks:
  assumes "local_session tk se"
  shows "locally_asked (st_listener st) tk s (snd (snd (snapshot_data st x se w s)))"
    and "locally_asked (st_listener st) tk s (snd (snd (org_data st x se w s)))"
    and "locally_asked (st_listener st) tk s (snd (snd (agent_data st x se username w s)))"
    and "locally_asked (st_listener st) tk s (snd (snd (search_data st x se q capability domain w s)))"
    and "locally_asked (st_listener st) tk s (snd (snd (conversations_data st x se w s)))"
    and "locally_asked (st_listener st) tk s (snd (groups_data st x se s))"
    and "locally_asked (st_listener st) tk s (snd (group_data st x se g s))"
  unfolding snapshot_data_def org_data_def agent_data_def search_data_def conversations_data_def
    groups_data_def group_data_def Let_def
  by (auto intro!: then_call_asks cached_asks user_call [OF _ assms]
      simp: USER_CALLS_def user_args_def jopt_def split: option.split)

lemma read_unread_asks:
  assumes "local_session tk se"
  shows "locally_asked (st_listener st) tk s (snd (read_unread st x se n ms s))"
proof (induction ms arbitrary: n s)
  case (Cons m ms)
  have call: "locally_asked (st_listener st) tk s
      (snd (web_call st e ''read_message'' ((''message_id'', JStr i) # user_args se) s))" for e i s
    by (rule user_call [OF _ assms]) (simp_all add: USER_CALLS_def user_args_def)
  obtain r s' where r: "web_call st (we_call x n) ''read_message''
      ((''message_id'', JStr (msg_id m)) # user_args se) s = (r, s')" by force
  then have first: "locally_asked (st_listener st) tk s s'"
    using call [of s "we_call x n" "msg_id m"] by simp
  have rest: "locally_asked (st_listener st) tk s1 (snd (then_call (read_unread st x se k ms s1) (\<lambda>(a, b) s. (f a b, s))))"
    for s1 k and f :: "message_row list \<Rightarrow> nat \<Rightarrow> web_error + message_row list \<times> nat"
    using Cons.IH by (auto intro!: then_call_asks)
  show ?case using rest first locally_trans [OF first rest]
    by (auto simp: r split: sum.splits web_error.splits reply.split)
qed simp

lemma conversation_asks:
  assumes "local_session tk se"
  shows "locally_asked (st_listener st) tk s (snd (snd (conversation_data st x se conv w s)))"
proof -
  obtain r s1 where r: "web_call st (we_call x 0) ''get_org_conversation''
      ((''conversation_id'', JStr conv) # user_args se @ [(''limit'', JInt 100)]) s = (r, s1)" by force
  have "locally_asked (st_listener st) tk s (snd (web_call st (we_call x 0) ''get_org_conversation''
      ((''conversation_id'', JStr conv) # user_args se @ [(''limit'', JInt 100)]) s))"
    by (rule user_call [OF _ assms]) (simp_all add: USER_CALLS_def user_args_def)
  then have "locally_asked (st_listener st) tk s s1" by (simp add: r)
  moreover have "locally_asked (st_listener st) tk s1 s2" if "read_unread st x se 1 ms s1 = (y, s2)" for ms y s2
    using read_unread_asks [OF assms, of st s1 x 1 ms] that by simp
  ultimately show ?thesis
    by (auto simp: conversation_data_def r intro: locally_trans split: sum.splits reply.split prod.splits)
qed

lemma write_asks:
  assumes "local_session tk se"
  shows "locally_asked (st_listener st) tk s (snd (send_data st x se body s))"
    and "locally_asked (st_listener st) tk s (snd (disable_org_data st x se body s))"
  unfolding send_data_def disable_org_data_def Let_def
  by (auto intro!: user_call [OF _ assms] simp: USER_CALLS_def user_args_def split: option.split json.split)

lemma manage_asks:
  assumes "local_session tk se"
  shows "locally_asked (st_listener st) tk s (snd (create_agent_data st x se body s))"
    and "locally_asked (st_listener st) tk s (snd (change_description_data st x se username body s))"
  unfolding create_agent_data_def change_description_data_def
  by (auto intro!: org_call [OF _ assms] simp: ORG_CALLS_def org_args_def split: option.split json.split)

lemma task_asks:
  assumes "local_session tk se" and "c \<in> {''approve_task'', ''reject_task''}"
  shows "locally_asked (st_listener st) tk s (snd (web_call st e c ((''task_id'', JStr i) # user_args se) s))"
  using assms(2) by (intro user_call [OF _ assms(1)]) (auto simp: USER_CALLS_def user_args_def)

lemma switch_asks:
  assumes "local_session tk se" and "c \<in> {''deactivate_agent'', ''reactivate_agent''}"
  shows "locally_asked (st_listener st) tk s (snd (web_call st e c ((''username'', JStr i) # org_args se) s))"
  using assms(2) by (intro org_call [OF _ assms(1)]) (auto simp: ORG_CALLS_def org_args_def)

lemma with_body_asks:
  "(\<And>kvs. locally_asked l tk s (snd (snd (f kvs)))) \<Longrightarrow> locally_asked l tk s (snd (snd (with_web_body st rq w s f)))"
  by (simp add: with_web_body_def split: sum.split)

lemma run_get_asks:
  "local_session tk se \<Longrightarrow> locally_asked (st_listener st) tk s (snd (snd (run_get st x rq h se w s)))"
  by (cases h) (simp_all add: run_get_def get_search_def get_conversation_def Let_def read_asks conversation_asks)

lemma run_post_asks:
  "local_session tk se \<Longrightarrow> locally_asked (st_listener st) tk s (snd (snd (run_post st x rq h se w s)))"
  by (cases h) (auto simp: run_post_def post_logout_def serve_body_def post_task_def write_asks manage_asks task_asks
    intro!: with_body_asks split: option.split json.split)

lemma run_action_asks:
  "local_session tk se \<Longrightarrow> locally_asked (st_listener st) tk s (snd (snd (run_action st x rq a se u w s)))"
  by (cases a) (auto simp: run_action_def serve_body_def manage_asks switch_asks intro!: with_body_asks)

lemma require_asks:
  assumes "local_sessions tk w"
    and "\<And>se w'. local_session tk se \<Longrightarrow> locally_asked l tk s (snd (snd (f se w')))"
  shows "locally_asked l tk s (snd (snd (require_session st x rq w s f)))"
proof (cases "fst (get_session st (we_now x) (session_token rq) w)")
  case (Some se)
  then obtain k where "(k, se) \<in> set (wb_sessions w)"
    by (auto simp: get_session_def split: option.splits if_splits dest!: map_of_SomeD)
  then have "local_session tk se" using assms(1) by (auto simp: local_sessions_def list_all_iff)
  with assms(2) Some show ?thesis by (auto simp: require_session_def split: prod.splits)
qed (auto simp: require_session_def split: prod.splits)

text \<open>The routes without a session.\<close>

lemma list_orgs_asks:
  assumes "wb_token w = Some secret"
  shows "locally_asked (st_listener st) (Some secret) s (snd (list_orgs_data st x w s))"
  unfolding list_orgs_data_def by (rule local_call) (simp_all add: USER_CALLS_def assms)

lemma create_org_asks: "locally_asked (st_listener st) (wb_token w) s (snd (create_org_public st x body w s))"
proof (cases "wb_token w")
  case (Some secret)
  then show ?thesis unfolding create_org_public_def
    by (auto intro!: local_call simp: USER_CALLS_def split: option.split json.split)
qed (simp add: create_org_public_def split: option.split json.split)

lemma login_asks: "locally_asked (st_listener st) (wb_token w) s (snd (snd (login st x org None w s)))"
proof -
  have "locally_asked (st_listener st) (Some secret) s (snd (web_call st (we_call x 0) ''get_my_organization''
      [(''my_name_auth'', JStr human), (''my_password_auth'', JStr secret)] s))"
    if "human_name (we_call x 0) org = Some human" for secret human
    using that calls_relay(1)
    by (intro web_call_asks [where org = False and name = human and secret = secret])
      (auto simp: list_all_iff USER_CALLS_def sends_key_def)
  then have "locally_asked (st_listener st) (Some secret) s s'"
    if "human_name (we_call x 0) org = Some human" "web_call st (we_call x 0) ''get_my_organization''
      [(''my_name_auth'', JStr human), (''my_password_auth'', JStr secret)] s = (r, s')" for secret human r s'
    using that by (metis snd_conv)
  then show ?thesis
    by (auto simp: login_def split: option.split prod.split sum.split web_error.split)
qed

lemma get_root_asks: "locally_asked (st_listener st) (wb_token w) s (snd (snd (get_root st x w s)))"
proof (cases "wb_token w")
  case (Some secret)
  from list_orgs_asks [OF this, of st s x] Some show ?thesis
    by (auto simp: get_root_def Let_def split: prod.split sum.split web_error.split)
qed (simp add: get_root_def)

lemma get_orgs_asks: "locally_asked (st_listener st) (wb_token w) s (snd (snd (get_orgs st x w s)))"
proof (cases "wb_token w")
  case (Some secret)
  from list_orgs_asks [OF this, of st s x] Some show ?thesis
    by (auto simp: get_orgs_def split: prod.split sum.split web_error.split)
qed (simp add: get_orgs_def)

lemma run_public_get_asks: "locally_asked (st_listener st) (wb_token w) s (snd (snd (run_public_get st x h w s)))"
  by (cases h) (simp_all add: run_public_get_def get_root_asks get_orgs_asks)

lemma handle_login_asks: "locally_asked (st_listener st) (wb_token w) s (snd (snd (handle_login st x rq w s)))"
proof -
  have "locally_asked (st_listener st) (wb_token w) s s'" if "login st x org None w s = (r, w', s')" for org r w' s'
    using login_asks [of st w s x org] that by simp
  then show ?thesis unfolding handle_login_def Let_def
    by (intro with_body_asks) (auto split: option.split json.split prod.split login_result.split)
qed

lemma post_create_org_asks:
  "locally_asked (st_listener st) (wb_token w) s (snd (snd (post_create_org st x rq w s)))"
proof -
  have "locally_asked (st_listener st) (wb_token w) s s'" if "create_org_public st x body w s = (r, s')" for body r s'
    using create_org_asks [of st w s x body] that by simp
  then show ?thesis unfolding post_create_org_def
    by (intro with_body_asks) (auto split: prod.split sum.split web_error.split)
qed

lemma run_public_post_asks:
  "locally_asked (st_listener st) (wb_token w) s (snd (snd (run_public_post st x rq h w s)))"
  by (cases h) (simp_all add: run_public_post_def handle_login_asks post_create_org_asks)

lemma serve_asks:
  assumes "local_sessions tk w"
  shows "locally_asked (st_listener st) tk s (snd (snd (web_serve st i w s)))"
proof -
  obtain m x rq where i: "i = (m, x, rq)" by (cases i)
  have tk: "tk = wb_token w" using assms by (simp add: local_sessions_def)
  show ?thesis
  proof (cases m)
    case GET
    have "locally_asked (st_listener st) tk s (snd (snd (web_GET st x rq w s)))"
      by (auto simp: web_GET_def get_agent_def get_group_def Let_def read_asks
          intro!: require_asks [OF assms] run_get_asks run_public_get_asks [of st w, folded tk]
          split: option.split bool.split)
    with GET show ?thesis by (simp add: web_serve_def i)
  next
    case POST
    have "locally_asked (st_listener st) tk s (snd (snd (web_POST st x rq w s)))"
      by (auto simp: web_POST_def post_agent_action_def
          intro!: require_asks [OF assms] run_post_asks run_action_asks run_public_post_asks [of st w, folded tk]
          split: option.split bool.split)
    with POST show ?thesis by (simp add: web_serve_def i)
  qed
qed

lemma run_asks: "local_sessions tk w \<Longrightarrow> locally_asked (st_listener st) tk s (snd (snd (web_run st is w s)))"
proof (induction "is" arbitrary: w s)
  case (Cons i "is")
  obtain r w1 s1 where 1: "web_serve st i w s = (r, w1, s1)" by (metis prod_cases3)
  have "local_sessions tk w1" using holding.P_serve [OF Cons.prems, of st i s] 1 by simp
  from Cons.IH [OF this, of s1] serve_asks [OF Cons.prems, of st s i] 1 show ?case
    by (auto intro: locally_trans split: prod.split)
qed simp

text \<open>
  C33. Whatever is asked of the web interface, the service ends as after requests that carry the
  local token as their password, each for an organization, the human account of an organization, or
  the local web identity: the interface never speaks as an agent and sends no typed password.
\<close>

theorem web_presents_its_token:
  "\<exists>rs. snd (snd (web_run st is (web_start port t token_file) s)) = after_requests (st_listener st) rs s
    \<and> list_all (\<lambda>(e, r). local_request (st_listener st) (wb_token (web_start port t token_file)) r) rs"
proof -
  have "local_sessions (wb_token (web_start port t token_file)) (web_start port t token_file)"
    by (simp add: local_sessions_def web_start_def)
  from run_asks [OF this, of st s "is"] show ?thesis by (auto simp: locally_asked_def)
qed

end
