(* ===== verification/ServerLock.thy ===== *)
theory ServerLock
  imports Bridge
begin

text \<open>
  The lock of the storage, \<^verbatim>\<open>service.lock\<close>: how a server (\<^verbatim>\<open>synapse/server.py\<close>) and a restoration
  (\<^verbatim>\<open>synapse/backup.py\<close>) take and release it, one system call at a time, so that the processes
  interleave. A file is remembered with the process that created it: a write goes to that file even
  when its name was taken away and given to another.
\<close>

section \<open>The steps of a process\<close>

definition lock_is_stale :: "(int \<Rightarrow> bool) \<Rightarrow> string option \<Rightarrow> bool" where
  "lock_is_stale alive content =
     (case content of
        None \<Rightarrow> False
      | Some c \<Rightarrow> (case read_int (code_points c) of None \<Rightarrow> False | Some n \<Rightarrow> 0 < n \<and> \<not> alive n))"

datatype role = Server | Restore

text \<open>Where a process is in \<open>_acquire_lock\<close> or \<open>_acquire_service_lock\<close>, then with the lock.\<close>

datatype phase = Begin | Check | Remove | Retry | Write | Holds | Turned | Gone

record lock_world =
  lw_file :: "(nat \<times> string) option"
  lw_phase :: "nat \<Rightarrow> phase"

definition lock_text :: "(nat \<Rightarrow> role) \<Rightarrow> nat \<Rightarrow> string" where
  "lock_text roles p = (case roles p of Server \<Rightarrow> nat_text p | Restore \<Rightarrow> ''restore'')"

definition go :: "nat \<Rightarrow> phase \<Rightarrow> lock_world \<Rightarrow> lock_world" where
  "go p ph w = w\<lparr>lw_phase := (lw_phase w)(p := ph)\<rparr>"

text \<open>\<open>os.open(..., O_CREAT | O_EXCL)\<close>, with what follows when the file exists.\<close>

definition create_lock :: "phase \<Rightarrow> nat \<Rightarrow> lock_world \<Rightarrow> lock_world" where
  "create_lock otherwise p w =
     (case lw_file w of
        None \<Rightarrow> go p Write (w\<lparr>lw_file := Some (p, [])\<rparr>)
      | Some _ \<Rightarrow> go p otherwise w)"

text \<open>The processes that run: those of the model that did not end, and others of the machine.\<close>

definition running :: "(nat \<Rightarrow> bool) \<Rightarrow> lock_world \<Rightarrow> int \<Rightarrow> bool" where
  "running others w n = (others (nat n) \<or> lw_phase w (nat n) \<noteq> Gone)"

definition lock_step :: "(nat \<Rightarrow> role) \<Rightarrow> (nat \<Rightarrow> bool) \<Rightarrow> nat \<Rightarrow> lock_world \<Rightarrow> lock_world" where
  "lock_step roles others p w =
     (case lw_phase w p of
        Begin \<Rightarrow> (case roles p of
            Server \<Rightarrow> create_lock Check p w
          | Restore \<Rightarrow> go p (if lw_file w = None then Retry else Check) w)
      | Check \<Rightarrow> go p (if lock_is_stale (running others w) (map_option snd (lw_file w)) then Remove else Turned) w
      | Remove \<Rightarrow> go p Retry (w\<lparr>lw_file := None\<rparr>)
      | Retry \<Rightarrow> create_lock Turned p w
      | Write \<Rightarrow> go p Holds (case lw_file w of
            None \<Rightarrow> w
          | Some (creator, c) \<Rightarrow> if creator = p then w\<lparr>lw_file := Some (p, lock_text roles p)\<rparr> else w)
      | Holds \<Rightarrow> go p Gone (w\<lparr>lw_file := None\<rparr>)
      | Turned \<Rightarrow> go p Gone w
      | Gone \<Rightarrow> w)"

definition serving :: "lock_world \<Rightarrow> nat \<Rightarrow> bool" where
  "serving w p = (lw_phase w p \<in> {Write, Holds})"

text \<open>The runs, in any interleaving; a process may be killed anywhere, or only without the lock.\<close>

inductive lock_run :: "bool \<Rightarrow> (nat \<Rightarrow> role) \<Rightarrow> (nat \<Rightarrow> bool) \<Rightarrow> lock_world \<Rightarrow> lock_world \<Rightarrow> bool"
  for crashes :: bool and roles :: "nat \<Rightarrow> role" and others :: "nat \<Rightarrow> bool" and w0 :: lock_world where
  start: "lock_run crashes roles others w0 w0"
| move: "lock_run crashes roles others w0 w \<Longrightarrow> lock_run crashes roles others w0 (lock_step roles others p w)"
| kill: "lock_run crashes roles others w0 w \<Longrightarrow> crashes \<or> \<not> serving w p
    \<Longrightarrow> lock_run crashes roles others w0 (go p Gone w)"

section \<open>The text of the lock\<close>

lemma go_simps [simp]:
  "lw_file (go p ph w) = lw_file w"
  "lw_phase (go p ph w) q = (if q = p then ph else lw_phase w q)"
  by (simp_all add: go_def)

lemma pid_points: "x \<in> set (cps (nat_text n)) \<Longrightarrow> 48 \<le> x \<and> x \<le> 57"
  using nat_text_dec [of n] by (auto simp: cps_def list_all_iff is_dec_def)

lemma digit_text [simp]: "cps [digit d] = [of_char (digit d)]"
  by (simp add: cps_def)

lemma pid_value: "py_int (cps (nat_text n)) = n"
proof (induction n rule: nat_text.induct)
  case (1 n)
  show ?case
  proof (cases "n < 10")
    case True
    then show ?thesis
      using py_int_snoc [of "[]" "of_char (digit (n mod 10))"] decimal_digit_mod [of n]
      by (subst nat_text.simps) (simp add: py_int_def of_char_digit)
  next
    case False
    then show ?thesis using 1 by (subst nat_text.simps) (simp add: cps_def py_int_snoc [unfolded cps_def])
  qed
qed

lemma plain_unsplit: "\<forall>x \<in> set us. x \<noteq> c \<Longrightarrow> split_at c us = [us]"
  by (induction us) auto

lemma pid_strip: "strip (cps (nat_text n)) = cps (nat_text n)"
proof (rule strip_idle)
  have "\<not> is_space x" if "x \<in> set (cps (nat_text n))" for x
    using pid_points [OF that] by (auto simp: is_space_def)
  then show "stripped (cps (nat_text n))" by (simp add: stripped_def)
qed

lemma read_pid: "read_int (code_points (nat_text n)) \<in> {None, Some (int n)}"
proof -
  have "list_all (\<lambda>c. (of_char c :: nat) < 128) (nat_text n)"
    using nat_text_dec [of n] by (auto simp: list_all_iff is_dec_def)
  then have cp: "code_points (nat_text n) = cps (nat_text n)" by (rule code_points_ascii)
  have "\<forall>x \<in> set (cps (nat_text n)). x \<noteq> 95" using pid_points [of _ n] by force
  then have one: "unsigned (cps (nat_text n)) \<in> {None, Some (int n)}"
    using pid_value [of n] by (simp add: unsigned_def plain_unsplit)
  obtain x us where us: "cps (nat_text n) = x # us"
    using nat_text_Nil [of n] by (cases "cps (nat_text n)") (auto simp: cps_def)
  then have "48 \<le> x" using pid_points [of x n] by simp
  then have "read_int (code_points (nat_text n)) = unsigned (cps (nat_text n))"
    using pid_strip [of n] unfolding cp read_int_def us by simp
  with one show ?thesis by simp
qed

lemma read_other: "read_int (code_points []) = None" "read_int (code_points ''restore'') = None"
  by (simp_all add: read_int_def strip_def point_ascii is_space_def unsigned_def is_digit_def decimal_def nd_zeros_def
    fetch_def)

text \<open>The lock of a process that runs is not stale.\<close>

lemma own_lock_fresh:
  assumes "c \<in> {[], lock_text roles p}" and "lw_phase w p \<noteq> Gone"
  shows "\<not> lock_is_stale (running others w) (Some c)"
proof -
  have "read_int (code_points c) \<in> {None, Some (int p)}"
    using assms(1) read_pid [of p] read_other by (auto simp: lock_text_def split: role.splits)
  with assms(2) show ?thesis by (auto simp: lock_is_stale_def running_def)
qed

section \<open>One holder\<close>

text \<open>The file belongs to the one process that serves, which runs; no process removes it.\<close>

definition lock_ok :: "(nat \<Rightarrow> role) \<Rightarrow> lock_world \<Rightarrow> bool" where
  "lock_ok roles w =
     ((\<forall>p. lw_phase w p \<noteq> Remove)
      \<and> (\<forall>p. serving w p \<longrightarrow> (\<exists>c. lw_file w = Some (p, c)))
      \<and> (\<forall>p c. lw_file w = Some (p, c) \<longrightarrow> serving w p \<and> c \<in> {[], lock_text roles p}))"

lemma serving_go [simp]: "serving (go p ph w) q = (if q = p then ph \<in> {Write, Holds} else serving w q)"
  by (simp add: serving_def)

lemma serving_file [simp]: "serving (w\<lparr>lw_file := f\<rparr>) q = serving w q"
  by (simp add: serving_def)

lemma serving_phase: "lw_phase w p = ph \<Longrightarrow> serving w p = (ph \<in> {Write, Holds})"
  by (simp add: serving_def)

lemma lock_ok_holder:
  assumes "lock_ok roles w" and "serving w p"
  shows "\<exists>c. lw_file w = Some (p, c)" and "serving w q \<longleftrightarrow> q = p"
proof -
  have f: "\<exists>c. lw_file w = Some (r, c)" if "serving w r" for r
    using assms(1) that by (auto simp: lock_ok_def)
  from f [OF assms(2)] show "\<exists>c. lw_file w = Some (p, c)" .
  with f [of q] assms(2) show "serving w q \<longleftrightarrow> q = p" by auto
qed

lemma create_ok:
  assumes "lock_ok roles w" and "\<not> serving w p" and "ph \<notin> {Remove, Write, Holds}"
  shows "lock_ok roles (create_lock ph p w)"
proof (cases "lw_file w")
  case None
  then have "\<not> serving w q" for q using assms(1) by (auto simp: lock_ok_def)
  with assms None show ?thesis by (auto simp: lock_ok_def create_lock_def)
next
  case (Some f)
  with assms show ?thesis by (auto simp: lock_ok_def create_lock_def)
qed

lemma turn_ok:
  assumes "lock_ok roles w" and "\<not> serving w p" and "ph \<notin> {Remove, Write, Holds}"
  shows "lock_ok roles (go p ph w)"
  using assms by (auto simp: lock_ok_def)

lemma step_ok:
  assumes "lock_ok roles w"
  shows "lock_ok roles (lock_step roles others p w)"
proof (cases "lw_phase w p")
  case Check
  have "\<not> lock_is_stale (running others w) (map_option snd (lw_file w))"
  proof (cases "lw_file w")
    case (Some f)
    then obtain q c where f: "lw_file w = Some (q, c)" "serving w q" "c \<in> {[], lock_text roles q}"
      using assms by (cases f) (auto simp: lock_ok_def)
    with own_lock_fresh [OF f(3), of w others] show ?thesis by (auto simp: serving_def)
  qed (simp add: lock_is_stale_def)
  with Check assms show ?thesis by (simp add: lock_step_def turn_ok serving_phase)
next
  case Write
  then have serves: "serving w p" by (simp add: serving_def)
  obtain c where "lw_file w = Some (p, c)" using lock_ok_holder(1) [OF assms serves] by blast
  then have "lock_step roles others p w = go p Holds (w\<lparr>lw_file := Some (p, lock_text roles p)\<rparr>)"
    by (simp add: lock_step_def Write)
  moreover have "lw_phase w r \<noteq> Remove" for r using assms by (simp add: lock_ok_def)
  ultimately show ?thesis using lock_ok_holder(2) [OF assms serves] by (simp add: lock_ok_def)
next
  case Holds
  then have serves: "serving w p" by (simp add: serving_def)
  have "lock_step roles others p w = go p Gone (w\<lparr>lw_file := None\<rparr>)" by (simp add: lock_step_def Holds)
  moreover have "lw_phase w r \<noteq> Remove" for r using assms by (simp add: lock_ok_def)
  ultimately show ?thesis using lock_ok_holder(2) [OF assms serves] by (simp add: lock_ok_def)
next
  case Begin
  with assms show ?thesis
    by (auto simp: lock_step_def create_ok turn_ok serving_phase split: role.split)
next
  case Remove
  with assms show ?thesis by (simp add: lock_ok_def)
qed (use assms in \<open>simp_all add: lock_step_def create_ok turn_ok serving_phase\<close>)

definition lock_free :: "lock_world \<Rightarrow> bool" where
  "lock_free w = (lw_file w = None \<and> (\<forall>p. lw_phase w p \<in> {Begin, Gone}))"

lemma run_ok:
  assumes "lock_run False roles others w0 w" and "lock_free w0"
  shows "lock_ok roles w"
  using assms(1)
proof (induction rule: lock_run.induct)
  case start
  have "lw_phase w0 p \<in> {Begin, Gone}" for p using assms(2) by (simp add: lock_free_def)
  then have "lw_phase w0 p \<noteq> Remove" "\<not> serving w0 p" for p
    by (metis empty_iff insert_iff phase.distinct serving_def)+
  with assms(2) show ?case by (simp add: lock_ok_def lock_free_def)
next
  case (move w p)
  from this(2) show ?case by (rule step_ok)
next
  case (kill w p)
  then show ?case by (simp add: turn_ok)
qed


section \<open>A lock that was left behind\<close>

primrec lock_moves :: "(nat \<Rightarrow> role) \<Rightarrow> (nat \<Rightarrow> bool) \<Rightarrow> nat list \<Rightarrow> lock_world \<Rightarrow> lock_world" where
  "lock_moves roles others [] w = w"
| "lock_moves roles others (p # ps) w = lock_moves roles others ps (lock_step roles others p w)"

lemma moves_run: "lock_run crashes roles others w0 w \<Longrightarrow> lock_run crashes roles others w0 (lock_moves roles others ps w)"
  by (induction ps arbitrary: w) (auto intro: lock_run.move)

text \<open>
  C38. A lock left by a process that was killed lets two servers in: both find it stale, the first
  removes it, takes the lock and serves, then the second removes the lock of the first and takes
  its own. No process is killed on the way.
\<close>

theorem stale_lock_admits_two:
  assumes "p \<noteq> q" and "roles p = Server" and "roles q = Server"
    and "lw_phase w0 p = Begin" and "lw_phase w0 q = Begin"
    and "lw_file w0 = Some (creator, c)" and "lock_is_stale (running others w0) (Some c)"
  shows "\<exists>w. lock_run False roles others w0 w \<and> lw_phase w p = Holds \<and> lw_phase w q = Holds"
proof -
  let ?at = "\<lambda>f. w0\<lparr>lw_phase := f\<rparr>"
  define w4 where "w4 = ?at ((lw_phase w0)(p := Remove, q := Remove))"
  have stale: "lock_is_stale (running others (?at f)) (Some c)" if "\<And>r. f r = Gone \<longleftrightarrow> lw_phase w0 r = Gone" for f
  proof -
    have "running others (?at f) = running others w0" using that by (simp add: running_def fun_eq_iff)
    with assms(7) show ?thesis by simp
  qed
  have "lock_step roles others p w0 = ?at ((lw_phase w0)(p := Check))"
    using assms by (simp add: lock_step_def create_lock_def go_def)
  moreover have "lock_step roles others q (?at ((lw_phase w0)(p := Check)))
      = ?at ((lw_phase w0)(p := Check, q := Check))"
    using assms by (simp add: lock_step_def create_lock_def go_def)
  moreover have "lock_step roles others p (?at ((lw_phase w0)(p := Check, q := Check)))
      = ?at ((lw_phase w0)(p := Remove, q := Check))"
    using assms stale [of "(lw_phase w0)(p := Check, q := Check)"]
    by (simp add: lock_step_def go_def fun_upd_twist)
  moreover have "lock_step roles others q (?at ((lw_phase w0)(p := Remove, q := Check))) = w4"
    using assms stale [of "(lw_phase w0)(p := Remove, q := Check)"]
    by (simp add: lock_step_def go_def w4_def)
  ultimately have "lock_moves roles others [p, q, p, q] w0 = w4" by simp
  then have w: "lock_moves roles others [p, q, p, q, p, p, p, q, q, q] w0 = lock_moves roles others [p, p, p, q, q, q] w4"
    by simp
  let ?w = "lock_moves roles others [p, p, p, q, q, q] w4"
  have "lock_run False roles others w0 ?w" unfolding w [symmetric] by (intro moves_run lock_run.start)
  moreover have "lw_phase ?w p = Holds \<and> lw_phase ?w q = Holds"
    using assms(1-3) by (simp add: w4_def lock_step_def create_lock_def go_def)
  ultimately show ?thesis by blast
qed

section \<open>Instances\<close>

text \<open>Two servers, 1 and 2; no other process runs.\<close>

definition two_servers :: "(nat \<times> string) option \<Rightarrow> lock_world" where
  "two_servers f = \<lparr>lw_file = f, lw_phase = (\<lambda>p. if p \<in> {1, 2} then Begin else Gone)\<rparr>"


lemma stale_lock_admits_two_witness:
  "\<exists>w. lock_run False (\<lambda>_. Server) (\<lambda>_. False) (two_servers (Some (9, ''9''))) w
     \<and> lw_phase w 1 = Holds \<and> lw_phase w 2 = Holds"
proof (rule stale_lock_admits_two)
  have "read_int (code_points ''9'') = Some 9"
    by (simp add: read_int_def strip_def point_ascii is_space_def unsigned_def is_digit_def decimal_def
      nd_zeros_def fetch_def INT_MAX_STR_DIGITS_def py_int_def)
  then show "lock_is_stale (running (\<lambda>_. False) (two_servers (Some (9, ''9'')))) (Some ''9'')"
    by (simp add: lock_is_stale_def running_def two_servers_def)
qed (simp_all add: two_servers_def)

end
