(* ===== verification/Backup.thy ===== *)
theory Backup
  imports ServerLock
begin

text \<open>
  Backups of the storage, \<^verbatim>\<open>synapse/backup.py\<close>: the archive with its header, its encryption and its
  checks, the restoration under the lock of the storage, the verification and the retention, on a
  disk that maps paths to contents. AES-GCM, SQLite's own functions and the preparation of the
  storage (the schema of an old or missing database) are parameters. Writing does not fail; a
  message that quotes an exception is kept without the quotation.
\<close>

section \<open>The disk\<close>

type_synonym disk = "string \<Rightarrow> string option"

definition path_join :: "string \<Rightarrow> string \<Rightarrow> string" where
  "path_join dir name = (if dir = [] \<or> ends_with ''/'' dir then dir @ name else dir @ ''/'' @ name)"

record installation =
  in_storage :: string
  in_backups :: string

definition db_path :: "installation \<Rightarrow> string" where
  "db_path c = path_join (in_storage c) ''synapse.db''"

definition cursor_key_path :: "installation \<Rightarrow> string" where
  "cursor_key_path c = path_join (in_storage c) ''cursor.key''"

definition backup_key_path :: "installation \<Rightarrow> string" where
  "backup_key_path c = path_join (in_storage c) ''backup.key''"

definition lock_path :: "installation \<Rightarrow> string" where
  "lock_path c = path_join (in_storage c) ''service.lock''"

text \<open>What \<open>AESGCM.decrypt\<close> does: an invalid tag and a nonce of a wrong size are two exceptions.\<close>

datatype decrypted = Plain string | InvalidTag | InvalidNonce

text \<open>
  The machine: \<open>ensure_storage\<close>, SQLite (the consistent copy of a database, its integrity check,
  the names of its tables; \<open>None\<close> is its error), the cipher, the processes, and the random bytes,
  names and times of one call.
\<close>

record machine =
  mc_prepare :: "disk \<Rightarrow> disk option"
  mc_snapshot :: "disk \<Rightarrow> string option"
  mc_integrity :: "string \<Rightarrow> bool option"
  mc_tables :: "string \<Rightarrow> string list option"
  mc_encrypt :: "string \<Rightarrow> string \<Rightarrow> string \<Rightarrow> string"
  mc_decrypt :: "string \<Rightarrow> string \<Rightarrow> string \<Rightarrow> decrypted"
  mc_running :: "int \<Rightarrow> bool"
  mc_nesting :: "string \<Rightarrow> bool"
  mc_real :: "string \<Rightarrow> string list"
  mc_key :: "string \<Rightarrow> string"
  mc_nonce :: string
  mc_now :: string
  mc_temp :: string
  mc_scratch :: string

datatype backup_error = BackupError string | StorageFault | KeyFault | OtherFault

text \<open>A step may raise, and has then changed the disk all the same.\<close>

type_synonym 'a disk_step = "(backup_error + 'a) \<times> disk"

definition then_disk :: "'a disk_step \<Rightarrow> ('a \<Rightarrow> disk \<Rightarrow> 'b disk_step) \<Rightarrow> 'b disk_step" where
  "then_disk r f = (case r of (Inl x, d) \<Rightarrow> (Inl x, d) | (Inr y, d) \<Rightarrow> f y d)"

definition demand :: "bool \<Rightarrow> backup_error \<Rightarrow> disk \<Rightarrow> unit disk_step" where
  "demand P x d = (if P then (Inr (), d) else (Inl x, d))"

definition ensure_storage :: "machine \<Rightarrow> disk \<Rightarrow> unit disk_step" where
  "ensure_storage m d = (case mc_prepare m d of None \<Rightarrow> (Inl StorageFault, d) | Some d' \<Rightarrow> (Inr (), d'))"

text \<open>\<open>load_or_create_key\<close> of \<^verbatim>\<open>security.py\<close>: a key of 32 bytes, made when the file is missing.\<close>

definition KEY_BYTES :: nat where "KEY_BYTES = 32"

definition load_or_create_key :: "machine \<Rightarrow> string \<Rightarrow> disk \<Rightarrow> string disk_step" where
  "load_or_create_key m path d =
     (case d path of
        Some k \<Rightarrow> if length k = KEY_BYTES then (Inr k, d) else (Inl KeyFault, d)
      | None \<Rightarrow> (Inr (mc_key m path), d(path \<mapsto> mc_key m path)))"

section \<open>Standard base64\<close>

definition std_char :: "char \<Rightarrow> char" where
  "std_char c = (if c = CHR ''-'' then CHR ''+'' else if c = CHR ''_'' then CHR ''/'' else c)"

definition b64_std :: "string \<Rightarrow> string" where
  "b64_std s = map std_char (b64url s) @ b64_pad (length (b64url s))"

text \<open>
  \<open>b64decode(..., validate=True)\<close>: groups of four characters of the alphabet, the last one with at
  most two signs of padding.
\<close>

definition strict_b64 :: "string \<Rightarrow> bool" where
  "strict_b64 s =
     (let body = takeWhile (\<lambda>c. c \<noteq> CHR ''='') s; pad = dropWhile (\<lambda>c. c \<noteq> CHR ''='') s in
      list_all (\<lambda>c. b64_val c \<noteq> None \<and> c \<notin> {CHR ''-'', CHR ''_''}) body
      \<and> pad \<in> {[], ''='', ''==''} \<and> length s mod 4 = 0)"

definition unb64_std :: "string \<Rightarrow> string option" where
  "unb64_std s = (if strict_b64 s then map_option (map char_of) (a2b 0 0 0 s) else None)"

section \<open>The archive\<close>

definition ARCHIVE_MAGIC :: string where "ARCHIVE_MAGIC = ''SYNBK'' @ map char_of [1 :: nat, 10]"
definition ARCHIVE_FORMAT :: int where "ARCHIVE_FORMAT = 1"
definition NONCE_LENGTH :: nat where "NONCE_LENGTH = 12"

definition archive_header :: "machine \<Rightarrow> string \<Rightarrow> json" where
  "archive_header m signing_key = JObj [(''format'', JInt ARCHIVE_FORMAT), (''created_at'', JStr (mc_now m)),
     (''cursor_key'', JStr (b64_std signing_key))]"

definition backup :: "machine \<Rightarrow> installation \<Rightarrow> string option \<Rightarrow> disk \<Rightarrow> string disk_step" where
  "backup m c output d =
     then_disk (ensure_storage m d) (\<lambda>_ d.
     then_disk (load_or_create_key m (backup_key_path c) d) (\<lambda>key d.
     then_disk (load_or_create_key m (cursor_key_path c) d) (\<lambda>signing_key d.
     case mc_snapshot m d of
       None \<Rightarrow> (Inl (BackupError ''Backup failed''), d)
     | Some bytes \<Rightarrow>
         (let plaintext = compact (archive_header m signing_key) @ [NEWLINE] @ bytes;
              path = (case output of Some p \<Rightarrow> p
                | None \<Rightarrow> path_join (in_backups c) (''synapse-backup-'' @ mc_now m @ ''.synbk''))
          in (Inr path, d(path \<mapsto> ARCHIVE_MAGIC @ mc_nonce m @ mc_encrypt m key (mc_nonce m) plaintext))))))"

text \<open>The header line as JSON: what the two \<open>except\<close> clauses turn into a \<open>BackupError\<close>.\<close>

definition read_header :: "machine \<Rightarrow> string \<Rightarrow> backup_error + params" where
  "read_header m line =
     (case json_loads (mc_nesting m) line of
        Loaded (JObj kvs) \<Rightarrow> Inr kvs
      | Loaded _ \<Rightarrow> Inl OtherFault
      | NotUnicode \<Rightarrow> Inl (BackupError ''Corrupted backup (invalid header)'')
      | NotJson \<Rightarrow> Inl (BackupError ''Corrupted backup (invalid header)'')
      | _ \<Rightarrow> Inl OtherFault)"

definition check_header :: "params \<Rightarrow> backup_error + string" where
  "check_header header =
     (if \<not> json_eq (get_or header ''format'' JNull) (JInt ARCHIVE_FORMAT)
      then Inl (BackupError ''Unsupported backup version'')
      else case map_of header ''cursor_key'' of
          Some (JStr text) \<Rightarrow>
            (case unb64_std text of
               None \<Rightarrow> Inl (BackupError ''Corrupted backup (invalid cursor key)'')
             | Some key \<Rightarrow> if length key = KEY_BYTES then Inr key
                 else Inl (BackupError ''Corrupted backup (invalid cursor key)''))
        | _ \<Rightarrow> Inl (BackupError ''Corrupted backup (missing cursor key)''))"

text \<open>The header, the cursor key in it and the bytes of the database.\<close>

definition decrypt_archive ::
    "machine \<Rightarrow> installation \<Rightarrow> string \<Rightarrow> disk \<Rightarrow> (params \<times> string \<times> string) disk_step" where
  "decrypt_archive m c archive d =
     (case d archive of
        None \<Rightarrow> (Inl (BackupError ''Backup not found''), d)
      | Some data \<Rightarrow>
          if take (length ARCHIVE_MAGIC) data \<noteq> ARCHIVE_MAGIC
          then (Inl (BackupError ''Unrecognized file (invalid magic)''), d)
          else
            (let rest = drop (length ARCHIVE_MAGIC) data in
             then_disk (load_or_create_key m (backup_key_path c) d) (\<lambda>key d.
               case mc_decrypt m key (take NONCE_LENGTH rest) (drop NONCE_LENGTH rest) of
                 InvalidTag \<Rightarrow> (Inl (BackupError ''Decryption failed: corrupted backup or wrong key''), d)
               | InvalidNonce \<Rightarrow> (Inl OtherFault, d)
               | Plain plaintext \<Rightarrow>
                   (case cut_line plaintext of
                      None \<Rightarrow> (Inl (BackupError ''Corrupted backup (missing header)''), d)
                    | Some (line, bytes) \<Rightarrow>
                        (case read_header m line of
                           Inl x \<Rightarrow> (Inl x, d)
                         | Inr header \<Rightarrow>
                             (case check_header header of
                                Inl x \<Rightarrow> (Inl x, d)
                              | Inr key \<Rightarrow> (Inr (header, key, bytes), d)))))))"

section \<open>The checks of a database\<close>

definition EXPECTED_TABLES :: "string list" where
  "EXPECTED_TABLES = [''organizations'', ''accounts'', ''conversations'', ''messages'', ''reply_state'',
     ''auth_failures'', ''agent_cards'', ''tasks'', ''task_dependencies'', ''task_events'', ''events'',
     ''org_settings'', ''org_escalation_policy'', ''agent_budgets'', ''audit_log'', ''departments'',
     ''memberships'', ''groups'', ''group_members'', ''group_messages'', ''delegations'']"

definition check_sqlite_integrity :: "machine \<Rightarrow> string \<Rightarrow> backup_error + nat" where
  "check_sqlite_integrity m bytes =
     (case mc_integrity m bytes of
        Some True \<Rightarrow> (case mc_tables m bytes of
            None \<Rightarrow> Inl (BackupError ''SQLite'') | Some ts \<Rightarrow> Inr (length ts))
      | Some False \<Rightarrow> Inl (BackupError ''Corrupted backup (invalid SQLite integrity)'')
      | None \<Rightarrow> Inl (BackupError ''SQLite''))"

definition check_schema :: "machine \<Rightarrow> string \<Rightarrow> backup_error + unit" where
  "check_schema m bytes =
     (case mc_tables m bytes of
        None \<Rightarrow> Inl (BackupError ''SQLite'')
      | Some ts \<Rightarrow> if set EXPECTED_TABLES \<subseteq> set ts then Inr ()
          else Inl (BackupError ''Corrupted backup (missing tables)''))"

definition check_database :: "machine \<Rightarrow> string \<Rightarrow> backup_error + nat" where
  "check_database m bytes =
     (case check_sqlite_integrity m bytes of
        Inl x \<Rightarrow> Inl x
      | Inr n \<Rightarrow> (case check_schema m bytes of Inl x \<Rightarrow> Inl x | Inr _ \<Rightarrow> Inr n))"

section \<open>Restoration\<close>

definition acquire_service_lock :: "machine \<Rightarrow> installation \<Rightarrow> disk \<Rightarrow> unit disk_step" where
  "acquire_service_lock m c d =
     (if d (lock_path c) = None \<or> lock_is_stale (mc_running m) (d (lock_path c))
      then (Inr (), d(lock_path c \<mapsto> ''restore''))
      else (Inl (BackupError ''The service is running: stop it before restoring''), d))"

definition remove_file :: "string \<Rightarrow> disk \<Rightarrow> disk" where
  "remove_file path d = d(path := None)"

definition restore_locked :: "machine \<Rightarrow> installation \<Rightarrow> string \<Rightarrow> disk \<Rightarrow> unit disk_step" where
  "restore_locked m c archive d =
     then_disk (decrypt_archive m c archive d) (\<lambda>(header, key, bytes) d.
     then_disk (ensure_storage m d) (\<lambda>_ d.
     case check_database m bytes of
       Inl x \<Rightarrow> (Inl x, remove_file (mc_temp m) d)
     | Inr _ \<Rightarrow>
         (Inr (), (remove_file (db_path c @ ''-shm'') (remove_file (db_path c @ ''-wal'')
           (remove_file (mc_temp m) d)))(db_path c \<mapsto> bytes, cursor_key_path c \<mapsto> key))))"

definition restore_backup :: "machine \<Rightarrow> installation \<Rightarrow> string \<Rightarrow> disk \<Rightarrow> unit disk_step" where
  "restore_backup m c archive d =
     then_disk (acquire_service_lock m c d) (\<lambda>_ d.
       case restore_locked m c archive d of (r, d') \<Rightarrow> (r, remove_file (lock_path c) d'))"

section \<open>Verification and retention\<close>

record report =
  rp_archive :: string
  rp_format :: json
  rp_created :: json
  rp_tables :: nat

text \<open>\<open>os.path.commonpath([scratch, storage]) == storage\<close>: the scratch is below the storage.\<close>

definition scratch_isolated :: "machine \<Rightarrow> installation \<Rightarrow> string \<Rightarrow> bool" where
  "scratch_isolated m c scratch =
     (let storage = mc_real m (in_storage c) in take (length storage) (mc_real m scratch) \<noteq> storage)"

definition verify_backup ::
    "machine \<Rightarrow> installation \<Rightarrow> string \<Rightarrow> string option \<Rightarrow> disk \<Rightarrow> report disk_step" where
  "verify_backup m c archive scratch d =
     then_disk (decrypt_archive m c archive d) (\<lambda>(header, key, bytes) d.
     then_disk (demand (case scratch of None \<Rightarrow> True | Some dir \<Rightarrow> scratch_isolated m c dir)
        (BackupError ''invalid verification directory: it must not contain the production storage'') d) (\<lambda>_ d.
     let file = path_join (case scratch of None \<Rightarrow> mc_scratch m | Some dir \<Rightarrow> dir) ''synapse.db'' in
     case check_database m bytes of
       Inl x \<Rightarrow> (Inl x, remove_file file d)
     | Inr n \<Rightarrow> (Inr \<lparr>rp_archive = archive, rp_format = get_or header ''format'' JNull,
           rp_created = get_or header ''created_at'' JNull, rp_tables = n\<rparr>, remove_file file d)))"

text \<open>
  The archives with their modification times, in the directory's order; a file that cannot be
  deleted stops the deletion. \<open>None\<close> is the \<open>ValueError\<close> of a \<open>keep\<close> below one.
\<close>

fun unlink_all :: "(string \<Rightarrow> bool) \<Rightarrow> string list \<Rightarrow> string list \<times> bool" where
  "unlink_all can [] = ([], True)"
| "unlink_all can (p # ps) =
     (if can p then (case unlink_all can ps of (gone, ok) \<Rightarrow> (p # gone, ok)) else ([], False))"

definition newest_first :: "(string \<times> int) list \<Rightarrow> (string \<times> int) list" where
  "newest_first archives = sort_key (\<lambda>(p, t). - t) archives"

definition prune_archives :: "(string \<Rightarrow> bool) \<Rightarrow> int \<Rightarrow> (string \<times> int) list \<Rightarrow> (string list \<times> bool) option" where
  "prune_archives can keep archives =
     (if keep < 1 then None
      else Some (unlink_all can (map fst (drop (nat keep) (newest_first archives)))))"

end
