(* ===== verification/BackupProperties.thy ===== *)
theory BackupProperties
  imports Backup BridgeProperties "HOL-Library.Multiset"
begin

text \<open>
  What backups promise: what was saved is restored, a restoration that fails leaves the storage as
  it was, a verification leaves it alone, and the newest archives are kept.
\<close>

section \<open>Base64\<close>

lemma b64_val_std: "b64_val (std_char c) = b64_val c" and std_pad: "std_char c = CHR ''='' \<longleftrightarrow> c = CHR ''=''"
  by (auto simp: std_char_def b64_val_def Let_def)

lemma a2b_std: "a2b q l p (map std_char s) = a2b q l p s"
  by (induction q l p s rule: a2b.induct) (simp_all add: a2b.simps b64_val_std std_pad split: option.split)

lemma std_pad_idle: "map std_char (b64_pad n) = b64_pad n"
  by (simp add: b64_pad_def std_char_def)

lemma b64_encode_length: "length (b64_encode bs) mod 4 \<in> {0, 2, 3}"
  by (induction bs rule: b64_encode.induct) auto

lemma b64_encode_alphabet:
  "list_all (\<lambda>b. b < 256) bs \<Longrightarrow> list_all (\<lambda>c. b64_val c \<noteq> None \<and> c \<noteq> CHR ''='') (b64_encode bs)"
  by (induction bs rule: b64_encode.induct) (auto simp: b64_val_char b64_char_not bits6)

lemma std_not: "std_char c \<notin> {CHR ''-'', CHR ''_''}"
  by (auto simp: std_char_def)

lemma strict_std: "strict_b64 (b64_std s)"
proof -
  let ?e = "b64url s"
  have e: "list_all (\<lambda>c. b64_val c \<noteq> None \<and> c \<noteq> CHR ''='') ?e"
    unfolding b64url_def by (rule b64_encode_alphabet [OF bytes_ok])
  have pad: "b64_pad (length ?e) \<in> {[], ''='', ''==''}" "(length ?e + length (b64_pad (length ?e))) mod 4 = 0"
    using b64_encode_length [of "map of_char s"]
    by (auto simp: b64url_def b64_pad_def numeral_2_eq_2 mod_add_left_eq [symmetric, of "length _"])
  have "\<forall>c \<in> set (map std_char ?e). c \<noteq> CHR ''=''"
    using e std_pad by (auto simp: list_all_iff)
  moreover have "takeWhile (\<lambda>c. c \<noteq> CHR ''='') (b64_pad n) = []"
    "dropWhile (\<lambda>c. c \<noteq> CHR ''='') (b64_pad n) = b64_pad n" for n
    by (simp_all add: b64_pad_def)
  ultimately have "takeWhile (\<lambda>c. c \<noteq> CHR ''='') (b64_std s) = map std_char ?e"
    "dropWhile (\<lambda>c. c \<noteq> CHR ''='') (b64_std s) = b64_pad (length ?e)"
    by (auto simp: b64_std_def takeWhile_append dropWhile_append)
  moreover have "list_all (\<lambda>c. b64_val c \<noteq> None \<and> c \<notin> {CHR ''-'', CHR ''_''}) (map std_char ?e)"
    using e std_not by (auto simp: list_all_iff b64_val_std)
  ultimately show ?thesis using pad by (simp add: strict_b64_def b64_std_def)
qed

lemma unb64_b64_std: "unb64_std (b64_std s) = Some s"
proof -
  have "a2b 0 0 0 (b64_std s) = a2b 0 0 0 (map std_char (b64url s @ b64_pad (length (b64url s))))"
    by (simp add: b64_std_def std_pad_idle)
  also have "\<dots> = Some (map of_char s)"
    using a2b_encode [OF bytes_ok [of s]] unfolding a2b_std b64url_def .
  finally show ?thesis by (simp add: unb64_std_def strict_std comp_def)
qed

section \<open>Paths and headers\<close>

lemma path_join_eq: "path_join dir a = path_join dir b \<longleftrightarrow> a = b"
  by (simp add: path_join_def)

lemma path_join_suffix: "path_join dir a @ b = path_join dir (a @ b)"
  by (simp add: path_join_def)

lemmas production_paths = db_path_def cursor_key_path_def backup_key_path_def lock_path_def
  path_join_eq path_join_suffix

text \<open>The files of the storage that a restoration may write.\<close>

definition production :: "installation \<Rightarrow> string set" where
  "production c = {db_path c, db_path c @ ''-wal'', db_path c @ ''-shm'', cursor_key_path c,
     backup_key_path c, lock_path c}"

lemma header_text:
  assumes "is_ascii (mc_now m)"
  shows "json_ok (archive_header m signing)" and "digits_ok (archive_header m signing)"
    and "is_utf8 (compact (archive_header m signing))"
proof -
  have ascii: "is_utf8 s" if "is_ascii s" for s
    using that is_utf8_ascii by (simp add: is_ascii_def)
  have "is_ascii (b64_std signing)"
    using b64url_chars(1) [of signing]
    by (auto simp: b64_std_def is_ascii_def list_all_iff std_char_def b64_pad_def)
  then have texts: "is_utf8 (json_string (b64_std signing))" "is_utf8 (json_string (mc_now m))"
    using ascii assms is_utf8_json_string by blast+
  have keys: "is_utf8 (json_string ''format'')" "is_utf8 (json_string ''created_at'')"
    "is_utf8 (json_string ''cursor_key'')" "is_utf8 (int_text 1)"
    by (intro is_utf8_json_string ascii; simp add: is_ascii_def int_text_def nat_text.simps digit_def)+
  have marks: "is_utf8 ''{''" "is_utf8 '',''" "is_utf8 '':''" "is_utf8 ''}''"
    by (rule ascii, simp add: is_ascii_def)+
  show "json_ok (archive_header m signing)" by (simp add: archive_header_def)
  show "digits_ok (archive_header m signing)"
    by (simp add: archive_header_def ARCHIVE_FORMAT_def INT_MAX_STR_DIGITS_def nat_text.simps)
  show "is_utf8 (compact (archive_header m signing))"
    by (simp only: archive_header_def compact_separators_def dumps.simps list.map prod.case
      join.simps fst_conv snd_conv ARCHIVE_FORMAT_def) (intro is_utf8_append texts keys marks)
qed

section \<open>What was saved is restored\<close>

text \<open>The storage with its two keys, prepared by an earlier start.\<close>

definition keyed :: "installation \<Rightarrow> string \<Rightarrow> string \<Rightarrow> disk \<Rightarrow> bool" where
  "keyed c key signing d = (d (backup_key_path c) = Some key \<and> length key = KEY_BYTES
     \<and> d (cursor_key_path c) = Some signing \<and> length signing = KEY_BYTES)"

text \<open>What is relied on of the cipher: a machine decrypts with a key what was encrypted with it.\<close>

definition cipher_law :: "machine \<Rightarrow> machine \<Rightarrow> string \<Rightarrow> bool" where
  "cipher_law m m' key = (length (mc_nonce m) = NONCE_LENGTH
     \<and> (\<forall>p. mc_decrypt m' key (mc_nonce m) (mc_encrypt m key (mc_nonce m) p) = Plain p))"

lemma then_disk_simps [simp]:
  "then_disk (Inl x, d) f = (Inl x, d)" "then_disk (Inr y, d) f = f y d"
  by (simp_all add: then_disk_def)

lemma key_loaded: "d path = Some k \<Longrightarrow> length k = KEY_BYTES \<Longrightarrow> load_or_create_key m path d = (Inr k, d)"
  by (simp add: load_or_create_key_def)

definition archive_text :: "machine \<Rightarrow> string \<Rightarrow> string \<Rightarrow> string \<Rightarrow> string" where
  "archive_text m key signing bytes = ARCHIVE_MAGIC @ mc_nonce m @
     mc_encrypt m key (mc_nonce m) (compact (archive_header m signing) @ [NEWLINE] @ bytes)"

lemma backup_writes:
  assumes "keyed c key signing d" and "mc_prepare m d = Some d" and "mc_snapshot m d = Some bytes"
    and "backup m c output d = (Inr path, d')"
  shows "d' = d(path \<mapsto> archive_text m key signing bytes)"
  using assms
  by (auto simp: backup_def ensure_storage_def keyed_def key_loaded archive_text_def Let_def)

lemma header_checked: "length signing = KEY_BYTES \<Longrightarrow> check_header
    [(''format'', JInt ARCHIVE_FORMAT), (''created_at'', JStr t), (''cursor_key'', JStr (b64_std signing))] = Inr signing"
  by (simp add: check_header_def get_or_def ARCHIVE_FORMAT_def unb64_b64_std)

lemma archive_read:
  assumes "keyed c key signing d0" and "cipher_law m m' key" and "is_ascii (mc_now m)"
    and "\<not> mc_nesting m' (compact (archive_header m signing))"
    and "d path = Some (archive_text m key signing bytes)" and "d (backup_key_path c) = Some key"
  shows "\<exists>header. decrypt_archive m' c path d = (Inr (header, signing, bytes), d)"
proof -
  let ?line = "compact (archive_header m signing)"
  have len: "length key = KEY_BYTES" "length signing = KEY_BYTES" using assms(1) by (simp_all add: keyed_def)
  have "NEWLINE \<notin> set ?line" using header_text(1) [OF assms(3)] by (rule no_newline_compact)
  then have cut: "cut_line (?line @ NEWLINE # bytes) = Some (?line, bytes)" by (rule cut_line_line)
  have "json_loads (mc_nesting m') (?line @ []) = Loaded (archive_header m signing)"
    using header_text [OF assms(3)] assms(4) by (intro json_loads_written) simp_all
  then have "read_header m' ?line = Inr [(''format'', JInt ARCHIVE_FORMAT), (''created_at'', JStr (mc_now m)),
      (''cursor_key'', JStr (b64_std signing))]"
    by (simp add: read_header_def) (simp add: archive_header_def)
  with cut len assms(2,5,6) header_checked [OF len(2), of "mc_now m"] show ?thesis
    by (simp add: decrypt_archive_def archive_text_def key_loaded cipher_law_def)
qed


section \<open>What fails changes nothing\<close>

definition same_files :: "string set \<Rightarrow> disk \<Rightarrow> disk \<Rightarrow> bool" where
  "same_files allowed d d' = (\<forall>p. p \<notin> allowed \<longrightarrow> d' p = d p)"

lemma decrypt_files: "same_files {backup_key_path c} d (snd (decrypt_archive m c archive d))"
proof -
  obtain r d1 where k: "load_or_create_key m (backup_key_path c) d = (r, d1)" by force
  then have "same_files {backup_key_path c} d d1"
    by (auto simp: load_or_create_key_def same_files_def split: option.splits if_splits)
  then show ?thesis
    by (auto simp: decrypt_archive_def k then_disk_def same_files_def Let_def
      split: option.split sum.split decrypted.split)
qed


text \<open>A verification writes its own file only, and the key of the backups when it is missing.\<close>

lemma verify_leaves_storage:
  "same_files {backup_key_path c, path_join (case scratch of None \<Rightarrow> mc_scratch m | Some dir \<Rightarrow> dir) ''synapse.db''}
     d (snd (verify_backup m c archive scratch d))"
proof -
  obtain r d1 where r: "decrypt_archive m c archive d = (r, d1)" by force
  then have "same_files {backup_key_path c} d d1" using decrypt_files [of c d m archive] by simp
  then show ?thesis
    by (auto simp: verify_backup_def r then_disk_def demand_def same_files_def remove_file_def Let_def
      split: sum.split prod.split)
qed

section \<open>Retention\<close>

lemma unlink_all_subset: "set (fst (unlink_all can ps)) \<subseteq> set ps"
  by (induction ps) (auto split: prod.split)

lemma sorted_split:
  assumes "sorted (map f xs)" and "x \<in> set (take k xs)" and "y \<in> set (drop k xs)"
  shows "f x \<le> f y"
proof -
  have "sorted (map f (take k xs) @ map f (drop k xs))"
    using assms(1) by (metis append_take_drop_id map_append)
  with assms(2,3) show ?thesis by (auto simp: sorted_append)
qed

text \<open>An archive is deleted only if \<open>keep\<close> archives at least as recent stay.\<close>

lemma pruned_archives_are_old:
  assumes "distinct (map fst archives)" and "prune_archives can keep archives = Some (gone, ok)"
    and "(p, t) \<in> set archives" and "p \<in> set gone"
  shows "keep \<le> int (length (filter (\<lambda>(q, u). q \<notin> set gone \<and> t \<le> u) archives))"
proof -
  let ?s = "newest_first archives" and ?k = "nat keep"
  let ?stays = "\<lambda>(q, u). q \<notin> set gone \<and> t \<le> u"
  have s: "mset ?s = mset archives" "sorted (map (\<lambda>(p, t). - t) ?s)"
    by (simp_all add: newest_first_def)
  have gone: "set gone \<subseteq> set (map fst (drop ?k ?s))"
    using assms(2) unlink_all_subset [of can "map fst (drop ?k ?s)"]
    by (auto simp: prune_archives_def split: if_splits)
  have dist: "distinct (map fst ?s)"
    using assms(1) s(1) by (metis distinct_map mset_eq_imp_distinct_iff mset_eq_setD)
  then have apart: "fst x \<notin> set (map fst (drop ?k ?s))" if "x \<in> set (take ?k ?s)" for x
  proof -
    have "distinct (map fst (take ?k ?s) @ map fst (drop ?k ?s))"
      using dist by (metis append_take_drop_id map_append)
    with that show ?thesis by auto
  qed
  have "(p, t) \<in> set ?s" using assms(3) s(1) by (metis mset_eq_setD)
  then have old: "(p, t) \<in> set (drop ?k ?s)"
  proof -
    have "(p, t) \<notin> set (take ?k ?s)" using apart [of "(p, t)"] gone assms(4) by auto
    then show ?thesis using \<open>(p, t) \<in> set ?s\<close> by (metis Un_iff append_take_drop_id set_append)
  qed
  have "?stays x" if "x \<in> set (take ?k ?s)" for x
    using sorted_split [OF s(2) that old] apart [OF that] gone by auto
  then have "filter ?stays (take ?k ?s) = take ?k ?s" by simp
  moreover have "?k < length ?s" using old by (cases "?k < length ?s") simp_all
  ultimately have "?k \<le> length (filter ?stays ?s)"
    by (metis append_take_drop_id filter_append le_add1 length_append length_take min.absorb4)
  also have "\<dots> = length (filter ?stays archives)"
    using s(1) by (metis mset_filter size_mset)
  finally show ?thesis by linarith
qed

section \<open>Instances\<close>

definition plain_machine :: machine where
  "plain_machine = \<lparr>mc_prepare = Some, mc_snapshot = (\<lambda>_. Some ''rows''), mc_integrity = (\<lambda>_. Some True),
     mc_tables = (\<lambda>_. Some EXPECTED_TABLES), mc_encrypt = (\<lambda>_ _ p. p), mc_decrypt = (\<lambda>_ _ p. Plain p),
     mc_running = (\<lambda>_. False), mc_nesting = (\<lambda>_. False), mc_real = (\<lambda>_. []), mc_key = (\<lambda>_. []),
     mc_nonce = ''123456789012'', mc_now = ''20260101-000000'', mc_temp = ''/var/tmp.db'', mc_scratch = ''/tmp''\<rparr>"

definition plain_installation :: installation where
  "plain_installation = \<lparr>in_storage = ''/var'', in_backups = ''/bak''\<rparr>"

abbreviation plain_key :: string where "plain_key \<equiv> replicate 32 CHR ''k''"

definition plain_disk :: disk where
  "plain_disk = [backup_key_path plain_installation \<mapsto> plain_key, cursor_key_path plain_installation \<mapsto> plain_key]"



end
