(* ===== verification/Spec2Isabelle.thy ===== *)
theory Spec2Isabelle
  imports AuditProperties ValidationProperties WebCalls BackupProperties
begin

text \<open>
  Synapse, an asynchronous messenger and task board for agents. A server
  (\<^verbatim>\<open>src/synapse/server.py\<close>) listens on a local socket; each line it reads is a JSON request, which
  the service (\<^verbatim>\<open>service.py\<close>) validates, authenticates, runs in a transaction of one SQLite
  database, audits and answers. The client library (\<^verbatim>\<open>client.py\<close>) writes those lines; the gateway
  to the A2A protocol (\<^verbatim>\<open>a2a_bridge.py\<close>) is an HTTP server over the client library.

  \<^bold>\<open>The parts and their theories.\<close> Names are those of the source; a definition that would
  hide a constant of HOL has a suffix.

  \<^item> \<open>Prelude\<close>, \<open>Errors\<close>: text values, tables as lists of rows, and the errors of \<^verbatim>\<open>errors.py\<close>.
    A computation that may raise is a sum: \<open>Inl\<close> the exception, \<open>Inr\<close> the value.
  \<^item> \<open>Hlc\<close> (\<^verbatim>\<open>hlc.py\<close>): the causal clock; \<open>Schema\<close> (\<^verbatim>\<open>db.py\<close>): the tables; \<open>Journal\<close>,
    \<open>Keyset\<close>: the two interfaces of the store, an append-only journal and a paginated query.
  \<^item> The store, one theory per file of \<^verbatim>\<open>store/\<close>: \<open>Accounts\<close> (organizations, accounts, failed
    authentications), \<open>Messages\<close>, \<open>Queries\<close>, \<open>Events\<close> (with the audit journal), \<open>Tasks\<close>, \<open>Cards\<close>.
  \<^item> \<open>Json\<close>, \<open>JsonLoads\<close>, \<open>Cursor\<close> (\<^verbatim>\<open>jsonutil.py\<close>, \<^verbatim>\<open>cursor.py\<close>): the JSON text that is written and
    read, base64url and the sealed cursors.
  \<^item> The service: \<open>World\<close> (the state of the process, its environment and the transaction
    brackets), \<open>Auth\<close>, \<open>Common\<close>, \<open>Paging\<close>, and the handlers of \<^verbatim>\<open>service.py\<close> in \<open>ServiceTasks\<close>,
    \<open>ServiceMessages\<close>, \<open>Directory\<close>, \<open>ServiceOrg\<close>, \<open>TaskReads\<close>, \<open>ServiceGroups\<close>, \<open>ServiceHuman\<close>;
    \<open>Dispatch\<close> holds their tables, the guards by kind of caller and \<open>process\<close>.
  \<^item> The path of a request: \<open>Unicode\<close>, \<open>Validation\<close>, \<open>CommandSpecs\<close> (\<^verbatim>\<open>validation.py\<close>) and \<open>Envelope\<close>,
    from the bytes of a line to the handler that the table names.
  \<^item> Around the service: \<open>Client\<close> (\<^verbatim>\<open>client.py\<close>), \<open>Connection\<close> (\<^verbatim>\<open>server.py\<close>), \<open>Registry\<close>
    (\<^verbatim>\<open>registry.py\<close>) and \<open>Bridge\<close> (\<^verbatim>\<open>a2a_bridge.py\<close>).
  \<^item> \<open>Web\<close> (\<^verbatim>\<open>web.py\<close>): the web interface, its sessions, its cache and its routes, over a service
    that it only reaches through calls.
  \<^item> On the storage: \<open>ServerLock\<close>, the lock of \<^verbatim>\<open>server.py\<close> and \<^verbatim>\<open>backup.py\<close> as the steps of
    interleaved processes; \<open>Backup\<close> (\<^verbatim>\<open>backup.py\<close>, the key files of \<^verbatim>\<open>security.py\<close>, the paths
    of \<^verbatim>\<open>config.py\<close>), on a disk that maps paths to contents.

  \<^bold>\<open>State and steps.\<close> The database is the record \<open>database\<close> of its tables; the process is the
  record \<open>service\<close> (database, clock, authentication cache, web token, counters). A handler takes
  its caller, the causal stamp of its transaction when it writes, and the database, and gives
  an exception or its reply with the new database; \<open>write_txn\<close> and \<open>stamped_txn\<close> discard the
  database of a handler that raised. A request reads the outside world from \<open>env\<close>: one instant,
  its fresh identifiers, and the results of the cryptographic functions.

  \<^bold>\<open>Interfaces.\<close> The tables are seen through \<open>journal\<close>, \<open>keyset\<close> and \<open>paged\<close>. The laws that make a
  predicate survive the program's writes are a locale per part: \<open>message_invariant\<close>, \<open>task_writes\<close>,
  \<open>task_invariant\<close>, \<open>plain_writes\<close> and \<open>stamped_writes\<close> over the database, \<open>service_invariant\<close> and
  \<open>database_invariant\<close> over the process, \<open>web_invariant\<close> over the sessions. Each is interpreted on the
  code's own operations.

  \<^bold>\<open>What is shown.\<close>
  \<^item> \<open>Auth\<close>: who authenticates is an active account with its password, guessing is bounded.
  \<^item> \<open>TaskMachine\<close>, \<open>TaskProperties\<close>: every task command is a step of the declared state machine;
    outcomes, budgets, four eyes, retries, non-disclosure, event chains.
  \<^item> \<open>MessageProperties\<close>: one conversation per pair, immutable messages, retries, complete pages.
  \<^item> \<open>Preservation\<close>, \<open>System\<close>, \<open>RequestProperties\<close>, \<open>OrgProperties\<close>, \<open>AuditProperties\<close>: what any
    sequence of requests and restarts keeps (causal order, permanence of the records), and what
    no request of some kind can do.
  \<^item> \<open>ValidationFacts\<close>, \<open>RequestTypes\<close>, \<open>RequestHandling\<close>, \<open>ValidationProperties\<close>: the validators, the
    agreement of the command table with the handlers, the cursors' round trip.
  \<^item> \<open>Client\<close>, \<open>Connection\<close>, \<open>Registry\<close>, \<open>BridgeProperties\<close>: the client's calls meet the table, a
    connection answers line by line, a guarded fetch only meets public hosts and ends, the
    gateway acts as its agent only.
  \<^item> \<open>WebProperties\<close>, \<open>WebCalls\<close>: the sessions and attempts that the web interface remembers are
    bounded, no data goes out without a live session, every call to the service carries the
    token or comes from the keyboard of the machine.
  \<^item> \<open>ServerLock\<close>: one process holds the lock, and how a stale lock lets two in.
  \<^item> \<open>BackupProperties\<close>: a backup restores what was saved, a restoration that fails leaves the disk
    as it was, the retention removes the oldest archives.

  \<^bold>\<open>Bounds.\<close> The JSON reader has as fuel the length of its text, which each step shortens, so it
  never runs out. A fetch visits one URL at most four times and is stopped at ten URLs, \<open>urllib\<close>'s
  limits, so it follows at most forty redirections: the measure of its recursion. The other loops
  recurse on their lists, on a consumed buffer or on a decreasing distance.

  \<^bold>\<open>Not modelled.\<close> Parameters of the model, because their code is not here: Argon2id, SHA-256, HMAC,
  \<open>uuid4\<close>, AES-GCM, SQLite's own functions, the Unicode database, the network, the sockets, the
  depth at which the interpreter refuses nested JSON. Requests run one after the other, as SQLite's immediate transactions make
  the writes; the interleaving of threads is not modelled. The text of a successful reply is not
  written out: a reply is a value of \<open>reply\<close>. A lone surrogate is only followed in the texts
  that validation or the answer touches. The help texts (\<^verbatim>\<open>helpdoc.py\<close>), the command line
  (\<^verbatim>\<open>cli/\<close>), installation, logging and the platform's paths are text, files and processes around
  the program; they are left out. In the web interface times are whole seconds, and the text and
  the tag of an answer are a parameter.
\<close>

end
